(* ===== verification/Prelude.thy ===== *)
theory Prelude
  imports Main "HOL-Library.Word" "HOL-Library.AList"
begin

text \<open>
  Shared vocabulary of the development.

  A Rust \<open>String\<close> is a \<^typ>\<open>string\<close> whose characters are its UTF-8 bytes, so
  \<open>len()\<close> is \<^const>\<open>length\<close>; a \<open>Vec<u8>\<close> is a list of 8-bit words.  A timestamp
  (\<open>i64\<close> seconds) is an \<^typ>\<open>int\<close>; fixed-width words are used where a value can wrap.
  A fallible function returns \<open>app_error + 'a\<close>.  The Chinese message texts of the backend are
  rendered by short English tags, since a theory is ASCII; status and code are the source's.
\<close>

named_theorems model_defs "definitions of operations, unfolded by simp in component proofs"
named_theorems inv_intros "preservation lemmas of the invariants"

subsection \<open>Types\<close>

type_synonym u8 = "8 word"
type_synonym u32 = "32 word"
type_synonym u64 = "64 word"
type_synonym bytes = "8 word list"

text \<open>
  \<open>AppError\<close> of the backend (\<open>error.rs\<close>).  \<open>err_code\<close> is \<open>None\<close> for the constructor
  \<open>AppError::new\<close>, whose code is computed from the status by the http crate's canonical reason,
  and \<open>Some c\<close> for \<open>AppError::with_code\<close>.
\<close>

record app_error =
  err_status :: nat
  err_code :: "string option"
  err_message :: string
  err_audit_handled :: bool

definition app_error_new :: "nat \<Rightarrow> string \<Rightarrow> app_error" where
  "app_error_new st msg =
     \<lparr>err_status = st, err_code = None, err_message = msg, err_audit_handled = False\<rparr>"

definition app_error_with_code :: "nat \<Rightarrow> string \<Rightarrow> string \<Rightarrow> app_error" where
  "app_error_with_code st c msg =
     \<lparr>err_status = st, err_code = Some c, err_message = msg, err_audit_handled = False\<rparr>"

definition app_error_unauthorized :: app_error where
  "app_error_unauthorized = app_error_new 401 ''admin login required''"

definition app_error_bad_request :: "string \<Rightarrow> app_error" where
  "app_error_bad_request msg = app_error_new 400 msg"

definition audit_handled :: "app_error \<Rightarrow> app_error" where
  "audit_handled e = e\<lparr>err_audit_handled := True\<rparr>"

type_synonym 'a result = "app_error + 'a"

text \<open>The \<open>?\<close> operator: run the continuation on a success, return an error unchanged.\<close>

definition try_bind :: "'e + 'a \<Rightarrow> ('a \<Rightarrow> 'e + 'b) \<Rightarrow> 'e + 'b" where
  "try_bind r k = (case r of Inl e \<Rightarrow> Inl e | Inr x \<Rightarrow> k x)"

lemma try_bind_simps [simp]:
  "try_bind (Inl e) k = Inl e"
  "try_bind (Inr x) k = k x"
  by (simp_all add: try_bind_def)

lemma try_bind_Inr_iff: "try_bind r k = Inr y \<longleftrightarrow> (\<exists>x. r = Inr x \<and> k x = Inr y)"
  by (cases r) auto

lemma try_bind_Inl_iff: "try_bind r k = Inl e \<longleftrightarrow> r = Inl e \<or> (\<exists>x. r = Inr x \<and> k x = Inl e)"
  by (cases r) auto

fun is_ok :: "'e + 'a \<Rightarrow> bool" where
  "is_ok (Inr _) = True"
| "is_ok (Inl _) = False"

fun err_status_of :: "'a result \<Rightarrow> nat option" where
  "err_status_of (Inl e) = Some (err_status e)"
| "err_status_of (Inr _) = None"

lemma app_error_status [simp]:
  "err_status (app_error_new st m) = st"
  "err_status (app_error_bad_request m) = 400"
  "err_status app_error_unauthorized = 401"
  "err_status (app_error_with_code st c m) = st"
  by (simp_all add: app_error_new_def app_error_bad_request_def app_error_unauthorized_def
      app_error_with_code_def)

subsection \<open>Strings as bytes\<close>

definition ascii_digits :: string where "ascii_digits = ''0123456789''"
definition ascii_uppers :: string where "ascii_uppers = ''ABCDEFGHIJKLMNOPQRSTUVWXYZ''"
definition ascii_lowers :: string where "ascii_lowers = ''abcdefghijklmnopqrstuvwxyz''"

definition is_ascii_digit :: "char \<Rightarrow> bool" where
  "is_ascii_digit c \<longleftrightarrow> c \<in> set ascii_digits"

definition is_ascii_alphanumeric :: "char \<Rightarrow> bool" where
  "is_ascii_alphanumeric c \<longleftrightarrow> c \<in> set ascii_digits \<or> c \<in> set ascii_uppers \<or> c \<in> set ascii_lowers"

text \<open>\<open>u8::to_ascii_lowercase\<close>: upper-case letters move up by 32, every other byte stays.\<close>

definition to_lower_char :: "char \<Rightarrow> char" where
  "to_lower_char c = (case map_of (zip ascii_uppers ascii_lowers) c of None \<Rightarrow> c | Some d \<Rightarrow> d)"

definition to_ascii_lowercase :: "string \<Rightarrow> string" where
  "to_ascii_lowercase s = map to_lower_char s"

definition eq_ignore_ascii_case :: "string \<Rightarrow> string \<Rightarrow> bool" where
  "eq_ignore_ascii_case a b \<longleftrightarrow> to_ascii_lowercase a = to_ascii_lowercase b"

lemma length_to_ascii_lowercase [simp]: "length (to_ascii_lowercase s) = length s"
  by (simp add: to_ascii_lowercase_def)

lemma to_lower_char_cases:
  "to_lower_char c = c \<and> c \<notin> set ascii_uppers \<or> c \<in> set ascii_uppers \<and> to_lower_char c \<in> set ascii_lowers"
  by (auto simp: to_lower_char_def ascii_uppers_def ascii_lowers_def)

lemma to_lower_char_idem [simp]: "to_lower_char (to_lower_char c) = to_lower_char c"
  by (auto simp: to_lower_char_def ascii_uppers_def ascii_lowers_def)

lemma to_ascii_lowercase_idem [simp]: "to_ascii_lowercase (to_ascii_lowercase s) = to_ascii_lowercase s"
  by (simp add: to_ascii_lowercase_def)

text \<open>
  \<open>str::trim\<close> removes Unicode white space.  On the UTF-8 bytes, a white-space character is one
  of these byte sequences, of one, two or three bytes.
\<close>

definition ws1 :: "char list" where
  "ws1 = [CHR 0x09, CHR 0x0A, CHR 0x0B, CHR 0x0C, CHR 0x0D, CHR 0x20]"

definition ws_sequences :: "string list" where
  "ws_sequences = map (\<lambda>c. [c]) ws1 @
     [[CHR 0xC2, CHR 0x85], [CHR 0xC2, CHR 0xA0], [CHR 0xE1, CHR 0x9A, CHR 0x80]] @
     map (\<lambda>c. [CHR 0xE2, CHR 0x80, c])
       [CHR 0x80, CHR 0x81, CHR 0x82, CHR 0x83, CHR 0x84, CHR 0x85, CHR 0x86, CHR 0x87,
        CHR 0x88, CHR 0x89, CHR 0x8A, CHR 0xA8, CHR 0xA9, CHR 0xAF] @
     [[CHR 0xE2, CHR 0x81, CHR 0x9F], [CHR 0xE3, CHR 0x80, CHR 0x80]]"

definition ws_prefix :: "string \<Rightarrow> nat" where
  "ws_prefix s = (if take 1 s \<in> set ws_sequences then 1
     else if take 2 s \<in> set ws_sequences then 2
     else if take 3 s \<in> set ws_sequences then 3 else 0)"

definition ws_suffix :: "string \<Rightarrow> nat" where
  "ws_suffix s = (let last_n = (\<lambda>k. drop (length s - k) s)
     in if last_n 1 \<in> set ws_sequences then 1
        else if last_n 2 \<in> set ws_sequences then 2
        else if last_n 3 \<in> set ws_sequences then 3 else 0)"

lemma ws_sequences_not_empty [simp]: "[] \<notin> set ws_sequences"
  by (auto simp: ws_sequences_def)

lemma ws_prefix_pos: "0 < ws_prefix s \<Longrightarrow> s \<noteq> []"
  by (auto simp: ws_prefix_def split: if_splits)

lemma ws_suffix_pos: "0 < ws_suffix s \<Longrightarrow> s \<noteq> []"
  by (auto simp: ws_suffix_def Let_def split: if_splits)

lemma ws_suffix_less: "0 < ws_suffix s \<Longrightarrow> length s - ws_suffix s < length s"
  using ws_suffix_pos [of s] by (simp add: diff_less)

function trim_start :: "string \<Rightarrow> string" where
  "trim_start s = (if ws_prefix s = 0 then s else trim_start (drop (ws_prefix s) s))"
  by pat_completeness auto
termination
  by (relation "measure length") (use ws_prefix_pos in \<open>auto intro!: diff_less\<close>)

function trim_end :: "string \<Rightarrow> string" where
  "trim_end s = (if ws_suffix s = 0 then s else trim_end (take (length s - ws_suffix s) s))"
  by pat_completeness auto
termination
  by (relation "measure length") (auto simp: ws_suffix_less)

declare trim_start.simps [simp del] trim_end.simps [simp del]

definition trim :: "string \<Rightarrow> string" where
  "trim s = trim_end (trim_start s)"

lemma length_trim_start: "length (trim_start s) \<le> length s"
proof (induction s rule: trim_start.induct)
  case (1 s)
  then show ?case by (subst trim_start.simps) (auto intro: order_trans)
qed

lemma length_trim_end: "length (trim_end s) \<le> length s"
proof (induction s rule: trim_end.induct)
  case (1 s)
  then show ?case by (subst trim_end.simps) (auto intro: order_trans)
qed

lemma length_trim: "length (trim s) \<le> length s"
  unfolding trim_def using length_trim_end length_trim_start order_trans by blast

lemma set_trim_start: "set (trim_start s) \<subseteq> set s"
proof (induction s rule: trim_start.induct)
  case (1 s)
  then show ?case by (subst trim_start.simps) (auto dest: in_set_dropD)
qed

lemma set_trim_end: "set (trim_end s) \<subseteq> set s"
proof (induction s rule: trim_end.induct)
  case (1 s)
  then show ?case by (subst trim_end.simps) (auto dest: in_set_takeD)
qed

lemma set_trim: "set (trim s) \<subseteq> set s"
  unfolding trim_def using set_trim_end set_trim_start by blast

lemma trim_idle: "ws_prefix s = 0 \<Longrightarrow> ws_suffix s = 0 \<Longrightarrow> trim s = s"
  by (simp add: trim_def trim_start.simps [of s] trim_end.simps [of s])

text \<open>\<open>str::split(c)\<close>: always at least one part; \<open>split_once(c)\<close>: around the first separator.\<close>

fun split_on :: "'a \<Rightarrow> 'a list \<Rightarrow> 'a list list" where
  "split_on c [] = [[]]"
| "split_on c (x # xs) =
     (if x = c then [] # split_on c xs
      else case split_on c xs of [] \<Rightarrow> [[x]] | p # ps \<Rightarrow> (x # p) # ps)"

fun split_once :: "'a \<Rightarrow> 'a list \<Rightarrow> ('a list \<times> 'a list) option" where
  "split_once c [] = None"
| "split_once c (x # xs) =
     (if x = c then Some ([], xs)
      else map_option (\<lambda>(a, b). (x # a, b)) (split_once c xs))"

lemma split_on_not_Nil [simp]: "split_on c s \<noteq> []"
  by (induction s) (auto split: list.splits)

lemma split_once_Some: "split_once c s = Some (a, b) \<Longrightarrow> s = a @ c # b \<and> c \<notin> set a"
  by (induction s arbitrary: a b) (auto split: if_splits)

subsection \<open>Decimal output\<close>

definition digit_char :: "nat \<Rightarrow> char" where
  "digit_char d = ascii_digits ! d"

fun dec_string :: "nat \<Rightarrow> string" where
  "dec_string n = (if n < 10 then [digit_char n] else dec_string (n div 10) @ [digit_char (n mod 10)])"

declare dec_string.simps [simp del]

lemma digit_char_is_digit: "d < 10 \<Longrightarrow> digit_char d \<in> set ascii_digits"
proof -
  assume "d < 10"
  then have "d < length ascii_digits" by (simp add: ascii_digits_def)
  then show ?thesis by (simp add: digit_char_def)
qed

lemma dec_string_digits: "set (dec_string n) \<subseteq> set ascii_digits"
proof (induction n rule: dec_string.induct)
  case (1 n)
  then show ?case
    by (subst dec_string.simps) (auto simp: digit_char_is_digit)
qed

lemma length_dec_string: "0 < k \<Longrightarrow> n < 10 ^ k \<Longrightarrow> length (dec_string n) \<le> k"
proof (induction k arbitrary: n)
  case 0
  then show ?case by simp
next
  case (Suc k)
  show ?case
  proof (cases "n < 10")
    case True
    then show ?thesis by (subst dec_string.simps) simp
  next
    case False
    then have "0 < k" using Suc.prems by (cases k) auto
    moreover have "n div 10 < 10 ^ k" using Suc.prems by (simp add: less_mult_imp_div_less mult.commute)
    ultimately have "length (dec_string (n div 10)) \<le> k" by (rule Suc.IH)
    with False show ?thesis by (subst dec_string.simps) simp
  qed
qed

text \<open>\<open>format!("{:0w}", n)\<close>\<close>

definition zero_padded :: "nat \<Rightarrow> nat \<Rightarrow> string" where
  "zero_padded w n = (let s = dec_string n in replicate (w - length s) (CHR ''0'') @ s)"

lemma length_zero_padded: "0 < w \<Longrightarrow> n < 10 ^ w \<Longrightarrow> length (zero_padded w n) = w"
  by (simp add: zero_padded_def Let_def length_dec_string)

lemma set_zero_padded: "set (zero_padded w n) \<subseteq> set ascii_digits"
proof -
  have "CHR ''0'' \<in> set ascii_digits" by (simp add: ascii_digits_def)
  then show ?thesis using dec_string_digits [of n] by (auto simp: zero_padded_def Let_def)
qed

subsection \<open>Hash maps and tables\<close>

text \<open>
  A \<open>HashMap\<close> is an association list with distinct keys, in some iteration order: \<^const>\<open>map_of\<close>
  is \<open>get\<close>, \<^const>\<open>AList.update\<close> is \<open>insert\<close>, \<^const>\<open>AList.delete\<close> is \<open>remove\<close>.  The order is
  any order the program may see; statements are about lookups or hold for every order.
\<close>

type_synonym ('k, 'v) table = "('k \<times> 'v) list"

definition keys_distinct :: "('k, 'v) table \<Rightarrow> bool" where
  "keys_distinct m \<longleftrightarrow> distinct (map fst m)"

definition retain :: "('v \<Rightarrow> bool) \<Rightarrow> ('k, 'v) table \<Rightarrow> ('k, 'v) table" where
  "retain p m = filter (\<lambda>(_, v). p v) m"

lemma keys_distinct_Nil [simp]: "keys_distinct []"
  by (simp add: keys_distinct_def)

lemma keys_distinct_update [simp]: "keys_distinct m \<Longrightarrow> keys_distinct (AList.update k v m)"
  by (simp add: keys_distinct_def distinct_update)

lemma keys_distinct_delete [simp]: "keys_distinct m \<Longrightarrow> keys_distinct (AList.delete k m)"
  by (simp add: keys_distinct_def distinct_delete)

lemma keys_distinct_retain [simp]: "keys_distinct m \<Longrightarrow> keys_distinct (retain p m)"
  by (induction m) (auto simp: keys_distinct_def retain_def)

lemma map_of_retain:
  "keys_distinct m \<Longrightarrow> map_of (retain p m) k = (case map_of m k of None \<Rightarrow> None
     | Some v \<Rightarrow> if p v then Some v else None)"
proof (induction m)
  case Nil
  then show ?case by (simp add: retain_def)
next
  case (Cons a m)
  obtain k' v' where a: "a = (k', v')" by (cases a)
  from Cons.prems have d: "keys_distinct m" and n: "k' \<notin> fst ` set m"
    by (auto simp: a keys_distinct_def)
  from n have "map_of m k' = None" by (simp add: map_of_eq_None_iff)
  with Cons.IH [OF d] show ?case
    by (auto simp: a retain_def split: option.splits)
qed

lemma map_of_delete [simp]: "map_of (AList.delete k m) k' = (if k' = k then None else map_of m k')"
  by (simp add: delete_conv')

lemma map_of_update [simp]: "map_of (AList.update k v m) k' = (if k' = k then Some v else map_of m k')"
  by (simp add: update_conv')

lemma length_retain: "length (retain p m) \<le> length m"
  by (simp add: retain_def)

lemma length_update_le: "length (AList.update k v m) \<le> Suc (length m)"
  by (induction m) auto

lemma length_update_present: "k \<in> fst ` set m \<Longrightarrow> length (AList.update k v m) = length m"
  by (induction m) auto

lemma length_delete_present:
  "k \<in> fst ` set m \<Longrightarrow> length (AList.delete k m) < length m"
  by (induction m) (force simp: length_delete_le less_Suc_eq_le)+

lemma set_retain: "(k, v) \<in> set (retain p m) \<longleftrightarrow> (k, v) \<in> set m \<and> p v"
  by (simp add: retain_def)

text \<open>\<open>Iterator::min_by_key\<close>: the first of the minimal elements.\<close>

fun min_by_key :: "('a \<Rightarrow> int) \<Rightarrow> 'a list \<Rightarrow> 'a option" where
  "min_by_key f [] = None"
| "min_by_key f (x # xs) = (case min_by_key f xs of None \<Rightarrow> Some x
     | Some y \<Rightarrow> Some (if f y < f x then y else x))"

lemma min_by_key_None [simp]: "min_by_key f xs = None \<longleftrightarrow> xs = []"
  by (cases xs) (auto split: option.splits)

lemma min_by_key_Some: "min_by_key f xs = Some y \<Longrightarrow> y \<in> set xs \<and> (\<forall>x \<in> set xs. f y \<le> f x)"
  by (induction xs arbitrary: y) (fastforce split: option.splits if_splits)+

text \<open>\<open>Iterator::find_map\<close>.\<close>

fun find_map :: "('a \<Rightarrow> 'b option) \<Rightarrow> 'a list \<Rightarrow> 'b option" where
  "find_map f [] = None"
| "find_map f (x # xs) = (case f x of None \<Rightarrow> find_map f xs | Some y \<Rightarrow> Some y)"

lemma find_map_Some: "find_map f xs = Some y \<Longrightarrow> \<exists>x \<in> set xs. f x = Some y"
  by (induction xs) (auto split: option.splits)

lemma find_map_None: "find_map f xs = None \<longleftrightarrow> (\<forall>x \<in> set xs. f x = None)"
  by (induction xs) (auto split: option.splits)

subsection \<open>Handlers: state passing with errors\<close>

text \<open>
  A handler takes the state and returns its result with the state it leaves; an error returned with
  \<open>?\<close> keeps the effects made before it.
\<close>

type_synonym ('e, 's, 'a) action = "'s \<Rightarrow> ('e + 'a) \<times> 's"
type_synonym ('s, 'a) handler = "(app_error, 's, 'a) action"

definition h_return :: "'a \<Rightarrow> ('e, 's, 'a) action" where
  "h_return x s = (Inr x, s)"

definition h_fail :: "'e \<Rightarrow> ('e, 's, 'a) action" where
  "h_fail e s = (Inl e, s)"

definition h_bind :: "('e, 's, 'a) action \<Rightarrow> ('a \<Rightarrow> ('e, 's, 'b) action) \<Rightarrow> ('e, 's, 'b) action" where
  "h_bind m k s = (case m s of (Inl e, s') \<Rightarrow> (Inl e, s') | (Inr x, s') \<Rightarrow> k x s')"

definition h_modify :: "('s \<Rightarrow> 's) \<Rightarrow> ('e, 's, unit) action" where
  "h_modify f s = (Inr (), f s)"

definition h_get :: "('s \<Rightarrow> 'a) \<Rightarrow> ('e, 's, 'a) action" where
  "h_get f s = (Inr (f s), s)"

definition h_lift :: "'e + 'a \<Rightarrow> ('e, 's, 'a) action" where
  "h_lift r s = (r, s)"

definition h_guard :: "bool \<Rightarrow> 'e \<Rightarrow> ('e, 's, unit) action" where
  "h_guard b e = (if b then h_return () else h_fail e)"

definition h_then :: "('e, 's, 'a) action \<Rightarrow> ('e, 's, 'b) action \<Rightarrow> ('e, 's, 'b) action" where
  "h_then m k = h_bind m (\<lambda>_. k)"

lemmas handler_simps = h_return_def h_fail_def h_bind_def h_modify_def h_get_def h_lift_def h_guard_def
  h_then_def

text \<open>A property of the state that a handler keeps on every path.\<close>

definition keeps :: "('s \<Rightarrow> bool) \<Rightarrow> ('e, 's, 'a) action \<Rightarrow> bool" where
  "keeps P m \<longleftrightarrow> (\<forall>s. P s \<longrightarrow> P (snd (m s)))"

named_theorems keeps_intros "rules for invariants of handlers"

lemma keeps_return [keeps_intros]: "keeps P (h_return x)"
  and keeps_fail [keeps_intros]: "keeps P (h_fail e)"
  and keeps_get [keeps_intros]: "keeps P (h_get f)"
  and keeps_lift [keeps_intros]: "keeps P (h_lift r)"
  and keeps_guard [keeps_intros]: "keeps P (h_guard b e)"
  by (auto simp: keeps_def handler_simps)

lemma keeps_modify: "(\<And>s. P s \<Longrightarrow> P (f s)) \<Longrightarrow> keeps P (h_modify f)"
  by (simp add: keeps_def h_modify_def)

lemma keeps_bind [keeps_intros]: "keeps P m \<Longrightarrow> (\<And>x. keeps P (k x)) \<Longrightarrow> keeps P (h_bind m k)"
  unfolding keeps_def h_bind_def by (auto split: prod.splits sum.splits)

lemma keeps_then [keeps_intros]: "keeps P m \<Longrightarrow> keeps P k \<Longrightarrow> keeps P (h_then m k)"
  unfolding h_then_def by (rule keeps_bind)

lemma keeps_if [keeps_intros]: "keeps P m \<Longrightarrow> keeps P k \<Longrightarrow> keeps P (if b then m else k)"
  by simp

lemma keeps_option [keeps_intros]:
  "keeps P m \<Longrightarrow> (\<And>x. keeps P (k x)) \<Longrightarrow> keeps P (case v of None \<Rightarrow> m | Some x \<Rightarrow> k x)"
  by (cases v) auto

lemma keeps_list [keeps_intros]:
  "keeps P m \<Longrightarrow> (\<And>x xs. keeps P (k x xs)) \<Longrightarrow> keeps P (case v of [] \<Rightarrow> m | x # xs \<Rightarrow> k x xs)"
  by (cases v) auto

lemma keeps_sum [keeps_intros]:
  "(\<And>e. keeps P (m e)) \<Longrightarrow> (\<And>x. keeps P (k x)) \<Longrightarrow> keeps P (case v of Inl e \<Rightarrow> m e | Inr x \<Rightarrow> k x)"
  by (cases v) auto

lemma keeps_prod [keeps_intros]: "(\<And>a b. keeps P (k a b)) \<Longrightarrow> keeps P (case v of (a, b) \<Rightarrow> k a b)"
  by (cases v) auto

lemma keeps_Let [keeps_intros]: "(\<And>x. keeps P (k x)) \<Longrightarrow> keeps P (Let v k)"
  by simp

lemma keeps_read [keeps_intros]: "keeps P (\<lambda>s. (f s, s))"
  by (simp add: keeps_def)

lemma keeps_snd: "keeps P m \<Longrightarrow> P s \<Longrightarrow> P (snd (m s))"
  by (simp add: keeps_def)

text \<open>Inversion of a handler that returned a value.\<close>

lemma h_bind_InrE:
  assumes "h_bind m k s = (Inr y, s')"
  obtains x s1 where "m s = (Inr x, s1)" "k x s1 = (Inr y, s')"
  using assms by (auto simp: h_bind_def split: prod.splits sum.splits)

lemma h_then_InrE:
  assumes "h_then m k s = (Inr y, s')"
  obtains x s1 where "m s = (Inr x, s1)" "k s1 = (Inr y, s')"
  using assms unfolding h_then_def by (rule h_bind_InrE)

lemma h_simple_Inr [simp]:
  "h_lift r s = (Inr x, s') \<longleftrightarrow> r = Inr x \<and> s' = s"
  "h_get f s = (Inr x, s') \<longleftrightarrow> x = f s \<and> s' = s"
  "h_return x s = (Inr y, s') \<longleftrightarrow> y = x \<and> s' = s"
  "h_modify g s = (Inr u, s') \<longleftrightarrow> s' = g s"
  "h_guard b e s = (Inr u, s') \<longleftrightarrow> b \<and> s' = s"
  "h_fail e s = (Inr x, s') \<longleftrightarrow> False"
  by (auto simp: handler_simps)

lemma keepsD: "keeps P m \<Longrightarrow> P s \<Longrightarrow> m s = (r, s') \<Longrightarrow> P s'"
  by (auto simp: keeps_def dest!: spec [of _ s])

subsection \<open>Machines: a step function and an invariant\<close>

text \<open>
  The contract between a component's operations and the invariant its clients rely on: every
  operation keeps it, so every run does.  Each component with a state interprets it.
\<close>

locale invariant_machine =
  fixes step :: "'e \<Rightarrow> 's \<Rightarrow> 's"
    and inv :: "'s \<Rightarrow> bool"
  assumes step_inv: "inv s \<Longrightarrow> inv (step e s)"
begin

lemma run_inv: "inv s \<Longrightarrow> inv (fold step es s)"
  by (induction es arbitrary: s) (auto intro: step_inv)

lemma run_prefix_inv: "inv s \<Longrightarrow> inv (fold step (take n es) s)"
  by (rule run_inv)

end

text \<open>
  A machine whose steps may be refused (\<open>None\<close>): the accepted steps strictly decrease a measure, so
  a run has at most \<open>rank s\<close> accepted steps.
\<close>

locale ranked_transitions =
  fixes allowed :: "'q \<Rightarrow> 'q \<Rightarrow> bool"
    and rank :: "'q \<Rightarrow> nat"
  assumes allowed_rank: "allowed p q \<Longrightarrow> p \<noteq> q \<Longrightarrow> rank p < rank q"
begin

fun path :: "'q \<Rightarrow> 'q list \<Rightarrow> bool" where
  "path p [] = True"
| "path p (q # qs) = (allowed p q \<and> p \<noteq> q \<and> path q qs)"

lemma path_rank: "path p qs \<Longrightarrow> q \<in> set qs \<Longrightarrow> rank p < rank q"
proof (induction qs arbitrary: p)
  case Nil
  then show ?case by simp
next
  case (Cons x xs)
  then show ?case using allowed_rank order_less_trans by fastforce
qed

lemma path_no_return: "path p qs \<Longrightarrow> p \<notin> set qs"
  using path_rank by blast

lemma path_length: "path p qs \<Longrightarrow> (\<And>q. rank q \<le> n) \<Longrightarrow> length qs \<le> n - rank p"
proof (induction qs arbitrary: p)
  case Nil
  then show ?case by simp
next
  case (Cons x xs)
  then have "rank p < rank x" "rank x \<le> n" "length xs \<le> n - rank x"
    using allowed_rank by auto
  then show ?case by simp
qed

end

end
