(* ===== verification/Activity.thy ===== *)
theory Activity
  imports Prelude
begin

text \<open>
  The activity tracker of the agent (\<open>instanceEnd/src/activity.rs\<close>): a counter of running
  sessions, a draining flag that refuses new ones, and waiters for the idle moment.  An agent
  update drains the tracker and replaces the executable only when nothing runs, so the question is
  what concurrent callers can do between the atomic accesses.

  Every rule of \<open>act_step\<close> is one atomic access of the source: \<open>try_enter\<close> is three of them
  (load, add, second load), \<open>leave\<close> is the subtraction with its notification, and a waiter is the
  loop of \<open>wait_until_idle\<close>.  Threads and waiters are numbered by \<^typ>\<open>nat\<close>.
\<close>

datatype enter_pc =
    Outside              \<comment> \<open>not in \<open>try_enter\<close>, no guard\<close>
  | Passed               \<comment> \<open>first load of \<open>draining\<close> read false\<close>
  | Counted              \<comment> \<open>after \<open>fetch_add\<close>, before the second load\<close>
  | Holding              \<comment> \<open>\<open>try_enter\<close> returned a guard\<close>

datatype wait_pc =
    NotWaiting
  | Registered bool      \<comment> \<open>\<open>notified()\<close> created; whether it has been notified\<close>
  | Blocked              \<comment> \<open>at \<open>notified.await\<close>\<close>
  | Returned

record activity =
  active :: nat
  draining :: bool
  draining_updates :: bool
  pcs :: "nat \<Rightarrow> enter_pc"
  waits :: "nat \<Rightarrow> wait_pc"

definition activity_default :: activity where
  "activity_default = \<lparr>active = 0, draining = False, draining_updates = False,
     pcs = (\<lambda>_. Outside), waits = (\<lambda>_. NotWaiting)\<rparr>"

text \<open>\<open>notify_waiters\<close> completes every \<open>Notified\<close> created before it.\<close>

fun notify :: "wait_pc \<Rightarrow> wait_pc" where
  "notify (Registered _) = Registered True"
| "notify Blocked = Registered False"
| "notify w = w"

text \<open>A woken waiter goes round the loop, which creates its next \<open>Notified\<close>: \<open>Registered False\<close>.\<close>

definition leave :: "activity \<Rightarrow> activity" where
  "leave s = (let s' = s\<lparr>active := active s - 1\<rparr>
     in if active s = 1 then s'\<lparr>waits := notify \<circ> waits s\<rparr> else s')"

text \<open>
  The closure of \<open>send_if_modified\<close> runs under the channel's lock.  The second component says
  whether subscribers are woken.
\<close>

definition set_draining :: "bool \<Rightarrow> activity \<Rightarrow> activity \<times> bool" where
  "set_draining d s = (let s' = s\<lparr>draining := d\<rparr>
     in if draining_updates s = d then (s', False) else (s'\<lparr>draining_updates := d\<rparr>, True))"

definition start_draining :: "activity \<Rightarrow> activity" where
  "start_draining s = fst (set_draining True s)"

definition stop_draining :: "activity \<Rightarrow> activity" where
  "stop_draining s = fst (set_draining False s)"

definition set_pc :: "nat \<Rightarrow> enter_pc \<Rightarrow> activity \<Rightarrow> activity" where
  "set_pc t p s = s\<lparr>pcs := (pcs s)(t := p)\<rparr>"

definition set_wait :: "nat \<Rightarrow> wait_pc \<Rightarrow> activity \<Rightarrow> activity" where
  "set_wait w p s = s\<lparr>waits := (waits s)(w := p)\<rparr>"

inductive act_step :: "activity \<Rightarrow> activity \<Rightarrow> bool" where
  enter_pass: "pcs s t = Outside \<Longrightarrow> \<not> draining s \<Longrightarrow> act_step s (set_pc t Passed s)"
| enter_refused: "pcs s t = Outside \<Longrightarrow> draining s \<Longrightarrow> act_step s s"
| enter_add: "pcs s t = Passed \<Longrightarrow> act_step s (set_pc t Counted (s\<lparr>active := active s + 1\<rparr>))"
| enter_ok: "pcs s t = Counted \<Longrightarrow> \<not> draining s \<Longrightarrow> act_step s (set_pc t Holding s)"
| enter_back: "pcs s t = Counted \<Longrightarrow> draining s \<Longrightarrow> act_step s (set_pc t Outside (leave s))"
| guard_drop: "pcs s t = Holding \<Longrightarrow> act_step s (set_pc t Outside (leave s))"
| drain_on: "act_step s (start_draining s)"
| drain_off: "act_step s (stop_draining s)"
| wait_begin: "waits s w = NotWaiting \<Longrightarrow> act_step s (set_wait w (Registered False) s)"
| wait_done: "waits s w = Registered b \<Longrightarrow> active s = 0 \<Longrightarrow> act_step s (set_wait w Returned s)"
| wait_again: "waits s w = Registered True \<Longrightarrow> active s \<noteq> 0 \<Longrightarrow>
    act_step s (set_wait w (Registered False) s)"
| wait_block: "waits s w = Registered False \<Longrightarrow> active s \<noteq> 0 \<Longrightarrow> act_step s (set_wait w Blocked s)"

inductive_cases act_stepE: "act_step s s'"

inductive act_reachable :: "activity \<Rightarrow> bool" where
  act_start: "act_reachable activity_default"
| act_more: "act_reachable s \<Longrightarrow> act_step s s' \<Longrightarrow> act_reachable s'"

text \<open>The threads the counter stands for: between their \<open>fetch_add\<close> and their \<open>fetch_sub\<close>.\<close>

definition counted :: "activity \<Rightarrow> nat set" where
  "counted s = {t. pcs s t = Counted \<or> pcs s t = Holding}"

definition act_inv :: "activity \<Rightarrow> bool" where
  "act_inv s \<longleftrightarrow> finite (counted s) \<and> active s = card (counted s) \<and>
     (\<forall>w. waits s w = Blocked \<longrightarrow> active s \<noteq> 0) \<and> draining_updates s = draining s"

lemma act_frame [simp]:
  "active (set_pc t p s) = active s" "draining (set_pc t p s) = draining s"
  "draining_updates (set_pc t p s) = draining_updates s" "waits (set_pc t p s) = waits s"
  "pcs (set_pc t p s) = (pcs s)(t := p)"
  "active (set_wait w q s) = active s" "draining (set_wait w q s) = draining s"
  "draining_updates (set_wait w q s) = draining_updates s" "pcs (set_wait w q s) = pcs s"
  "waits (set_wait w q s) = (waits s)(w := q)"
  by (simp_all add: set_pc_def set_wait_def)

lemma leave_frame [simp]:
  "active (leave s) = active s - 1" "draining (leave s) = draining s"
  "draining_updates (leave s) = draining_updates s" "pcs (leave s) = pcs s"
  by (simp_all add: leave_def Let_def)

lemma leave_blocked: "waits (leave s) w = Blocked \<Longrightarrow> waits s w = Blocked \<and> active s \<noteq> 1"
  by (cases "waits s w") (auto simp: leave_def Let_def split: if_splits)

lemma draining_frame [simp]:
  "active (start_draining s) = active s" "active (stop_draining s) = active s"
  "pcs (start_draining s) = pcs s" "pcs (stop_draining s) = pcs s"
  "waits (start_draining s) = waits s" "waits (stop_draining s) = waits s"
  "draining (start_draining s)" "\<not> draining (stop_draining s)"
  "draining_updates (start_draining s)" "\<not> draining_updates (stop_draining s)"
  by (auto simp: start_draining_def stop_draining_def set_draining_def Let_def)

lemma counted_set_pc [simp]:
  "counted (set_pc t p s) = (if p = Counted \<or> p = Holding then insert t (counted s) else counted s - {t})"
  by (auto simp: counted_def)

lemma counted_frame [simp]:
  "counted (set_wait w q s) = counted s" "counted (leave s) = counted s"
  "counted (start_draining s) = counted s" "counted (stop_draining s) = counted s"
  "counted (s\<lparr>active := n\<rparr>) = counted s"
  by (simp_all add: counted_def)

lemma leave_inv:
  assumes "act_inv s" "t \<in> counted s"
  shows "act_inv (set_pc t Outside (leave s))"
proof -
  from assms have fin: "finite (counted s)" and act: "active s = card (counted s)"
    by (auto simp: act_inv_def)
  with assms(2) have "active s - 1 = card (counted s - {t})" by simp
  moreover have "active s \<noteq> 0" using fin act assms(2) by auto
  ultimately show ?thesis
    using assms fin by (auto simp: act_inv_def dest!: leave_blocked)
qed

lemma act_step_inv: "act_step s s' \<Longrightarrow> act_inv s \<Longrightarrow> act_inv s'"
proof (induction rule: act_step.induct)
  case (enter_add s t)
  then have "t \<notin> counted s" by (simp add: counted_def)
  with enter_add show ?case by (auto simp: act_inv_def)
next
  case (enter_pass s t)
  then have "t \<notin> counted s" by (simp add: counted_def)
  with enter_pass show ?case by (auto simp: act_inv_def)
next
  case (enter_ok s t)
  then have "t \<in> counted s" by (simp add: counted_def)
  with enter_ok show ?case by (auto simp: act_inv_def insert_absorb)
next
  case (enter_back s t)
  then show ?case by (intro leave_inv) (auto simp: counted_def)
next
  case (guard_drop s t)
  then show ?case by (intro leave_inv) (auto simp: counted_def)
qed (auto simp: act_inv_def)

lemma act_inv_default: "act_inv activity_default"
  by (simp add: act_inv_def activity_default_def counted_def)

lemma act_reachable_inv: "act_reachable s \<Longrightarrow> act_inv s"
  by (induction rule: act_reachable.induct) (auto intro: act_inv_default act_step_inv)

text \<open>Steps of an epoch in which nobody calls \<open>stop_draining\<close>.\<close>

inductive drained_run :: "activity \<Rightarrow> activity \<Rightarrow> bool" where
  drained_refl: "drained_run s s"
| drained_step: "drained_run s s' \<Longrightarrow> act_step s' s'' \<Longrightarrow> draining s'' \<Longrightarrow> drained_run s s''"

lemma no_new_guard:
  assumes "act_step s s'" "draining s" "draining s'" "\<And>t. pcs s t \<noteq> Holding"
  shows "pcs s' t \<noteq> Holding"
  using assms by (cases rule: act_step.cases) (auto split: if_splits)

lemma drained_run_no_guard:
  "drained_run s s' \<Longrightarrow> draining s \<Longrightarrow> (\<And>t. pcs s t \<noteq> Holding) \<Longrightarrow> draining s' \<and> (\<forall>t. pcs s' t \<noteq> Holding)"
  by (induction rule: drained_run.induct) (auto dest: no_new_guard)

lemma idle_no_guard: "act_inv s \<Longrightarrow> active s = 0 \<Longrightarrow> pcs s t \<noteq> Holding"
  by (auto simp: act_inv_def counted_def)

text \<open>
  Once the tracker is draining and a waiter has seen the count at zero, no caller of
  \<open>try_enter\<close> can obtain a guard until \<open>stop_draining\<close>, whatever the interleaving: the update
  that follows runs with no session active.
\<close>

theorem drained_idle_stays_idle:
  assumes "act_reachable s" "draining s" "active s = 0" "drained_run s s'"
  shows "pcs s' t \<noteq> Holding"
  using drained_run_no_guard [OF assms(4,2)] idle_no_guard [OF act_reachable_inv [OF assms(1)] assms(3)]
  by blast

theorem drained_idle_stays_idle_witness:
  "pcs (start_draining activity_default) 7 \<noteq> Holding"
proof (rule drained_idle_stays_idle [of "start_draining activity_default"])
  show "act_reachable (start_draining activity_default)"
    by (rule act_more [OF act_start drain_on])
  show "draining (start_draining activity_default)" by simp
  show "active (start_draining activity_default) = 0" by (simp add: activity_default_def)
  show "drained_run (start_draining activity_default) (start_draining activity_default)"
    by (rule drained_refl)
qed



end
