(* ===== verification/RequestSecurity.thy ===== *)
theory RequestSecurity
  imports Prelude
begin

text \<open>
  Which client a request comes from and over which protocol (\<open>backend/src/request_security.rs\<close>
  and the address functions at the end of \<open>admin_auth.rs\<close>).  The attempt limiters are keyed by this
  address, so what a client writes into forwarding headers must not choose the key.

  An address type \<open>'ip\<close> with its parser and printer, membership in the configured networks and the
  URI parser belong to the standard library and to crates: they are the fields of \<open>net_config\<close> and
  the parameter \<open>parse_uri\<close>.  A header value that is not visible ASCII (\<open>to_str\<close> fails) is
  \<open>None\<close>.
\<close>

record 'ip net_config =
  secure_cookies :: bool
  trust_proxy_headers :: bool
  in_trusted_cidr :: "'ip \<Rightarrow> bool"
  parse_ip :: "string \<Rightarrow> 'ip option"
  show_ip :: "'ip \<Rightarrow> string"

record req_headers =
  h_cookie :: "string option"
  h_forwarded_for :: "string option list"
  h_real_ip :: "string option list"
  h_forwarded_proto :: "string option list"
  h_origin :: "string option"
  h_host :: "string option"

subsection \<open>Protocol and origin\<close>

datatype request_scheme = Http | Https

fun scheme_as_str :: "request_scheme \<Rightarrow> string" where
  "scheme_as_str Http = ''http''"
| "scheme_as_str Https = ''https''"

fun scheme_is_secure :: "request_scheme \<Rightarrow> bool" where
  "scheme_is_secure Https = True"
| "scheme_is_secure Http = False"

definition resolve_request_scheme :: "'ip net_config \<Rightarrow> req_headers \<Rightarrow> 'ip \<Rightarrow> request_scheme result" where
  "resolve_request_scheme cfg h peer_ip =
     (let fallback = (if secure_cookies cfg then Https else Http);
          bad = Inl (app_error_bad_request ''invalid X-Forwarded-Proto'')
      in if \<not> trust_proxy_headers cfg \<or> \<not> in_trusted_cidr cfg peer_ip then Inr fallback
         else case h_forwarded_proto h of
           [] \<Rightarrow> Inr fallback
         | [v] \<Rightarrow> (case v of None \<Rightarrow> bad
              | Some s \<Rightarrow> if eq_ignore_ascii_case (trim s) ''http'' then Inr Http
                   else if eq_ignore_ascii_case (trim s) ''https'' then Inr Https else bad)
         | _ \<Rightarrow> bad)"

definition ensure_same_origin ::
  "(string \<Rightarrow> (string option \<times> string option) option) \<Rightarrow> req_headers \<Rightarrow> request_scheme \<Rightarrow> unit result" where
  "ensure_same_origin parse_uri h scheme =
     (case h_origin h of None \<Rightarrow> Inl (app_error_new 403 ''missing Origin'')
      | Some origin \<Rightarrow> case h_host h of None \<Rightarrow> Inl (app_error_new 403 ''missing Host'')
      | Some host \<Rightarrow> case parse_uri origin of None \<Rightarrow> Inl (app_error_new 403 ''invalid Origin'')
      | Some (uri_scheme, authority) \<Rightarrow>
          if uri_scheme \<noteq> Some (scheme_as_str scheme) \<or>
             \<not> (case authority of None \<Rightarrow> False | Some a \<Rightarrow> eq_ignore_ascii_case a host)
          then Inl (app_error_new 403 ''cross-site request refused'')
          else Inr ())"

subsection \<open>Client address\<close>

definition is_trusted_proxy :: "'ip net_config \<Rightarrow> 'ip \<Rightarrow> bool" where
  "is_trusted_proxy cfg ip = in_trusted_cidr cfg ip"

definition single_ip_header :: "'ip net_config \<Rightarrow> string option list \<Rightarrow> 'ip option" where
  "single_ip_header cfg values = (case values of
       [Some v] \<Rightarrow> parse_ip cfg (trim v)
     | _ \<Rightarrow> None)"

datatype 'ip forwarded_for_result = Missing | Resolved 'ip | Invalid

text \<open>The inner loop: \<open>Inl\<close> is a \<open>return\<close>, \<open>Inr\<close> the state with which the loop ends.\<close>

fun forwarded_parts ::
  "'ip net_config \<Rightarrow> string list \<Rightarrow> 'ip \<Rightarrow> bool \<Rightarrow> 'ip forwarded_for_result + 'ip \<times> bool" where
  "forwarded_parts cfg [] client_ip found = Inr (client_ip, found)"
| "forwarded_parts cfg (part # parts) client_ip found =
     (if \<not> is_trusted_proxy cfg client_ip then Inl (Resolved client_ip)
      else case parse_ip cfg (trim part) of
        None \<Rightarrow> Inl Invalid
      | Some ip \<Rightarrow> forwarded_parts cfg parts ip True)"

fun forwarded_values ::
  "'ip net_config \<Rightarrow> string option list \<Rightarrow> 'ip \<Rightarrow> bool \<Rightarrow> 'ip forwarded_for_result" where
  "forwarded_values cfg [] client_ip found = (if found then Resolved client_ip else Missing)"
| "forwarded_values cfg (value # values) client_ip found =
     (case value of
        None \<Rightarrow> Invalid
      | Some v \<Rightarrow> case forwarded_parts cfg (rev (split_on (CHR '','') v)) client_ip found of
          Inl r \<Rightarrow> r
        | Inr (ip, f) \<Rightarrow> forwarded_values cfg values ip f)"

definition forwarded_for_client_ip :: "'ip net_config \<Rightarrow> req_headers \<Rightarrow> 'ip \<Rightarrow> 'ip forwarded_for_result" where
  "forwarded_for_client_ip cfg h peer_ip = forwarded_values cfg (rev (h_forwarded_for h)) peer_ip False"

definition resolved_client_ip :: "'ip net_config \<Rightarrow> req_headers \<Rightarrow> 'ip \<Rightarrow> 'ip" where
  "resolved_client_ip cfg h peer_ip =
     (if \<not> trust_proxy_headers cfg \<or> \<not> is_trusted_proxy cfg peer_ip then peer_ip
      else case forwarded_for_client_ip cfg h peer_ip of
        Resolved client_ip \<Rightarrow> client_ip
      | Invalid \<Rightarrow> peer_ip
      | Missing \<Rightarrow> (case single_ip_header cfg (h_real_ip h) of None \<Rightarrow> peer_ip | Some ip \<Rightarrow> ip))"

definition bootstrap_attempt_key :: "'ip net_config \<Rightarrow> req_headers \<Rightarrow> 'ip \<Rightarrow> string \<Rightarrow> string" where
  "bootstrap_attempt_key cfg h peer_ip phase =
     ''bootstrap:'' @ phase @ '':'' @ show_ip cfg (resolved_client_ip cfg h peer_ip)"

definition login_attempt_key :: "'ip net_config \<Rightarrow> req_headers \<Rightarrow> 'ip \<Rightarrow> string" where
  "login_attempt_key cfg h peer_ip = ''login:'' @ show_ip cfg (resolved_client_ip cfg h peer_ip)"

lemma split_on_snoc:
  "c \<notin> set b \<Longrightarrow> split_on c (a @ c # b) = split_on c a @ [b]"
proof (induction a)
  case Nil
  have "split_on c b = [b]" if "c \<notin> set b" for b :: "'a list"
    using that by (induction b) auto
  with Nil show ?case by simp
next
  case (Cons x xs)
  then show ?case by (cases "split_on c xs") (auto split: list.splits)
qed

lemma forwarded_untrusted_stops:
  "\<not> is_trusted_proxy cfg ip \<Longrightarrow> parts \<noteq> [] \<Longrightarrow> forwarded_parts cfg parts ip f = Inl (Resolved ip)"
  by (cases parts) auto

text \<open>
  no spoofing through \<open>X-Forwarded-For\<close>: when a trusted proxy appended the address \<open>hop\<close> of
  its client to the header, the resolved address is \<open>hop\<close>, whatever the client put to the left of
  it or into other copies of the header.
\<close>

theorem forwarded_for_not_spoofable:
  assumes "trust_proxy_headers cfg" "in_trusted_cidr cfg peer" "\<not> in_trusted_cidr cfg ip"
    and "CHR '','' \<notin> set hop" "parse_ip cfg (trim hop) = Some ip"
    and "h_forwarded_for h = earlier @ [Some (spoofed @ '','' @ hop)]"
  shows "resolved_client_ip cfg h peer = ip"
proof -
  have "rev (split_on (CHR '','') (spoofed @ '','' @ hop)) = hop # rev (split_on (CHR '','') spoofed)"
    using split_on_snoc [OF assms(4), of spoofed] by simp
  moreover have "forwarded_parts cfg (rev (split_on (CHR '','') spoofed)) ip True = Inl (Resolved ip)"
    using assms(3) by (intro forwarded_untrusted_stops) (auto simp: is_trusted_proxy_def)
  ultimately show ?thesis
    using assms by (simp add: resolved_client_ip_def forwarded_for_client_ip_def is_trusted_proxy_def)
qed

definition demo_config :: "nat net_config" where
  "demo_config = \<lparr>secure_cookies = False, trust_proxy_headers = True, in_trusted_cidr = (\<lambda>ip. ip = 1),
     parse_ip = (\<lambda>s. if s = ''peer'' then Some 1 else if s = ''client'' then Some 7 else if s = ''fake'' then Some 9 else None),
     show_ip = dec_string\<rparr>"

definition demo_headers :: req_headers where
  "demo_headers = \<lparr>h_cookie = None, h_forwarded_for = [None, Some ''fake, fake,client''], h_real_ip = [Some ''fake''],
     h_forwarded_proto = [Some ''https''], h_origin = None, h_host = None\<rparr>"

theorem forwarded_for_not_spoofable_witness: "resolved_client_ip demo_config demo_headers 1 = 7"
proof (rule forwarded_for_not_spoofable [of demo_config 1 7 "''client''" demo_headers "[None]" "''fake, fake''"])
  have "trim ''client'' = ''client''"
    by (rule trim_idle) (simp_all add: ws_prefix_def ws_suffix_def ws_sequences_def ws1_def)
  then show "parse_ip demo_config (trim ''client'') = Some 7" by (simp add: demo_config_def)
qed (simp_all add: demo_config_def demo_headers_def)

text \<open>
  Headers of a peer that is not a trusted proxy are ignored altogether: its address is the
  peer's and the protocol is the configured default, so two requests that differ in headers only
  share their attempt keys.
\<close>

theorem untrusted_peer_headers_ignored:
  assumes "\<not> trust_proxy_headers cfg \<or> \<not> in_trusted_cidr cfg peer"
  shows "resolved_client_ip cfg h peer = peer \<and> login_attempt_key cfg h peer = login_attempt_key cfg h' peer \<and>
     resolve_request_scheme cfg h peer = Inr (if secure_cookies cfg then Https else Http)"
  using assms
  by (auto simp: resolved_client_ip_def is_trusted_proxy_def login_attempt_key_def resolve_request_scheme_def)

theorem untrusted_peer_headers_ignored_witness:
  "resolved_client_ip demo_config demo_headers 2 = 2"
  using untrusted_peer_headers_ignored [of demo_config 2 demo_headers demo_headers] by (simp add: demo_config_def)

lemma same_origin_Inr:
  "ensure_same_origin parse_uri h scheme = Inr u \<longleftrightarrow>
     (\<exists>origin host a. h_origin h = Some origin \<and> h_host h = Some host \<and>
        parse_uri origin = Some (Some (scheme_as_str scheme), Some a) \<and> eq_ignore_ascii_case a host)"
  by (auto simp: ensure_same_origin_def split: option.splits prod.splits)

end
