(* ===== verification/Totp.thy ===== *)
theory Totp
  imports Prelude
begin

text \<open>
  The time-based one-time passwords of the administrator login (\<open>backend/src/auth.rs\<close>): dynamic
  truncation, the comparison window of one step either side, user-name validation and the reading of
  session tokens from the cookie header.  HMAC-SHA1 is a crate: the parameter \<open>hmac\<close>, of which the
  code relies on a digest of 20 bytes.
\<close>

unbundle bit_operations_syntax

subsection \<open>One-time passwords\<close>

definition to_be_bytes :: "u64 \<Rightarrow> bytes" where
  "to_be_bytes w = map (\<lambda>i. ucast (drop_bit (8 * i) w)) [7, 6, 5, 4, 3, 2, 1, 0]"

definition totp_binary :: "bytes \<Rightarrow> u32" where
  "totp_binary digest = (let offset = unat (digest ! 19 AND 15)
     in push_bit 24 (ucast (digest ! offset) AND 127)
        OR push_bit 16 (ucast (digest ! (offset + 1)))
        OR push_bit 8 (ucast (digest ! (offset + 2)))
        OR ucast (digest ! (offset + 3)))"

definition totp_code :: "(bytes \<Rightarrow> bytes \<Rightarrow> bytes) \<Rightarrow> bytes \<Rightarrow> u64 \<Rightarrow> string" where
  "totp_code hmac secret counter =
     zero_padded 6 (unat (totp_binary (hmac secret (to_be_bytes counter))) mod 1000000)"

definition i64_max :: int where "i64_max = 2 ^ 63 - 1"
definition i64_min :: int where "i64_min = - (2 ^ 63)"

definition saturating_add_i64 :: "int \<Rightarrow> int \<Rightarrow> int" where
  "saturating_add_i64 a b = max i64_min (min i64_max (a + b))"

definition verify_totp_counter :: "(bytes \<Rightarrow> bytes \<Rightarrow> bytes) \<Rightarrow> bytes \<Rightarrow> string \<Rightarrow> int \<Rightarrow> int option" where
  "verify_totp_counter hmac secret code0 timestamp =
     (let code = trim code0 in
      if length code \<noteq> 6 \<or> \<not> list_all is_ascii_digit code then None
      else let counter = max timestamp 0 div 30
           in find_map (\<lambda>offset.
                let candidate_counter = max (saturating_add_i64 counter offset) 0
                in if totp_code hmac secret (word_of_int candidate_counter) = code
                   then Some candidate_counter else None) [0, -1, 1])"

lemma nibble_bound: "unat (b AND (15 :: u8)) \<le> 15"
proof -
  have "b AND 15 \<le> (15 :: u8)" by (rule word_and_le1)
  then show ?thesis by (simp add: word_le_nat_alt)
qed

lemma totp_offset_in_digest: "length digest = 20 \<Longrightarrow> unat (digest ! 19 AND 15) + 3 < length digest"
  for digest :: bytes
  using nibble_bound [of "digest ! 19"] by simp

lemma length_totp_code: "length (totp_code hmac secret counter) = 6"
  unfolding totp_code_def by (rule length_zero_padded) auto

lemma totp_code_digits: "list_all is_ascii_digit (totp_code hmac secret counter)"
  using set_zero_padded by (auto simp: totp_code_def list_all_iff is_ascii_digit_def)

text \<open>No digit begins or ends a white-space sequence, so a code is not changed by trimming.\<close>

lemma ws_sequence_no_digit: "w \<in> set ws_sequences \<Longrightarrow> c \<in> set w \<Longrightarrow> \<not> is_ascii_digit c"
  by (auto simp: is_ascii_digit_def ascii_digits_def ws_sequences_def ws1_def)

lemma digits_take_not_ws: "list_all is_ascii_digit s \<Longrightarrow> t \<in> set ws_sequences \<Longrightarrow> set t \<subseteq> set s \<Longrightarrow> False"
  using ws_sequence_no_digit [of t "hd t"] ws_sequences_not_empty
  by (cases t) (auto simp: list_all_iff)

lemma trim_digits: "list_all is_ascii_digit s \<Longrightarrow> trim s = s"
proof (rule trim_idle)
  assume d: "list_all is_ascii_digit s"
  have t: "take k s \<notin> set ws_sequences" and r: "drop k s \<notin> set ws_sequences" for k
    using digits_take_not_ws [OF d] set_take_subset set_drop_subset by metis+
  show "ws_prefix s = 0" by (simp add: ws_prefix_def t)
  show "ws_suffix s = 0" by (simp add: ws_suffix_def r)
qed

lemma verify_totp_counter_SomeD:
  assumes "verify_totp_counter hmac secret code ts = Some c"
  shows "\<exists>offset \<in> {-1, 0, 1}. c = max (saturating_add_i64 (max ts 0 div 30) offset) 0"
    and "totp_code hmac secret (word_of_int c) = trim code"
proof -
  from assms obtain offset where "offset \<in> {-1, 0, 1}"
    and "c = max (saturating_add_i64 (max ts 0 div 30) offset) 0"
    and "totp_code hmac secret (word_of_int c) = trim code"
    by (auto simp: verify_totp_counter_def Let_def dest!: find_map_Some split: if_splits)
  then show "\<exists>offset \<in> {-1, 0, 1}. c = max (saturating_add_i64 (max ts 0 div 30) offset) 0"
    and "totp_code hmac secret (word_of_int c) = trim code" by blast+
qed

lemma verify_totp_counter_window:
  assumes "verify_totp_counter hmac secret code ts = Some c" "ts \<le> i64_max"
  shows "0 \<le> c \<and> \<bar>c - max ts 0 div 30\<bar> \<le> 1"
proof -
  obtain offset where "offset \<in> {-1, 0, 1 :: int}"
    and c: "c = max (saturating_add_i64 (max ts 0 div 30) offset) 0"
    using verify_totp_counter_SomeD(1) [OF assms(1)] by blast
  then have o: "\<bar>offset\<bar> \<le> 1" by auto
  have b: "0 \<le> max ts 0 div 30" "max ts 0 div 30 \<le> i64_max div 30"
    using assms(2) by (auto simp: i64_max_def zdiv_mono1)
  then have "saturating_add_i64 (max ts 0 div 30) offset = max ts 0 div 30 + offset"
    using o by (simp add: saturating_add_i64_def i64_max_def i64_min_def)
  then have "c = max (max ts 0 div 30 + offset) 0" using c by simp
  with o b(1) show ?thesis
    by (cases "0 \<le> max ts 0 div 30 + offset") (simp_all add: max_absorb1 max_absorb2)
qed

text \<open>
  A code is accepted only for the current 30-second step or one of its neighbours, and only if
  it is the password of the step that is returned; the returned counter is never negative.
\<close>

theorem totp_window_sound:
  assumes "verify_totp_counter hmac secret code ts = Some c" and "ts \<le> i64_max"
  shows "0 \<le> c \<and> \<bar>c - max ts 0 div 30\<bar> \<le> 1 \<and> totp_code hmac secret (word_of_int c) = trim code"
  using verify_totp_counter_window [OF assms] verify_totp_counter_SomeD(2) [OF assms(1)] by blast

text \<open>
  The password a device shows is accepted: for every secret and every time, the code of the
  current step verifies, and it is the current step that is returned.
\<close>

theorem totp_current_code_accepted:
  assumes "0 \<le> ts" and "ts \<le> i64_max"
  shows "verify_totp_counter hmac secret (totp_code hmac secret (word_of_int (ts div 30))) ts = Some (ts div 30)"
proof -
  have "saturating_add_i64 (ts div 30) 0 = ts div 30"
    using assms by (auto simp: saturating_add_i64_def i64_max_def i64_min_def)
  moreover have "trim (totp_code hmac secret c) = totp_code hmac secret c" for c
    by (rule trim_digits [OF totp_code_digits])
  ultimately show ?thesis
    using assms length_totp_code totp_code_digits
    by (simp add: verify_totp_counter_def Let_def max_def)
qed

definition demo_hmac :: "bytes \<Rightarrow> bytes \<Rightarrow> bytes" where
  "demo_hmac k m = map (\<lambda>i. of_nat (i * i + length k) + last (0 # m)) [0 ..< 20]"

lemma demo_hmac_length: "length (demo_hmac k m) = 20"
  by (simp add: demo_hmac_def)

theorem totp_current_code_accepted_witness:
  "verify_totp_counter demo_hmac [1, 2] (totp_code demo_hmac [1, 2] (word_of_int (1700000000 div 30))) 1700000000
     = Some 56666666"
  using totp_current_code_accepted [of 1700000000 demo_hmac "[1, 2]"] by (simp add: i64_max_def)

theorem totp_window_sound_witness:
  "totp_code demo_hmac [1, 2] (word_of_int 56666666) =
     trim (totp_code demo_hmac [1, 2] (word_of_int (1700000000 div 30)))"
proof -
  have v: "verify_totp_counter demo_hmac [1, 2] (totp_code demo_hmac [1, 2] (word_of_int (1700000000 div 30)))
      1700000000 = Some 56666666"
    by (simp add: verify_totp_counter_def Let_def saturating_add_i64_def i64_max_def i64_min_def
        trim_digits totp_code_digits length_totp_code)
  show ?thesis using totp_window_sound [OF v] by (simp add: i64_max_def)
qed

subsection \<open>The contract the login relies on\<close>

text \<open>
  What the account code assumes of a one-time password check: the counter it returns is never
  negative and, for a fixed secret and code, lies within one step of the clock.
\<close>

locale totp_check =
  fixes check :: "bytes \<Rightarrow> string \<Rightarrow> int \<Rightarrow> int option"
  assumes check_nonneg: "check secret code ts = Some c \<Longrightarrow> ts \<le> i64_max \<Longrightarrow> 0 \<le> c"
    and check_window: "check secret code ts = Some c \<Longrightarrow> ts \<le> i64_max \<Longrightarrow> \<bar>c - max ts 0 div 30\<bar> \<le> 1"
begin

text \<open>Two steps apart, a code that verified for an old step verifies for a later one only.\<close>

lemma stale_counter:
  assumes "check secret code ts = Some c" "check secret code ts' = Some c'"
    and "0 \<le> ts" "ts + 90 \<le> ts'" "ts' \<le> i64_max"
  shows "c < c'"
proof -
  have "ts div 30 + 3 \<le> ts' div 30" using assms(4) by linarith
  moreover have "\<bar>c - max ts 0 div 30\<bar> \<le> 1" "\<bar>c' - max ts' 0 div 30\<bar> \<le> 1"
    using assms check_window by force+
  ultimately show ?thesis using assms(3,4) by (auto simp: max_def)
qed

end

interpretation totp: totp_check "verify_totp_counter hmac" for hmac
  by unfold_locales (auto dest: verify_totp_counter_window)

subsection \<open>User names and session cookies\<close>

definition validate_username :: "string \<Rightarrow> (string \<times> string) result" where
  "validate_username name = (let username = trim name in
     if 3 \<le> length username \<and> length username \<le> 32 \<and>
        list_all (\<lambda>b. is_ascii_alphanumeric b \<or> b \<in> {CHR ''.'', CHR ''_'', CHR ''-''}) username
     then Inr (username, to_ascii_lowercase username)
     else Inl (app_error_bad_request ''invalid username''))"

definition SESSION_COOKIE :: string where "SESSION_COOKIE = ''om_session''"
definition SECURE_SESSION_COOKIE :: string where "SECURE_SESSION_COOKIE = ''__Secure-om_session''"

text \<open>The loop over the parts of the cookie: the last non-empty value of each name wins.\<close>

fun cookie_scan :: "string list \<Rightarrow> string option \<Rightarrow> string option \<Rightarrow> string option \<times> string option" where
  "cookie_scan [] secure http = (secure, http)"
| "cookie_scan (part # parts) secure http =
     (case split_once (CHR ''='') (trim part) of
        None \<Rightarrow> cookie_scan parts secure http
      | Some (name, value) \<Rightarrow>
          cookie_scan parts
            (if name = SECURE_SESSION_COOKIE \<and> value \<noteq> [] then Some value else secure)
            (if name = SESSION_COOKIE \<and> value \<noteq> [] then Some value else http))"

text \<open>\<open>cookie\<close> is the first \<open>Cookie\<close> header, if it is visible ASCII.\<close>

definition session_tokens :: "string option \<Rightarrow> string list" where
  "session_tokens cookie = (case cookie of None \<Rightarrow> []
     | Some c \<Rightarrow>
        let (secure, http) = cookie_scan (split_on (CHR '';'') c) None None;
            tokens = (case secure of None \<Rightarrow> [] | Some t \<Rightarrow> [t])
        in case http of None \<Rightarrow> tokens
           | Some t \<Rightarrow> if t \<in> set tokens then tokens else tokens @ [t])"

definition session_token :: "string option \<Rightarrow> string option" where
  "session_token cookie = (case session_tokens cookie of [] \<Rightarrow> None | t # _ \<Rightarrow> Some t)"

lemma cookie_scan_nonempty:
  "cookie_scan ps s h = (s', h') \<Longrightarrow> s \<noteq> Some [] \<Longrightarrow> h \<noteq> Some [] \<Longrightarrow> s' \<noteq> Some [] \<and> h' \<noteq> Some []"
proof (induction ps arbitrary: s h)
  case Nil
  then show ?case by simp
next
  case (Cons p ps)
  show ?case
  proof (cases "split_once (CHR ''='') (trim p)")
    case None
    with Cons show ?thesis by auto
  next
    case (Some nv)
    obtain n v where nv: "nv = (n, v)" by (cases nv)
    show ?thesis
      by (rule Cons.IH [OF Cons.prems(1) [simplified Some nv cookie_scan.simps option.case prod.case]])
        (use Cons.prems in auto)
  qed
qed

lemma session_tokens_distinct: "distinct (session_tokens c) \<and> [] \<notin> set (session_tokens c) \<and> length (session_tokens c) \<le> 2"
  by (auto simp: session_tokens_def Let_def dest: cookie_scan_nonempty split: option.splits prod.splits)

lemma validate_username_Inr:
  "validate_username name = Inr (u, n) \<Longrightarrow> u = trim name \<and> n = to_ascii_lowercase u \<and> 3 \<le> length u \<and> length u \<le> 32"
  by (auto simp: validate_username_def Let_def split: if_splits)

end
