(* ===== verification/AuthAttempts.thy ===== *)
theory AuthAttempts
  imports Prelude
begin

text \<open>
  The failure limiters of the administrator login (\<open>backend/src/admin_auth.rs\<close>, with
  \<open>AuthAttempt\<close> of \<open>state.rs\<close>): a hash map from an attempt key to the failures of its current
  window.  The limiter by source address holds at most \<open>MAX_AUTH_SOURCE_KEYS\<close> keys.
\<close>

definition AUTH_FAILURE_LIMIT :: u32 where "AUTH_FAILURE_LIMIT = 5"
definition AUTH_WINDOW_SECONDS :: int where "AUTH_WINDOW_SECONDS = 5 * 60"
definition AUTH_BLOCK_SECONDS :: int where "AUTH_BLOCK_SECONDS = 5 * 60"
definition MAX_AUTH_SOURCE_KEYS :: nat where "MAX_AUTH_SOURCE_KEYS = 4096"

record auth_attempt =
  failures :: u32
  window_started_at :: int
  blocked_until :: int

type_synonym attempts = "(string, auth_attempt) table"

definition auth_attempt_default :: auth_attempt where
  "auth_attempt_default = \<lparr>failures = 0, window_started_at = 0, blocked_until = 0\<rparr>"

definition attempt_live :: "int \<Rightarrow> auth_attempt \<Rightarrow> bool" where
  "attempt_live now a \<longleftrightarrow> blocked_until a > now \<or> now - window_started_at a \<le> AUTH_WINDOW_SECONDS"

definition prune_auth_attempts :: "int \<Rightarrow> attempts \<Rightarrow> attempts" where
  "prune_auth_attempts now m = retain (attempt_live now) m"

definition ensure_attempt_allowed_in :: "int \<Rightarrow> string \<Rightarrow> attempts \<Rightarrow> unit result \<times> attempts" where
  "ensure_attempt_allowed_in now key m =
     (let m = prune_auth_attempts now m in
      case map_of m key of
        Some a \<Rightarrow> if blocked_until a > now then (Inl (app_error_new 429 ''too many attempts''), m) else (Inr (), m)
      | None \<Rightarrow> (Inr (), m))"

definition bump_attempt :: "int \<Rightarrow> auth_attempt \<Rightarrow> auth_attempt" where
  "bump_attempt now a =
     (let a = (if window_started_at a = 0 \<or> now - window_started_at a > AUTH_WINDOW_SECONDS
               then a\<lparr>failures := 0, window_started_at := now, blocked_until := 0\<rparr> else a);
          a = a\<lparr>failures := failures a + 1\<rparr>
      in if failures a \<ge> AUTH_FAILURE_LIMIT then a\<lparr>blocked_until := now + AUTH_BLOCK_SECONDS\<rparr> else a)"

definition oldest_unblocked :: "int \<Rightarrow> attempts \<Rightarrow> string option" where
  "oldest_unblocked now m =
     map_option fst (min_by_key (\<lambda>(_, a). window_started_at a)
       (filter (\<lambda>(_, a). blocked_until a \<le> now) m))"

definition record_attempt :: "int \<Rightarrow> string \<Rightarrow> attempts \<Rightarrow> attempts" where
  "record_attempt now key m =
     AList.update key (bump_attempt now (case map_of m key of None \<Rightarrow> auth_attempt_default | Some a \<Rightarrow> a)) m"

definition record_auth_failure_locked :: "int \<Rightarrow> nat option \<Rightarrow> string \<Rightarrow> attempts \<Rightarrow> attempts" where
  "record_auth_failure_locked now max_keys key m =
     (if map_of m key = None \<and> (case max_keys of None \<Rightarrow> False | Some limit \<Rightarrow> length m \<ge> limit)
      then (case oldest_unblocked now m of
              None \<Rightarrow> m
            | Some k \<Rightarrow> record_attempt now key (AList.delete k m))
      else record_attempt now key m)"

definition record_auth_failure_in :: "int \<Rightarrow> nat option \<Rightarrow> string \<Rightarrow> attempts \<Rightarrow> attempts" where
  "record_auth_failure_in now max_keys key m =
     record_auth_failure_locked now max_keys key (prune_auth_attempts now m)"

definition clear_auth_failures :: "string \<Rightarrow> attempts \<Rightarrow> attempts" where
  "clear_auth_failures key m = AList.delete key m"

lemmas attempt_simps = record_auth_failure_in_def record_auth_failure_locked_def record_attempt_def
  prune_auth_attempts_def bump_attempt_def ensure_attempt_allowed_in_def

subsection \<open>Size bound and distinct keys\<close>

datatype attempt_event = Check int string | Failure int string | Clear string

fun attempt_step :: "nat option \<Rightarrow> attempt_event \<Rightarrow> attempts \<Rightarrow> attempts" where
  "attempt_step mk (Check now k) m = snd (ensure_attempt_allowed_in now k m)"
| "attempt_step mk (Failure now k) m = record_auth_failure_in now mk k m"
| "attempt_step mk (Clear k) m = clear_auth_failures k m"

definition attempts_inv :: "nat \<Rightarrow> attempts \<Rightarrow> bool" where
  "attempts_inv limit m \<longleftrightarrow> keys_distinct m \<and> length m \<le> limit"

lemma oldest_unblocked_in: "oldest_unblocked now m = Some k \<Longrightarrow> k \<in> fst ` set m"
  by (auto simp: oldest_unblocked_def dest!: min_by_key_Some intro: rev_image_eqI)

lemma keys_distinct_record [simp]: "keys_distinct m \<Longrightarrow> keys_distinct (record_attempt now k m)"
  by (simp add: record_attempt_def)

lemma length_record_attempt: "length (record_attempt now k m) \<le> Suc (length m)"
  by (simp add: record_attempt_def length_update_le)

lemma attempts_inv_prune [inv_intros]: "attempts_inv n m \<Longrightarrow> attempts_inv n (prune_auth_attempts now m)"
  using length_retain [of "attempt_live now" m] by (auto simp: attempts_inv_def prune_auth_attempts_def)

lemma attempts_inv_locked [inv_intros]:
  assumes "attempts_inv n m"
  shows "attempts_inv n (record_auth_failure_locked now (Some n) k m)"
proof (cases "map_of m k = None \<and> length m \<ge> n")
  case True
  show ?thesis
  proof (cases "oldest_unblocked now m")
    case None
    with True assms show ?thesis by (simp add: record_auth_failure_locked_def)
  next
    case (Some j)
    then have "length (AList.delete j m) < length m" by (intro length_delete_present oldest_unblocked_in)
    then have "length (record_attempt now k (AList.delete j m)) \<le> length m"
      using length_record_attempt [of now k "AList.delete j m"] by linarith
    with True Some assms show ?thesis
      by (simp add: record_auth_failure_locked_def attempts_inv_def)
  qed
next
  case False
  have "length (record_attempt now k m) \<le> n"
  proof (cases "map_of m k")
    case None
    with False show ?thesis using length_record_attempt [of now k m] by simp
  next
    case (Some a)
    then have "k \<in> fst ` set m" by (auto dest: map_of_SomeD intro: rev_image_eqI)
    then show ?thesis using assms by (simp add: record_attempt_def length_update_present attempts_inv_def)
  qed
  moreover have "record_auth_failure_locked now (Some n) k m = record_attempt now k m"
    using False by (auto simp: record_auth_failure_locked_def)
  ultimately show ?thesis using assms by (simp add: attempts_inv_def)
qed

lemma attempts_inv_step: "attempts_inv n m \<Longrightarrow> attempts_inv n (attempt_step (Some n) e m)"
proof (cases e)
  case (Check now k)
  then show "attempts_inv n m \<Longrightarrow> ?thesis"
    using attempts_inv_prune
    by (auto simp: ensure_attempt_allowed_in_def Let_def split: option.splits)
next
  case (Failure now k)
  then show "attempts_inv n m \<Longrightarrow> ?thesis"
    by (auto simp: record_auth_failure_in_def intro: inv_intros)
next
  case (Clear k)
  then show "attempts_inv n m \<Longrightarrow> ?thesis"
    using length_delete_le [of k m] by (auto simp: attempts_inv_def clear_auth_failures_def)
qed

interpretation limiter: invariant_machine "attempt_step (Some n)" "attempts_inv n" for n
  by unfold_locales (rule attempts_inv_step)

text \<open>
  The source limiter never holds more than 4096 keys, each once, whatever requests arrive: an
  attacker with many addresses cannot make the map grow.
\<close>

theorem source_attempts_bounded:
  "length (fold (attempt_step (Some MAX_AUTH_SOURCE_KEYS)) es []) \<le> 4096 \<and>
   distinct (map fst (fold (attempt_step (Some MAX_AUTH_SOURCE_KEYS)) es []))"
proof -
  have "attempts_inv MAX_AUTH_SOURCE_KEYS []" by (simp add: attempts_inv_def)
  then have "attempts_inv MAX_AUTH_SOURCE_KEYS (fold (attempt_step (Some MAX_AUTH_SOURCE_KEYS)) es [])"
    by (rule limiter.run_inv)
  then show ?thesis by (simp add: attempts_inv_def keys_distinct_def MAX_AUTH_SOURCE_KEYS_def)
qed

subsection \<open>Lockout\<close>

lemma limit_not_one [simp]: "\<not> AUTH_FAILURE_LIMIT \<le> 1"
  by (simp add: AUTH_FAILURE_LIMIT_def word_le_nat_alt)

lemma map_of_prune:
  "keys_distinct m \<Longrightarrow> map_of (prune_auth_attempts now m) k =
     (case map_of m k of None \<Rightarrow> None | Some a \<Rightarrow> if attempt_live now a then Some a else None)"
  by (simp add: prune_auth_attempts_def map_of_retain)

lemma record_in_lookup:
  assumes "keys_distinct m" "map_of m k = Some a" "attempt_live now a"
  shows "map_of (record_auth_failure_in now mk k m) k = Some (bump_attempt now a)"
  using assms by (simp add: record_auth_failure_in_def record_auth_failure_locked_def record_attempt_def map_of_prune)

lemma keys_distinct_record_in [simp]:
  "keys_distinct m \<Longrightarrow> keys_distinct (record_auth_failure_in now mk k m)"
  by (auto simp: record_auth_failure_in_def record_auth_failure_locked_def prune_auth_attempts_def
      split: option.splits)

lemma record_in_other:
  assumes "keys_distinct m" "map_of m k = Some a" "attempt_live now a" "blocked_until a > now" "k' \<noteq> k"
  shows "map_of (record_auth_failure_in now mk k' m) k = Some a"
proof -
  let ?m = "prune_auth_attempts now m"
  have d: "keys_distinct ?m" using assms(1) by (simp add: prune_auth_attempts_def)
  have l: "map_of ?m k = Some a" using assms by (simp add: map_of_prune)
  have "oldest_unblocked now ?m \<noteq> Some k"
  proof
    assume "oldest_unblocked now ?m = Some k"
    then obtain b where "(k, b) \<in> set ?m" "blocked_until b \<le> now"
      by (auto simp: oldest_unblocked_def dest!: min_by_key_Some)
    with d l assms(4) show False by (auto simp: keys_distinct_def)
  qed
  with l assms(5) show ?thesis
    by (auto simp: record_auth_failure_in_def record_auth_failure_locked_def record_attempt_def split: option.splits)
qed

text \<open>Five failures of one key inside one window, the first of which opened it.\<close>

fun fail_at :: "nat option \<Rightarrow> string \<Rightarrow> int list \<Rightarrow> attempts \<Rightarrow> attempts" where
  "fail_at mk k [] m = m"
| "fail_at mk k (t # ts) m = fail_at mk k ts (record_auth_failure_in t mk k m)"

lemma fail_at_lookup:
  assumes "keys_distinct m" "map_of m k = Some a" "window_started_at a = w" "w \<noteq> 0"
    and "unat (failures a) + length ts < 2 ^ 32" "\<forall>t \<in> set ts. w \<le> t \<and> t - w \<le> AUTH_WINDOW_SECONDS"
  shows "\<exists>b. map_of (fail_at mk k ts m) k = Some b \<and> window_started_at b = w \<and>
     unat (failures b) = unat (failures a) + length ts \<and>
     (ts \<noteq> [] \<longrightarrow> unat (failures b) \<ge> 5 \<longrightarrow> blocked_until b = last ts + AUTH_BLOCK_SECONDS) \<and>
     keys_distinct (fail_at mk k ts m)"
  using assms
proof (induction ts arbitrary: m a)
  case Nil
  then show ?case by simp
next
  case (Cons t ts)
  let ?a = "bump_attempt t a"
  have live: "attempt_live t a" using Cons.prems by (simp add: attempt_live_def)
  have w: "window_started_at ?a = w" and f: "failures ?a = failures a + 1"
    and b: "failures ?a \<ge> 5 \<Longrightarrow> blocked_until ?a = t + AUTH_BLOCK_SECONDS"
    using Cons.prems by (auto simp: bump_attempt_def Let_def AUTH_FAILURE_LIMIT_def)
  have uf: "unat (failures ?a) = Suc (unat (failures a))"
    using Cons.prems(5) by (simp add: f unat_word_ariths)
  have lk: "map_of (record_auth_failure_in t mk k m) k = Some ?a"
    by (rule record_in_lookup [OF Cons.prems(1,2) live])
  obtain c where c: "map_of (fail_at mk k ts (record_auth_failure_in t mk k m)) k = Some c"
    "window_started_at c = w" "unat (failures c) = unat (failures ?a) + length ts"
    "ts \<noteq> [] \<longrightarrow> unat (failures c) \<ge> 5 \<longrightarrow> blocked_until c = last ts + AUTH_BLOCK_SECONDS"
    "keys_distinct (fail_at mk k ts (record_auth_failure_in t mk k m))"
    using Cons.IH [OF keys_distinct_record_in [OF Cons.prems(1)] lk w Cons.prems(4)] uf Cons.prems(5,6) by auto
  have "ts = [] \<Longrightarrow> unat (failures c) \<ge> 5 \<Longrightarrow> blocked_until c = t + AUTH_BLOCK_SECONDS"
    using c(1) lk b by (auto simp: word_le_nat_alt)
  with c uf show ?case by auto
qed

lemma first_failure:
  assumes "keys_distinct m" "map_of m k = None" "t \<noteq> 0"
    and "case mk of None \<Rightarrow> True | Some limit \<Rightarrow> length m < limit"
  shows "map_of (record_auth_failure_in t mk k m) k = Some \<lparr>failures = 1, window_started_at = t, blocked_until = 0\<rparr>"
proof -
  have "length (prune_auth_attempts t m) \<le> length m" by (simp add: prune_auth_attempts_def length_retain)
  with assms show ?thesis
    by (auto simp: record_auth_failure_in_def record_auth_failure_locked_def map_of_prune record_attempt_def
        bump_attempt_def Let_def auth_attempt_default_def split: option.splits)
qed

text \<open>
  The lockout works: five failures of a key within one five-minute window block it, so a check
  in the five minutes after the last of them is answered 429, and it stays blocked although other
  keys fail in between.
\<close>

theorem five_failures_block:
  assumes "keys_distinct m" "map_of m k = None" "t1 \<noteq> 0"
    and "case mk of None \<Rightarrow> True | Some limit \<Rightarrow> length m < limit"
    and "t1 \<le> t2" "t2 \<le> t3" "t3 \<le> t4" "t4 \<le> t5" "t5 - t1 \<le> 300"
    and "t5 \<le> now" "now < t5 + 300" "k' \<noteq> k"
  shows "err_status_of (fst (ensure_attempt_allowed_in now k
     (record_auth_failure_in now mk k' (fail_at mk k [t1, t2, t3, t4, t5] m)))) = Some 429"
proof -
  let ?m1 = "record_auth_failure_in t1 mk k m"
  let ?m = "fail_at mk k [t1, t2, t3, t4, t5] m"
  let ?n = "record_auth_failure_in now mk k' ?m"
  have d1: "keys_distinct ?m1" using assms(1) by simp
  have "\<exists>b. map_of (fail_at mk k [t2, t3, t4, t5] ?m1) k = Some b \<and> window_started_at b = t1 \<and>
     unat (failures b) = 5 \<and> blocked_until b = t5 + AUTH_BLOCK_SECONDS \<and>
     keys_distinct (fail_at mk k [t2, t3, t4, t5] ?m1)"
    using fail_at_lookup [OF d1 first_failure [OF assms(1-4)], of t1 "[t2, t3, t4, t5]" mk]
      assms(3,5-9) by (auto simp: AUTH_WINDOW_SECONDS_def)
  then obtain b where b: "map_of ?m k = Some b" "blocked_until b > now" and dm: "keys_distinct ?m"
    using assms(11) by (auto simp: AUTH_BLOCK_SECONDS_def)
  then have live: "attempt_live now b" by (simp add: attempt_live_def)
  have "map_of ?n k = Some b" by (rule record_in_other [OF dm b(1) live b(2) assms(12)])
  moreover have "keys_distinct ?n" using dm by simp
  ultimately show ?thesis
    using b(2) live by (simp add: ensure_attempt_allowed_in_def Let_def map_of_prune del: fail_at.simps)
qed

theorem five_failures_block_witness:
  "err_status_of (fst (ensure_attempt_allowed_in 400 ''login:u''
     (record_auth_failure_in 400 None ''x'' (fail_at None ''login:u'' [100, 110, 150, 200, 399] [])))) = Some 429"
  by (rule five_failures_block) auto

text \<open>
  C12: a flaw of the account limiter, which records a failure also while it is blocked: once the
  window has passed, a further wrong code resets the entry and with it \<open>blocked_until\<close>, so the
  block ends before its five minutes are over.
\<close>

theorem blocked_failure_lifts_block:
  assumes "keys_distinct m" "map_of m k = Some a" "blocked_until a > now"
    and "now - window_started_at a > AUTH_WINDOW_SECONDS"
  shows "err_status_of (fst (ensure_attempt_allowed_in now k m)) = Some 429 \<and>
     (0 \<le> now \<longrightarrow> fst (ensure_attempt_allowed_in now k (record_auth_failure_in now mk k m)) = Inr ())"
proof
  have live: "attempt_live now a" using assms(3) by (simp add: attempt_live_def)
  show "err_status_of (fst (ensure_attempt_allowed_in now k m)) = Some 429"
    using assms live by (simp add: ensure_attempt_allowed_in_def Let_def map_of_prune)
  have "bump_attempt now a = a\<lparr>failures := 1, window_started_at := now, blocked_until := 0\<rparr>"
    using assms(4) by (simp add: bump_attempt_def Let_def)
  then have "map_of (record_auth_failure_in now mk k m) k =
      Some (a\<lparr>failures := 1, window_started_at := now, blocked_until := 0\<rparr>)"
    using record_in_lookup [OF assms(1,2) live] by simp
  then show "0 \<le> now \<longrightarrow> fst (ensure_attempt_allowed_in now k (record_auth_failure_in now mk k m)) = Inr ()"
    using assms(1) by (simp add: ensure_attempt_allowed_in_def Let_def map_of_prune attempt_live_def AUTH_WINDOW_SECONDS_def)
qed

theorem blocked_failure_lifts_block_witness:
  "fst (ensure_attempt_allowed_in 401 ''login:u''
     (record_auth_failure_in 401 None ''login:u''
       [(''login:u'', \<lparr>failures = 5, window_started_at = 100, blocked_until = 699\<rparr>)])) = Inr ()"
  using blocked_failure_lifts_block [of "[(''login:u'', \<lparr>failures = 5, window_started_at = 100, blocked_until = 699\<rparr>)]"
      "''login:u''" "\<lparr>failures = 5, window_started_at = 100, blocked_until = 699\<rparr>" 401 None]
  by (simp add: keys_distinct_def AUTH_WINDOW_SECONDS_def)

end
