(* ===== verification/AuthState.thy ===== *)
theory AuthState
  imports Totp AuthAttempts RequestSecurity
begin

text \<open>
  The state behind the administrator login: the session map of \<open>backend/src/state.rs\<close> with its
  revocation channels, the two attempt limiters, the three PostgreSQL tables of \<open>db.rs\<close>, and the
  session operations of \<open>backend/src/auth.rs\<close>.

  A revocation channel (\<open>watch::Sender<bool>\<close>) is a number; \<open>revoked_chans\<close> lists the channels
  that hold \<open>true\<close>.  A table is the list of its rows.  Failures of the database itself and the
  clock moving within one handler are not modelled.
\<close>

record admin_session =
  s_user_id :: string
  s_username :: string
  s_device_id :: string
  s_login_totp_counter :: "int option"
  s_expires_at :: int
  s_revoked_tx :: nat

record user_row =
  u_id :: string
  u_username :: string
  u_normalized :: string
  u_enabled :: int
  u_created_at :: int

record device_row =
  d_id :: string
  d_user_id :: string
  d_name :: string
  d_secret_ciphertext :: string
  d_created_at :: int
  d_last_used_at :: "int option"
  d_last_totp_counter :: "int option"

record enrollment_row =
  e_id :: string
  e_target_user_id :: "string option"
  e_username :: string
  e_normalized :: string
  e_device_name :: string
  e_secret_ciphertext :: string
  e_created_by_user_id :: "string option"
  e_created_at :: int
  e_expires_at :: int

record action_entry =
  a_actor :: string
  a_user_id :: "string option"
  a_action :: string
  a_target :: string

record auth_state =
  sessions :: "(string, admin_session) table"
  revoked_chans :: "nat list"
  next_chan :: nat
  source_attempts :: attempts
  account_attempts :: attempts
  users :: "user_row list"
  devices :: "device_row list"
  enrollments :: "enrollment_row list"
  action_log :: "action_entry list"

definition SESSION_MAX_AGE :: int where "SESSION_MAX_AGE = 7 * 24 * 3600"
definition ENROLLMENT_MAX_AGE :: int where "ENROLLMENT_MAX_AGE = 10 * 60"

subsection \<open>Sessions\<close>

definition insert_session ::
  "int \<Rightarrow> string \<Rightarrow> string \<Rightarrow> string \<Rightarrow> string \<Rightarrow> int option \<Rightarrow> auth_state \<Rightarrow> auth_state" where
  "insert_session now token user_id username device_id counter st =
     st\<lparr>sessions := AList.update token
          \<lparr>s_user_id = user_id, s_username = username, s_device_id = device_id,
           s_login_totp_counter = counter, s_expires_at = now + SESSION_MAX_AGE,
           s_revoked_tx = next_chan st\<rparr> (sessions st),
        next_chan := next_chan st + 1\<rparr>"

definition revoke_session :: "string \<Rightarrow> auth_state \<Rightarrow> auth_state" where
  "revoke_session token st = (case map_of (sessions st) token of
       None \<Rightarrow> st
     | Some s \<Rightarrow> st\<lparr>sessions := AList.delete token (sessions st),
                    revoked_chans := s_revoked_tx s # revoked_chans st\<rparr>)"

text \<open>\<open>retain\<close> with the sessions that go revoked on the way.\<close>

definition revoke_matching_sessions :: "(admin_session \<Rightarrow> bool) \<Rightarrow> auth_state \<Rightarrow> auth_state" where
  "revoke_matching_sessions predicate st =
     st\<lparr>sessions := retain (\<lambda>s. \<not> predicate s) (sessions st),
        revoked_chans := map (\<lambda>(_, s). s_revoked_tx s) (retain predicate (sessions st)) @ revoked_chans st\<rparr>"

definition revoke_user_sessions :: "string \<Rightarrow> auth_state \<Rightarrow> auth_state" where
  "revoke_user_sessions user_id = revoke_matching_sessions (\<lambda>s. s_user_id s = user_id)"

definition revoke_device_sessions :: "string \<Rightarrow> auth_state \<Rightarrow> auth_state" where
  "revoke_device_sessions device_id = revoke_matching_sessions (\<lambda>s. s_device_id s = device_id)"

text \<open>The join of \<open>admin_users\<close> and \<open>authenticator_devices\<close> behind every authenticated request.\<close>

definition login_row_exists :: "string \<Rightarrow> string \<Rightarrow> auth_state \<Rightarrow> bool" where
  "login_row_exists user_id device_id st \<longleftrightarrow>
     (\<exists>u \<in> set (users st). \<exists>d \<in> set (devices st). d_user_id d = u_id u \<and> u_id u = user_id \<and>
        u_enabled u = 1 \<and> d_id d = device_id)"

record admin_session_guard =
  g_token :: string
  g_user_id :: string
  g_device_id :: string
  g_expires_at :: int
  g_revoked_rx :: nat

record admin_principal =
  p_user_id :: string
  p_username :: string
  p_session_token :: string
  p_device_id :: string
  p_session_guard :: admin_session_guard

definition require_admin :: "int \<Rightarrow> string option \<Rightarrow> (auth_state, admin_principal) handler" where
  "require_admin now cookie st =
     (case session_token cookie of
        None \<Rightarrow> (Inl app_error_unauthorized, st)
      | Some token \<Rightarrow>
          let st = revoke_matching_sessions (\<lambda>s. \<not> s_expires_at s > now) st in
          case map_of (sessions st) token of
            None \<Rightarrow> (Inl app_error_unauthorized, st)
          | Some s \<Rightarrow>
              if \<not> login_row_exists (s_user_id s) (s_device_id s) st
              then (Inl app_error_unauthorized, revoke_session token st)
              else (Inr \<lparr>p_user_id = s_user_id s, p_username = s_username s, p_session_token = token,
                      p_device_id = s_device_id s,
                      p_session_guard = \<lparr>g_token = token, g_user_id = s_user_id s, g_device_id = s_device_id s,
                        g_expires_at = s_expires_at s, g_revoked_rx = s_revoked_tx s\<rparr>\<rparr>, st))"

definition admin_session_is_valid :: "int \<Rightarrow> admin_session_guard \<Rightarrow> auth_state \<Rightarrow> bool \<times> auth_state" where
  "admin_session_is_valid now g st =
     (if g_revoked_rx g \<in> set (revoked_chans st) \<or> g_expires_at g \<le> now
      then (False, revoke_session (g_token g) st)
      else if \<not> (case map_of (sessions st) (g_token g) of None \<Rightarrow> False
           | Some s \<Rightarrow> s_user_id s = g_user_id g \<and> s_device_id s = g_device_id g \<and>
               s_expires_at s = g_expires_at g \<and> s_revoked_tx s \<notin> set (revoked_chans st))
      then (False, st)
      else if login_row_exists (g_user_id g) (g_device_id g) st then (True, st)
      else (False, revoke_session (g_token g) st))"

subsection \<open>Frames and effects of the session operations\<close>

lemma session_ops_tables [simp]:
  "users (revoke_session t st) = users st" "devices (revoke_session t st) = devices st"
  "enrollments (revoke_session t st) = enrollments st"
  "users (revoke_matching_sessions p st) = users st" "devices (revoke_matching_sessions p st) = devices st"
  "enrollments (revoke_matching_sessions p st) = enrollments st"
  "users (insert_session n t a b c d st) = users st" "devices (insert_session n t a b c d st) = devices st"
  "enrollments (insert_session n t a b c d st) = enrollments st"
  by (auto simp: revoke_session_def revoke_matching_sessions_def insert_session_def split: option.splits)

lemma revoked_mono:
  "set (revoked_chans st) \<subseteq> set (revoked_chans (revoke_session t st))"
  "set (revoked_chans st) \<subseteq> set (revoked_chans (revoke_matching_sessions p st))"
  by (auto simp: revoke_session_def revoke_matching_sessions_def split: option.splits)

lemma revoke_matching_lookup:
  "keys_distinct (sessions st) \<Longrightarrow> map_of (sessions (revoke_matching_sessions p st)) t =
     (case map_of (sessions st) t of None \<Rightarrow> None | Some s \<Rightarrow> if p s then None else Some s)"
  by (auto simp: revoke_matching_sessions_def map_of_retain split: option.splits)

lemma revoke_matching_revokes:
  "(t, s) \<in> set (sessions st) \<Longrightarrow> p s \<Longrightarrow> s_revoked_tx s \<in> set (revoked_chans (revoke_matching_sessions p st))"
  by (force simp: revoke_matching_sessions_def set_retain)

text \<open>
  The invariant of the session map: distinct tokens, channels allocated below \<open>next_chan\<close> and not
  shared, and no live session on a revoked channel.
\<close>

definition sessions_inv :: "auth_state \<Rightarrow> bool" where
  "sessions_inv st \<longleftrightarrow> keys_distinct (sessions st) \<and>
     distinct (map (\<lambda>(_, s). s_revoked_tx s) (sessions st)) \<and>
     (\<forall>(t, s) \<in> set (sessions st). s_revoked_tx s < next_chan st \<and> s_revoked_tx s \<notin> set (revoked_chans st)) \<and>
     (\<forall>c \<in> set (revoked_chans st). c < next_chan st)"

lemma set_alist_delete: "set (AList.delete t m) \<subseteq> set m"
  by (induction m) auto

lemma set_alist_update: "x \<in> set (AList.update k v m) \<Longrightarrow> x = (k, v) \<or> x \<in> set m"
  by (induction m) (auto split: if_splits)

lemma alist_delete_no_key: "x \<in> set (AList.delete t m) \<Longrightarrow> fst x \<noteq> t"
  by (induction m) (auto split: if_splits)

lemma distinct_map_delete: "distinct (map f m) \<Longrightarrow> distinct (map f (AList.delete t m))"
proof (induction m)
  case (Cons x m)
  then show ?case using set_alist_delete [of t m] by (cases x) auto
qed simp

lemma distinct_map_update:
  "distinct (map f m) \<Longrightarrow> f (k, v) \<notin> f ` set m \<Longrightarrow> distinct (map f (AList.update k v m))"
proof (induction m)
  case (Cons x m)
  then show ?case by (cases x) (auto dest: set_alist_update)
qed simp

lemma sessions_inv_insert:
  assumes "sessions_inv st"
  shows "sessions_inv (insert_session n t a b c d st)"
proof -
  let ?f = "\<lambda>(_, s). s_revoked_tx s"
  have "next_chan st \<notin> ?f ` set (sessions st)"
    using assms by (fastforce simp: sessions_inv_def)
  then show ?thesis
    using assms
    by (fastforce simp: sessions_inv_def insert_session_def intro!: distinct_map_update
        dest!: set_alist_update)
qed

lemma sessions_inv_retain:
  assumes "sessions_inv st"
  shows "sessions_inv (revoke_matching_sessions p st)"
proof -
  let ?f = "\<lambda>(_, s). s_revoked_tx s"
  have inj: "x \<in> set (sessions st) \<Longrightarrow> y \<in> set (sessions st) \<Longrightarrow> ?f x = ?f y \<Longrightarrow> x = y" for x y
    using assms by (auto simp: sessions_inv_def distinct_map inj_on_def)
  have sub: "set (retain q (sessions st)) \<subseteq> set (sessions st)" for q by (auto simp: retain_def)
  have "distinct (map ?f (retain (\<lambda>s. \<not> p s) (sessions st)))"
    using assms by (simp add: sessions_inv_def retain_def distinct_map_filter)
  moreover have "s_revoked_tx s \<notin> set (revoked_chans (revoke_matching_sessions p st))"
    if "(t, s) \<in> set (retain (\<lambda>s. \<not> p s) (sessions st))" for t s
    using that assms inj by (fastforce simp: sessions_inv_def revoke_matching_sessions_def set_retain)
  ultimately show ?thesis
    using assms sub by (fastforce simp: sessions_inv_def revoke_matching_sessions_def)
qed

lemma sessions_inv_revoke:
  assumes "sessions_inv st"
  shows "sessions_inv (revoke_session t st)"
proof (cases "map_of (sessions st) t")
  case None
  with assms show ?thesis by (simp add: revoke_session_def)
next
  case (Some s)
  let ?f = "\<lambda>(_, s). s_revoked_tx s"
  have s: "(t, s) \<in> set (sessions st)" using Some by (rule map_of_SomeD)
  have inj: "x \<in> set (sessions st) \<Longrightarrow> y \<in> set (sessions st) \<Longrightarrow> ?f x = ?f y \<Longrightarrow> x = y" for x y
    using assms by (auto simp: sessions_inv_def distinct_map inj_on_def)
  have "s_revoked_tx s' \<noteq> s_revoked_tx s" if "(t', s') \<in> set (AList.delete t (sessions st))" for t' s'
    using that inj [of "(t', s')" "(t, s)"] s set_alist_delete [of t "sessions st"]
      alist_delete_no_key [OF that] by auto
  then show ?thesis
    using assms Some s set_alist_delete [of t "sessions st"]
    by (fastforce simp: sessions_inv_def revoke_session_def intro: distinct_map_delete)
qed

end
