(* ===== verification/Tables.thy ===== *)
theory Tables
  imports Prelude
begin

text \<open>
  Database tables, shared by the components that store their state in PostgreSQL.  A table is the
  list of its rows in insertion order; a statement is a function on that list.  A transaction runs
  its statements and, on an error, leaves the state it found.
\<close>

text \<open>\<open>UPDATE ... WHERE p\<close>\<close>

definition update_where :: "('r \<Rightarrow> bool) \<Rightarrow> ('r \<Rightarrow> 'r) \<Rightarrow> 'r list \<Rightarrow> 'r list" where
  "update_where p f rows = map (\<lambda>r. if p r then f r else r) rows"

definition delete_where :: "('r \<Rightarrow> bool) \<Rightarrow> 'r list \<Rightarrow> 'r list" where
  "delete_where p rows = filter (\<lambda>r. \<not> p r) rows"

lemma set_update_where: "set (update_where p f rows) = {if p r then f r else r | r. r \<in> set rows}"
  by (auto simp: update_where_def)

lemma update_whereE:
  assumes "y \<in> set (update_where p f xs)"
  obtains x where "x \<in> set xs" "p x" "y = f x" | "y \<in> set xs" "\<not> p y"
  using assms by (auto simp: update_where_def split: if_splits)

lemma length_update_where [simp]: "length (update_where p f rows) = length rows"
  by (simp add: update_where_def)

lemma map_update_where:
  "(\<And>r. p r \<Longrightarrow> g (f r) = g r) \<Longrightarrow> map g (update_where p f rows) = map g rows"
  by (induction rows) (auto simp: update_where_def)

lemma set_delete_where [simp]: "set (delete_where p rows) = {r \<in> set rows. \<not> p r}"
  by (auto simp: delete_where_def)

lemma update_where_none: "(\<And>r. r \<in> set rows \<Longrightarrow> \<not> p r) \<Longrightarrow> update_where p f rows = rows"
  by (induction rows) (auto simp: update_where_def)

lemma find_SomeD: "find p xs = Some x \<Longrightarrow> x \<in> set xs \<and> p x"
  by (metis find_Some_iff nth_mem)

lemma find_None: "find p xs = None \<longleftrightarrow> (\<forall>x \<in> set xs. \<not> p x)"
  by (induction xs) auto

lemma find_append: "find p (xs @ ys) = (case find p xs of None \<Rightarrow> find p ys | Some x \<Rightarrow> Some x)"
  by (induction xs) auto

lemma find_update_where:
  assumes "\<And>x. q x \<Longrightarrow> p (f x) = p x"
  shows "find p (update_where q f xs) = map_option (\<lambda>x. if q x then f x else x) (find p xs)"
  using assms by (induction xs) (auto simp: update_where_def)

text \<open>A transaction: an error leaves the state it found.\<close>

definition h_transaction :: "('s, 'a) handler \<Rightarrow> ('s, 'a) handler" where
  "h_transaction m st = (case m st of (Inl e, _) \<Rightarrow> (Inl e, st) | (Inr x, st') \<Rightarrow> (Inr x, st'))"

lemma h_transaction_Inr [simp]: "h_transaction m st = (Inr x, st') \<longleftrightarrow> m st = (Inr x, st')"
  by (auto simp: h_transaction_def split: prod.splits sum.splits)

lemma keeps_transaction [keeps_intros]: "keeps P m \<Longrightarrow> keeps P (h_transaction m)"
  unfolding keeps_def h_transaction_def by (auto split: prod.splits sum.splits)

text \<open>\<open>ORDER BY f DESC LIMIT 1\<close>: a row of greatest key, the first such row.\<close>

fun max_by_key :: "('r \<Rightarrow> 'k::linorder) \<Rightarrow> 'r list \<Rightarrow> 'r option" where
  "max_by_key f [] = None"
| "max_by_key f (x # xs) = (case max_by_key f xs of None \<Rightarrow> Some x
     | Some y \<Rightarrow> Some (if f x < f y then y else x))"

lemma max_by_key_None [simp]: "max_by_key f xs = None \<longleftrightarrow> xs = []"
  by (cases xs) (auto split: option.splits)

lemma max_by_key_Some: "max_by_key f xs = Some y \<Longrightarrow> y \<in> set xs \<and> (\<forall>x \<in> set xs. f x \<le> f y)"
  by (induction xs arbitrary: y) (fastforce split: option.splits if_splits)+

end
