(* ===== verification/AdminAuth.thy ===== *)
theory AdminAuth
  imports AuthState Tables
begin

text \<open>
  The administrator endpoints of \<open>backend/src/admin_auth.rs\<close>: bootstrap, login, step-up, enrolment
  of authenticators, disabling and deleting users, revoking devices.  A handler runs over
  \<open>auth_state\<close>; \<open>auth_env\<close> carries what it takes from outside: the clock, the configuration, the
  AES cipher (\<open>encrypt\<close> includes its random nonce), HMAC-SHA1, fresh identifiers and the fresh
  secret.  A transaction that returns an error is rolled back.
\<close>

record 'ip auth_env =
  now :: int
  net :: "'ip net_config"
  admin_password :: "string option"
  hmac_sha1 :: "bytes \<Rightarrow> bytes \<Rightarrow> bytes"
  encrypt :: "bytes \<Rightarrow> string option"
  decrypt :: "string \<Rightarrow> bytes option"
  uuid :: "nat \<Rightarrow> string"
  new_secret :: bytes

type_synonym 'a auth_handler = "(auth_state, 'a) handler"

definition internal_error :: app_error where
  "internal_error = app_error_new 500 ''internal error''"

definition decrypt_secret :: "'ip auth_env \<Rightarrow> string \<Rightarrow> bytes result" where
  "decrypt_secret env c = (case decrypt env c of None \<Rightarrow> Inl internal_error | Some b \<Rightarrow> Inr b)"

definition encrypt_secret :: "'ip auth_env \<Rightarrow> string result" where
  "encrypt_secret env = (case encrypt env (new_secret env) of None \<Rightarrow> Inl internal_error | Some c \<Rightarrow> Inr c)"

definition write_action_log :: "string \<Rightarrow> string option \<Rightarrow> string \<Rightarrow> string \<Rightarrow> unit auth_handler" where
  "write_action_log actor user_id action target =
     h_modify (\<lambda>st. st\<lparr>action_log := action_log st @
       [\<lparr>a_actor = actor, a_user_id = user_id, a_action = action, a_target = target\<rparr>]\<rparr>)"

subsection \<open>Queries\<close>

definition auth_initialized :: "auth_state \<Rightarrow> bool" where
  "auth_initialized st \<longleftrightarrow> length (users st) > 0"

definition load_user :: "string \<Rightarrow> auth_state \<Rightarrow> user_row result" where
  "load_user user_id st = (case filter (\<lambda>u. u_id u = user_id) (users st) of
       [] \<Rightarrow> Inl (app_error_new 404 ''user not found'') | u # _ \<Rightarrow> Inr u)"

definition load_enrollment :: "string \<Rightarrow> auth_state \<Rightarrow> enrollment_row result" where
  "load_enrollment i st = (case filter (\<lambda>e. e_id e = i) (enrollments st) of
       [] \<Rightarrow> Inl (app_error_new 404 ''enrollment not found'') | e # _ \<Rightarrow> Inr e)"

definition delete_enrollments :: "(enrollment_row \<Rightarrow> bool) \<Rightarrow> auth_state \<Rightarrow> auth_state" where
  "delete_enrollments p st = st\<lparr>enrollments := filter (\<lambda>e. \<not> p e) (enrollments st)\<rparr>"

definition remove_expired_enrollments :: "int \<Rightarrow> auth_state \<Rightarrow> auth_state" where
  "remove_expired_enrollments t = delete_enrollments (\<lambda>e. e_expires_at e \<le> t)"

text \<open>The join of \<open>ensure_other_login_path\<close>, counted; an absent exclusion is SQL \<open>NULL\<close>.\<close>

definition other_login_paths :: "string option \<Rightarrow> string option \<Rightarrow> auth_state \<Rightarrow> (device_row \<times> user_row) list" where
  "other_login_paths excluded_user excluded_device st =
     [(d, u). d \<leftarrow> devices st, u \<leftarrow> users st, u_id u = d_user_id d, u_enabled u = 1,
        (case excluded_user of None \<Rightarrow> True | Some x \<Rightarrow> u_id u \<noteq> x),
        (case excluded_device of None \<Rightarrow> True | Some x \<Rightarrow> d_id d \<noteq> x)]"

definition ensure_other_login_path :: "string option \<Rightarrow> string option \<Rightarrow> unit auth_handler" where
  "ensure_other_login_path eu ed st =
     (if length (other_login_paths eu ed st) = 0
      then (Inl (app_error_bad_request ''would remove the last administrator''), st) else (Inr (), st))"

subsection \<open>Limiters in the state\<close>

definition ensure_source_attempt_allowed :: "int \<Rightarrow> string \<Rightarrow> unit auth_handler" where
  "ensure_source_attempt_allowed t key st =
     (let (r, m) = ensure_attempt_allowed_in t key (source_attempts st) in (r, st\<lparr>source_attempts := m\<rparr>))"

definition ensure_account_attempt_allowed :: "int \<Rightarrow> string \<Rightarrow> unit auth_handler" where
  "ensure_account_attempt_allowed t key st =
     (let (r, m) = ensure_attempt_allowed_in t key (account_attempts st) in (r, st\<lparr>account_attempts := m\<rparr>))"

definition record_source_auth_failure :: "int \<Rightarrow> string \<Rightarrow> unit auth_handler" where
  "record_source_auth_failure t key = h_modify (\<lambda>st. st\<lparr>source_attempts :=
     record_auth_failure_in t (Some MAX_AUTH_SOURCE_KEYS) key (source_attempts st)\<rparr>)"

definition record_account_auth_failure :: "int \<Rightarrow> string \<Rightarrow> unit auth_handler" where
  "record_account_auth_failure t key = h_modify (\<lambda>st. st\<lparr>account_attempts :=
     record_auth_failure_in t None key (account_attempts st)\<rparr>)"

definition clear_source_auth_failures :: "string \<Rightarrow> unit auth_handler" where
  "clear_source_auth_failures key =
     h_modify (\<lambda>st. st\<lparr>source_attempts := clear_auth_failures key (source_attempts st)\<rparr>)"

definition clear_account_auth_failures :: "string \<Rightarrow> unit auth_handler" where
  "clear_account_auth_failures key =
     h_modify (\<lambda>st. st\<lparr>account_attempts := clear_auth_failures key (account_attempts st)\<rparr>)"

subsection \<open>Checking a code\<close>

text \<open>
  The conditional \<open>UPDATE\<close> that claims a counter: it touches the device only if its last counter is
  smaller, and the number of rows tells the caller whether it won.
\<close>

definition counter_below :: "int \<Rightarrow> device_row \<Rightarrow> bool" where
  "counter_below counter d \<longleftrightarrow> (case d_last_totp_counter d of None \<Rightarrow> True | Some l \<Rightarrow> l < counter)"

definition claim_counter :: "int \<Rightarrow> int \<Rightarrow> string \<Rightarrow> device_row list \<Rightarrow> nat \<times> device_row list" where
  "claim_counter t counter device_id ds =
     (let hit = (\<lambda>d. d_id d = device_id \<and> counter_below counter d)
      in (length (filter hit ds),
          map (\<lambda>d. if hit d then d\<lparr>d_last_used_at := Some t, d_last_totp_counter := Some counter\<rparr> else d) ds))"

definition update_device_counter :: "int \<Rightarrow> int \<Rightarrow> string \<Rightarrow> nat auth_handler" where
  "update_device_counter t counter device_id st =
     (let (rows, ds) = claim_counter t counter device_id (devices st) in (Inr rows, st\<lparr>devices := ds\<rparr>))"

fun verify_devices :: "'ip auth_env \<Rightarrow> string \<Rightarrow> device_row list \<Rightarrow> (device_row \<times> int) option auth_handler" where
  "verify_devices env code [] = h_return None"
| "verify_devices env code (device # rest) =
     h_bind (h_lift (decrypt_secret env (d_secret_ciphertext device))) (\<lambda>secret.
       case verify_totp_counter (hmac_sha1 env) secret code (now env) of
         None \<Rightarrow> verify_devices env code rest
       | Some counter \<Rightarrow>
           if \<not> counter_below counter device then verify_devices env code rest
           else h_bind (update_device_counter (now env) counter (d_id device)) (\<lambda>rows.
             if rows = 1 then h_return (Some (device, counter)) else verify_devices env code rest))"

definition verify_user_code :: "'ip auth_env \<Rightarrow> string \<Rightarrow> string \<Rightarrow> (device_row \<times> int) option auth_handler" where
  "verify_user_code env user_id code st =
     verify_devices env code (filter (\<lambda>d. d_user_id d = user_id) (devices st)) st"

definition session_of :: "admin_principal \<Rightarrow> auth_state \<Rightarrow> admin_session option" where
  "session_of p st = (case map_of (sessions st) (p_session_token p) of None \<Rightarrow> None
     | Some s \<Rightarrow> if s_user_id s = p_user_id p \<and> s_device_id s = p_device_id p then Some s else None)"

definition clear_login_counter_for_session :: "admin_principal \<Rightarrow> auth_state \<Rightarrow> auth_state" where
  "clear_login_counter_for_session p st = (case session_of p st of None \<Rightarrow> st
     | Some s \<Rightarrow> st\<lparr>sessions := AList.update (p_session_token p) (s\<lparr>s_login_totp_counter := None\<rparr>) (sessions st)\<rparr>)"

definition consume_login_counter_for_step_up :: "'ip auth_env \<Rightarrow> admin_principal \<Rightarrow> string \<Rightarrow> bool auth_handler" where
  "consume_login_counter_for_step_up env p code st =
     (case Option.bind (session_of p st) s_login_totp_counter of
        None \<Rightarrow> (Inr False, st)
      | Some allowed_counter \<Rightarrow>
          case filter (\<lambda>d. d_id d = p_device_id p \<and> d_user_id d = p_user_id p) (devices st) of
            [] \<Rightarrow> (Inr False, st)
          | device # _ \<Rightarrow>
              case decrypt_secret env (d_secret_ciphertext device) of
                Inl e \<Rightarrow> (Inl e, st)
              | Inr secret \<Rightarrow>
                  if verify_totp_counter (hmac_sha1 env) secret code (now env) \<noteq> Some allowed_counter
                  then (Inr False, st)
                  else (Inr True, clear_login_counter_for_session p st))"

definition step_up_key :: "string \<Rightarrow> string" where
  "step_up_key user_id = ''step-up:'' @ user_id"

text \<open>
  The tail of a failed check of an account: consult the limiter, record the failure in any case,
  answer 429 if the account was blocked and the given error otherwise.
\<close>

definition account_failure :: "int \<Rightarrow> string \<Rightarrow> app_error \<Rightarrow> 'a auth_handler" where
  "account_failure t key err st =
     (let (account_limit, st) = ensure_account_attempt_allowed t key st;
          (_, st) = record_account_auth_failure t key st
      in case account_limit of Inl e \<Rightarrow> (Inl e, st) | Inr _ \<Rightarrow> (Inl err, st))"

lemma account_failure_not_Inr [simp]: "account_failure t key err st \<noteq> (Inr x, st')"
  by (auto simp: account_failure_def Let_def split: prod.splits sum.splits)

definition verify_step_up :: "'ip auth_env \<Rightarrow> admin_principal \<Rightarrow> string \<Rightarrow> unit auth_handler" where
  "verify_step_up env p code =
     h_bind (verify_user_code env (p_user_id p) code) (\<lambda>found.
     h_bind (case found of
         Some _ \<Rightarrow> h_then (h_modify (clear_login_counter_for_session p)) (h_return True)
       | None \<Rightarrow> consume_login_counter_for_step_up env p code) (\<lambda>verified.
     if \<not> verified then
       account_failure (now env) (step_up_key (p_user_id p)) (app_error_new 401 ''wrong code'')
     else clear_account_auth_failures (step_up_key (p_user_id p))))"

definition verify_enrollment_code :: "'ip auth_env \<Rightarrow> enrollment_row \<Rightarrow> string \<Rightarrow> int option result" where
  "verify_enrollment_code env e code =
     try_bind (decrypt_secret env (e_secret_ciphertext e))
       (\<lambda>secret. Inr (verify_totp_counter (hmac_sha1 env) secret code (now env)))"

subsection \<open>Sessions and login\<close>

definition session_cookie :: "string \<Rightarrow> bool \<Rightarrow> string" where
  "session_cookie token secure_cookie =
     (let (cookie_name, secure) = (if secure_cookie then (SECURE_SESSION_COOKIE, ''; Secure'') else (SESSION_COOKIE, ''''))
      in cookie_name @ ''='' @ token @ ''; HttpOnly; SameSite=Strict; Path=/; Max-Age='' @
         dec_string (nat SESSION_MAX_AGE) @ secure)"

record login_response =
  lr_user_id :: string
  lr_username :: string
  lr_set_cookie :: string

definition session_response ::
  "'ip auth_env \<Rightarrow> string \<Rightarrow> string \<Rightarrow> string \<Rightarrow> string \<Rightarrow> int option \<Rightarrow> bool \<Rightarrow> login_response auth_handler" where
  "session_response env token user_id username device_id counter secure_cookie =
     h_then (h_modify (insert_session (now env) token user_id username device_id counter))
       (h_return \<lparr>lr_user_id = user_id, lr_username = username, lr_set_cookie = session_cookie token secure_cookie\<rparr>)"

definition login_failed :: app_error where
  "login_failed = app_error_new 401 ''wrong user name or code''"

definition admin_login ::
  "'ip auth_env \<Rightarrow> req_headers \<Rightarrow> 'ip \<Rightarrow> string \<Rightarrow> string \<Rightarrow> login_response auth_handler" where
  "admin_login env h peer username code =
     h_bind (h_lift (resolve_request_scheme (net env) h peer)) (\<lambda>scheme.
     h_bind (h_get auth_initialized) (\<lambda>initialized.
     h_then (h_guard initialized (app_error_new 409 ''initialise first''))
     (let source_key = login_attempt_key (net env) h peer in
     h_then (ensure_source_attempt_allowed (now env) source_key)
     (case validate_username username of
        Inl _ \<Rightarrow> h_then (record_source_auth_failure (now env) source_key) (h_fail login_failed)
      | Inr (_, normalized) \<Rightarrow>
     h_bind (h_get (\<lambda>st. filter (\<lambda>u. u_normalized u = normalized) (users st))) (\<lambda>rows.
     case filter (\<lambda>u. u_enabled u = 1) (take 1 rows) of
        [] \<Rightarrow> h_then (record_source_auth_failure (now env) source_key) (h_fail login_failed)
      | user # _ \<Rightarrow>
     let account_key = ''login:'' @ u_id user in
     h_bind (verify_user_code env (u_id user) code) (\<lambda>found.
     case found of
        None \<Rightarrow> h_then (record_source_auth_failure (now env) source_key)
          (account_failure (now env) account_key login_failed)
      | Some (device, counter) \<Rightarrow>
     h_then (clear_source_auth_failures source_key)
     (h_then (clear_account_auth_failures account_key)
     (h_then (write_action_log (u_username user) (Some (u_id user)) ''login'' (u_id user))
     (session_response env (uuid env 0) (u_id user) (u_username user) (d_id device) (Some counter)
        (scheme_is_secure scheme))))))))))"

definition admin_logout :: "'ip auth_env \<Rightarrow> string option \<Rightarrow> unit auth_handler" where
  "admin_logout env cookie st =
     (let (principal, st) = require_admin (now env) cookie st;
          st = fold revoke_session (session_tokens cookie) st
      in case principal of Inl _ \<Rightarrow> (Inr (), st)
         | Inr p \<Rightarrow> write_action_log (p_username p) (Some (p_user_id p)) ''logout'' (p_user_id p) st)"

definition admin_me :: "'ip auth_env \<Rightarrow> string option \<Rightarrow> (string \<times> string) option auth_handler" where
  "admin_me env cookie st = (case require_admin (now env) cookie st of
       (Inl _, st) \<Rightarrow> (Inr None, st) | (Inr p, st) \<Rightarrow> (Inr (Some (p_user_id p, p_username p)), st))"

end
