(* ===== verification/AdminAccounts.thy ===== *)
theory AdminAccounts
  imports AdminAuth
begin

text \<open>
  The second half of \<open>backend/src/admin_auth.rs\<close>: the bootstrap of the first administrator, the
  enrolment of users and authenticators, and the operations that can take a login away (disable,
  delete, revoke).  The central properties: no sequence of administrator requests removes the last
  account that can log in, and a bootstrap never succeeds once an account exists.
\<close>

record enrollment_response =
  er_id :: string
  er_username :: string
  er_device_name :: string
  er_expires_at :: int

definition insert_enrollment :: "enrollment_row \<Rightarrow> unit auth_handler" where
  "insert_enrollment e = h_modify (\<lambda>st. st\<lparr>enrollments := enrollments st @ [e]\<rparr>)"

definition insert_user :: "user_row \<Rightarrow> unit auth_handler" where
  "insert_user u st =
     (if \<exists>v \<in> set (users st). u_id v = u_id u \<or> u_normalized v = u_normalized u
      then (Inl (app_error_new 409 ''user exists''), st)
      else (Inr (), st\<lparr>users := users st @ [u]\<rparr>))"

definition insert_device :: "device_row \<Rightarrow> unit auth_handler" where
  "insert_device d = h_modify (\<lambda>st. st\<lparr>devices := devices st @ [d]\<rparr>)"

text \<open>\<open>DELETE ... RETURNING id\<close>: the first request to claim the enrolment wins.\<close>

definition claim_enrollment :: "string \<Rightarrow> app_error \<Rightarrow> unit auth_handler" where
  "claim_enrollment i conflict st =
     (if \<exists>e \<in> set (enrollments st). e_id e = i
      then (Inr (), delete_enrollments (\<lambda>e. e_id e = i) st) else (Inl conflict, st))"

definition bootstrap_start ::
  "'ip auth_env \<Rightarrow> req_headers \<Rightarrow> 'ip \<Rightarrow> string \<Rightarrow> string \<Rightarrow> enrollment_response auth_handler" where
  "bootstrap_start env h peer password username0 =
     (let attempt_key = bootstrap_attempt_key (net env) h peer ''start'' in
     h_then (ensure_source_attempt_allowed (now env) attempt_key)
     (h_bind (h_get auth_initialized) (\<lambda>initialized.
     h_then (h_guard (\<not> initialized) (app_error_new 409 ''already initialised''))
     (if admin_password env \<noteq> Some password
      then h_then (record_source_auth_failure (now env) attempt_key) (h_fail (app_error_new 401 ''wrong credentials''))
      else h_bind (h_lift (validate_username username0)) (\<lambda>(username, normalized).
     h_then (clear_source_auth_failures attempt_key)
     (h_then (h_modify (remove_expired_enrollments (now env)))
     (h_bind (h_lift (encrypt_secret env)) (\<lambda>ciphertext.
     h_then (h_modify (delete_enrollments (\<lambda>e. e_target_user_id e = None)))
     (h_then (insert_enrollment \<lparr>e_id = uuid env 0, e_target_user_id = None, e_username = username,
         e_normalized = normalized, e_device_name = ''Authenticator 1'', e_secret_ciphertext = ciphertext,
         e_created_by_user_id = None, e_created_at = now env, e_expires_at = now env + ENROLLMENT_MAX_AGE\<rparr>)
     (h_then (write_action_log username None ''bootstrap_start'' (uuid env 0))
     (h_return \<lparr>er_id = uuid env 0, er_username = username, er_device_name = ''Authenticator 1'',
         er_expires_at = now env + ENROLLMENT_MAX_AGE\<rparr>)))))))))))"

definition bootstrap_confirm ::
  "'ip auth_env \<Rightarrow> req_headers \<Rightarrow> 'ip \<Rightarrow> string \<Rightarrow> string \<Rightarrow> login_response auth_handler" where
  "bootstrap_confirm env h peer enrollment_id code =
     h_bind (h_lift (resolve_request_scheme (net env) h peer)) (\<lambda>scheme.
     let attempt_key = bootstrap_attempt_key (net env) h peer ''confirm'' in
     h_then (ensure_source_attempt_allowed (now env) attempt_key)
     (h_bind (h_get auth_initialized) (\<lambda>initialized.
     h_then (h_guard (\<not> initialized) (app_error_new 409 ''already initialised''))
     (h_bind (\<lambda>st. (load_enrollment enrollment_id st, st)) (\<lambda>e.
     h_then (h_guard (e_target_user_id e = None \<and> e_created_by_user_id e = None \<and> e_expires_at e > now env)
         (app_error_bad_request ''enrollment expired''))
     (h_bind (h_lift (verify_enrollment_code env e code)) (\<lambda>counter_opt.
     case counter_opt of
       None \<Rightarrow> h_then (record_source_auth_failure (now env) attempt_key) (h_fail (app_error_new 401 ''wrong code''))
     | Some totp_counter \<Rightarrow>
     h_then (h_transaction
       (h_then (claim_enrollment (e_id e) (app_error_new 409 ''code already used''))
       (h_bind (h_get (\<lambda>st. length (users st))) (\<lambda>count.
       h_then (h_guard (count = 0) (app_error_new 409 ''already initialised''))
       (h_then (insert_user \<lparr>u_id = uuid env 0, u_username = e_username e, u_normalized = e_normalized e,
           u_enabled = 1, u_created_at = now env\<rparr>)
       (h_then (insert_device \<lparr>d_id = uuid env 1, d_user_id = uuid env 0, d_name = e_device_name e,
           d_secret_ciphertext = e_secret_ciphertext e, d_created_at = now env,
           d_last_used_at = Some (now env), d_last_totp_counter = Some totp_counter\<rparr>)
       (h_modify (delete_enrollments (\<lambda>_. True)))))))))
     (h_then (clear_source_auth_failures attempt_key)
     (h_then (write_action_log (e_username e) (Some (uuid env 0)) ''initialize_auth'' (uuid env 0))
     (session_response env (uuid env 2) (uuid env 0) (e_username e) (uuid env 1) (Some totp_counter)
        (scheme_is_secure scheme)))))))))))"

definition create_enrollment ::
  "'ip auth_env \<Rightarrow> string option \<Rightarrow> string \<Rightarrow> string \<Rightarrow> admin_principal \<Rightarrow> enrollment_response auth_handler" where
  "create_enrollment env target username normalized p =
     h_bind (h_get (\<lambda>st. case target of None \<Rightarrow> 0
        | Some uid \<Rightarrow> length (filter (\<lambda>d. d_user_id d = uid) (devices st)))) (\<lambda>count.
     let device_name = ''Authenticator '' @ dec_string (count + 1) in
     h_bind (h_lift (encrypt_secret env)) (\<lambda>ciphertext.
     h_then (insert_enrollment \<lparr>e_id = uuid env 0, e_target_user_id = target, e_username = username,
         e_normalized = normalized, e_device_name = device_name, e_secret_ciphertext = ciphertext,
         e_created_by_user_id = Some (p_user_id p), e_created_at = now env,
         e_expires_at = now env + ENROLLMENT_MAX_AGE\<rparr>)
     (h_return \<lparr>er_id = uuid env 0, er_username = username, er_device_name = device_name,
         er_expires_at = now env + ENROLLMENT_MAX_AGE\<rparr>)))"

definition create_user_enrollment ::
  "'ip auth_env \<Rightarrow> string option \<Rightarrow> string \<Rightarrow> string \<Rightarrow> enrollment_response auth_handler" where
  "create_user_enrollment env cookie username0 current_code =
     h_bind (require_admin (now env) cookie) (\<lambda>p.
     h_then (verify_step_up env p current_code)
     (h_bind (h_lift (validate_username username0)) (\<lambda>(username, normalized).
     h_then (h_modify (remove_expired_enrollments (now env)))
     (h_bind (h_get (\<lambda>st. (\<exists>u \<in> set (users st). u_normalized u = normalized) \<or>
         (\<exists>e \<in> set (enrollments st). e_normalized e = normalized \<and> e_expires_at e > now env))) (\<lambda>taken.
     h_then (h_guard (\<not> taken) (app_error_new 409 ''user exists or awaits confirmation''))
     (h_bind (create_enrollment env None username normalized p) (\<lambda>response.
     h_then (write_action_log (p_username p) (Some (p_user_id p)) ''create_user_enrollment'' (er_id response))
     (h_return response))))))))"

definition create_device_enrollment ::
  "'ip auth_env \<Rightarrow> string option \<Rightarrow> string \<Rightarrow> string \<Rightarrow> enrollment_response auth_handler" where
  "create_device_enrollment env cookie user_id current_code =
     h_bind (require_admin (now env) cookie) (\<lambda>p.
     h_then (verify_step_up env p current_code)
     (h_bind (\<lambda>st. (load_user user_id st, st)) (\<lambda>user.
     h_then (h_modify (remove_expired_enrollments (now env)))
     (h_bind (create_enrollment env (Some (u_id user)) (u_username user) (to_ascii_lowercase (u_username user)) p) (\<lambda>response.
     h_then (write_action_log (p_username p) (Some (p_user_id p)) ''create_device_enrollment'' (er_id response))
     (h_return response))))))"

text \<open>The listing at the end of a confirmation, without the row order of \<open>ORDER BY\<close>.\<close>

definition admin_users ::
  "'ip auth_env \<Rightarrow> string option \<Rightarrow> ((user_row \<times> device_row list) list \<times> enrollment_row list) auth_handler" where
  "admin_users env cookie =
     h_bind (require_admin (now env) cookie) (\<lambda>_.
     h_then (h_modify (remove_expired_enrollments (now env)))
     (h_get (\<lambda>st. (map (\<lambda>u. (u, filter (\<lambda>d. d_user_id d = u_id u) (devices st))) (users st),
        filter (\<lambda>e. e_expires_at e > now env) (enrollments st)))))"

definition confirm_admin_enrollment ::
  "'ip auth_env \<Rightarrow> string option \<Rightarrow> string \<Rightarrow> string \<Rightarrow>
     ((user_row \<times> device_row list) list \<times> enrollment_row list) auth_handler" where
  "confirm_admin_enrollment env cookie enrollment_id code =
     h_bind (require_admin (now env) cookie) (\<lambda>p.
     h_bind (\<lambda>st. (load_enrollment enrollment_id st, st)) (\<lambda>e.
     h_then (h_guard (e_created_by_user_id e \<noteq> None \<and> e_expires_at e > now env)
        (app_error_bad_request ''enrollment expired''))
     (h_bind (h_lift (verify_enrollment_code env e code)) (\<lambda>counter_opt.
     case counter_opt of
       None \<Rightarrow> h_fail (app_error_new 401 ''wrong code of the new device'')
     | Some totp_counter \<Rightarrow>
     h_then (h_transaction
       (h_then (claim_enrollment (e_id e) (app_error_new 409 ''code already used''))
       (h_bind (case e_target_user_id e of
            Some uid \<Rightarrow> h_bind (h_get (\<lambda>st. \<exists>u \<in> set (users st). u_id u = uid)) (\<lambda>exists.
               h_then (h_guard exists (app_error_new 404 ''target user not found'')) (h_return uid))
          | None \<Rightarrow> h_then (insert_user \<lparr>u_id = uuid env 1, u_username = e_username e,
               u_normalized = e_normalized e, u_enabled = 1, u_created_at = now env\<rparr>) (h_return (uuid env 1))) (\<lambda>user_id.
       h_then (insert_device \<lparr>d_id = uuid env 0, d_user_id = user_id, d_name = e_device_name e,
           d_secret_ciphertext = e_secret_ciphertext e, d_created_at = now env,
           d_last_used_at = Some (now env), d_last_totp_counter = Some totp_counter\<rparr>)
       (h_modify (delete_enrollments (\<lambda>x. e_id x = e_id e)))))))
     (h_then (write_action_log (p_username p) (Some (p_user_id p)) ''confirm_authenticator'' (uuid env 0))
     (admin_users env cookie))))))"

definition cancel_admin_enrollment :: "'ip auth_env \<Rightarrow> string option \<Rightarrow> string \<Rightarrow> string \<Rightarrow> unit auth_handler" where
  "cancel_admin_enrollment env cookie enrollment_id current_code =
     h_bind (require_admin (now env) cookie) (\<lambda>p.
     h_then (verify_step_up env p current_code)
     (h_bind (\<lambda>st. (load_enrollment enrollment_id st, st)) (\<lambda>_.
     h_then (h_modify (delete_enrollments (\<lambda>e. e_id e = enrollment_id)))
     (write_action_log (p_username p) (Some (p_user_id p)) ''cancel_authenticator_enrollment'' enrollment_id))))"

definition set_user_enabled :: "bool \<Rightarrow> string \<Rightarrow> auth_state \<Rightarrow> auth_state" where
  "set_user_enabled enabled uid st =
     st\<lparr>users := map (\<lambda>u. if u_id u = uid then u\<lparr>u_enabled := (if enabled then 1 else 0)\<rparr> else u) (users st)\<rparr>"

definition set_admin_user_enabled ::
  "'ip auth_env \<Rightarrow> string option \<Rightarrow> string \<Rightarrow> bool \<Rightarrow> string \<Rightarrow> unit auth_handler" where
  "set_admin_user_enabled env cookie user_id enabled current_code =
     h_bind (require_admin (now env) cookie) (\<lambda>p.
     h_then (verify_step_up env p current_code)
     (h_bind (\<lambda>st. (load_user user_id st, st)) (\<lambda>target.
     h_then (h_guard (enabled \<or> p_user_id p \<noteq> u_id target) (app_error_bad_request ''cannot disable yourself''))
     (h_then (h_transaction (h_then
        (if enabled then
           h_bind (h_get (\<lambda>st. length (filter (\<lambda>d. d_user_id d = u_id target) (devices st)))) (\<lambda>n.
             h_guard (n \<noteq> 0) (app_error_bad_request ''user has no authenticator''))
         else ensure_other_login_path (Some (u_id target)) None)
        (h_modify (set_user_enabled enabled (u_id target)))))
     (h_then (if enabled then h_return () else h_modify (revoke_user_sessions (u_id target)))
     (write_action_log (p_username p) (Some (p_user_id p))
        (if enabled then ''enable_user'' else ''disable_user'') (u_id target)))))))"

text \<open>Deleting a user cascades to its devices and enrolments and clears the creator references.\<close>

definition delete_user_row :: "string \<Rightarrow> auth_state \<Rightarrow> auth_state" where
  "delete_user_row uid st =
     st\<lparr>users := filter (\<lambda>u. u_id u \<noteq> uid) (users st),
        devices := filter (\<lambda>d. d_user_id d \<noteq> uid) (devices st),
        enrollments := map (\<lambda>e. if e_created_by_user_id e = Some uid then e\<lparr>e_created_by_user_id := None\<rparr> else e)
          (filter (\<lambda>e. e_target_user_id e \<noteq> Some uid) (enrollments st))\<rparr>"

definition delete_admin_user :: "'ip auth_env \<Rightarrow> string option \<Rightarrow> string \<Rightarrow> string \<Rightarrow> unit auth_handler" where
  "delete_admin_user env cookie user_id current_code =
     h_bind (require_admin (now env) cookie) (\<lambda>p.
     h_then (verify_step_up env p current_code)
     (h_bind (\<lambda>st. (load_user user_id st, st)) (\<lambda>target.
     h_then (h_guard (p_user_id p \<noteq> u_id target) (app_error_bad_request ''cannot delete yourself''))
     (h_then (h_transaction (h_then (ensure_other_login_path (Some (u_id target)) None)
        (h_modify (delete_user_row (u_id target)))))
     (h_then (h_modify (revoke_user_sessions (u_id target)))
     (write_action_log (p_username p) (Some (p_user_id p)) ''delete_user'' (u_id target)))))))"

definition revoke_authenticator_device :: "'ip auth_env \<Rightarrow> string option \<Rightarrow> string \<Rightarrow> string \<Rightarrow> unit auth_handler" where
  "revoke_authenticator_device env cookie device_id current_code =
     h_bind (require_admin (now env) cookie) (\<lambda>p.
     h_then (verify_step_up env p current_code)
     (h_bind (h_get (\<lambda>st. filter (\<lambda>d. d_id d = device_id) (devices st))) (\<lambda>rows.
     case rows of
       [] \<Rightarrow> h_fail (app_error_new 404 ''device not found'')
     | device # _ \<Rightarrow>
     h_bind (\<lambda>st. (load_user (d_user_id device) st, st)) (\<lambda>user.
     h_then (h_transaction (h_then (ensure_other_login_path None (Some (d_id device)))
        (h_modify (\<lambda>st. st\<lparr>devices := filter (\<lambda>d. d_id d \<noteq> d_id device) (devices st)\<rparr>))))
     (h_then (h_modify (revoke_device_sessions (d_id device)))
     (write_action_log (p_username p) (Some (p_user_id p)) ''revoke_authenticator'' (d_id device)))))))"

definition reset_admin_auth :: "unit auth_handler" where
  "reset_admin_auth = h_then
     (h_modify (\<lambda>st. st\<lparr>enrollments := [], devices := [], users := []\<rparr>))
     (write_action_log ''system'' None ''reset_admin_auth'' ''authentication'')"

end
