(* ===== verification/AdminSafety.thy ===== *)
theory AdminSafety
  imports AdminAccounts
begin

text \<open>
  Safety of the administrator accounts over whole request sequences: the last account that can log
  in stays, sessions and revocation channels stay consistent, a one-time code wins at most once, and
  a disabled or deleted user loses every session.
\<close>

subsection \<open>Invariants of the account state\<close>

text \<open>The requests of the API, in the order of the router; \<open>env\<close> and headers vary from one to the next.\<close>

datatype 'ip admin_request =
    Login "'ip auth_env" req_headers 'ip string string
  | Logout "'ip auth_env" "string option"
  | Me "'ip auth_env" "string option"
  | BootstrapStart "'ip auth_env" req_headers 'ip string string
  | BootstrapConfirm "'ip auth_env" req_headers 'ip string string
  | ListUsers "'ip auth_env" "string option"
  | CreateUserEnrollment "'ip auth_env" "string option" string string
  | CreateDeviceEnrollment "'ip auth_env" "string option" string string
  | ConfirmEnrollment "'ip auth_env" "string option" string string
  | CancelEnrollment "'ip auth_env" "string option" string string
  | SetUserEnabled "'ip auth_env" "string option" string bool string
  | DeleteUser "'ip auth_env" "string option" string string
  | RevokeDevice "'ip auth_env" "string option" string string
  | CheckGuard int admin_session_guard

fun admin_step :: "'ip admin_request \<Rightarrow> auth_state \<Rightarrow> auth_state" where
  "admin_step (Login env h p u c) st = snd (admin_login env h p u c st)"
| "admin_step (Logout env ck) st = snd (admin_logout env ck st)"
| "admin_step (Me env ck) st = snd (admin_me env ck st)"
| "admin_step (BootstrapStart env h p pw u) st = snd (bootstrap_start env h p pw u st)"
| "admin_step (BootstrapConfirm env h p i c) st = snd (bootstrap_confirm env h p i c st)"
| "admin_step (ListUsers env ck) st = snd (admin_users env ck st)"
| "admin_step (CreateUserEnrollment env ck u c) st = snd (create_user_enrollment env ck u c st)"
| "admin_step (CreateDeviceEnrollment env ck u c) st = snd (create_device_enrollment env ck u c st)"
| "admin_step (ConfirmEnrollment env ck i c) st = snd (confirm_admin_enrollment env ck i c st)"
| "admin_step (CancelEnrollment env ck i c) st = snd (cancel_admin_enrollment env ck i c st)"
| "admin_step (SetUserEnabled env ck i b c) st = snd (set_admin_user_enabled env ck i b c st)"
| "admin_step (DeleteUser env ck i c) st = snd (delete_admin_user env ck i c st)"
| "admin_step (RevokeDevice env ck i c) st = snd (revoke_authenticator_device env ck i c st)"
| "admin_step (CheckGuard t g) st = snd (admin_session_is_valid t g st)"

text \<open>
  What an invariant of the accounts has to survive: the primitive updates the handlers are made of.
  The removals come with the check the code makes in the same transaction.  Every request then
  keeps it.
\<close>

locale account_invariant =
  fixes P :: "auth_state \<Rightarrow> bool"
  assumes P_insert_session: "P st \<Longrightarrow> P (insert_session t tok a b c login st)"
    and P_revoke: "P st \<Longrightarrow> P (revoke_session tok st)"
    and P_retain: "P st \<Longrightarrow> P (revoke_matching_sessions q st)"
    and P_clear_counter: "P st \<Longrightarrow> P (clear_login_counter_for_session p st)"
    and P_source: "P st \<Longrightarrow> P (st\<lparr>source_attempts := attempt_step (Some MAX_AUTH_SOURCE_KEYS) e (source_attempts st)\<rparr>)"
    and P_account: "P st \<Longrightarrow> P (st\<lparr>account_attempts := attempt_step None e (account_attempts st)\<rparr>)"
    and P_log: "P st \<Longrightarrow> P (st\<lparr>action_log := l\<rparr>)"
    and P_enrollments: "P st \<Longrightarrow> P (st\<lparr>enrollments := es\<rparr>)"
    and P_claim: "P st \<Longrightarrow> P (st\<lparr>devices := snd (claim_counter t n i (devices st))\<rparr>)"
    and P_add_user: "P st \<Longrightarrow> P (st\<lparr>users := users st @ [u]\<rparr>)"
    and P_add_device: "P st \<Longrightarrow> P (st\<lparr>devices := devices st @ [d]\<rparr>)"
    and P_enable: "P st \<Longrightarrow> P (set_user_enabled True i st)"
    and P_disable: "P st \<Longrightarrow> other_login_paths (Some i) None st \<noteq> [] \<Longrightarrow> P (set_user_enabled False i st)"
    and P_delete: "P st \<Longrightarrow> other_login_paths (Some i) None st \<noteq> [] \<Longrightarrow> P (delete_user_row i st)"
    and P_revoke_device: "P st \<Longrightarrow> other_login_paths None (Some i) st \<noteq> [] \<Longrightarrow>
      P (st\<lparr>devices := filter (\<lambda>d. d_id d \<noteq> i) (devices st)\<rparr>)"
begin

lemma inv_require_admin [keeps_intros]: "keeps P (require_admin t c)"
  by (auto simp: keeps_def require_admin_def Let_def split: option.splits intro: P_retain P_revoke)

lemma inv_ensure [keeps_intros]:
  "keeps P (ensure_source_attempt_allowed t k)" "keeps P (ensure_account_attempt_allowed t k)"
  using P_source [of _ "Check t k"] P_account [of _ "Check t k"]
  by (auto simp: keeps_def ensure_source_attempt_allowed_def ensure_account_attempt_allowed_def Let_def split_def)

lemma inv_record [keeps_intros]:
  "keeps P (record_source_auth_failure t k)" "keeps P (record_account_auth_failure t k)"
  using P_source [of _ "Failure t k"] P_account [of _ "Failure t k"]
  by (auto simp: keeps_def record_source_auth_failure_def record_account_auth_failure_def h_modify_def)

lemma inv_clear [keeps_intros]:
  "keeps P (clear_source_auth_failures k)" "keeps P (clear_account_auth_failures k)"
  using P_source [of _ "Clear k"] P_account [of _ "Clear k"]
  by (auto simp: keeps_def clear_source_auth_failures_def clear_account_auth_failures_def h_modify_def)

lemma inv_modify [keeps_intros]:
  "keeps P (write_action_log a u x y)"
  "keeps P (h_modify (clear_login_counter_for_session p))"
  "keeps P (h_modify (delete_enrollments q))"
  "keeps P (h_modify (remove_expired_enrollments t))"
  "keeps P (h_modify (revoke_user_sessions i))"
  "keeps P (h_modify (revoke_device_sessions i))"
  "keeps P (h_modify (insert_session t a b cc d n))"
  "keeps P (insert_enrollment e)"
  "keeps P (h_modify (set_user_enabled True i))"
  by (auto simp: keeps_def h_modify_def write_action_log_def delete_enrollments_def remove_expired_enrollments_def
      revoke_user_sessions_def revoke_device_sessions_def insert_enrollment_def
      intro: P_log P_clear_counter P_enrollments P_retain P_insert_session P_enable)

lemma inv_consume [keeps_intros]: "keeps P (consume_login_counter_for_step_up env p code)"
  by (auto simp: keeps_def consume_login_counter_for_step_up_def
      split: option.splits list.splits sum.splits intro: P_clear_counter)

lemma inv_update_device [keeps_intros]: "keeps P (update_device_counter t c i)"
  using P_claim by (simp add: keeps_def update_device_counter_def Let_def split_def)

lemma inv_verify_devices [keeps_intros]: "keeps P (verify_devices env code ds)"
proof (induction ds)
  case Nil
  show ?case by (simp add: keeps_return)
next
  case (Cons d ds)
  then show ?case unfolding verify_devices.simps by (intro keeps_intros) auto
qed

lemma inv_verify_user_code [keeps_intros]: "keeps P (verify_user_code env uid code)"
  using inv_verify_devices unfolding keeps_def verify_user_code_def by blast

lemma inv_limited [keeps_intros]: "keeps P (account_failure t k err)"
  using inv_ensure(2) inv_record(2)
  by (auto simp: keeps_def account_failure_def Let_def split_def split: sum.splits)

lemma inv_verify_step_up [keeps_intros]: "keeps P (verify_step_up env p code)"
  unfolding verify_step_up_def by (intro keeps_intros)

lemma inv_insert [keeps_intros]:
  "keeps P (insert_user u)" "keeps P (insert_device d)" "keeps P (claim_enrollment i e)"
  by (auto simp: keeps_def insert_user_def insert_device_def h_modify_def claim_enrollment_def
      delete_enrollments_def intro: P_add_user P_add_device P_enrollments)

lemma inv_login: "keeps P (admin_login env h peer un code)"
  unfolding admin_login_def session_response_def by (intro keeps_intros)

lemma inv_fold_revoke: "P st \<Longrightarrow> P (fold revoke_session ts st)"
  by (induction ts arbitrary: st) (auto intro: P_revoke)

lemma inv_logout: "keeps P (admin_logout env c)"
  using inv_require_admin inv_modify(1) inv_fold_revoke
  by (auto simp: keeps_def admin_logout_def Let_def split_def split: sum.splits)

lemma inv_me: "keeps P (admin_me env c)"
  using inv_require_admin [of "now env" c]
  by (auto simp: keeps_def admin_me_def split: sum.splits prod.splits dest: keepsD)

lemma inv_admin_users [keeps_intros]: "keeps P (admin_users env c)"
  unfolding admin_users_def by (intro keeps_intros)

lemma inv_create_enrollment [keeps_intros]: "keeps P (create_enrollment env t un nm p)"
  unfolding create_enrollment_def by (intro keeps_intros)

lemma inv_enrolments:
  "keeps P (bootstrap_start env h peer pw un)"
  "keeps P (bootstrap_confirm env h peer i code)"
  "keeps P (create_user_enrollment env c un code)"
  "keeps P (create_device_enrollment env c un code)"
  "keeps P (confirm_admin_enrollment env c un code)"
  "keeps P (cancel_admin_enrollment env c un code)"
  by (unfold bootstrap_start_def bootstrap_confirm_def create_user_enrollment_def create_device_enrollment_def
      confirm_admin_enrollment_def cancel_admin_enrollment_def session_response_def; intro keeps_intros)+

lemma inv_guarded:
  assumes "\<And>st. P st \<Longrightarrow> other_login_paths eu ed st \<noteq> [] \<Longrightarrow> P (f st)"
  shows "keeps P (h_transaction (h_then (ensure_other_login_path eu ed) (h_modify f)))"
  using assms by (auto simp: keeps_def h_transaction_def handler_simps ensure_other_login_path_def)

lemma inv_removals:
  "keeps P (delete_admin_user env c i code)"
  "keeps P (revoke_authenticator_device env c i code)"
  by (unfold delete_admin_user_def revoke_authenticator_device_def;
      intro keeps_intros inv_guarded; simp add: P_delete P_revoke_device)+

lemma inv_set_enabled: "keeps P (set_admin_user_enabled env c i en code)"
proof (cases en)
  case True
  then show ?thesis unfolding set_admin_user_enabled_def by simp (intro keeps_intros)
next
  case False
  then show ?thesis
    unfolding set_admin_user_enabled_def by simp (intro keeps_intros inv_guarded; simp add: P_disable)
qed

lemma inv_guard_check: "P st \<Longrightarrow> P (snd (admin_session_is_valid t g st))"
  by (auto simp: admin_session_is_valid_def split: option.splits intro: P_revoke)

lemmas inv_requests = inv_login inv_logout inv_me inv_enrolments inv_admin_users inv_removals inv_set_enabled

lemma request_inv: "P st \<Longrightarrow> P (admin_step r st)"
  by (cases r) (simp_all add: inv_requests [THEN keeps_snd] inv_guard_check)

lemma requests_inv: "P st \<Longrightarrow> P (fold admin_step rs st)"
  by (induction rs arbitrary: st) (simp_all add: request_inv)

end

sublocale account_invariant \<subseteq> api: invariant_machine admin_step P
  by unfold_locales (rule request_inv)

subsection \<open>An account that can log in\<close>

definition has_login_path :: "auth_state \<Rightarrow> bool" where
  "has_login_path st \<longleftrightarrow> (\<exists>u \<in> set (users st). \<exists>d \<in> set (devices st). u_id u = d_user_id d \<and> u_enabled u = 1)"

lemma other_login_paths_Nil:
  "other_login_paths eu ed st = [] \<longleftrightarrow>
     \<not> (\<exists>d \<in> set (devices st). \<exists>u \<in> set (users st). u_id u = d_user_id d \<and> u_enabled u = 1 \<and>
          (\<forall>x. eu = Some x \<longrightarrow> u_id u \<noteq> x) \<and> (\<forall>x. ed = Some x \<longrightarrow> d_id d \<noteq> x))"
  by (cases eu; cases ed) (auto simp: other_login_paths_def)

lemma lp_claim: "has_login_path st \<Longrightarrow> has_login_path (st\<lparr>devices := snd (claim_counter t c i (devices st))\<rparr>)"
proof -
  assume p: "has_login_path st"
  let ?g = "\<lambda>d. if d_id d = i \<and> counter_below c d
      then d\<lparr>d_last_used_at := Some t, d_last_totp_counter := Some c\<rparr> else d"
  from p obtain u d where ud: "u \<in> set (users st)" "d \<in> set (devices st)" "u_id u = d_user_id d" "u_enabled u = 1"
    by (auto simp: has_login_path_def)
  have "?g d \<in> set (snd (claim_counter t c i (devices st)))"
    unfolding claim_counter_def Let_def snd_conv set_map using ud(2) by (rule imageI)
  moreover have "d_user_id (?g d) = d_user_id d" by simp
  ultimately have "\<exists>d' \<in> set (snd (claim_counter t c i (devices st))). u_id u = d_user_id d'"
    using ud(3) by metis
  then show ?thesis using ud(1,4) by (auto simp: has_login_path_def)
qed

lemma clear_login_counter_tables [simp]:
  "users (clear_login_counter_for_session p st) = users st"
  "devices (clear_login_counter_for_session p st) = devices st"
  by (auto simp: clear_login_counter_for_session_def split: option.splits)

lemma lp_disable: "other_login_paths (Some i) None st \<noteq> [] \<Longrightarrow> has_login_path (set_user_enabled False i st)"
  by (fastforce simp: other_login_paths_Nil has_login_path_def set_user_enabled_def)

lemma lp_enable: "has_login_path st \<Longrightarrow> has_login_path (set_user_enabled True i st)"
  by (force simp: has_login_path_def set_user_enabled_def)

lemma lp_delete: "other_login_paths (Some i) None st \<noteq> [] \<Longrightarrow> has_login_path (delete_user_row i st)"
  by (fastforce simp: other_login_paths_Nil has_login_path_def delete_user_row_def)

lemma lp_revoke: "other_login_paths None (Some i) st \<noteq> [] \<Longrightarrow>
    has_login_path (st\<lparr>devices := filter (\<lambda>d. d_id d \<noteq> i) (devices st)\<rparr>)"
  by (fastforce simp: other_login_paths_Nil has_login_path_def)

interpretation login_path: account_invariant has_login_path
proof unfold_locales
  fix st t n i
  show "has_login_path st \<Longrightarrow> has_login_path (st\<lparr>devices := snd (claim_counter t n i (devices st))\<rparr>)"
    by (rule lp_claim)
qed (auto simp: lp_enable lp_disable lp_delete lp_revoke, auto simp: has_login_path_def)

text \<open>
  C1: no lock-out: once some enabled administrator owns an authenticator, no sequence of API
  requests (disabling, deleting, revoking, enrolling, logging in, in any order and by any caller)
  leads to a state in which nobody can log in.
\<close>

theorem login_path_never_lost:
  assumes "has_login_path st"
  shows "has_login_path (fold admin_step (rs :: 'ip admin_request list) st)"
  using assms by (rule login_path.requests_inv)

definition zero_hmac :: "bytes \<Rightarrow> bytes \<Rightarrow> bytes" where "zero_hmac k m = replicate 20 0"

lemma zero_code: "totp_code zero_hmac s c = ''000000''"
proof -
  have "totp_binary (replicate 20 0) = 0" by (simp add: totp_binary_def Let_def)
  moreover have "zero_padded 6 0 = ''000000''" by code_simp
  ultimately show ?thesis by (simp add: totp_code_def zero_hmac_def)
qed

lemma zero_code_verifies: "0 \<le> ts \<Longrightarrow> ts \<le> i64_max \<Longrightarrow> verify_totp_counter zero_hmac s ''000000'' ts = Some (ts div 30)"
  using totp_current_code_accepted [of ts zero_hmac s] by (simp add: zero_code)

definition demo_env :: "nat auth_env" where
  "demo_env = \<lparr>now = 1700000000, net = demo_config, admin_password = Some ''pw'', hmac_sha1 = zero_hmac,
     encrypt = (\<lambda>_. Some ''cipher''), decrypt = (\<lambda>_. Some [1, 2]), uuid = (\<lambda>n. ''id'' @ dec_string n), new_secret = [1, 2]\<rparr>"

definition demo_auth_state :: auth_state where
  "demo_auth_state = \<lparr>sessions = [(''tok'', \<lparr>s_user_id = ''u1'', s_username = ''root'', s_device_id = ''d1'',
       s_login_totp_counter = Some 56666665, s_expires_at = 1700001000, s_revoked_tx = 0\<rparr>)],
     revoked_chans = [], next_chan = 1, source_attempts = [], account_attempts = [],
     users = [\<lparr>u_id = ''u1'', u_username = ''root'', u_normalized = ''root'', u_enabled = 1, u_created_at = 1\<rparr>,
       \<lparr>u_id = ''u2'', u_username = ''Eve'', u_normalized = ''eve'', u_enabled = 1, u_created_at = 2\<rparr>],
     devices = [\<lparr>d_id = ''d1'', d_user_id = ''u1'', d_name = ''Authenticator 1'', d_secret_ciphertext = ''cipher'',
       d_created_at = 1, d_last_used_at = None, d_last_totp_counter = Some 56666664\<rparr>,
       \<lparr>d_id = ''d2'', d_user_id = ''u2'', d_name = ''Authenticator 1'', d_secret_ciphertext = ''cipher'',
       d_created_at = 2, d_last_used_at = None, d_last_totp_counter = None\<rparr>],
     enrollments = [], action_log = []\<rparr>"

theorem login_path_never_lost_witness:
  "has_login_path (fold admin_step
     [DeleteUser demo_env (Some ''om_session=tok'') ''u1'' ''000000'',
      RevokeDevice demo_env (Some ''om_session=tok'') ''d1'' ''000000''] demo_auth_state)"
  by (rule login_path_never_lost) (simp add: has_login_path_def demo_auth_state_def)

text \<open>
  The bootstrap is over once an account exists: confirming an enrolment with the bootstrap
  password's QR code then fails and changes neither accounts nor sessions.
\<close>

theorem bootstrap_closed_after_init:
  assumes "users st \<noteq> []"
  shows "\<exists>e. fst (bootstrap_confirm env h peer i code st) = Inl e \<and>
     users (snd (bootstrap_confirm env h peer i code st)) = users st \<and>
     devices (snd (bootstrap_confirm env h peer i code st)) = devices st \<and>
     sessions (snd (bootstrap_confirm env h peer i code st)) = sessions st"
  using assms
  by (auto simp: bootstrap_confirm_def handler_simps ensure_source_attempt_allowed_def auth_initialized_def
      Let_def split: sum.splits prod.splits if_splits)

theorem bootstrap_closed_after_init_witness:
  "\<exists>e. fst (bootstrap_confirm demo_env demo_headers 1 ''id0'' ''123456'' demo_auth_state) = Inl e"
  using bootstrap_closed_after_init [of demo_auth_state demo_env demo_headers 1 "''id0''" "''123456''"]
  by (auto simp: demo_auth_state_def)

subsection \<open>Sessions\<close>

lemma sessions_inv_clear_counter:
  assumes "sessions_inv st"
  shows "sessions_inv (clear_login_counter_for_session p st)"
proof (cases "session_of p st")
  case None
  with assms show ?thesis by (simp add: clear_login_counter_for_session_def)
next
  case (Some s)
  let ?f = "\<lambda>(_, s). s_revoked_tx s"
  let ?new = "AList.update (p_session_token p) (s\<lparr>s_login_totp_counter := None\<rparr>) (sessions st)"
  have m: "map_of (sessions st) (p_session_token p) = Some s"
    using Some by (auto simp: session_of_def split: option.splits if_splits)
  have same: "map ?f (AList.update k v m) = map ?f m"
    if "map_of m k = Some s" "s_revoked_tx v = s_revoked_tx s" for k m and v :: admin_session
    using that by (induction m) auto
  have "map ?f ?new = map ?f (sessions st)" by (rule same [OF m]) simp
  moreover have "x = (p_session_token p, s\<lparr>s_login_totp_counter := None\<rparr>) \<or> x \<in> set (sessions st)" if "x \<in> set ?new" for x
    using that by (rule set_alist_update)
  ultimately show ?thesis
    using assms Some map_of_SomeD [OF m]
    by (fastforce simp: sessions_inv_def clear_login_counter_for_session_def)
qed

interpretation session_map: account_invariant sessions_inv
  by unfold_locales
    (simp_all add: sessions_inv_insert sessions_inv_revoke sessions_inv_retain sessions_inv_clear_counter,
     auto simp: sessions_inv_def set_user_enabled_def delete_user_row_def)

definition chan_revoked :: "nat \<Rightarrow> auth_state \<Rightarrow> bool" where
  "chan_revoked c st \<longleftrightarrow> c \<in> set (revoked_chans st)"

interpretation revocation: account_invariant "chan_revoked c" for c
  by unfold_locales
    (auto simp: chan_revoked_def revoked_mono [THEN subsetD] insert_session_def clear_login_counter_for_session_def set_user_enabled_def
      delete_user_row_def split: option.splits)

text \<open>
  revocation is final: once the channel of a guard holds \<open>true\<close> (its session was revoked, or
  its user disabled, or its device revoked), the guard of an open WebSocket never becomes valid
  again, whatever requests follow.
\<close>

theorem revoked_guard_stays_invalid:
  assumes "g_revoked_rx g \<in> set (revoked_chans st)"
  shows "fst (admin_session_is_valid t g (fold admin_step (rs :: 'ip admin_request list) st)) = False"
proof -
  have "chan_revoked (g_revoked_rx g) (fold admin_step rs st)"
    using assms by (intro revocation.requests_inv) (simp add: chan_revoked_def)
  then show ?thesis by (simp add: admin_session_is_valid_def chan_revoked_def)
qed

definition demo_guard :: admin_session_guard where
  "demo_guard = \<lparr>g_token = ''tok'', g_user_id = ''u1'', g_device_id = ''d1'', g_expires_at = 1700001000, g_revoked_rx = 0\<rparr>"

theorem revoked_guard_stays_invalid_witness:
  "fst (admin_session_is_valid 1700000000 demo_guard (fold admin_step
     [Login demo_env demo_headers 1 ''root'' ''123456''] (revoke_session ''tok'' demo_auth_state))) = False"
  by (rule revoked_guard_stays_invalid)
    (simp add: demo_guard_def revoke_session_def demo_auth_state_def)

subsection \<open>Losing access\<close>

text \<open>A user without a row that lets it log in, and without a session.\<close>

definition locked_out :: "string \<Rightarrow> auth_state \<Rightarrow> bool" where
  "locked_out uid st \<longleftrightarrow> (\<forall>d. \<not> login_row_exists uid d st) \<and> (\<forall>(t, s) \<in> set (sessions st). s_user_id s \<noteq> uid)"

lemma load_user_Inr: "load_user uid st = Inr u \<Longrightarrow> u_id u = uid \<and> u \<in> set (users st)"
  by (auto simp: load_user_def split: list.splits dest: filter_eq_ConsD)

lemma locked_out_after_revoke:
  "(\<And>d. \<not> login_row_exists uid d st) \<Longrightarrow> locked_out uid (revoke_user_sessions uid st)"
  by (auto simp: locked_out_def revoke_user_sessions_def login_row_exists_def)
    (auto simp: revoke_matching_sessions_def set_retain)

lemma locked_out_log: "locked_out uid st \<Longrightarrow> locked_out uid (snd (write_action_log a b c d st))"
  by (simp add: locked_out_def write_action_log_def h_modify_def login_row_exists_def)

lemma locked_out_no_principal:
  assumes "locked_out uid st" "require_admin t c st = (Inr p, st')"
  shows "p_user_id p \<noteq> uid"
  using assms by (auto simp: require_admin_def Let_def locked_out_def split: option.splits if_splits)
    (auto simp: login_row_exists_def)

lemma locked_out_no_guard:
  assumes "locked_out uid st" "g_user_id g = uid"
  shows "fst (admin_session_is_valid t g st) = False"
  using assms by (auto simp: admin_session_is_valid_def locked_out_def split: option.splits)

lemma not_login_row: "(\<And>u. u \<in> set (users st) \<Longrightarrow> u_id u = uid \<Longrightarrow> u_enabled u \<noteq> 1) \<Longrightarrow> \<not> login_row_exists uid d st"
  by (auto simp: login_row_exists_def)

lemma log_Inr: "write_action_log a b c d st = (Inr u, st') \<Longrightarrow> st' = snd (write_action_log a b c d st)"
  by simp

lemma removal_locks_out:
  assumes "load_user uid s0 = Inr x" "\<And>s d. \<not> login_row_exists uid d (f uid s)"
    and "write_action_log a b e (u_id x) (revoke_user_sessions (u_id x) (f (u_id x) s1)) = (Inr (), st')"
  shows "locked_out uid st'"
proof -
  have "u_id x = uid" using load_user_Inr [OF assms(1)] by simp
  then show ?thesis
    using log_Inr [OF assms(3)] assms(2) by (simp add: locked_out_log locked_out_after_revoke)
qed

lemma disabled_rows:
  "\<forall>u \<in> set (map (\<lambda>u. if u_id u = uid then u\<lparr>u_enabled := 0\<rparr> else u) us). u_id u = uid \<longrightarrow> u_enabled u \<noteq> 1"
  by (induction us) simp_all

lemma disabled_users: "\<forall>u \<in> set (users (set_user_enabled False uid st)). u_id u = uid \<longrightarrow> u_enabled u \<noteq> 1"
proof -
  have e: "users (set_user_enabled False uid st) =
      map (\<lambda>u. if u_id u = uid then u\<lparr>u_enabled := 0\<rparr> else u) (users st)"
    by (simp add: set_user_enabled_def)
  show ?thesis unfolding e by (rule disabled_rows)
qed

lemma disable_locks_out:
  assumes "set_admin_user_enabled env c uid False code st = (Inr (), st')"
  shows "locked_out uid st'"
proof -
  have "\<not> login_row_exists uid d (set_user_enabled False uid s)" for d s
    using disabled_users [of uid s] by (intro not_login_row) blast
  note * = removal_locks_out [of uid _ _ "set_user_enabled False", OF _ this]
  show ?thesis
    using assms unfolding set_admin_user_enabled_def by (auto elim!: h_bind_InrE h_then_InrE) (rule *, assumption+)
qed

lemma delete_locks_out:
  assumes "delete_admin_user env c uid code st = (Inr (), st')"
  shows "locked_out uid st'"
proof -
  have "\<not> login_row_exists uid d (delete_user_row uid s)" for d s
    by (rule not_login_row) (auto simp: delete_user_row_def)
  note * = removal_locks_out [of uid _ _ delete_user_row, OF _ this]
  show ?thesis
    using assms unfolding delete_admin_user_def by (auto elim!: h_bind_InrE h_then_InrE) (rule *, assumption+)
qed

text \<open>
  C6: disabling or deleting a user takes effect at once: afterwards no session of that user is left,
  no request is accepted in its name whatever cookie it carries, and every guard of one of its open
  connections fails its next check.
\<close>

theorem removed_user_loses_access:
  assumes "set_admin_user_enabled env c uid False code st = (Inr (), st') \<or>
      delete_admin_user env c uid code st = (Inr (), st')"
  shows "(\<forall>(t, s) \<in> set (sessions st'). s_user_id s \<noteq> uid) \<and>
     (\<forall>t ck p s. require_admin t ck st' = (Inr p, s) \<longrightarrow> p_user_id p \<noteq> uid) \<and>
     (\<forall>t g. g_user_id g = uid \<longrightarrow> fst (admin_session_is_valid t g st') = False)"
proof -
  have lo: "locked_out uid st'" using assms disable_locks_out delete_locks_out by blast
  then show ?thesis
    using locked_out_no_principal [OF lo] locked_out_no_guard [OF lo] by (auto simp: locked_out_def)
qed

subsection \<open>One-time codes\<close>

lemma verify_devices_Some:
  "verify_devices env code ds st = (Inr (Some (d, counter)), st') \<Longrightarrow>
     d \<in> set ds \<and> counter_below counter d \<and>
     (\<exists>secret. decrypt env (d_secret_ciphertext d) = Some secret \<and>
        verify_totp_counter (hmac_sha1 env) secret code (now env) = Some counter) \<and>
     (\<exists>st0. fst (claim_counter (now env) counter (d_id d) (devices st0)) = 1 \<and>
        st' = st0\<lparr>devices := snd (claim_counter (now env) counter (d_id d) (devices st0))\<rparr> \<and>
        sessions st0 = sessions st \<and> users st0 = users st)"
proof (induction ds arbitrary: st)
  case Nil
  then show ?case by simp
next
  case (Cons x ds)
  from Cons.prems obtain secret where dec: "decrypt env (d_secret_ciphertext x) = Some secret"
    by (auto simp: decrypt_secret_def h_bind_def h_lift_def split: option.splits)
  note step = Cons.prems [unfolded verify_devices.simps, simplified dec decrypt_secret_def h_bind_def h_lift_def, simplified]
  show ?case
  proof (cases "verify_totp_counter (hmac_sha1 env) secret code (now env)")
    case None
    with step Cons.IH [of st] show ?thesis by auto
  next
    case (Some c)
    show ?thesis
    proof (cases "counter_below c x")
      case False
      with step Some Cons.IH [of st] show ?thesis by auto
    next
      case True
      let ?cl = "claim_counter (now env) c (d_id x) (devices st)"
      show ?thesis
      proof (cases "fst ?cl = 1")
        case hit: True
        with step Some True have "d = x" "counter = c" "st' = st\<lparr>devices := snd ?cl\<rparr>"
          by (auto simp: update_device_counter_def h_bind_def split_def Let_def)
        with hit dec Some True show ?thesis by auto
      next
        case False
        with step Some True have "verify_devices env code ds (st\<lparr>devices := snd ?cl\<rparr>) = (Inr (Some (d, counter)), st')"
          by (auto simp: update_device_counter_def h_bind_def split_def Let_def)
        from Cons.IH [OF this] show ?thesis by auto
      qed
    qed
  qed
qed

lemma ensure_source_frame:
  "ensure_source_attempt_allowed t k st = (r, s1) \<Longrightarrow> users s1 = users st \<and> devices s1 = devices st"
  by (auto simp: ensure_source_attempt_allowed_def split: prod.splits)

lemma insert_session_lookup:
  "map_of (sessions (insert_session t tok a b c n st)) tok =
     Some \<lparr>s_user_id = a, s_username = b, s_device_id = c, s_login_totp_counter = n,
       s_expires_at = t + SESSION_MAX_AGE, s_revoked_tx = next_chan st\<rparr>"
  by (simp add: insert_session_def)

lemma verify_user_code_Some:
  assumes "verify_user_code env uid code st = (Inr (Some (d, c)), st')" "now env \<le> i64_max"
  shows "d \<in> set (devices st) \<and> d_user_id d = uid \<and> counter_below c d \<and>
     (\<exists>secret. decrypt env (d_secret_ciphertext d) = Some secret \<and>
        totp_code (hmac_sha1 env) secret (word_of_int c) = trim code) \<and> \<bar>c - max (now env) 0 div 30\<bar> \<le> 1"
proof -
  note v = verify_devices_Some [OF assms(1) [unfolded verify_user_code_def]]
  then obtain secret where "decrypt env (d_secret_ciphertext d) = Some secret"
    and t: "verify_totp_counter (hmac_sha1 env) secret code (now env) = Some c" by blast
  with v verify_totp_counter_SomeD(2) [OF t] verify_totp_counter_window [OF t assms(2)] show ?thesis by auto
qed

lemma login_facts:
  assumes "filter (\<lambda>u. u_enabled u = 1) (take (Suc 0) (filter (\<lambda>u. u_normalized u = n) us)) = u # rest"
  shows "u \<in> set us \<and> u_normalized u = n \<and> u_enabled u = 1"
proof -
  have "u \<in> set (filter (\<lambda>u. u_enabled u = 1) (take (Suc 0) (filter (\<lambda>u. u_normalized u = n) us)))"
    using assms by simp
  then show ?thesis by (auto dest!: in_set_takeD)
qed

text \<open>
  C7: a login succeeds only for an enabled user with one of its authenticators: the code is that
  device's one-time password of a step within 30 seconds of the clock, the step is newer than the
  last one the device used, and the new session carries exactly this user, device and counter.
\<close>

theorem login_sound:
  assumes "admin_login env h peer username code st = (Inr r, st')" and "now env \<le> i64_max"
  shows "\<exists>u \<in> set (users st). \<exists>d \<in> set (devices st). \<exists>counter secret.
     u_enabled u = 1 \<and> u_normalized u = to_ascii_lowercase (trim username) \<and> d_user_id d = u_id u \<and>
     decrypt env (d_secret_ciphertext d) = Some secret \<and> counter_below counter d \<and>
     totp_code (hmac_sha1 env) secret (word_of_int counter) = trim code \<and>
     \<bar>counter - max (now env) 0 div 30\<bar> \<le> 1 \<and>
     (\<exists>s. map_of (sessions st') (uuid env 0) = Some s \<and> s_user_id s = u_id u \<and> s_device_id s = d_id d \<and>
        s_login_totp_counter s = Some counter \<and> s_expires_at s = now env + SESSION_MAX_AGE)"
proof -
  obtain s1 s2 s3 u rest d c n b where
    s1: "ensure_source_attempt_allowed (now env) (login_attempt_key (net env) h peer) st = (Inr (), s1)"
    and vu: "validate_username username = Inr (n, b)"
    and u: "filter (\<lambda>u. u_enabled u = 1)
      (take (Suc 0) (filter (\<lambda>u. u_normalized u = b) (users s1))) = u # rest"
    and v: "verify_user_code env (u_id u) code s1 = (Inr (Some (d, c)), s2)"
    and st': "st' = insert_session (now env) (uuid env 0) (u_id u) (u_username u) (d_id d) (Some c) s3"
    using assms(1) unfolding admin_login_def session_response_def
    by (auto elim!: h_bind_InrE h_then_InrE simp: Let_def
        split: sum.splits option.splits list.splits)
  have n: "b = to_ascii_lowercase (trim username)" using validate_username_Inr [OF vu] by simp
  show ?thesis
    using login_facts [OF u] verify_user_code_Some [OF v assms(2)] ensure_source_frame [OF s1] n
    by (auto simp: st' insert_session_lookup)
qed

lemma demo_username: "validate_username ''Root'' = Inr (''Root'', ''root'')" by code_simp
lemma demo_token: "session_token (Some ''om_session=tok'') = Some ''tok''" by code_simp
lemma demo_code: "verify_totp_counter zero_hmac s ''000000'' 1700000000 = Some 56666666"
  using zero_code_verifies [of 1700000000] by (simp add: i64_max_def)
lemma demo_scheme: "resolve_request_scheme demo_config demo_headers 1 = Inr Https" by code_simp
lemma demo_login_ok: "is_ok (fst (admin_login demo_env demo_headers 1 ''Root'' ''000000'' demo_auth_state))"
  by (simp add: admin_login_def demo_env_def demo_scheme demo_auth_state_def demo_username demo_code handler_simps Let_def auth_initialized_def
    ensure_source_attempt_allowed_def ensure_attempt_allowed_in_def prune_auth_attempts_def retain_def verify_user_code_def
   decrypt_secret_def counter_below_def update_device_counter_def claim_counter_def clear_source_auth_failures_def
   clear_account_auth_failures_def write_action_log_def session_response_def insert_session_def login_attempt_key_def del: One_nat_def)
lemma demo_delete_ok: "is_ok (fst (delete_admin_user demo_env (Some ''om_session=tok'') ''u2'' ''000000'' demo_auth_state))"
  by (simp add: delete_admin_user_def require_admin_def demo_token demo_env_def demo_auth_state_def demo_code handler_simps Let_def
    revoke_matching_sessions_def retain_def verify_step_up_def verify_user_code_def login_row_exists_def
   decrypt_secret_def counter_below_def update_device_counter_def claim_counter_def load_user_def
   clear_account_auth_failures_def write_action_log_def h_transaction_def ensure_other_login_path_def other_login_paths_def clear_login_counter_for_session_def session_of_def)

lemma is_ok_obtain: "is_ok (fst r) \<Longrightarrow> \<exists>x s'. r = (Inr x, s')"
  by (cases r; cases "fst r") auto

theorem login_sound_witness:
  "\<exists>u \<in> set (users demo_auth_state). u_normalized u = to_ascii_lowercase (trim ''Root'')"
proof -
  obtain r st' where "admin_login demo_env demo_headers 1 ''Root'' ''000000'' demo_auth_state = (Inr r, st')"
    using is_ok_obtain [OF demo_login_ok] by blast
  from login_sound [OF this] show ?thesis by (auto simp: demo_env_def i64_max_def)
qed

theorem removed_user_loses_access_witness:
  "\<exists>st'. delete_admin_user demo_env (Some ''om_session=tok'') ''u2'' ''000000'' demo_auth_state = (Inr (), st') \<and>
     (\<forall>t g. g_user_id g = ''u2'' \<longrightarrow> fst (admin_session_is_valid t g st') = False)"
proof -
  obtain st' where d: "delete_admin_user demo_env (Some ''om_session=tok'') ''u2'' ''000000'' demo_auth_state = (Inr (), st')"
    using is_ok_obtain [OF demo_delete_ok] by auto
  from removed_user_loses_access [OF disjI2, OF d] d show ?thesis by blast
qed








lemma session_of_cleared: "session_of p (clear_login_counter_for_session p st) = Some s \<Longrightarrow> s_login_totp_counter s = None"
  by (auto simp: clear_login_counter_for_session_def session_of_def split: option.splits if_splits)

lemma consume_True:
  "consume_login_counter_for_step_up env p code st = (Inr True, st') \<Longrightarrow> st' = clear_login_counter_for_session p st"
  by (auto simp: consume_login_counter_for_step_up_def split: option.splits list.splits sum.splits if_splits)

text \<open>
  The code of a login serves one step-up at most: after a successful step-up, by whichever
  path, the session no longer carries the counter of its login.
\<close>

theorem step_up_spends_login_counter:
  assumes "verify_step_up env p code st = (Inr (), st')" "session_of p st' = Some s"
  shows "s_login_totp_counter s = None"
proof -
  have "\<exists>s1 m. st' = (clear_login_counter_for_session p s1)\<lparr>account_attempts := m\<rparr>"
    using assms(1) unfolding verify_step_up_def
    by (auto elim!: h_bind_InrE h_then_InrE dest!: consume_True simp: clear_account_auth_failures_def
        split: option.splits if_splits) blast+
  then obtain s1 where "session_of p (clear_login_counter_for_session p s1) = Some s"
    using assms(2) by (auto simp: session_of_def)
  then show ?thesis by (rule session_of_cleared)
qed

definition demo_principal :: admin_principal where
  "demo_principal = \<lparr>p_user_id = ''u1'', p_username = ''root'', p_session_token = ''tok'', p_device_id = ''d1'',
     p_session_guard = demo_guard\<rparr>"

theorem step_up_spends_login_counter_witness:
  "\<exists>st' s. verify_step_up demo_env demo_principal ''000000'' demo_auth_state = (Inr (), st') \<and>
     session_of demo_principal st' = Some s \<and> s_login_totp_counter s = None"
proof -
  let ?r = "verify_step_up demo_env demo_principal ''000000'' demo_auth_state"
  have "is_ok (fst ?r) \<and> session_of demo_principal (snd ?r) \<noteq> None"
    by (simp add: verify_step_up_def demo_env_def demo_auth_state_def demo_code handler_simps verify_user_code_def
        decrypt_secret_def counter_below_def update_device_counter_def claim_counter_def Let_def demo_principal_def
        clear_account_auth_failures_def clear_login_counter_for_session_def session_of_def)
  then obtain st' s where r: "?r = (Inr (), st')" and s: "session_of demo_principal st' = Some s"
    using is_ok_obtain [of ?r] by auto
  from step_up_spends_login_counter [OF r s] r s show ?thesis by blast
qed

end
