(* ===== verification/Float64.thy ===== *)
theory Float64
  imports Prelude Complex_Main "HOL-Library.Log_Nat"
begin

text \<open>
  The binary64 numbers of Rust's \<open>f64\<close>, as far as the backend uses them: comparison, the
  conversion of an \<open>i64\<close>, division, multiplication and subtraction.  A finite number is the
  rational it denotes; an operation rounds the exact result to nearest, ties to even, with 53
  significant bits, subnormals below \<open>2^-1022\<close> and overflow to an infinity from \<open>2^1024\<close>.  The two
  zeros are one value, since nothing the model covers looks at the sign of a zero.
\<close>

datatype f64 = Finite rat | Infinite bool | NotANumber

fun f64_is_finite :: "f64 \<Rightarrow> bool" where
  "f64_is_finite (Finite _) = True"
| "f64_is_finite _ = False"

text \<open>IEEE comparisons: every comparison with a NaN is false.\<close>

fun f64_le :: "f64 \<Rightarrow> f64 \<Rightarrow> bool" where
  "f64_le NotANumber _ = False"
| "f64_le _ NotANumber = False"
| "f64_le (Finite x) (Finite y) = (x \<le> y)"
| "f64_le (Infinite neg) (Finite _) = neg"
| "f64_le (Finite _) (Infinite neg) = (\<not> neg)"
| "f64_le (Infinite n) (Infinite m) = (n \<or> \<not> m)"

definition f64_eq :: "f64 \<Rightarrow> f64 \<Rightarrow> bool" where
  "f64_eq x y \<longleftrightarrow> f64_le x y \<and> f64_le y x"

definition f64_lt :: "f64 \<Rightarrow> f64 \<Rightarrow> bool" where
  "f64_lt x y \<longleftrightarrow> f64_le x y \<and> \<not> f64_le y x"

lemma f64_eq_finite [simp]: "f64_eq (Finite x) (Finite y) \<longleftrightarrow> x = y"
  by (auto simp: f64_eq_def)

lemma f64_lt_finite [simp]: "f64_lt (Finite x) (Finite y) \<longleftrightarrow> x < y"
  by (auto simp: f64_lt_def)

text \<open>\<open>x.fract() != 0.0\<close> for a finite number.\<close>

fun f64_is_integral :: "f64 \<Rightarrow> bool" where
  "f64_is_integral (Finite x) = (of_int \<lfloor>x\<rfloor> = x)"
| "f64_is_integral _ = False"

subsection \<open>Rounding\<close>

definition round_even :: "rat \<Rightarrow> int" where
  "round_even x = (let f = \<lfloor>x\<rfloor>; d = x - of_int f
     in if d < 1 / 2 then f else if d > 1 / 2 then f + 1 else if even f then f else f + 1)"

definition pow2 :: "int \<Rightarrow> rat" where
  "pow2 e = (if e \<ge> 0 then 2 ^ nat e else 1 / 2 ^ nat (- e))"

text \<open>The exponent of the leading bit of a positive rational.\<close>

definition exponent :: "rat \<Rightarrow> int" where
  "exponent x = (let (p, q) = quotient_of x; e = bitlen p - bitlen q
     in if pow2 e \<le> x then e else e - 1)"

definition round_pos :: "rat \<Rightarrow> rat" where
  "round_pos x = (let u = pow2 (max (exponent x) (- 1022) - 52) in of_int (round_even (x / u)) * u)"

definition f64_round :: "rat \<Rightarrow> f64" where
  "f64_round x = (if x = 0 then Finite 0
     else let y = round_pos \<bar>x\<bar>
          in if y \<ge> pow2 1024 then Infinite (x < 0) else Finite (if x < 0 then - y else y))"

definition f64_of_int :: "int \<Rightarrow> f64" where
  "f64_of_int n = f64_round (of_int n)"

text \<open>Division and multiplication of the cases the code reaches: finite operands, divisor not zero.\<close>

fun f64_div :: "f64 \<Rightarrow> f64 \<Rightarrow> f64" where
  "f64_div (Finite x) (Finite y) =
     (if y = 0 then if x = 0 then NotANumber else Infinite (x < 0) else f64_round (x / y))"
| "f64_div (Finite x) (Infinite _) = Finite 0"
| "f64_div (Infinite n) (Finite y) = Infinite (n \<noteq> (y < 0))"
| "f64_div _ _ = NotANumber"

fun f64_mult :: "f64 \<Rightarrow> f64 \<Rightarrow> f64" where
  "f64_mult (Finite x) (Finite y) = f64_round (x * y)"
| "f64_mult (Infinite n) (Finite y) = (if y = 0 then NotANumber else Infinite (n \<noteq> (y < 0)))"
| "f64_mult (Finite x) (Infinite n) = (if x = 0 then NotANumber else Infinite (n \<noteq> (x < 0)))"
| "f64_mult (Infinite n) (Infinite m) = Infinite (n \<noteq> m)"
| "f64_mult _ _ = NotANumber"

subsection \<open>Rounding is monotone and keeps the representable numbers\<close>

lemma pow2_pos [simp]: "0 < pow2 e"
  by (simp add: pow2_def)

lemma pow2_add: "pow2 (a + b) = pow2 a * pow2 b"
proof -
  have *: "pow2 a = 2 powi a" for a
    by (auto simp: pow2_def power_int_def field_simps)
  show ?thesis by (simp add: * power_int_add)
qed

lemma pow2_mono: "a \<le> b \<Longrightarrow> pow2 a \<le> pow2 b"
proof -
  assume "a \<le> b"
  have "pow2 b = pow2 a * pow2 (b - a)" using pow2_add [of a "b - a"] by simp
  moreover have "1 \<le> pow2 (b - a)" using \<open>a \<le> b\<close> by (simp add: pow2_def)
  ultimately show ?thesis
    using mult_left_mono [of 1 "pow2 (b - a)" "pow2 a"] by (simp add: less_imp_le)
qed

lemma pow2_Suc: "pow2 (e + 1) = 2 * pow2 e"
  using pow2_add [of e 1] by (simp add: pow2_def)

lemma round_even_of_int [simp]: "round_even (of_int n) = n"
  by (simp add: round_even_def)

lemma round_even_mono: "x \<le> y \<Longrightarrow> round_even x \<le> round_even y"
proof -
  assume xy: "x \<le> y"
  then have f: "\<lfloor>x\<rfloor> \<le> \<lfloor>y\<rfloor>" by (rule floor_mono)
  show ?thesis
  proof (cases "\<lfloor>x\<rfloor> = \<lfloor>y\<rfloor>")
    case True
    then show ?thesis using xy by (auto simp: round_even_def Let_def)
  next
    case False
    with f have "\<lfloor>x\<rfloor> + 1 \<le> \<lfloor>y\<rfloor>" by simp
    moreover have "round_even x \<le> \<lfloor>x\<rfloor> + 1" "\<lfloor>y\<rfloor> \<le> round_even y"
      by (auto simp: round_even_def Let_def)
    ultimately show ?thesis by linarith
  qed
qed

lemma bitlen_pow2:
  assumes "0 < p"
  shows "pow2 (bitlen p - 1) \<le> of_int p" "of_int p < pow2 (bitlen p)"
proof -
  have b: "2 ^ nat (bitlen p - 1) \<le> p \<and> p < 2 ^ nat (bitlen p)" by (rule bitlen_bounds [OF assms])
  have pos: "0 < bitlen p" using assms bitlen_eq_zero_iff [of p] bitlen_nonneg [of p] by linarith
  have "(of_int (2 ^ nat (bitlen p - 1)) :: rat) \<le> of_int p" using b by (simp only: of_int_le_iff)
  then show "pow2 (bitlen p - 1) \<le> of_int p" using pos by (simp add: pow2_def)
  have "(of_int p :: rat) < of_int (2 ^ nat (bitlen p))" using b by (simp only: of_int_less_iff)
  then show "of_int p < pow2 (bitlen p)" using pos by (simp add: pow2_def)
qed

lemma exponent_bounds:
  assumes "0 < x"
  shows "pow2 (exponent x) \<le> x" "x < pow2 (exponent x + 1)"
proof -
  obtain p q where pq: "quotient_of x = (p, q)" by force
  have q: "0 < q" using quotient_of_denom_pos [OF pq] .
  have x: "x = of_int p / of_int q" using quotient_of_div [OF pq] .
  have p: "0 < p" using assms q x by (simp add: zero_less_divide_iff)
  define a where "a = bitlen p"
  define b where "b = bitlen q"
  note bp = bitlen_pow2 [OF p, folded a_def] and bq = bitlen_pow2 [OF q, folded b_def]
  have q': "0 < (of_int q :: rat)" using q by simp
  have "pow2 (a - b - 1) * of_int q < pow2 (a - 1)"
    using bq(2) mult_strict_left_mono [of "of_int q" "pow2 b" "pow2 (a - b - 1)"]
    by (simp flip: pow2_add add: algebra_simps)
  then have "pow2 (a - b - 1) * of_int q \<le> of_int p" using bp(1) by linarith
  then have lo: "pow2 (a - b - 1) \<le> x" using q' by (simp add: x pos_le_divide_eq)
  have "pow2 a \<le> pow2 (a - b + 1) * of_int q"
    using bq(1) mult_left_mono [of "pow2 (b - 1)" "of_int q" "pow2 (a - b + 1)"]
    by (simp flip: pow2_add add: algebra_simps less_imp_le)
  then have "of_int p < pow2 (a - b + 1) * of_int q" using bp(2) by linarith
  then have hi: "x < pow2 (a - b + 1)" using q' by (simp add: x pos_divide_less_eq)
  have e: "exponent x = (if pow2 (a - b) \<le> x then a - b else a - b - 1)"
    by (simp add: exponent_def pq a_def b_def)
  show "pow2 (exponent x) \<le> x" "x < pow2 (exponent x + 1)"
    using lo hi by (auto simp: e)
qed

lemma exponent_mono:
  assumes "0 < x" "x \<le> y"
  shows "exponent x \<le> exponent y"
proof (rule ccontr)
  assume "\<not> ?thesis"
  then have "exponent y + 1 \<le> exponent x" by simp
  then have "pow2 (exponent y + 1) \<le> pow2 (exponent x)" by (rule pow2_mono)
  with exponent_bounds [of x] exponent_bounds [of y] assms show False by linarith
qed

text \<open>Numbers \<open>m * 2^e\<close> with at most 53 bits are their own rounding.\<close>

lemma round_pos_grid:
  assumes "0 < x" "x = of_int m * pow2 (max (exponent x) (- 1022) - 52)"
  shows "round_pos x = x"
proof -
  let ?u = "pow2 (max (exponent x) (- 1022) - 52)"
  have "x / ?u = of_int m" using assms(2) by (simp add: divide_eq_eq less_imp_neq [OF pow2_pos, symmetric])
  then show ?thesis using assms(2) by (simp add: round_pos_def Let_def)
qed

lemma round_pos_upper:
  assumes "0 < x" "max (exponent x) (- 1022) = e"
  shows "round_pos x \<le> pow2 (e + 1)"
proof -
  have u: "pow2 (e + 1) / pow2 (e - 52) = of_int (2 ^ 53)"
  proof -
    have "pow2 (e + 1) = pow2 53 * pow2 (e - 52)" using pow2_add [of 53 "e - 52"] by (simp add: add.commute)
    then show ?thesis by (simp add: less_imp_neq [OF pow2_pos, symmetric] pow2_def)
  qed
  have "x \<le> pow2 (e + 1)"
    using exponent_bounds(2) [OF assms(1)] pow2_mono [of "exponent x + 1" "e + 1"] assms(2) by linarith
  then have "x / pow2 (e - 52) \<le> of_int (2 ^ 53)"
    unfolding u [symmetric] by (simp add: divide_right_mono less_imp_le)
  then have "round_even (x / pow2 (e - 52)) \<le> 2 ^ 53"
    using round_even_mono round_even_of_int by metis
  then have "(of_int (round_even (x / pow2 (e - 52))) :: rat) \<le> of_int (2 ^ 53)"
    by (simp only: of_int_le_iff)
  then have "of_int (round_even (x / pow2 (e - 52))) * pow2 (e - 52) \<le> of_int (2 ^ 53) * pow2 (e - 52)"
    by (simp add: less_imp_le)
  also have "\<dots> = pow2 (e + 1)"
  proof -
    have "of_int (2 ^ 53) = pow2 53" by (simp add: pow2_def)
    then show ?thesis using pow2_add [of 53 "e - 52"] by (simp add: add.commute)
  qed
  finally show ?thesis by (simp add: round_pos_def Let_def assms(2))
qed

lemma round_pos_lower:
  assumes "0 < x" "- 1022 \<le> exponent x"
  shows "pow2 (exponent x) \<le> round_pos x"
proof -
  define e where "e = exponent x"
  have u: "pow2 e / pow2 (e - 52) = of_int (2 ^ 52)"
  proof -
    have "pow2 e = pow2 52 * pow2 (e - 52)" using pow2_add [of 52 "e - 52"] by simp
    then show ?thesis by (simp add: less_imp_neq [OF pow2_pos, symmetric] pow2_def)
  qed
  have "pow2 e \<le> x" using exponent_bounds(1) [OF assms(1)] by (simp add: e_def)
  then have "of_int (2 ^ 52) \<le> x / pow2 (e - 52)"
    unfolding u [symmetric] by (simp add: divide_right_mono less_imp_le)
  then have "2 ^ 52 \<le> round_even (x / pow2 (e - 52))"
    using round_even_mono round_even_of_int by metis
  then have "(of_int (2 ^ 52) :: rat) \<le> of_int (round_even (x / pow2 (e - 52)))"
    by (simp only: of_int_le_iff)
  then have "of_int (2 ^ 52) * pow2 (e - 52) \<le> of_int (round_even (x / pow2 (e - 52))) * pow2 (e - 52)"
    by (simp add: less_imp_le)
  moreover have "pow2 e = of_int (2 ^ 52) * pow2 (e - 52)"
  proof -
    have "of_int (2 ^ 52) = pow2 52" by (simp add: pow2_def)
    then show ?thesis using pow2_add [of 52 "e - 52"] by simp
  qed
  ultimately show ?thesis using assms(2) by (simp add: round_pos_def Let_def e_def max_def)
qed

lemma round_pos_mono:
  assumes "0 < x" "x \<le> y"
  shows "round_pos x \<le> round_pos y"
proof (cases "max (exponent x) (- 1022) = max (exponent y) (- 1022)")
  case True
  let ?u = "pow2 (max (exponent y) (- 1022) - 52)"
  have "x / ?u \<le> y / ?u" using assms(2) by (simp add: divide_right_mono less_imp_le)
  then have "round_even (x / ?u) \<le> round_even (y / ?u)" by (rule round_even_mono)
  then have "(of_int (round_even (x / ?u)) :: rat) \<le> of_int (round_even (y / ?u))"
    by (simp only: of_int_le_iff)
  then show ?thesis by (simp add: round_pos_def Let_def True less_imp_le)
next
  case False
  then have y: "- 1022 \<le> exponent y" "max (exponent x) (- 1022) + 1 \<le> exponent y"
    using exponent_mono [OF assms] by (auto simp: max_def split: if_splits)
  have "round_pos x \<le> pow2 (max (exponent x) (- 1022) + 1)" by (rule round_pos_upper [OF assms(1) refl])
  also have "\<dots> \<le> pow2 (exponent y)" using y(2) by (rule pow2_mono)
  also have "\<dots> \<le> round_pos y" using assms y(1) by (intro round_pos_lower) auto
  finally show ?thesis .
qed

lemma round_pos_nonneg: "0 < x \<Longrightarrow> 0 \<le> round_pos x"
proof -
  assume "0 < x"
  then have "0 \<le> round_even (x / u)" if "0 < u" for u
    using round_even_mono [of 0 "x / u"] round_even_of_int [of 0] that by simp
  then show ?thesis by (simp add: round_pos_def Let_def less_imp_le)
qed

lemma f64_round_range:
  assumes "0 \<le> x" "x \<le> b" "0 < b" "round_pos b = b" "b < pow2 1024"
  shows "\<exists>y. f64_round x = Finite y \<and> 0 \<le> y \<and> y \<le> b"
proof (cases "x = 0")
  case True
  then show ?thesis using assms by (simp add: f64_round_def)
next
  case False
  then have x: "0 < x" using assms(1) by simp
  have "round_pos x \<le> b" using round_pos_mono [OF x assms(2)] assms(4) by simp
  then show ?thesis using x assms(5) round_pos_nonneg [OF x] by (auto simp: f64_round_def Let_def)
qed

end
