(* ===== verification/AlertState.thy ===== *)
theory AlertState
  imports Float64 Tables "HOL-Library.List_Lexorder" "HOL-Library.Char_ord"
begin

text \<open>
  The tables behind \<open>backend/src/alerts.rs\<close> (its \<open>ensure_schema\<close>) and the part of the process
  state the module reads: the set of connected agents.  A table is the list of its rows in insertion
  order.  A transaction runs atomically, and one that returns an error leaves the tables unchanged;
  database failures are not modelled.  \<open>Uuid::new_v4\<close> draws the next element of a sequence
  \<open>uuids\<close>, of which nothing is assumed but what a statement says.  JSON snapshots and payloads
  are records of the columns they copy.  The encrypted settings of a channel are one opaque string.
\<close>

record rule_row =
  r_id :: string
  r_name :: string
  r_metric :: string
  r_threshold :: "f64 option"
  r_duration :: int
  r_severity :: string
  r_scope :: string
  r_enabled :: bool
  r_version :: int
  r_created_by :: string
  r_created_at :: int
  r_updated_at :: int

text \<open>\<open>rule_snapshot\<close>: the seven columns a fired event keeps of its rule.\<close>

record rule_snap =
  rs_id :: string
  rs_name :: string
  rs_metric :: string
  rs_threshold :: "f64 option"
  rs_duration :: int
  rs_severity :: string
  rs_version :: int

definition rule_snapshot :: "rule_row \<Rightarrow> rule_snap" where
  "rule_snapshot r = \<lparr>rs_id = r_id r, rs_name = r_name r, rs_metric = r_metric r,
     rs_threshold = r_threshold r, rs_duration = r_duration r, rs_severity = r_severity r,
     rs_version = r_version r\<rparr>"

text \<open>
  The columns of \<open>instances\<close> that the module reads: admission, expiry and what a snapshot shows.
\<close>

record instance_row =
  i_id :: string
  i_name :: string
  i_hostname :: string
  i_region :: string
  i_os :: string
  i_arch :: string
  i_agent_version :: string
  i_expires_at :: "int option"
  i_approved :: bool
  i_disabled :: bool

record node_snap =
  ns_id :: string
  ns_name :: string
  ns_hostname :: string
  ns_region :: string
  ns_os :: string
  ns_arch :: string
  ns_agent_version :: string
  ns_expires_at :: "int option"

datatype node_snapshot = NodeColumns node_snap | NodeIdOnly string

record event_row =
  e_id :: string
  e_rule_id :: string
  e_instance_id :: string
  e_status :: string
  e_severity :: string
  e_metric :: string
  e_rule_snapshot :: rule_snap
  e_node_snapshot :: node_snapshot
  e_threshold :: "f64 option"
  e_duration :: int
  e_current_value :: "f64 option"
  e_first_observed_at :: int
  e_fired_at :: int
  e_last_observed_at :: int
  e_match_count :: int
  e_acknowledged_by :: "string option"
  e_acknowledged_by_user_id :: "string option"
  e_acknowledged_at :: "int option"
  e_acknowledge_note :: string
  e_resolved_at :: "int option"
  e_resolution_reason :: string
  e_suppressed :: bool
  e_suppression_reason :: string

record timeline_row =
  t_id :: string
  t_event_id :: string
  t_kind :: string
  t_actor :: string
  t_note :: string
  t_value :: "f64 option"
  t_created_at :: int

record evaluation_row =
  v_rule_id :: string
  v_instance_id :: string
  v_rule_version :: int
  v_pending_since :: "int option"
  v_recovery_since :: "int option"
  v_last_observed_at :: "int option"
  v_last_value :: "f64 option"
  v_last_sample_at :: "int option"
  v_match_count :: int

record channel_row =
  c_id :: string
  c_name :: string
  c_type :: string
  c_config :: string
  c_enabled :: bool
  c_cooldown_until :: "int option"
  c_created_at :: int
  c_updated_at :: int
  c_deleted_at :: "int option"

datatype delivery_body =
    LifecycleBody event_row string "string option" "string option"
  | TestBody int string string

record delivery_row =
  d_id :: string
  d_event_id :: "string option"
  d_channel_id :: string
  d_kind :: string
  d_status :: string
  d_payload :: delivery_body
  d_channel_name :: string
  d_channel_type :: string
  d_suppression_reason :: string
  d_attempts_count :: int
  d_cycle_attempts :: int
  d_manual_retry_count :: int
  d_next_attempt_at :: "int option"
  d_lease_until :: "int option"
  d_lease_token :: "string option"
  d_last_error :: string
  d_created_at :: int
  d_updated_at :: int
  d_completed_at :: "int option"

record attempt_row =
  a_id :: string
  a_delivery_id :: string
  a_attempt_number :: int
  a_http_status :: "int option"
  a_duration_ms :: int
  a_error :: string
  a_response_excerpt :: string
  a_created_at :: int

record maintenance_row =
  w_id :: string
  w_name :: string
  w_reason :: string
  w_scope :: string
  w_starts_at :: int
  w_ends_at :: int
  w_enabled :: bool
  w_created_by :: string
  w_created_by_user_id :: "string option"
  w_created_at :: int
  w_updated_at :: int

record alert_db =
  instances :: "instance_row list"
  alert_rules :: "rule_row list"
  rule_targets :: "(string \<times> string) list"
  rule_channels :: "(string \<times> string) list"
  evaluations :: "evaluation_row list"
  alert_events :: "event_row list"
  event_channels :: "(string \<times> string) list"
  alert_timeline :: "timeline_row list"
  windows :: "maintenance_row list"
  window_targets :: "(string \<times> string) list"
  channels :: "channel_row list"
  deliveries :: "delivery_row list"
  attempts :: "attempt_row list"
  agents :: "string list"
  audit_log :: "(string \<times> string \<times> string \<times> string) list"
  uuids :: "nat \<Rightarrow> string"
  uuid_next :: nat

text \<open>\<open>MAX\<close> of an \<open>i64\<close>, for \<open>saturating_add\<close> and \<open>saturating_sub\<close>.\<close>

definition i64_max :: int where "i64_max = 9223372036854775807"
definition i64_min :: int where "i64_min = - 9223372036854775808"

definition saturate :: "int \<Rightarrow> int" where
  "saturate x = max i64_min (min i64_max x)"

definition sat_add :: "int \<Rightarrow> int \<Rightarrow> int" where "sat_add x y = saturate (x + y)"
definition sat_sub :: "int \<Rightarrow> int \<Rightarrow> int" where "sat_sub x y = saturate (x - y)"

definition is_i64 :: "int \<Rightarrow> bool" where
  "is_i64 x \<longleftrightarrow> i64_min \<le> x \<and> x \<le> i64_max"

lemma sat_sub_ge: "is_i64 d \<Longrightarrow> i64_min < d \<Longrightarrow> d \<le> sat_sub x y \<longleftrightarrow> d \<le> x - y"
  by (auto simp: sat_sub_def saturate_def is_i64_def)

lemma sat_sub_less: "is_i64 d \<Longrightarrow> i64_min < d \<Longrightarrow> sat_sub x y < d \<longleftrightarrow> x - y < d"
  using sat_sub_ge [of d x y] by linarith

definition new_uuid :: "alert_db \<Rightarrow> string" where
  "new_uuid s = uuids s (uuid_next s)"

definition draw_uuid :: "(alert_db, string) handler" where
  "draw_uuid s = (Inr (new_uuid s), s\<lparr>uuid_next := Suc (uuid_next s)\<rparr>)"

text \<open>\<open>audit_action_tx\<close>: the columns actor, user, action and target of an \<open>audit_events\<close> row.\<close>

definition audit_action :: "string \<Rightarrow> string \<Rightarrow> string \<Rightarrow> string \<Rightarrow> (alert_db, unit) handler" where
  "audit_action username user_id action target =
     h_modify (\<lambda>s. s\<lparr>uuid_next := Suc (uuid_next s),
       audit_log := audit_log s @ [(username, user_id, action, target)]\<rparr>)"

text \<open>A transaction: the tables an error leaves are those it found.\<close>

definition in_tx :: "(alert_db, 'a) handler \<Rightarrow> (alert_db, 'a) handler" where
  "in_tx m s = (case m s of (Inl e, s') \<Rightarrow> (Inl e, s\<lparr>uuid_next := uuid_next s'\<rparr>) | r \<Rightarrow> r)"

definition event_active :: "event_row \<Rightarrow> bool" where
  "event_active e \<longleftrightarrow> e_status e \<noteq> ''resolved''"

text \<open>\<open>SELECT ... WHERE rule_id = $1 AND instance_id = $2 AND status <> 'resolved'\<close>\<close>

definition active_event :: "string \<Rightarrow> string \<Rightarrow> alert_db \<Rightarrow> event_row option" where
  "active_event rid iid s =
     find (\<lambda>e. e_rule_id e = rid \<and> e_instance_id e = iid \<and> event_active e) (alert_events s)"

definition evaluation_for :: "string \<Rightarrow> string \<Rightarrow> alert_db \<Rightarrow> evaluation_row option" where
  "evaluation_for rid iid s =
     find (\<lambda>v. v_rule_id v = rid \<and> v_instance_id v = iid) (evaluations s)"

definition rule_by_id :: "string \<Rightarrow> alert_db \<Rightarrow> rule_row option" where
  "rule_by_id rid s = find (\<lambda>r. r_id r = rid) (alert_rules s)"

definition instance_eligible :: "string \<Rightarrow> alert_db \<Rightarrow> bool" where
  "instance_eligible iid s \<longleftrightarrow>
     (\<exists>i \<in> set (instances s). i_id i = iid \<and> i_approved i \<and> \<not> i_disabled i)"

end
