(* ===== verification/AlertEvaluation.thy ===== *)
theory AlertEvaluation
  imports AlertState
begin

text \<open>
  The evaluation of alert rules (\<open>backend/src/alerts.rs\<close>): the readings of a metric sample, the
  decision functions, the suppression of an alert, the notifications of an event's lifecycle, and
  \<open>process_rule_observation\<close> with the operations that call it.  A step of the model is one
  transaction.
\<close>

subsection \<open>Readings\<close>

record metric_observation =
  m_received_at :: int
  m_cpu_percent :: f64
  m_memory_used :: int
  m_memory_total :: int
  m_disk_used :: int
  m_disk_total :: int
  m_latency_ms :: "f64 option"
  m_latency_sampled_at :: "int option"

datatype rule_observation = ThresholdObs f64 bool | ConnectionObs

definition percentage :: "int \<Rightarrow> int \<Rightarrow> f64 option" where
  "percentage used capacity =
     (if used < 0 \<or> capacity \<le> 0 \<or> used > capacity then None
      else let value = f64_mult (f64_div (f64_of_int used) (f64_of_int capacity)) (Finite 100)
           in if f64_is_finite value then Some value else None)"

definition metric_value :: "string \<Rightarrow> metric_observation \<Rightarrow> (f64 \<times> int) option" where
  "metric_value metric ob =
     (if metric = ''cpu_percent'' then
        (if f64_is_finite (m_cpu_percent ob) \<and> f64_le (Finite 0) (m_cpu_percent ob) \<and>
            f64_le (m_cpu_percent ob) (Finite 100)
         then Some (m_cpu_percent ob, m_received_at ob) else None)
      else if metric = ''memory_percent'' then
        map_option (\<lambda>v. (v, m_received_at ob)) (percentage (m_memory_used ob) (m_memory_total ob))
      else if metric = ''disk_percent'' then
        map_option (\<lambda>v. (v, m_received_at ob)) (percentage (m_disk_used ob) (m_disk_total ob))
      else if metric = ''latency_ms'' then
        (case (m_latency_ms ob, m_latency_sampled_at ob) of
           (Some v, Some t) \<Rightarrow> if f64_is_finite v \<and> f64_le (Finite 0) v then Some (v, t) else None
         | _ \<Rightarrow> None)
      else None)"

definition node_offline_suppresses :: "string \<Rightarrow> bool \<Rightarrow> bool" where
  "node_offline_suppresses metric active_offline \<longleftrightarrow> active_offline \<and>
     metric \<in> {''cpu_percent'', ''memory_percent'', ''disk_percent'', ''latency_ms''}"

definition expiration_observation :: "int option \<Rightarrow> int \<Rightarrow> f64 \<Rightarrow> f64 \<times> bool" where
  "expiration_observation expires now threshold =
     (case expires of None \<Rightarrow> (Finite 0, False)
      | Some e \<Rightarrow> let remaining = f64_div (f64_of_int (sat_sub e now)) (Finite 86400)
          in (remaining, f64_le remaining threshold))"

definition connection_observation :: "bool \<Rightarrow> f64 \<times> bool" where
  "connection_observation online = (if online then (Finite 0, False) else (Finite 1, True))"

definition startup_reconnect_grace_seconds :: int where "startup_reconnect_grace_seconds = 60"

definition startup_grace_defers_offline :: "bool \<Rightarrow> int \<Rightarrow> int \<Rightarrow> bool" where
  "startup_grace_defers_offline online started now \<longleftrightarrow>
     \<not> online \<and> sat_sub now started < startup_reconnect_grace_seconds"

subsection \<open>Decisions\<close>

definition offline_recovery_stability_seconds :: int where
  "offline_recovery_stability_seconds = 60"

definition recovery_confirmation ::
  "string \<Rightarrow> bool \<Rightarrow> int option \<Rightarrow> int \<Rightarrow> int option \<times> bool" where
  "recovery_confirmation metric has_active recovery_since observed =
     (if metric \<noteq> ''node_offline'' \<or> \<not> has_active then (None, True)
      else let since = (case recovery_since of None \<Rightarrow> observed | Some t \<Rightarrow> t)
           in (Some since, sat_sub observed since \<ge> offline_recovery_stability_seconds))"

definition observation_is_stale :: "int option \<Rightarrow> f64 option \<Rightarrow> int \<Rightarrow> f64 \<Rightarrow> bool" where
  "observation_is_stale prev_sample prev_value sample value =
     (case prev_sample of None \<Rightarrow> False
      | Some p \<Rightarrow> sample < p \<or> sample = p \<and>
          (case prev_value of None \<Rightarrow> False | Some v \<Rightarrow> f64_eq v value))"

definition resolution_values :: "f64 option \<Rightarrow> int \<Rightarrow> (f64 \<times> int) option \<Rightarrow> f64 option \<times> int" where
  "resolution_values current last_at recovery =
     (case recovery of Some (v, t) \<Rightarrow> (Some v, t) | None \<Rightarrow> (current, last_at))"

definition pending_should_fire :: "int \<Rightarrow> int option \<Rightarrow> int option \<Rightarrow> int \<Rightarrow> bool" where
  "pending_should_fire duration pending last_at observed \<longleftrightarrow> duration = 0 \<or>
     (pending \<noteq> None \<and> last_at \<noteq> None \<and>
      sat_sub observed (case pending of None \<Rightarrow> observed | Some p \<Rightarrow> p) \<ge> duration)"

subsection \<open>Suppression\<close>

definition window_active :: "int \<Rightarrow> maintenance_row \<Rightarrow> bool" where
  "window_active now w \<longleftrightarrow> w_enabled w \<and> w_starts_at w \<le> now \<and> w_ends_at w > now"

definition window_covers :: "string \<Rightarrow> string \<Rightarrow> alert_db \<Rightarrow> maintenance_row \<Rightarrow> bool" where
  "window_covers rid iid s w \<longleftrightarrow> w_scope w = ''global'' \<or>
     w_scope w = ''rule'' \<and> (w_id w, rid) \<in> set (window_targets s) \<or>
     w_scope w = ''node'' \<and> (w_id w, iid) \<in> set (window_targets s)"

text \<open>\<open>ORDER BY starts_at, id LIMIT 1\<close>\<close>

definition covering_window :: "string \<Rightarrow> string \<Rightarrow> int \<Rightarrow> alert_db \<Rightarrow> maintenance_row option" where
  "covering_window rid iid now s =
     (case sort_key w_starts_at (sort_key w_id
        (filter (\<lambda>w. window_active now w \<and> window_covers rid iid s w) (windows s))) of
        [] \<Rightarrow> None | w # _ \<Rightarrow> Some w)"

definition maintenance_reason :: "maintenance_row \<Rightarrow> string" where
  "maintenance_reason w = (if w_reason w = [] then ''maintenance:'' @ w_name w
     else ''maintenance:'' @ w_name w @ '': '' @ w_reason w)"

definition active_offline_event :: "string \<Rightarrow> alert_db \<Rightarrow> event_row option" where
  "active_offline_event iid s =
     (case sort_key e_fired_at (filter (\<lambda>e. e_instance_id e = iid \<and> e_metric e = ''node_offline'' \<and>
             e_status e \<in> {''firing'', ''acknowledged''}) (alert_events s)) of
        [] \<Rightarrow> None | e # _ \<Rightarrow> Some e)"

definition suppression_reason :: "rule_row \<Rightarrow> string \<Rightarrow> int \<Rightarrow> alert_db \<Rightarrow> string option" where
  "suppression_reason rule iid now s =
     (case covering_window (r_id rule) iid now s of
        Some w \<Rightarrow> Some (maintenance_reason w)
      | None \<Rightarrow>
          if node_offline_suppresses (r_metric rule) True then
            map_option (\<lambda>e. ''node_offline:'' @ e_id e) (active_offline_event iid s)
          else None)"

subsection \<open>Notifications of an event\<close>

text \<open>
  \<open>ON CONFLICT ... DO NOTHING\<close> on the partial unique index over the deliveries that are not
  suppressed: a suppressed row is always inserted.
\<close>

definition same_lifecycle :: "string \<Rightarrow> string \<Rightarrow> string \<Rightarrow> delivery_row \<Rightarrow> bool" where
  "same_lifecycle eid cid kind d \<longleftrightarrow>
     d_event_id d = Some eid \<and> d_channel_id d = cid \<and> d_kind d = kind"

definition new_delivery ::
  "string \<Rightarrow> event_row \<Rightarrow> channel_row \<Rightarrow> string \<Rightarrow> string option \<Rightarrow> string option \<Rightarrow> string option \<Rightarrow> int \<Rightarrow>
   delivery_row" where
  "new_delivery did ev ch kind suppression actor note now =
     \<lparr>d_id = did, d_event_id = Some (e_id ev), d_channel_id = c_id ch, d_kind = kind,
      d_status = (if suppression \<noteq> None then ''suppressed'' else ''pending''),
      d_payload = LifecycleBody ev kind actor note,
      d_channel_name = c_name ch, d_channel_type = c_type ch,
      d_suppression_reason = (case suppression of None \<Rightarrow> [] | Some r \<Rightarrow> r),
      d_attempts_count = 0, d_cycle_attempts = 0, d_manual_retry_count = 0,
      d_next_attempt_at = (if suppression = None then Some now else None),
      d_lease_until = None, d_lease_token = None, d_last_error = [],
      d_created_at = now, d_updated_at = now,
      d_completed_at = (if suppression \<noteq> None then Some now else None)\<rparr>"

definition insert_delivery ::
  "event_row \<Rightarrow> channel_row \<Rightarrow> string \<Rightarrow> string option \<Rightarrow> string option \<Rightarrow> string option \<Rightarrow> int \<Rightarrow>
   alert_db \<Rightarrow> alert_db" where
  "insert_delivery ev ch kind suppression actor note now s =
     (let d = new_delivery (new_uuid s) ev ch kind suppression actor note now;
          s1 = s\<lparr>uuid_next := Suc (uuid_next s)\<rparr>
      in if suppression = None \<and>
            (\<exists>x \<in> set (deliveries s). same_lifecycle (e_id ev) (c_id ch) kind x \<and>
               d_status x \<noteq> ''suppressed'')
         then s1 else s1\<lparr>deliveries := deliveries s @ [d]\<rparr>)"

definition event_notification_channels :: "string \<Rightarrow> alert_db \<Rightarrow> channel_row list" where
  "event_notification_channels eid s =
     sort_key c_id (filter (\<lambda>c. (eid, c_id c) \<in> set (event_channels s) \<and> c_enabled c \<and>
        c_deleted_at c = None) (channels s))"

definition enqueue_to_channel ::
  "event_row \<Rightarrow> string \<Rightarrow> string option \<Rightarrow> string option \<Rightarrow> string option \<Rightarrow> int \<Rightarrow> channel_row \<Rightarrow>
   alert_db \<Rightarrow> alert_db" where
  "enqueue_to_channel ev kind suppression actor note now ch s =
     (if kind = ''alert.firing'' \<and> suppression \<noteq> None \<and>
         (\<exists>x \<in> set (deliveries s). same_lifecycle (e_id ev) (c_id ch) ''alert.firing'' x)
      then s
      else insert_delivery ev ch kind suppression actor note now s)"

definition enqueue_event_lifecycle ::
  "event_row \<Rightarrow> string \<Rightarrow> string option \<Rightarrow> string option \<Rightarrow> string option \<Rightarrow> int \<Rightarrow> alert_db \<Rightarrow> alert_db"
where
  "enqueue_event_lifecycle ev kind suppression actor note now s =
     fold (enqueue_to_channel ev kind suppression actor note now)
       (event_notification_channels (e_id ev) s) s"

definition add_timeline :: "string \<Rightarrow> string \<Rightarrow> string \<Rightarrow> string \<Rightarrow> f64 option \<Rightarrow> int \<Rightarrow> alert_db \<Rightarrow> alert_db" where
  "add_timeline eid kind actor note v now s =
     s\<lparr>uuid_next := Suc (uuid_next s),
       alert_timeline := alert_timeline s @ [\<lparr>t_id = new_uuid s, t_event_id = eid, t_kind = kind,
         t_actor = actor, t_note = note, t_value = v, t_created_at = now\<rparr>]\<rparr>"

subsection \<open>Resolution\<close>

definition mark_resolved :: "int \<Rightarrow> string \<Rightarrow> f64 option \<Rightarrow> int \<Rightarrow> event_row \<Rightarrow> event_row" where
  "mark_resolved now reason v last_at e =
     e\<lparr>e_status := ''resolved'', e_resolved_at := Some now, e_resolution_reason := reason,
       e_current_value := v, e_last_observed_at := last_at, e_suppressed := False,
       e_suppression_reason := []\<rparr>"

definition suppress_undelivered :: "string \<Rightarrow> int \<Rightarrow> delivery_row list \<Rightarrow> delivery_row list" where
  "suppress_undelivered eid now =
     update_where (\<lambda>d. d_event_id d = Some eid \<and> d_kind d = ''alert.firing'' \<and> d_status d = ''pending'')
       (\<lambda>d. d\<lparr>d_status := ''suppressed'', d_suppression_reason := ''event_resolved_before_delivery'',
          d_next_attempt_at := None, d_lease_until := None, d_lease_token := None,
          d_completed_at := Some now, d_updated_at := now\<rparr>)"

definition resolve_event ::
  "event_row \<Rightarrow> int \<Rightarrow> string \<Rightarrow> (f64 \<times> int) option \<Rightarrow> alert_db \<Rightarrow> alert_db" where
  "resolve_event ev now reason recovery s =
     (if e_status ev = ''resolved'' then s
      else let (v, last_at) = resolution_values (e_current_value ev) (e_last_observed_at ev) recovery;
               s1 = s\<lparr>alert_events := update_where (\<lambda>e. e_id e = e_id ev \<and> e_status e \<noteq> ''resolved'')
                        (mark_resolved now reason v last_at) (alert_events s),
                      deliveries := suppress_undelivered (e_id ev) now (deliveries s)\<rparr>;
               s2 = add_timeline (e_id ev) ''resolved'' ''system'' reason v now s1
           in enqueue_event_lifecycle (mark_resolved now reason v last_at ev) ''alert.resolved'' None
                (Some ''system'') (Some reason) now s2)"

definition resolve_rule_events :: "string \<Rightarrow> int \<Rightarrow> string \<Rightarrow> alert_db \<Rightarrow> alert_db" where
  "resolve_rule_events rid now reason s =
     fold (\<lambda>e. resolve_event e now reason None)
       (filter (\<lambda>e. e_rule_id e = rid \<and> event_active e) (alert_events s)) s"

definition resolve_instance :: "string \<Rightarrow> string \<Rightarrow> int \<Rightarrow> alert_db \<Rightarrow> alert_db" where
  "resolve_instance iid reason now s =
     (let s1 = fold (\<lambda>e. resolve_event e now reason None)
                 (filter (\<lambda>e. e_instance_id e = iid \<and> event_active e) (alert_events s)) s
      in s1\<lparr>evaluations := delete_where (\<lambda>v. v_instance_id v = iid) (evaluations s1)\<rparr>)"

definition reset_metric_pending_states :: "string option \<Rightarrow> alert_db \<Rightarrow> alert_db" where
  "reset_metric_pending_states iid s =
     s\<lparr>evaluations := delete_where (\<lambda>v.
         (\<exists>r \<in> set (alert_rules s). r_id r = v_rule_id v \<and>
            r_metric r \<notin> {''node_offline'', ''instance_expiring''}) \<and>
         (case iid of None \<Rightarrow> True | Some i \<Rightarrow> v_instance_id v = i) \<and>
         v_pending_since v \<noteq> None \<and>
         active_event (v_rule_id v) (v_instance_id v) s = None) (evaluations s)\<rparr>"

subsection \<open>One observation\<close>

definition blank_evaluation :: "string \<Rightarrow> string \<Rightarrow> int \<Rightarrow> evaluation_row" where
  "blank_evaluation rid iid ver =
     \<lparr>v_rule_id = rid, v_instance_id = iid, v_rule_version = ver, v_pending_since = None,
      v_recovery_since = None, v_last_observed_at = None, v_last_value = None,
      v_last_sample_at = None, v_match_count = 0\<rparr>"

text \<open>\<open>INSERT ... ON CONFLICT(rule_id, instance_id) DO UPDATE ... WHERE rule_version <> ...\<close>\<close>

definition upsert_evaluation :: "rule_row \<Rightarrow> string \<Rightarrow> alert_db \<Rightarrow> alert_db" where
  "upsert_evaluation rule iid s =
     (let blank = blank_evaluation (r_id rule) iid (r_version rule)
      in if evaluation_for (r_id rule) iid s = None
         then s\<lparr>evaluations := evaluations s @ [blank]\<rparr>
         else s\<lparr>evaluations := update_where (\<lambda>v. v_rule_id v = r_id rule \<and> v_instance_id v = iid \<and>
                  v_rule_version v \<noteq> r_version rule) (\<lambda>_. blank) (evaluations s)\<rparr>)"

definition set_evaluation ::
  "string \<Rightarrow> string \<Rightarrow> (evaluation_row \<Rightarrow> evaluation_row) \<Rightarrow> alert_db \<Rightarrow> alert_db" where
  "set_evaluation rid iid f s =
     s\<lparr>evaluations := update_where (\<lambda>v. v_rule_id v = rid \<and> v_instance_id v = iid) f (evaluations s)\<rparr>"

definition observation_value :: "rule_observation \<Rightarrow> string \<Rightarrow> alert_db \<Rightarrow> f64 \<times> bool" where
  "observation_value obs iid s = (case obs of ThresholdObs v abnormal \<Rightarrow> (v, abnormal)
     | ConnectionObs \<Rightarrow> connection_observation (iid \<in> set (agents s)))"

definition observe_normal ::
  "rule_row \<Rightarrow> string \<Rightarrow> evaluation_row \<Rightarrow> event_row option \<Rightarrow> f64 \<Rightarrow> int \<Rightarrow> int \<Rightarrow> alert_db \<Rightarrow> alert_db" where
  "observe_normal rule iid ev active v observed sample s =
     (let (since, confirmed) = recovery_confirmation (r_metric rule) (active \<noteq> None)
            (v_recovery_since ev) observed;
          s1 = set_evaluation (r_id rule) iid (\<lambda>x. x\<lparr>v_pending_since := None,
                 v_recovery_since := (if confirmed then None else since),
                 v_last_observed_at := Some observed, v_last_value := Some v,
                 v_last_sample_at := Some sample, v_match_count := 0\<rparr>) s
      in case active of
           None \<Rightarrow> s1
         | Some e \<Rightarrow> if confirmed
             then resolve_event e observed ''condition_recovered'' (Some (v, observed)) s1 else s1)"

definition refresh_event :: "f64 \<Rightarrow> int \<Rightarrow> string option \<Rightarrow> int \<Rightarrow> event_row \<Rightarrow> event_row" where
  "refresh_event v observed suppression count e =
     e\<lparr>e_current_value := Some v, e_last_observed_at := observed, e_match_count := count,
       e_suppressed := (suppression \<noteq> None),
       e_suppression_reason := (case suppression of None \<Rightarrow> [] | Some r \<Rightarrow> r)\<rparr>"

definition observe_active ::
  "rule_row \<Rightarrow> string \<Rightarrow> evaluation_row \<Rightarrow> event_row \<Rightarrow> string option \<Rightarrow> f64 \<Rightarrow> int \<Rightarrow> int \<Rightarrow>
   alert_db \<Rightarrow> alert_db" where
  "observe_active rule iid ev e suppression v observed sample s =
     (let count = sat_add (e_match_count e) 1;
          f = refresh_event v observed suppression count;
          s1 = s\<lparr>alert_events := update_where (\<lambda>x. e_id x = e_id e) f (alert_events s)\<rparr>;
          s2 = enqueue_event_lifecycle (f e) ''alert.firing'' suppression None None observed s1
      in set_evaluation (r_id rule) iid (\<lambda>x. x\<lparr>v_recovery_since := None,
           v_last_observed_at := Some observed, v_last_value := Some v,
           v_last_sample_at := Some sample, v_match_count := sat_add (v_match_count ev) 1\<rparr>) s2)"

definition node_snapshot :: "string \<Rightarrow> alert_db \<Rightarrow> node_snapshot" where
  "node_snapshot iid s = (case find (\<lambda>i. i_id i = iid) (instances s) of
      None \<Rightarrow> NodeIdOnly iid
    | Some i \<Rightarrow> NodeColumns \<lparr>ns_id = i_id i, ns_name = i_name i, ns_hostname = i_hostname i,
        ns_region = i_region i, ns_os = i_os i, ns_arch = i_arch i,
        ns_agent_version = i_agent_version i, ns_expires_at = i_expires_at i\<rparr>)"

definition fired_event ::
  "string \<Rightarrow> rule_row \<Rightarrow> string \<Rightarrow> node_snapshot \<Rightarrow> string option \<Rightarrow> f64 \<Rightarrow> int \<Rightarrow> int \<Rightarrow> int \<Rightarrow> event_row" where
  "fired_event eid rule iid snap suppression v pending observed count =
     \<lparr>e_id = eid, e_rule_id = r_id rule, e_instance_id = iid, e_status = ''firing'',
      e_severity = r_severity rule, e_metric = r_metric rule, e_rule_snapshot = rule_snapshot rule,
      e_node_snapshot = snap, e_threshold = r_threshold rule, e_duration = r_duration rule,
      e_current_value = Some v, e_first_observed_at = pending, e_fired_at = observed,
      e_last_observed_at = observed, e_match_count = count, e_acknowledged_by = None,
      e_acknowledged_by_user_id = None, e_acknowledged_at = None, e_acknowledge_note = [],
      e_resolved_at = None, e_resolution_reason = [], e_suppressed = (suppression \<noteq> None),
      e_suppression_reason = (case suppression of None \<Rightarrow> [] | Some r \<Rightarrow> r)\<rparr>"

text \<open>\<open>INSERT INTO alert_event_channels ... SELECT ... ON CONFLICT DO NOTHING\<close>\<close>

definition rule_live_channels :: "string \<Rightarrow> alert_db \<Rightarrow> string list" where
  "rule_live_channels rid s = map snd (filter (\<lambda>(r, c). r = rid \<and>
     (\<exists>x \<in> set (channels s). c_id x = c \<and> c_deleted_at x = None)) (rule_channels s))"

definition fire_event ::
  "rule_row \<Rightarrow> string \<Rightarrow> string option \<Rightarrow> f64 \<Rightarrow> int \<Rightarrow> int \<Rightarrow> int \<Rightarrow> alert_db \<Rightarrow> alert_db" where
  "fire_event rule iid suppression v pending observed count s =
     (let eid = new_uuid s;
          e = fired_event eid rule iid (node_snapshot iid s) suppression v pending observed count;
          links = filter (\<lambda>l. l \<notin> set (event_channels s))
                    (map (\<lambda>c. (eid, c)) (rule_live_channels (r_id rule) s));
          s1 = s\<lparr>uuid_next := Suc (uuid_next s), alert_events := alert_events s @ [e],
                 event_channels := event_channels s @ links\<rparr>;
          s2 = add_timeline eid ''firing'' ''system'' [] (Some v) observed s1
      in enqueue_event_lifecycle e ''alert.firing'' suppression None None observed s2)"

definition observe_pending ::
  "rule_row \<Rightarrow> string \<Rightarrow> evaluation_row \<Rightarrow> string option \<Rightarrow> f64 \<Rightarrow> int \<Rightarrow> int \<Rightarrow> alert_db \<Rightarrow> alert_db" where
  "observe_pending rule iid ev suppression v observed sample s =
     (let pending = (case v_pending_since ev of None \<Rightarrow> observed | Some p \<Rightarrow> p);
          count = sat_add (v_match_count ev) 1;
          s1 = set_evaluation (r_id rule) iid (\<lambda>x. x\<lparr>v_pending_since := Some pending,
                 v_recovery_since := None, v_last_observed_at := Some observed,
                 v_last_value := Some v, v_last_sample_at := Some sample, v_match_count := count\<rparr>) s
      in if pending_should_fire (r_duration rule) (v_pending_since ev) (v_last_observed_at ev) observed
         then fire_event rule iid suppression v pending observed count s1 else s1)"

definition process_rule_observation ::
  "rule_row \<Rightarrow> string \<Rightarrow> rule_observation \<Rightarrow> int \<Rightarrow> int \<Rightarrow> alert_db \<Rightarrow> alert_db" where
  "process_rule_observation rule iid obs observed sample s =
     (if map_option (\<lambda>r. (r_enabled r, r_version r)) (rule_by_id (r_id rule) s)
           \<noteq> Some (True, r_version rule) then s
      else if \<not> instance_eligible iid s then
        s\<lparr>evaluations := delete_where (\<lambda>v. v_rule_id v = r_id rule \<and> v_instance_id v = iid)
            (evaluations s)\<rparr>
      else let s1 = upsert_evaluation rule iid s
           in case evaluation_for (r_id rule) iid s1 of
                None \<Rightarrow> s
              | Some ev \<Rightarrow>
                  let (v, abnormal) = observation_value obs iid s1;
                      active = active_event (r_id rule) iid s1
                  in if observation_is_stale (v_last_sample_at ev) (v_last_value ev) sample v then s1
                     else if \<not> abnormal then
                       observe_normal rule iid ev active v observed sample s1
                     else let suppression = suppression_reason rule iid observed s1
                          in case active of
                               Some e \<Rightarrow> observe_active rule iid ev e suppression v observed sample s1
                             | None \<Rightarrow> observe_pending rule iid ev suppression v observed sample s1)"

subsection \<open>The callers\<close>

definition rules_for :: "(string \<Rightarrow> bool) \<Rightarrow> string \<Rightarrow> alert_db \<Rightarrow> rule_row list" where
  "rules_for metric_ok iid s = sort_key r_id (filter (\<lambda>r. r_enabled r \<and> metric_ok (r_metric r) \<and>
     (r_scope r = ''all'' \<or> (r_id r, iid) \<in> set (rule_targets s))) (alert_rules s))"

definition observe_rule_metric :: "string \<Rightarrow> metric_observation \<Rightarrow> rule_row \<Rightarrow> alert_db \<Rightarrow> alert_db" where
  "observe_rule_metric iid ob rule s =
     (case metric_value (r_metric rule) ob of
        None \<Rightarrow> s
      | Some (v, sample) \<Rightarrow>
          process_rule_observation rule iid
            (ThresholdObs v (case r_threshold rule of None \<Rightarrow> False | Some t \<Rightarrow> f64_le t v))
            (m_received_at ob) sample s)"

definition observe_metric :: "string \<Rightarrow> metric_observation \<Rightarrow> alert_db \<Rightarrow> alert_db" where
  "observe_metric iid ob s =
     fold (observe_rule_metric iid ob)
       (rules_for (\<lambda>m. m \<notin> {''node_offline'', ''instance_expiring''}) iid s) s"

definition observe_offline_at :: "string \<Rightarrow> int \<Rightarrow> alert_db \<Rightarrow> alert_db" where
  "observe_offline_at iid observed s =
     (if \<not> instance_eligible iid s then
        s\<lparr>evaluations := delete_where (\<lambda>v. v_instance_id v = iid) (evaluations s)\<rparr>
      else fold (\<lambda>rule. process_rule_observation rule iid ConnectionObs observed observed)
             (rules_for (\<lambda>m. m = ''node_offline'') iid s) s)"

definition observe_rule_expiration :: "string \<Rightarrow> int option \<Rightarrow> int \<Rightarrow> rule_row \<Rightarrow> alert_db \<Rightarrow> alert_db" where
  "observe_rule_expiration iid expires observed rule =
     (let (v, abnormal) = expiration_observation expires observed
            (case r_threshold rule of None \<Rightarrow> Finite 0 | Some t \<Rightarrow> t)
      in process_rule_observation rule iid (ThresholdObs v abnormal) observed observed)"

definition observe_expiration_at :: "string \<Rightarrow> int \<Rightarrow> alert_db \<Rightarrow> alert_db" where
  "observe_expiration_at iid observed s =
     (case find (\<lambda>i. i_id i = iid \<and> i_approved i \<and> \<not> i_disabled i) (instances s) of
        None \<Rightarrow> s
      | Some i \<Rightarrow> fold (observe_rule_expiration iid (i_expires_at i) observed)
                   (rules_for (\<lambda>m. m = ''instance_expiring'') iid s) s)"

definition observe_connection :: "string \<Rightarrow> int \<Rightarrow> alert_db \<Rightarrow> alert_db" where
  "observe_connection iid now s =
     observe_offline_at iid now
       (if iid \<in> set (agents s) then s else reset_metric_pending_states (Some iid) s)"

definition refresh_suppression :: "int \<Rightarrow> event_row \<Rightarrow> alert_db \<Rightarrow> alert_db" where
  "refresh_suppression now ev s =
     (case rule_by_id (e_rule_id ev) s of
        None \<Rightarrow> s
      | Some rule \<Rightarrow>
          let suppression = suppression_reason rule (e_instance_id ev) now s
          in s\<lparr>alert_events := update_where (\<lambda>e. e_id e = e_id ev \<and> e_status e \<noteq> ''resolved'')
                 (\<lambda>e. e\<lparr>e_suppressed := (suppression \<noteq> None),
                    e_suppression_reason := (case suppression of None \<Rightarrow> [] | Some r \<Rightarrow> r)\<rparr>)
                 (alert_events s)\<rparr>)"

definition refresh_active_suppression_states :: "int \<Rightarrow> alert_db \<Rightarrow> alert_db" where
  "refresh_active_suppression_states now s =
     fold (refresh_suppression now) (sort_key e_id (filter event_active (alert_events s))) s"

text \<open>One tick of \<open>alert_evaluation_loop\<close>.\<close>

definition evaluate_node :: "int \<Rightarrow> int \<Rightarrow> string \<Rightarrow> alert_db \<Rightarrow> alert_db" where
  "evaluate_node started now iid s =
     (let s1 = observe_expiration_at iid now s
      in if startup_grace_defers_offline (iid \<in> set (agents s1)) started now then s1
         else observe_offline_at iid now s1)"

definition evaluation_tick :: "int \<Rightarrow> int \<Rightarrow> alert_db \<Rightarrow> alert_db" where
  "evaluation_tick started now s =
     refresh_active_suppression_states now
       (fold (evaluate_node started now)
          (sort (map i_id (filter (\<lambda>i. i_approved i \<and> \<not> i_disabled i) (instances s)))) s)"

end
