(* ===== verification/AlertRules.thy ===== *)
theory AlertRules
  imports AlertEvaluation
begin

text \<open>
  The administration of alerts (\<open>backend/src/alerts.rs\<close>): validation of rules and maintenance
  windows, their creation, update and deletion, and the acknowledgement of an event.  The handlers
  are modelled from the point where \<open>require_admin\<close> has returned the administrator's name and id.
\<close>

subsection \<open>Pages and text\<close>

definition normalize_page :: "int option \<Rightarrow> int option \<Rightarrow> int \<times> int \<times> int" where
  "normalize_page page page_size =
     (let p = max 1 (case page of None \<Rightarrow> 1 | Some p \<Rightarrow> p);
          n = max 1 (min 200 (case page_size of None \<Rightarrow> 50 | Some n \<Rightarrow> n))
      in (p, n, (p - 1) * n))"

definition page_count :: "int \<Rightarrow> int \<Rightarrow> int" where
  "page_count entries page_size =
     (if entries = 0 then 0 else (entries + page_size - 1) div page_size)"

definition trimmed :: "string \<Rightarrow> nat \<Rightarrow> string \<Rightarrow> string result" where
  "trimmed text_in max_bytes label =
     (let v = trim text_in
      in if v = [] \<or> length v > max_bytes then Inl (app_error_bad_request (label @ '' length''))
         else Inr v)"

text \<open>\<open>v.sort(); v.dedup()\<close>: byte order, then equal neighbours dropped.\<close>

definition sort_dedup :: "string list \<Rightarrow> string list" where
  "sort_dedup xs = remdups_adj (sort xs)"

subsection \<open>Rules\<close>

record rule_request =
  q_name :: string
  q_metric :: string
  q_threshold :: "f64 option"
  q_duration :: int
  q_severity :: string
  q_scope :: string
  q_targets :: "string list"
  q_channels :: "string list"
  q_enabled :: bool

definition rule_metrics :: "string list" where
  "rule_metrics = [''node_offline'', ''cpu_percent'', ''memory_percent'', ''disk_percent'',
     ''latency_ms'', ''instance_expiring'']"

definition validate_threshold :: "rule_request \<Rightarrow> unit result" where
  "validate_threshold q =
     (if q_metric q = ''node_offline'' then
        (if q_threshold q \<noteq> None then Inl (app_error_bad_request ''offline threshold'') else Inr ())
      else case q_threshold q of
          None \<Rightarrow> Inl (app_error_bad_request ''threshold required'')
        | Some t \<Rightarrow>
            if \<not> f64_is_finite t \<or> f64_lt t (Finite 0) then
              Inl (app_error_bad_request ''threshold not finite'')
            else if q_metric q = ''instance_expiring'' \<and> \<not> f64_is_integral t then
              Inl (app_error_bad_request ''threshold not whole days'')
            else if q_metric q \<in> {''cpu_percent'', ''memory_percent'', ''disk_percent''} \<and>
                    f64_lt (Finite 100) t then
              Inl (app_error_bad_request ''threshold above 100'')
            else Inr ())"

definition max_rule_targets :: nat where "max_rule_targets = 1000"
definition max_rule_channels :: nat where "max_rule_channels = 100"

definition validate_rule :: "rule_request \<Rightarrow> rule_request result" where
  "validate_rule q =
     (if length (q_targets q) > max_rule_targets then Inl (app_error_bad_request ''too many targets'')
      else if length (q_channels q) > max_rule_channels then
        Inl (app_error_bad_request ''too many channels'')
      else try_bind (trimmed (q_name q) 120 ''rule name'') (\<lambda>name.
        if q_metric q \<notin> set rule_metrics then Inl (app_error_bad_request ''metric'')
        else if q_severity q \<notin> {''warning'', ''critical''} then Inl (app_error_bad_request ''severity'')
        else if q_scope q \<notin> {''all'', ''specific''} then Inl (app_error_bad_request ''scope'')
        else if q_scope q = ''specific'' \<and> q_targets q = [] then
          Inl (app_error_bad_request ''no target'')
        else if q_duration q < 0 \<or> q_duration q > 365 * 24 * 3600 then
          Inl (app_error_bad_request ''duration'')
        else if q_metric q = ''instance_expiring'' \<and> q_duration q \<noteq> 0 then
          Inl (app_error_bad_request ''expiry duration'')
        else try_bind (validate_threshold q) (\<lambda>_.
          Inr (q\<lparr>q_name := name,
                 q_targets := (if q_scope q = ''all'' then [] else sort_dedup (q_targets q)),
                 q_channels := sort_dedup (q_channels q)\<rparr>))))"

definition validate_rule_links :: "rule_request \<Rightarrow> (alert_db, unit) handler" where
  "validate_rule_links q s =
     (case find (\<lambda>t. \<not> (\<exists>i \<in> set (instances s). i_id i = t \<and> i_approved i)) (q_targets q) of
        Some _ \<Rightarrow> (Inl (app_error_bad_request ''node missing or not approved''), s)
      | None \<Rightarrow>
          (case find (\<lambda>c. \<not> (\<exists>x \<in> set (channels s). c_id x = c \<and> c_deleted_at x = None)) (q_channels q) of
             Some _ \<Rightarrow> (Inl (app_error_bad_request ''channel missing''), s)
           | None \<Rightarrow> (Inr (), s)))"

definition replace_rule_links :: "string \<Rightarrow> rule_request \<Rightarrow> alert_db \<Rightarrow> alert_db" where
  "replace_rule_links rid q s =
     s\<lparr>rule_targets := delete_where (\<lambda>(r, _). r = rid) (rule_targets s) @
         (if q_scope q = ''specific'' then map (\<lambda>t. (rid, t)) (q_targets q) else []),
       rule_channels := delete_where (\<lambda>(r, _). r = rid) (rule_channels s) @
         map (\<lambda>c. (rid, c)) (q_channels q)\<rparr>"

definition rule_of_request :: "string \<Rightarrow> rule_request \<Rightarrow> string \<Rightarrow> int \<Rightarrow> rule_row" where
  "rule_of_request rid q username now =
     \<lparr>r_id = rid, r_name = q_name q, r_metric = q_metric q, r_threshold = q_threshold q,
      r_duration = q_duration q, r_severity = q_severity q, r_scope = q_scope q,
      r_enabled = q_enabled q, r_version = 1, r_created_by = username, r_created_at = now,
      r_updated_at = now\<rparr>"

definition create_rule :: "string \<Rightarrow> string \<Rightarrow> rule_request \<Rightarrow> int \<Rightarrow> (alert_db, string) handler" where
  "create_rule username user_id payload now =
     h_bind (h_lift (validate_rule payload)) (\<lambda>q.
     h_bind draw_uuid (\<lambda>rid.
     in_tx (h_then (validate_rule_links q)
       (h_then (h_modify (\<lambda>s. s\<lparr>alert_rules := alert_rules s @ [rule_of_request rid q username now]\<rparr>))
       (h_then (h_modify (replace_rule_links rid q))
       (h_then (audit_action username user_id ''alert_rule_create'' rid)
       (h_return rid)))))))"

definition threshold_changed :: "f64 option \<Rightarrow> f64 option \<Rightarrow> bool" where
  "threshold_changed a b = (case (a, b) of (None, None) \<Rightarrow> False
     | (Some x, Some y) \<Rightarrow> \<not> f64_eq x y | _ \<Rightarrow> True)"

definition condition_changed :: "rule_row \<Rightarrow> string list \<Rightarrow> rule_request \<Rightarrow> bool" where
  "condition_changed old old_targets q \<longleftrightarrow> r_metric old \<noteq> q_metric q \<or>
     threshold_changed (r_threshold old) (q_threshold q) \<or> r_duration old \<noteq> q_duration q \<or>
     r_severity old \<noteq> q_severity q \<or> r_scope old \<noteq> q_scope q \<or> old_targets \<noteq> q_targets q"

definition not_found_rule :: app_error where
  "not_found_rule = app_error_new 404 ''rule not found''"

definition delete_rule_evaluations :: "string \<Rightarrow> alert_db \<Rightarrow> alert_db" where
  "delete_rule_evaluations rid s =
     s\<lparr>evaluations := delete_where (\<lambda>v. v_rule_id v = rid) (evaluations s)\<rparr>"

definition apply_rule_update :: "string \<Rightarrow> rule_request \<Rightarrow> bool \<Rightarrow> int \<Rightarrow> alert_db \<Rightarrow> alert_db" where
  "apply_rule_update rid q changed now s =
     s\<lparr>alert_rules := update_where (\<lambda>r. r_id r = rid)
         (\<lambda>r. r\<lparr>r_name := q_name q, r_metric := q_metric q, r_threshold := q_threshold q,
            r_duration := q_duration q, r_severity := q_severity q, r_scope := q_scope q,
            r_enabled := q_enabled q, r_version := r_version r + (if changed then 1 else 0),
            r_updated_at := now\<rparr>) (alert_rules s)\<rparr>"

definition update_rule_tx :: "string \<Rightarrow> rule_request \<Rightarrow> int \<Rightarrow> (alert_db, bool) handler" where
  "update_rule_tx rid q now s =
     (case rule_by_id rid s of
        None \<Rightarrow> (Inl not_found_rule, s)
      | Some old \<Rightarrow>
          let old_targets = sort (map snd (filter (\<lambda>(r, _). r = rid) (rule_targets s)));
              changed = condition_changed old old_targets q
          in h_then (validate_rule_links q)
            (h_then (h_modify (\<lambda>s. if changed then
                 delete_rule_evaluations rid (resolve_rule_events rid now ''rule_conditions_changed'' s)
               else s))
            (h_then (h_modify (apply_rule_update rid q changed now))
            (h_then (h_modify (replace_rule_links rid q))
            (h_then (h_modify (\<lambda>s. if r_enabled old \<and> \<not> q_enabled q \<and> \<not> changed then
                 delete_rule_evaluations rid (resolve_rule_events rid now ''rule_disabled'' s)
               else s))
            (h_return changed))))) s)"

definition update_rule :: "string \<Rightarrow> string \<Rightarrow> string \<Rightarrow> rule_request \<Rightarrow> int \<Rightarrow> (alert_db, bool) handler" where
  "update_rule username user_id rid payload now =
     h_bind (h_lift (validate_rule payload)) (\<lambda>q.
     in_tx (h_bind (update_rule_tx rid q now) (\<lambda>changed.
       h_then (audit_action username user_id ''alert_rule_update'' rid) (h_return changed))))"

definition set_rule_enabled :: "string \<Rightarrow> string \<Rightarrow> string \<Rightarrow> bool \<Rightarrow> int \<Rightarrow> (alert_db, unit) handler" where
  "set_rule_enabled username user_id rid enabled now = in_tx (\<lambda>s.
     (case rule_by_id rid s of
        None \<Rightarrow> (Inl not_found_rule, s)
      | Some old \<Rightarrow>
          if r_enabled old = enabled then (Inr (), s)
          else h_then (h_modify (\<lambda>s. if enabled then s
                 else delete_rule_evaluations rid (resolve_rule_events rid now ''rule_disabled'' s)))
               (h_then (h_modify (\<lambda>s. s\<lparr>alert_rules := update_where (\<lambda>r. r_id r = rid)
                  (\<lambda>r. r\<lparr>r_enabled := enabled, r_updated_at := now\<rparr>) (alert_rules s)\<rparr>))
               (audit_action username user_id ''alert_rule_enabled'' rid)) s))"

definition remove_maintenance_target :: "string \<Rightarrow> string \<Rightarrow> alert_db \<Rightarrow> alert_db" where
  "remove_maintenance_target scope target s =
     (let kept = delete_where (\<lambda>(w, t). t = target \<and>
            (\<exists>x \<in> set (windows s). w_id x = w \<and> w_scope x = scope)) (window_targets s)
      in s\<lparr>window_targets := kept,
           windows := delete_where (\<lambda>w. w_scope w = scope \<and> w_id w \<notin> fst ` set kept) (windows s)\<rparr>)"

text \<open>\<open>DELETE FROM alert_rules\<close> cascades to the rule's targets, channels and evaluation states.\<close>

definition delete_rule_row :: "string \<Rightarrow> alert_db \<Rightarrow> alert_db" where
  "delete_rule_row rid s =
     s\<lparr>alert_rules := delete_where (\<lambda>r. r_id r = rid) (alert_rules s),
       rule_targets := delete_where (\<lambda>(r, _). r = rid) (rule_targets s),
       rule_channels := delete_where (\<lambda>(r, _). r = rid) (rule_channels s),
       evaluations := delete_where (\<lambda>v. v_rule_id v = rid) (evaluations s)\<rparr>"

definition delete_rule :: "string \<Rightarrow> string \<Rightarrow> string \<Rightarrow> int \<Rightarrow> (alert_db, unit) handler" where
  "delete_rule username user_id rid now = in_tx (\<lambda>s.
     (case rule_by_id rid s of
        None \<Rightarrow> (Inl not_found_rule, s)
      | Some _ \<Rightarrow>
          h_then (h_modify (resolve_rule_events rid now ''rule_deleted''))
          (h_then (h_modify (remove_maintenance_target ''rule'' rid))
          (h_then (h_modify (delete_rule_row rid))
          (audit_action username user_id ''alert_rule_delete'' rid))) s))"

subsection \<open>Acknowledgement\<close>

definition max_reason_bytes :: nat where "max_reason_bytes = 2000"

definition mark_acknowledged :: "string \<Rightarrow> string \<Rightarrow> string \<Rightarrow> int \<Rightarrow> event_row \<Rightarrow> event_row" where
  "mark_acknowledged username user_id note now e =
     e\<lparr>e_status := ''acknowledged'', e_acknowledged_by := Some username,
       e_acknowledged_by_user_id := Some user_id, e_acknowledged_at := Some now,
       e_acknowledge_note := note\<rparr>"

definition acknowledge_event_tx ::
  "string \<Rightarrow> string \<Rightarrow> string \<Rightarrow> string \<Rightarrow> int \<Rightarrow> (alert_db, unit) handler" where
  "acknowledge_event_tx eid username user_id note now s =
     (case find (\<lambda>e. e_id e = eid) (alert_events s) of
        None \<Rightarrow> (Inl (app_error_new 404 ''event not found''), s)
      | Some e \<Rightarrow>
          if e_status e = ''resolved'' then (Inl (app_error_new 409 ''resolved event''), s)
          else if e_status e \<noteq> ''firing'' then (Inr (), s)
          else let f = mark_acknowledged username user_id note now;
                   s1 = s\<lparr>alert_events := update_where (\<lambda>x. e_id x = eid) f (alert_events s)\<rparr>;
                   s2 = add_timeline eid ''acknowledged'' username note (e_current_value e) now s1
               in (Inr (), enqueue_event_lifecycle (f e) ''alert.acknowledged'' None (Some username)
                     (Some note) now s2))"

definition acknowledge_event ::
  "string \<Rightarrow> string \<Rightarrow> string \<Rightarrow> string \<Rightarrow> int \<Rightarrow> (alert_db, unit) handler" where
  "acknowledge_event username user_id eid payload_note now =
     (let note = trim payload_note
      in if length note > max_reason_bytes then h_fail (app_error_bad_request ''note too long'')
         else in_tx (h_then (acknowledge_event_tx eid username user_id note now)
           (audit_action username user_id ''alert_event_acknowledge'' eid)))"

subsection \<open>Maintenance windows\<close>

record maintenance_request =
  mq_name :: string
  mq_reason :: string
  mq_scope :: string
  mq_targets :: "string list"
  mq_starts_at :: int
  mq_ends_at :: int
  mq_enabled :: bool

definition validate_maintenance :: "maintenance_request \<Rightarrow> maintenance_request result" where
  "validate_maintenance m =
     try_bind (trimmed (mq_name m) 120 ''window name'') (\<lambda>name.
       let reason = trim (mq_reason m); targets = sort_dedup (mq_targets m)
       in if length reason > max_reason_bytes then Inl (app_error_bad_request ''reason too long'')
          else if mq_ends_at m \<le> mq_starts_at m then Inl (app_error_bad_request ''window order'')
          else if mq_scope m \<notin> {''global'', ''rule'', ''node''} then
            Inl (app_error_bad_request ''window scope'')
          else if mq_scope m = ''global'' \<and> targets \<noteq> [] then
            Inl (app_error_bad_request ''global window with targets'')
          else if mq_scope m \<noteq> ''global'' \<and> targets = [] then
            Inl (app_error_bad_request ''window without target'')
          else Inr (m\<lparr>mq_name := name, mq_reason := reason, mq_targets := targets\<rparr>))"

definition maintenance_target_exists :: "string \<Rightarrow> alert_db \<Rightarrow> string \<Rightarrow> bool" where
  "maintenance_target_exists scope s target =
     (if scope = ''rule'' then \<exists>r \<in> set (alert_rules s). r_id r = target
      else if scope = ''node'' then \<exists>i \<in> set (instances s). i_id i = target \<and> i_approved i
      else True)"

definition validate_maintenance_targets :: "maintenance_request \<Rightarrow> (alert_db, unit) handler" where
  "validate_maintenance_targets m s =
     (case find (\<lambda>t. \<not> maintenance_target_exists (mq_scope m) s t) (mq_targets m) of
        Some _ \<Rightarrow> (Inl (app_error_bad_request ''target missing''), s)
      | None \<Rightarrow> (Inr (), s))"

definition replace_maintenance_targets :: "string \<Rightarrow> string list \<Rightarrow> alert_db \<Rightarrow> alert_db" where
  "replace_maintenance_targets wid targets s =
     s\<lparr>window_targets := delete_where (\<lambda>(w, _). w = wid) (window_targets s) @
         map (\<lambda>t. (wid, t)) targets\<rparr>"

definition window_of_request :: "string \<Rightarrow> maintenance_request \<Rightarrow> string \<Rightarrow> string \<Rightarrow> int \<Rightarrow> maintenance_row"
where
  "window_of_request wid m username user_id now =
     \<lparr>w_id = wid, w_name = mq_name m, w_reason = mq_reason m, w_scope = mq_scope m,
      w_starts_at = mq_starts_at m, w_ends_at = mq_ends_at m, w_enabled = mq_enabled m,
      w_created_by = username, w_created_by_user_id = Some user_id, w_created_at = now,
      w_updated_at = now\<rparr>"

definition create_maintenance ::
  "string \<Rightarrow> string \<Rightarrow> maintenance_request \<Rightarrow> int \<Rightarrow> (alert_db, string) handler" where
  "create_maintenance username user_id payload now =
     h_bind (h_lift (validate_maintenance payload)) (\<lambda>m.
     h_bind draw_uuid (\<lambda>wid.
     in_tx (h_then (validate_maintenance_targets m)
       (h_then (h_modify (\<lambda>s. s\<lparr>windows := windows s @ [window_of_request wid m username user_id now]\<rparr>))
       (h_then (h_modify (replace_maintenance_targets wid (mq_targets m)))
       (h_then (audit_action username user_id ''alert_maintenance_create'' wid)
       (h_return wid)))))))"

definition update_maintenance ::
  "string \<Rightarrow> string \<Rightarrow> string \<Rightarrow> maintenance_request \<Rightarrow> int \<Rightarrow> (alert_db, unit) handler" where
  "update_maintenance username user_id wid payload now =
     h_bind (h_lift (validate_maintenance payload)) (\<lambda>m.
     in_tx (h_then (validate_maintenance_targets m)
       (h_bind (h_get (\<lambda>s. \<exists>w \<in> set (windows s). w_id w = wid)) (\<lambda>found.
        h_then (h_modify (\<lambda>s. s\<lparr>windows := update_where (\<lambda>w. w_id w = wid)
          (\<lambda>w. w\<lparr>w_name := mq_name m, w_reason := mq_reason m, w_scope := mq_scope m,
             w_starts_at := mq_starts_at m, w_ends_at := mq_ends_at m, w_enabled := mq_enabled m,
             w_updated_at := now\<rparr>) (windows s)\<rparr>))
        (h_then (h_guard found (app_error_new 404 ''window not found''))
        (h_then (h_modify (replace_maintenance_targets wid (mq_targets m)))
        (audit_action username user_id ''alert_maintenance_update'' wid)))))))"

text \<open>\<open>DELETE FROM alert_maintenance_windows\<close> cascades to the window's targets.\<close>

definition delete_maintenance :: "string \<Rightarrow> string \<Rightarrow> string \<Rightarrow> (alert_db, unit) handler" where
  "delete_maintenance username user_id wid = in_tx
     (h_bind (h_get (\<lambda>s. \<exists>w \<in> set (windows s). w_id w = wid)) (\<lambda>found.
      h_then (h_modify (\<lambda>s. s\<lparr>windows := delete_where (\<lambda>w. w_id w = wid) (windows s),
        window_targets := delete_where (\<lambda>(w, _). w = wid) (window_targets s)\<rparr>))
      (h_then (h_guard found (app_error_new 404 ''window not found''))
      (audit_action username user_id ''alert_maintenance_delete'' wid))))"

end
