(* ===== verification/AlertDelivery.thy ===== *)
theory AlertDelivery
  imports AlertRules
begin

text \<open>
  The delivery queue of notifications (\<open>backend/src/alerts.rs\<close>): claiming a delivery under a lease,
  starting, releasing and finishing an attempt, the retry schedule, the cooldown of a channel, the
  manual retry, the switches of a channel and the clean-up.  Each operation is one statement or one
  transaction; four workers interleave them.  What a send returns is an argument.
\<close>

definition delivery_lease_seconds :: int where "delivery_lease_seconds = 180"

definition delivery_retry_delays :: "int list" where
  "delivery_retry_delays = [60, 5 * 60, 15 * 60, 60 * 60]"

definition retry_delay_after :: "int \<Rightarrow> int option" where
  "retry_delay_after cycle =
     (if \<not> (1 \<le> cycle \<and> cycle < 5) then None else Some (delivery_retry_delays ! nat (cycle - 1)))"

definition starts_with :: "string \<Rightarrow> string \<Rightarrow> bool" where
  "starts_with p s \<longleftrightarrow> take (length p) s = p"

definition transient_channel_cooldown_delay :: "string \<Rightarrow> string \<Rightarrow> int \<Rightarrow> int option" where
  "transient_channel_cooldown_delay ctype err cycle =
     (let transient = err = ''smtp_timeout'' \<or> starts_with ''smtp_transient'' err
      in if ctype \<noteq> ''email'' \<or> \<not> transient then None
         else case retry_delay_after cycle of Some d \<Rightarrow> Some d
              | None \<Rightarrow> Some (List.last delivery_retry_delays))"

definition coalesce :: "int option \<Rightarrow> int \<Rightarrow> int" where
  "coalesce v d = (case v of None \<Rightarrow> d | Some x \<Rightarrow> x)"

subsection \<open>Claiming\<close>

definition kind_rank :: "string \<Rightarrow> int" where
  "kind_rank k = (if k = ''alert.firing'' then 1 else if k = ''alert.acknowledged'' then 2
     else if k = ''alert.resolved'' then 3 else 4)"

text \<open>\<open>ROW(created_at, CASE kind ..., id) < ROW(...)\<close>\<close>

definition lifecycle_before :: "delivery_row \<Rightarrow> delivery_row \<Rightarrow> bool" where
  "lifecycle_before a b \<longleftrightarrow> d_created_at a < d_created_at b \<or> d_created_at a = d_created_at b \<and>
     (kind_rank (d_kind a) < kind_rank (d_kind b) \<or>
      kind_rank (d_kind a) = kind_rank (d_kind b) \<and> d_id a < d_id b)"

definition due :: "int \<Rightarrow> delivery_row \<Rightarrow> bool" where
  "due now d \<longleftrightarrow> d_status d = ''pending'' \<and> coalesce (d_next_attempt_at d) 0 \<le> now \<or>
     d_status d = ''processing'' \<and> coalesce (d_lease_until d) 0 \<le> now"

definition in_flight :: "int \<Rightarrow> delivery_row \<Rightarrow> bool" where
  "in_flight now d \<longleftrightarrow> d_status d = ''processing'' \<and> coalesce (d_lease_until d) 0 > now"

definition blocks :: "int \<Rightarrow> delivery_row \<Rightarrow> delivery_row \<Rightarrow> bool" where
  "blocks now other d \<longleftrightarrow>
     d_channel_id other = d_channel_id d \<and> d_id other \<noteq> d_id d \<and>
     (in_flight now other \<or>
      d_event_id d \<noteq> None \<and> d_event_id other = d_event_id d \<and>
      d_status other \<in> {''pending'', ''processing''} \<and> lifecycle_before other d)"

definition claimable :: "int \<Rightarrow> alert_db \<Rightarrow> delivery_row \<Rightarrow> bool" where
  "claimable now s d \<longleftrightarrow> due now d \<and>
     (\<exists>c \<in> set (channels s). c_id c = d_channel_id d \<and> coalesce (c_cooldown_until c) 0 \<le> now) \<and>
     \<not> (\<exists>x \<in> set (deliveries s). blocks now x d)"

text \<open>\<open>ORDER BY COALESCE(next_attempt_at, created_at), created_at, id LIMIT 1\<close>\<close>

definition claim_candidate :: "int \<Rightarrow> alert_db \<Rightarrow> delivery_row option" where
  "claim_candidate now s =
     (case sort_key (\<lambda>d. coalesce (d_next_attempt_at d) (d_created_at d))
        (sort_key d_created_at (sort_key d_id (filter (claimable now s) (deliveries s)))) of
        [] \<Rightarrow> None | d # _ \<Rightarrow> Some d)"

definition lease :: "int \<Rightarrow> string \<Rightarrow> delivery_row \<Rightarrow> delivery_row" where
  "lease now token d = d\<lparr>d_status := ''processing'', d_lease_until := Some (now + delivery_lease_seconds),
     d_lease_token := Some token, d_updated_at := now\<rparr>"

definition claim_delivery :: "int \<Rightarrow> alert_db \<Rightarrow> delivery_row option \<times> alert_db" where
  "claim_delivery now s =
     (let token = new_uuid s; s1 = s\<lparr>uuid_next := Suc (uuid_next s)\<rparr>
      in case claim_candidate now s of
           None \<Rightarrow> (None, s1)
         | Some c \<Rightarrow> (Some (lease now token c),
             s1\<lparr>deliveries := update_where (\<lambda>d. d_id d = d_id c) (lease now token) (deliveries s)\<rparr>))"

subsection \<open>Attempts\<close>

text \<open>The row a worker still holds: \<open>id = $2 AND status = 'processing' AND lease_token = $3\<close>.\<close>

definition held :: "string \<Rightarrow> string \<Rightarrow> delivery_row \<Rightarrow> bool" where
  "held did token d \<longleftrightarrow> d_id d = did \<and> d_status d = ''processing'' \<and> d_lease_token d = Some token"

definition start_delivery_attempt :: "delivery_row \<Rightarrow> int \<Rightarrow> alert_db \<Rightarrow> delivery_row option \<times> alert_db" where
  "start_delivery_attempt d now s =
     (case d_lease_token d of
        None \<Rightarrow> (None, s)
      | Some token \<Rightarrow>
          let p = (\<lambda>x. held (d_id d) token x \<and>
                     (case d_lease_until x of None \<Rightarrow> False | Some t \<Rightarrow> t > now));
              f = (\<lambda>x. x\<lparr>d_attempts_count := d_attempts_count x + 1,
                     d_cycle_attempts := d_cycle_attempts x + 1, d_updated_at := now\<rparr>)
          in (map_option f (find p (deliveries s)),
              s\<lparr>deliveries := update_where p f (deliveries s)\<rparr>))"

definition release_delivery_claim :: "delivery_row \<Rightarrow> int \<Rightarrow> alert_db \<Rightarrow> alert_db" where
  "release_delivery_claim d retry_at s =
     (case d_lease_token d of
        None \<Rightarrow> s
      | Some token \<Rightarrow> s\<lparr>deliveries := update_where (held (d_id d) token)
          (\<lambda>x. x\<lparr>d_status := ''pending'', d_next_attempt_at := Some retry_at,
             d_lease_until := None, d_lease_token := None, d_updated_at := retry_at\<rparr>) (deliveries s)\<rparr>)"

definition current_delivery_suppression :: "delivery_row \<Rightarrow> int \<Rightarrow> alert_db \<Rightarrow> string option" where
  "current_delivery_suppression d now s =
     (if d_kind d \<noteq> ''alert.firing'' then None
      else case d_event_id d of
        None \<Rightarrow> None
      | Some eid \<Rightarrow>
          (case find (\<lambda>e. e_id e = eid) (alert_events s) of
             None \<Rightarrow> None
           | Some e \<Rightarrow>
               if e_status e = ''resolved'' then Some ''event_resolved_before_delivery''
               else case covering_window (e_rule_id e) (e_instance_id e) now s of
                   Some w \<Rightarrow> Some (maintenance_reason w)
                 | None \<Rightarrow>
                     if node_offline_suppresses (e_metric e) True then
                       map_option (\<lambda>x. ''node_offline:'' @ e_id x) (active_offline_event (e_instance_id e) s)
                     else None))"

definition close_row :: "string \<Rightarrow> int \<Rightarrow> delivery_row \<Rightarrow> delivery_row" where
  "close_row status now d = d\<lparr>d_status := status, d_next_attempt_at := None, d_lease_until := None,
     d_lease_token := None, d_completed_at := Some now, d_updated_at := now\<rparr>"

definition mark_delivery_suppressed :: "delivery_row \<Rightarrow> string \<Rightarrow> int \<Rightarrow> alert_db \<Rightarrow> alert_db" where
  "mark_delivery_suppressed d reason now s =
     (case d_lease_token d of
        None \<Rightarrow> s
      | Some token \<Rightarrow>
          if \<not> (\<exists>x \<in> set (deliveries s). held (d_id d) token x) then s
          else s\<lparr>deliveries := update_where (held (d_id d) token)
                   (\<lambda>x. close_row ''suppressed'' now (x\<lparr>d_suppression_reason := reason\<rparr>)) (deliveries s),
                 alert_events := (case d_event_id d of
                     None \<Rightarrow> alert_events s
                   | Some eid \<Rightarrow> update_where (\<lambda>e. e_id e = eid \<and> e_status e \<noteq> ''resolved'')
                       (\<lambda>e. e\<lparr>e_suppressed := True, e_suppression_reason := reason\<rparr>) (alert_events s))\<rparr>)"

record attempt_outcome =
  o_succeeded :: bool
  o_http_status :: "int option"
  o_duration_ms :: int
  o_error :: string
  o_response_excerpt :: string

definition channel_by_id :: "string \<Rightarrow> alert_db \<Rightarrow> channel_row option" where
  "channel_by_id cid s = find (\<lambda>c. c_id c = cid) (channels s)"

definition inactive_channel_error :: "channel_row option \<Rightarrow> string option" where
  "inactive_channel_error ch = (case ch of None \<Rightarrow> Some ''channel_deleted''
     | Some c \<Rightarrow> if c_deleted_at c \<noteq> None then Some ''channel_deleted''
         else if \<not> c_enabled c then Some ''channel_disabled'' else None)"

definition greatest :: "int option \<Rightarrow> int \<Rightarrow> int option" where
  "greatest v x = Some (max (coalesce v x) x)"

definition apply_channel_cooldown :: "string \<Rightarrow> int \<Rightarrow> int \<Rightarrow> alert_db \<Rightarrow> alert_db" where
  "apply_channel_cooldown cid now delay s =
     (let resume = sat_add now delay
      in s\<lparr>channels := update_where (\<lambda>c. c_id c = cid)
             (\<lambda>c. c\<lparr>c_cooldown_until := greatest (c_cooldown_until c) resume\<rparr>) (channels s),
           deliveries := update_where (\<lambda>d. d_channel_id d = cid \<and> d_status d = ''pending'')
             (\<lambda>d. d\<lparr>d_next_attempt_at := greatest (d_next_attempt_at d) resume, d_updated_at := now\<rparr>)
             (deliveries s)\<rparr>)"

text \<open>What the row becomes: the five branches at the end of \<open>finish_delivery_attempt\<close>.\<close>

definition finish_row ::
  "attempt_outcome \<Rightarrow> bool \<Rightarrow> string option \<Rightarrow> int \<Rightarrow> int \<Rightarrow> delivery_row \<Rightarrow> delivery_row" where
  "finish_row out event_resolved inactive cycle now x =
     (if o_succeeded out then close_row ''succeeded'' now (x\<lparr>d_last_error := []\<rparr>)
      else if event_resolved then
        close_row ''suppressed'' now (x\<lparr>d_suppression_reason := ''event_resolved_before_delivery'',
          d_last_error := o_error out\<rparr>)
      else case inactive of
        Some e \<Rightarrow> close_row ''failed'' now (x\<lparr>d_last_error := e\<rparr>)
      | None \<Rightarrow>
          (case retry_delay_after cycle of
             Some delay \<Rightarrow> x\<lparr>d_status := ''pending'', d_next_attempt_at := Some (now + delay),
               d_lease_until := None, d_lease_token := None, d_last_error := o_error out,
               d_updated_at := now\<rparr>
           | None \<Rightarrow> close_row ''failed'' now (x\<lparr>d_last_error := o_error out\<rparr>)))"

definition finish_delivery_attempt :: "delivery_row \<Rightarrow> attempt_outcome \<Rightarrow> int \<Rightarrow> alert_db \<Rightarrow> alert_db" where
  "finish_delivery_attempt d out now s =
     (case d_lease_token d of
        None \<Rightarrow> s
      | Some token \<Rightarrow>
          if \<not> (\<exists>x \<in> set (deliveries s). held (d_id d) token x) then s
          else
            let s1 = s\<lparr>uuid_next := Suc (uuid_next s),
                       attempts := attempts s @ [\<lparr>a_id = new_uuid s, a_delivery_id = d_id d,
                         a_attempt_number = d_attempts_count d, a_http_status = o_http_status out,
                         a_duration_ms = o_duration_ms out, a_error = o_error out,
                         a_response_excerpt = o_response_excerpt out, a_created_at = now\<rparr>]\<rparr>;
                ch = channel_by_id (d_channel_id d) s;
                event_resolved = (\<not> o_succeeded out \<and> d_kind d = ''alert.firing'' \<and>
                  (case d_event_id d of None \<Rightarrow> False
                   | Some eid \<Rightarrow> (case find (\<lambda>e. e_id e = eid) (alert_events s) of
                        None \<Rightarrow> False | Some e \<Rightarrow> e_status e = ''resolved'')));
                cooldown = (case ch of None \<Rightarrow> None
                  | Some c \<Rightarrow> if c_deleted_at c = None
                      then transient_channel_cooldown_delay (c_type c) (o_error out) (d_cycle_attempts d)
                      else None);
                s2 = (case cooldown of None \<Rightarrow> s1
                  | Some delay \<Rightarrow> apply_channel_cooldown (d_channel_id d) now delay s1)
            in s2\<lparr>deliveries := update_where (held (d_id d) token)
                 (finish_row out event_resolved (inactive_channel_error ch) (d_cycle_attempts d) now)
                 (deliveries s2)\<rparr>)"

text \<open>
  One iteration of \<open>notification_delivery_worker\<close> that is not cut short: claim, look at the
  suppression again, start, send, finish.  \<open>send\<close> is what the channel answers, \<open>done_at\<close> the clock
  after the send; the flag says whether there was a delivery to claim.
\<close>

definition deliver_one ::
  "int \<Rightarrow> int \<Rightarrow> (delivery_row \<Rightarrow> attempt_outcome) \<Rightarrow> alert_db \<Rightarrow> bool \<times> alert_db" where
  "deliver_one now done_at send s =
     (case claim_delivery now s of
        (None, s1) \<Rightarrow> (False, s1)
      | (Some d, s1) \<Rightarrow>
          (case current_delivery_suppression d now s1 of
             Some reason \<Rightarrow> (True, mark_delivery_suppressed d reason now s1)
           | None \<Rightarrow>
               (case start_delivery_attempt d now s1 of
                  (None, s2) \<Rightarrow> (True, s2)
                | (Some d2, s2) \<Rightarrow> (True, finish_delivery_attempt d2 (send d2) done_at s2))))"

subsection \<open>Manual retry, tests, switches and clean-up\<close>

definition lifecycle_has_advanced :: "string \<Rightarrow> string option \<Rightarrow> bool" where
  "lifecycle_has_advanced kind event_status \<longleftrightarrow>
     kind = ''alert.firing'' \<and> event_status \<in> {Some ''acknowledged'', Some ''resolved''} \<or>
     kind = ''alert.acknowledged'' \<and> event_status = Some ''resolved''"

definition reset_failed_delivery_tx :: "string \<Rightarrow> int \<Rightarrow> (alert_db, unit) handler" where
  "reset_failed_delivery_tx did now s =
     (case find (\<lambda>d. d_id d = did) (deliveries s) of
        None \<Rightarrow> (Inl (app_error_new 404 ''delivery not found''), s)
      | Some d \<Rightarrow>
          if d_status d \<noteq> ''failed'' then (Inl (app_error_new 409 ''delivery not failed''), s)
          else if (case d_event_id d of None \<Rightarrow> False
                   | Some eid \<Rightarrow> lifecycle_has_advanced (d_kind d)
                       (map_option e_status (find (\<lambda>e. e_id e = eid) (alert_events s)))) then
            (Inl (app_error_new 409 ''lifecycle advanced''), s)
          else case inactive_channel_error (channel_by_id (d_channel_id d) s) of
              Some _ \<Rightarrow> (Inl (app_error_new 409 ''channel inactive''), s)
            | None \<Rightarrow> (Inr (), s\<lparr>deliveries := update_where (\<lambda>x. d_id x = did \<and> d_status x = ''failed'')
                (\<lambda>x. x\<lparr>d_status := ''pending'', d_cycle_attempts := 0,
                   d_manual_retry_count := d_manual_retry_count x + 1, d_next_attempt_at := Some now,
                   d_lease_until := None, d_lease_token := None, d_last_error := [],
                   d_completed_at := None, d_updated_at := now\<rparr>) (deliveries s)\<rparr>))"

definition retry_delivery :: "string \<Rightarrow> string \<Rightarrow> string \<Rightarrow> int \<Rightarrow> (alert_db, unit) handler" where
  "retry_delivery username user_id did now =
     in_tx (h_then (reset_failed_delivery_tx did now)
       (audit_action username user_id ''alert_delivery_retry'' did))"

text \<open>\<open>ensure_channel_uri_supports\<close>; \<open>legacy\<close> says that the request used a legacy path.\<close>

definition ensure_channel_uri_supports :: "bool \<Rightarrow> string \<Rightarrow> unit result" where
  "ensure_channel_uri_supports legacy ctype =
     (if legacy \<and> ctype \<noteq> ''generic_webhook'' then Inl (app_error_bad_request ''legacy webhook path'')
      else Inr ())"

definition test_channel ::
  "string \<Rightarrow> string \<Rightarrow> bool \<Rightarrow> string \<Rightarrow> int \<Rightarrow> (alert_db, unit) handler" where
  "test_channel username user_id legacy cid now = in_tx (\<lambda>s.
     (case find (\<lambda>c. c_id c = cid \<and> c_deleted_at c = None) (channels s) of
        None \<Rightarrow> (Inl (app_error_new 404 ''channel not found''), s)
      | Some c \<Rightarrow>
          if \<not> is_ok (ensure_channel_uri_supports legacy (c_type c)) then
            (Inl (app_error_bad_request ''legacy webhook path''), s)
          else if \<not> c_enabled c then (Inl (app_error_new 409 ''channel disabled''), s)
          else h_then (h_modify (\<lambda>s. s\<lparr>uuid_next := Suc (uuid_next s),
                 deliveries := deliveries s @ [\<lparr>d_id = new_uuid s, d_event_id = None,
                   d_channel_id = cid, d_kind = ''webhook.test'', d_status = ''pending'',
                   d_payload = TestBody now username user_id, d_channel_name = c_name c,
                   d_channel_type = c_type c, d_suppression_reason = [], d_attempts_count = 0,
                   d_cycle_attempts = 0, d_manual_retry_count = 0, d_next_attempt_at = Some now,
                   d_lease_until = None, d_lease_token = None, d_last_error = [],
                   d_created_at = now, d_updated_at = now, d_completed_at = None\<rparr>]\<rparr>))
               (audit_action username user_id ''alert_webhook_test'' cid) s))"

definition fail_pending :: "string \<Rightarrow> string \<Rightarrow> int \<Rightarrow> delivery_row list \<Rightarrow> delivery_row list" where
  "fail_pending cid reason now = update_where (\<lambda>d. d_channel_id d = cid \<and> d_status d = ''pending'')
     (\<lambda>d. close_row ''failed'' now (d\<lparr>d_last_error := reason\<rparr>))"

text \<open>The transaction of \<open>update_channel\<close>, after the request has been validated and encrypted.\<close>

definition update_channel_tx ::
  "string \<Rightarrow> string \<Rightarrow> string \<Rightarrow> string \<Rightarrow> string \<Rightarrow> bool \<Rightarrow> int \<Rightarrow> (alert_db, unit) handler" where
  "update_channel_tx username user_id cid name config enabled now = in_tx (\<lambda>s.
     (if \<not> (\<exists>c \<in> set (channels s). c_id c = cid \<and> c_deleted_at c = None) then
        (Inl (app_error_new 404 ''channel not found''), s)
      else h_then (h_modify (\<lambda>s. s\<lparr>channels := update_where (\<lambda>c. c_id c = cid \<and> c_deleted_at c = None)
               (\<lambda>c. c\<lparr>c_name := name, c_config := config, c_enabled := enabled, c_updated_at := now\<rparr>)
               (channels s),
             deliveries := (if enabled then deliveries s
               else fail_pending cid ''channel_disabled'' now (deliveries s))\<rparr>))
           (audit_action username user_id ''alert_webhook_update'' cid) s))"

text \<open>
  The transaction of \<open>delete_channel\<close>, after \<open>load_channel\<close> and the check of the request path.
\<close>

definition delete_channel_tx :: "string \<Rightarrow> string \<Rightarrow> string \<Rightarrow> int \<Rightarrow> (alert_db, unit) handler" where
  "delete_channel_tx username user_id cid now = in_tx (\<lambda>s.
     (if \<not> (\<exists>c \<in> set (channels s). c_id c = cid \<and> c_deleted_at c = None) then
        (Inl (app_error_new 404 ''channel not found''), s)
      else h_then (h_modify (\<lambda>s. s\<lparr>channels := update_where (\<lambda>c. c_id c = cid \<and> c_deleted_at c = None)
               (\<lambda>c. c\<lparr>c_enabled := False, c_deleted_at := Some now, c_updated_at := now\<rparr>) (channels s),
             rule_channels := delete_where (\<lambda>(_, c). c = cid) (rule_channels s),
             deliveries := fail_pending cid ''channel_deleted'' now (deliveries s)\<rparr>))
           (audit_action username user_id ''alert_webhook_delete'' cid) s))"

definition delete_events :: "(event_row \<Rightarrow> bool) \<Rightarrow> alert_db \<Rightarrow> alert_db" where
  "delete_events p s =
     (let gone = map e_id (filter p (alert_events s));
          lost = (\<lambda>d. \<exists>eid \<in> set gone. d_event_id d = Some eid);
          dead = map d_id (filter lost (deliveries s))
      in s\<lparr>alert_events := delete_where p (alert_events s),
           alert_timeline := delete_where (\<lambda>t. t_event_id t \<in> set gone) (alert_timeline s),
           event_channels := delete_where (\<lambda>(e, _). e \<in> set gone) (event_channels s),
           deliveries := delete_where lost (deliveries s),
           attempts := delete_where (\<lambda>a. a_delivery_id a \<in> set dead) (attempts s)\<rparr>)"

definition delete_windows :: "(maintenance_row \<Rightarrow> bool) \<Rightarrow> alert_db \<Rightarrow> alert_db" where
  "delete_windows p s = s\<lparr>windows := delete_where p (windows s),
     window_targets := delete_where (\<lambda>(w, _). w \<in> w_id ` set (filter p (windows s))) (window_targets s)\<rparr>"

definition cleanup_old_alerts :: "int \<Rightarrow> alert_db \<Rightarrow> alert_db" where
  "cleanup_old_alerts cutoff s =
     (let p = (\<lambda>d. d_event_id d = None \<and> d_created_at d < cutoff \<and>
                 d_status d \<in> {''succeeded'', ''failed'', ''suppressed''});
          dead = map d_id (filter p (deliveries s));
          s1 = s\<lparr>deliveries := delete_where p (deliveries s),
                 attempts := delete_where (\<lambda>a. a_delivery_id a \<in> set dead) (attempts s)\<rparr>;
          s2 = delete_events (\<lambda>e. e_status e = ''resolved'' \<and>
                 (case e_resolved_at e of None \<Rightarrow> False | Some t \<Rightarrow> t < cutoff)) s1
      in delete_windows (\<lambda>w. w_ends_at w < cutoff) s2)"

end
