(* ===== verification/AlertSafety.thy ===== *)
theory AlertSafety
  imports AlertDelivery
begin

text \<open>
  The alert module as a machine: every transaction of the background loops and of the administration
  API is a step.  The invariant says that the partial unique indexes of the schema are never violated
  by what the code writes: one unresolved event for a rule and node, one deliverable notification for
  an event, channel and lifecycle stage, one evaluation state for a rule and node.  It rests on
  \<open>Uuid::new_v4\<close> not repeating (\<open>inj (uuids s)\<close>).  A resolved event never changes again.
\<close>

datatype alert_request =
    EvaluationTick int int
  | ObserveMetric string metric_observation
  | ObserveConnection string int
  | AgentConnected string
  | AgentDisconnected string
  | ResolveInstance string string int
  | ResetPending "string option"
  | CreateRule string string rule_request int
  | UpdateRule string string string rule_request int
  | SetRuleEnabled string string string bool int
  | DeleteRule string string string int
  | AcknowledgeEvent string string string string int
  | CreateMaintenance string string maintenance_request int
  | UpdateMaintenance string string string maintenance_request int
  | DeleteMaintenance string string string
  | ClaimDelivery int
  | StartAttempt delivery_row int
  | ReleaseClaim delivery_row int
  | MarkSuppressed delivery_row string int
  | FinishAttempt delivery_row attempt_outcome int
  | RetryDelivery string string string int
  | TestChannel string string bool string int
  | UpdateChannel string string string string string bool int
  | DeleteChannel string string string int
  | CleanupAlerts int

fun alert_step :: "alert_request \<Rightarrow> alert_db \<Rightarrow> alert_db" where
  "alert_step (EvaluationTick started now) s = evaluation_tick started now s"
| "alert_step (ObserveMetric iid ob) s = observe_metric iid ob s"
| "alert_step (ObserveConnection iid now) s = observe_connection iid now s"
| "alert_step (AgentConnected iid) s = s\<lparr>agents := List.insert iid (agents s)\<rparr>"
| "alert_step (AgentDisconnected iid) s = s\<lparr>agents := removeAll iid (agents s)\<rparr>"
| "alert_step (ResolveInstance iid reason now) s = resolve_instance iid reason now s"
| "alert_step (ResetPending iid) s = reset_metric_pending_states iid s"
| "alert_step (CreateRule u uid q now) s = snd (create_rule u uid q now s)"
| "alert_step (UpdateRule u uid rid q now) s = snd (update_rule u uid rid q now s)"
| "alert_step (SetRuleEnabled u uid rid b now) s = snd (set_rule_enabled u uid rid b now s)"
| "alert_step (DeleteRule u uid rid now) s = snd (delete_rule u uid rid now s)"
| "alert_step (AcknowledgeEvent u uid eid note now) s = snd (acknowledge_event u uid eid note now s)"
| "alert_step (CreateMaintenance u uid m now) s = snd (create_maintenance u uid m now s)"
| "alert_step (UpdateMaintenance u uid wid m now) s = snd (update_maintenance u uid wid m now s)"
| "alert_step (DeleteMaintenance u uid wid) s = snd (delete_maintenance u uid wid s)"
| "alert_step (ClaimDelivery now) s = snd (claim_delivery now s)"
| "alert_step (StartAttempt d now) s = snd (start_delivery_attempt d now s)"
| "alert_step (ReleaseClaim d t) s = release_delivery_claim d t s"
| "alert_step (MarkSuppressed d r now) s = mark_delivery_suppressed d r now s"
| "alert_step (FinishAttempt d out now) s = finish_delivery_attempt d out now s"
| "alert_step (RetryDelivery u uid did now) s = snd (retry_delivery u uid did now s)"
| "alert_step (TestChannel u uid legacy cid now) s = snd (test_channel u uid legacy cid now s)"
| "alert_step (UpdateChannel u uid cid n cfg b now) s = snd (update_channel_tx u uid cid n cfg b now s)"
| "alert_step (DeleteChannel u uid cid now) s = snd (delete_channel_tx u uid cid now s)"
| "alert_step (CleanupAlerts cutoff) s = cleanup_old_alerts cutoff s"

subsection \<open>Relations between the state before and after a step\<close>

text \<open>
  The invariant and the two-state properties are carried by one relation, closed under composition:
  what a transaction may do to the tables.
\<close>

definition drawn :: "alert_db \<Rightarrow> string set" where
  "drawn s = uuids s ` {..<uuid_next s}"

definition deliverable :: "delivery_row \<Rightarrow> bool" where
  "deliverable d \<longleftrightarrow> d_event_id d \<noteq> None \<and> d_status d \<noteq> ''suppressed''"

definition delivery_key :: "delivery_row \<Rightarrow> string option \<times> string \<times> string" where
  "delivery_key d = (d_event_id d, d_channel_id d, d_kind d)"

definition event_key :: "event_row \<Rightarrow> string \<times> string" where
  "event_key e = (e_rule_id e, e_instance_id e)"

definition ids_inv :: "alert_db \<Rightarrow> bool" where
  "ids_inv s \<longleftrightarrow> inj (uuids s) \<and> distinct (map e_id (alert_events s)) \<and>
     e_id ` set (alert_events s) \<subseteq> drawn s \<and>
     distinct (map d_id (deliveries s)) \<and> d_id ` set (deliveries s) \<subseteq> drawn s"

definition one_active :: "alert_db \<Rightarrow> bool" where
  "one_active s \<longleftrightarrow> distinct (map event_key (filter event_active (alert_events s)))"

definition one_deliverable :: "alert_db \<Rightarrow> bool" where
  "one_deliverable s \<longleftrightarrow> distinct (map delivery_key (filter deliverable (deliveries s)))"

definition one_evaluation :: "alert_db \<Rightarrow> bool" where
  "one_evaluation s \<longleftrightarrow> distinct (map (\<lambda>v. (v_rule_id v, v_instance_id v)) (evaluations s))"

definition alerts_inv :: "alert_db \<Rightarrow> bool" where
  "alerts_inv s \<longleftrightarrow> ids_inv s \<and> one_active s \<and> one_deliverable s \<and> one_evaluation s"

text \<open>A resolved event that survives is unchanged, and no event id is reused.\<close>

definition resolved_kept :: "alert_db \<Rightarrow> alert_db \<Rightarrow> bool" where
  "resolved_kept s s' \<longleftrightarrow> (\<forall>e \<in> set (alert_events s'). e_id e \<in> drawn s \<longrightarrow>
      (\<exists>e0 \<in> set (alert_events s). e_id e0 = e_id e \<and> (event_active e0 \<or> e = e0)))"

definition safe_step :: "alert_db \<Rightarrow> alert_db \<Rightarrow> bool" where
  "safe_step s s' \<longleftrightarrow> (alerts_inv s \<longrightarrow> alerts_inv s' \<and> resolved_kept s s') \<and>
     uuids s' = uuids s \<and> uuid_next s \<le> uuid_next s'"

lemma drawn_mono: "uuids s' = uuids s \<Longrightarrow> uuid_next s \<le> uuid_next s' \<Longrightarrow> drawn s \<subseteq> drawn s'"
  by (auto simp: drawn_def)

lemma new_uuid_fresh: "inj (uuids s) \<Longrightarrow> new_uuid s \<notin> drawn s"
  by (auto simp: drawn_def new_uuid_def dest: injD)

lemma safe_refl [simp, intro]: "safe_step s s"
  by (auto simp: safe_step_def resolved_kept_def)

lemma safe_trans [trans]:
  assumes "safe_step a b" "safe_step b c"
  shows "safe_step a c"
proof -
  have "resolved_kept a c" if inv: "alerts_inv a" and ab: "resolved_kept a b" and bc: "resolved_kept b c"
  proof -
    have d: "drawn a \<subseteq> drawn b" using assms(1) by (auto simp: safe_step_def intro: drawn_mono [THEN subsetD])
    show ?thesis unfolding resolved_kept_def
    proof (intro ballI impI)
      fix e assume e: "e \<in> set (alert_events c)" "e_id e \<in> drawn a"
      with bc d obtain e1 where e1: "e1 \<in> set (alert_events b)" "e_id e1 = e_id e" "event_active e1 \<or> e = e1"
        unfolding resolved_kept_def by blast
      with ab e(2) obtain e0 where e0: "e0 \<in> set (alert_events a)" "e_id e0 = e_id e1"
          "event_active e0 \<or> e1 = e0"
        unfolding resolved_kept_def by metis
      with e1 show "\<exists>e0 \<in> set (alert_events a). e_id e0 = e_id e \<and> (event_active e0 \<or> e = e0)"
        by (cases "event_active e0") auto
    qed
  qed
  with assms show ?thesis by (auto simp: safe_step_def)
qed

lemma safe_fold: "(\<And>x s. safe_step s (f x s)) \<Longrightarrow> safe_step s (fold f xs s)"
  by (induction xs arbitrary: s) (auto intro: safe_trans)

text \<open>A step that leaves events, deliveries and evaluations alone.\<close>

lemma safe_other_tables:
  assumes "alert_events s' = alert_events s" "deliveries s' = deliveries s"
    "evaluations s' = evaluations s" "uuids s' = uuids s" "uuid_next s \<le> uuid_next s'"
  shows "safe_step s s'"
  using assms drawn_mono [of s' s]
  by (auto simp: safe_step_def alerts_inv_def ids_inv_def one_active_def one_deliverable_def
      one_evaluation_def resolved_kept_def)

lemma distinct_map_filter_subset:
  "distinct (map k (filter p xs)) \<Longrightarrow> (\<And>x. q x \<Longrightarrow> p x) \<Longrightarrow> distinct (map k (filter q xs))"
proof (induction xs)
  case (Cons x xs)
  then show ?case by (cases "q x"; cases "p x") (auto simp: image_iff)
qed simp

lemma distinct_map_filter_update:
  assumes "distinct (map k (filter p xs))"
    and "\<And>x. x \<in> set xs \<Longrightarrow> q x \<Longrightarrow> p (f x) \<Longrightarrow> p x" "\<And>x. q x \<Longrightarrow> k (f x) = k x"
  shows "distinct (map k (filter p (update_where q f xs)))"
  using assms
proof (induction xs)
  case Nil
  then show ?case by (simp add: update_where_def)
next
  case (Cons x xs)
  have sub: "k ` {y. y \<in> set (update_where q f xs) \<and> p y} \<subseteq> k ` {y. y \<in> set xs \<and> p y}"
    using Cons.prems(2,3) by (fastforce simp: set_update_where image_iff)
  have IH: "distinct (map k (filter p (update_where q f xs)))"
    using Cons by (auto split: if_splits)
  have "update_where q f (x # xs) = (if q x then f x else x) # update_where q f xs"
    by (simp add: update_where_def)
  with IH sub Cons.prems show ?case by (auto split: if_splits)
qed

text \<open>What a step may do to each of the three tables.\<close>

definition events_ok :: "alert_db \<Rightarrow> alert_db \<Rightarrow> bool" where
  "events_ok s s' \<longleftrightarrow> (alerts_inv s \<longrightarrow> distinct (map e_id (alert_events s')) \<and>
     e_id ` set (alert_events s') \<subseteq> drawn s' \<and> one_active s' \<and> resolved_kept s s')"

definition deliveries_ok :: "alert_db \<Rightarrow> alert_db \<Rightarrow> bool" where
  "deliveries_ok s s' \<longleftrightarrow> (alerts_inv s \<longrightarrow> distinct (map d_id (deliveries s')) \<and>
     d_id ` set (deliveries s') \<subseteq> drawn s' \<and> one_deliverable s')"

definition evaluations_ok :: "alert_db \<Rightarrow> alert_db \<Rightarrow> bool" where
  "evaluations_ok s s' \<longleftrightarrow> (alerts_inv s \<longrightarrow> one_evaluation s')"

definition uuids_ok :: "alert_db \<Rightarrow> alert_db \<Rightarrow> bool" where
  "uuids_ok s s' \<longleftrightarrow> uuids s' = uuids s \<and> uuid_next s \<le> uuid_next s'"

lemma safeI:
  assumes "uuids_ok s s'" "events_ok s s'" "deliveries_ok s s'" "evaluations_ok s s'"
  shows "safe_step s s'"
  using assms
  by (auto simp: safe_step_def alerts_inv_def ids_inv_def events_ok_def deliveries_ok_def
      evaluations_ok_def uuids_ok_def)

lemma uuids_okI: "uuids s' = uuids s \<Longrightarrow> uuid_next s \<le> uuid_next s' \<Longrightarrow> uuids_ok s s'"
  by (simp add: uuids_ok_def)

lemma events_same: "uuids_ok s s' \<Longrightarrow> alert_events s' = alert_events s \<Longrightarrow> events_ok s s'"
  using drawn_mono [of s' s]
  by (auto simp: events_ok_def uuids_ok_def alerts_inv_def ids_inv_def one_active_def resolved_kept_def)

lemma events_update:
  assumes "uuids_ok s s'" "alert_events s' = update_where q f (alert_events s)"
    and "\<And>x. alerts_inv s \<Longrightarrow> x \<in> set (alert_events s) \<Longrightarrow> q x \<Longrightarrow> event_active x"
    and "\<And>x. e_id (f x) = e_id x" "\<And>x. event_key (f x) = event_key x"
  shows "events_ok s s'"
  unfolding events_ok_def
proof (intro impI conjI)
  assume inv: "alerts_inv s"
  have ids: "map e_id (alert_events s') = map e_id (alert_events s)"
    unfolding assms(2) by (rule map_update_where) (rule assms(4))
  show "distinct (map e_id (alert_events s'))"
    using inv by (simp add: ids alerts_inv_def ids_inv_def)
  have "e_id ` set (alert_events s') = e_id ` set (alert_events s)"
    using arg_cong [OF ids, of set] by simp
  then show "e_id ` set (alert_events s') \<subseteq> drawn s'"
    using inv assms(1) drawn_mono [of s' s] by (auto simp: alerts_inv_def ids_inv_def uuids_ok_def)
  show "one_active s'" unfolding one_active_def assms(2)
    by (rule distinct_map_filter_update)
       (use inv assms(3,5) in \<open>auto simp: alerts_inv_def one_active_def\<close>)
  show "resolved_kept s s'"
    using assms(3) [OF inv] assms(4)
    by (force simp: resolved_kept_def assms(2) set_update_where split: if_splits)
qed

lemma events_delete:
  assumes "uuids_ok s s'" "alert_events s' = delete_where q (alert_events s)"
  shows "events_ok s s'"
  unfolding events_ok_def
proof (intro impI conjI)
  assume inv: "alerts_inv s"
  show "distinct (map e_id (alert_events s'))"
    using inv by (simp add: assms(2) delete_where_def alerts_inv_def ids_inv_def distinct_map_filter)
  show "e_id ` set (alert_events s') \<subseteq> drawn s'"
    using inv assms drawn_mono [of s' s] by (auto simp: alerts_inv_def ids_inv_def uuids_ok_def)
  have "filter event_active (alert_events s') = filter (\<lambda>e. event_active e \<and> \<not> q e) (alert_events s)"
    by (simp add: assms(2) delete_where_def conj_commute)
  then show "one_active s'"
    using inv distinct_map_filter_subset [of event_key event_active "alert_events s"
        "\<lambda>e. event_active e \<and> \<not> q e"]
    by (simp add: one_active_def alerts_inv_def)
  show "resolved_kept s s'" by (auto simp: resolved_kept_def assms(2))
qed

lemma events_append:
  assumes "uuids_ok s s'" "alert_events s' = alert_events s @ [e]"
    and "e_id e = new_uuid s" "uuid_next s < uuid_next s'"
    and "active_event (e_rule_id e) (e_instance_id e) s = None"
  shows "events_ok s s'"
  unfolding events_ok_def
proof (intro impI conjI)
  assume inv: "alerts_inv s"
  then have fresh: "new_uuid s \<notin> drawn s" by (auto simp: alerts_inv_def ids_inv_def dest: new_uuid_fresh)
  have ids: "e_id ` set (alert_events s) \<subseteq> drawn s" using inv by (simp add: alerts_inv_def ids_inv_def)
  show "distinct (map e_id (alert_events s'))"
    using inv fresh ids by (auto simp: assms(2,3) alerts_inv_def ids_inv_def)
  have "new_uuid s \<in> drawn s'"
    using assms(1,4) by (auto simp: drawn_def new_uuid_def uuids_ok_def)
  then show "e_id ` set (alert_events s') \<subseteq> drawn s'"
    using ids assms(1,2,3) drawn_mono [of s' s] by (auto simp: uuids_ok_def)
  have "event_key e \<notin> event_key ` {x \<in> set (alert_events s). event_active x}"
    using assms(5) by (auto simp: active_event_def find_None event_key_def)
  then show "one_active s'"
    using inv by (auto simp: one_active_def assms(2) alerts_inv_def)
  show "resolved_kept s s'" using fresh by (auto simp: resolved_kept_def assms(2,3))
qed

lemma deliveries_same: "uuids_ok s s' \<Longrightarrow> deliveries s' = deliveries s \<Longrightarrow> deliveries_ok s s'"
  using drawn_mono [of s' s]
  by (auto simp: deliveries_ok_def uuids_ok_def alerts_inv_def ids_inv_def one_deliverable_def)

lemma deliveries_update:
  assumes "uuids_ok s s'" "deliveries s' = update_where q f (deliveries s)"
    and "\<And>x. alerts_inv s \<Longrightarrow> x \<in> set (deliveries s) \<Longrightarrow> q x \<Longrightarrow> deliverable (f x) \<Longrightarrow> deliverable x"
    and "\<And>x. d_id (f x) = d_id x" "\<And>x. delivery_key (f x) = delivery_key x"
  shows "deliveries_ok s s'"
  unfolding deliveries_ok_def
proof (intro impI conjI)
  assume inv: "alerts_inv s"
  have ids: "map d_id (deliveries s') = map d_id (deliveries s)"
    unfolding assms(2) by (rule map_update_where) (rule assms(4))
  show "distinct (map d_id (deliveries s'))"
    using inv by (simp add: ids alerts_inv_def ids_inv_def)
  have "d_id ` set (deliveries s') = d_id ` set (deliveries s)"
    using arg_cong [OF ids, of set] by simp
  then show "d_id ` set (deliveries s') \<subseteq> drawn s'"
    using inv assms(1) drawn_mono [of s' s] by (auto simp: alerts_inv_def ids_inv_def uuids_ok_def)
  show "one_deliverable s'" unfolding one_deliverable_def assms(2)
    by (rule distinct_map_filter_update)
       (use inv assms(3,5) in \<open>auto simp: alerts_inv_def one_deliverable_def\<close>)
qed

lemma deliveries_delete:
  assumes "uuids_ok s s'" "deliveries s' = delete_where q (deliveries s)"
  shows "deliveries_ok s s'"
proof -
  have "filter deliverable (deliveries s') = filter (\<lambda>e. deliverable e \<and> \<not> q e) (deliveries s)"
    by (simp add: assms delete_where_def conj_commute)
  then have "alerts_inv s \<Longrightarrow> one_deliverable s'"
    using distinct_map_filter_subset [of delivery_key deliverable "deliveries s" "\<lambda>e. deliverable e \<and> \<not> q e"]
    by (simp add: one_deliverable_def alerts_inv_def)
  then show ?thesis
    using assms drawn_mono [of s' s]
    by (auto simp: deliveries_ok_def alerts_inv_def ids_inv_def delete_where_def distinct_map_filter
        uuids_ok_def)
qed

lemma deliveries_append:
  assumes "uuids_ok s s'" "deliveries s' = deliveries s @ [d]"
    and "d_id d = new_uuid s" "uuid_next s < uuid_next s'"
    and "deliverable d \<Longrightarrow> \<forall>x \<in> set (deliveries s). deliverable x \<longrightarrow> delivery_key x \<noteq> delivery_key d"
  shows "deliveries_ok s s'"
  unfolding deliveries_ok_def
proof (intro impI conjI)
  assume inv: "alerts_inv s"
  then have fresh: "new_uuid s \<notin> drawn s" by (auto simp: alerts_inv_def ids_inv_def dest: new_uuid_fresh)
  have ids: "d_id ` set (deliveries s) \<subseteq> drawn s" using inv by (simp add: alerts_inv_def ids_inv_def)
  show "distinct (map d_id (deliveries s'))"
    using inv fresh ids by (auto simp: assms(2,3) alerts_inv_def ids_inv_def)
  have "new_uuid s \<in> drawn s'"
    using assms(1,4) by (auto simp: drawn_def new_uuid_def uuids_ok_def)
  then show "d_id ` set (deliveries s') \<subseteq> drawn s'"
    using ids assms(1,2,3) drawn_mono [of s' s] by (auto simp: uuids_ok_def)
  show "one_deliverable s'"
    using inv assms(5) by (auto simp: one_deliverable_def assms(2) alerts_inv_def)
qed

lemma evaluations_same: "evaluations s' = evaluations s \<Longrightarrow> evaluations_ok s s'"
  by (auto simp: evaluations_ok_def alerts_inv_def one_evaluation_def)

lemma evaluations_update:
  assumes "evaluations s' = update_where q f (evaluations s)"
    and "\<And>x. q x \<Longrightarrow> v_rule_id (f x) = v_rule_id x \<and> v_instance_id (f x) = v_instance_id x"
  shows "evaluations_ok s s'"
proof -
  have "map (\<lambda>v. (v_rule_id v, v_instance_id v)) (evaluations s')
      = map (\<lambda>v. (v_rule_id v, v_instance_id v)) (evaluations s)"
    unfolding assms(1) by (rule map_update_where) (simp add: assms(2))
  then show ?thesis by (auto simp: evaluations_ok_def alerts_inv_def one_evaluation_def)
qed

lemma evaluations_delete: "evaluations s' = delete_where q (evaluations s) \<Longrightarrow> evaluations_ok s s'"
  by (auto simp: evaluations_ok_def alerts_inv_def one_evaluation_def delete_where_def distinct_map_filter)

lemma evaluations_append:
  assumes "evaluations s' = evaluations s @ [v]"
    and "evaluation_for (v_rule_id v) (v_instance_id v) s = None"
  shows "evaluations_ok s s'"
  using assms by (auto simp: evaluations_ok_def alerts_inv_def one_evaluation_def evaluation_for_def find_None)

lemmas same_tables = uuids_okI events_same deliveries_same evaluations_same


subsection \<open>The operations are safe\<close>

lemma safe_set_evaluation:
  assumes "\<And>x. v_rule_id (f x) = v_rule_id x \<and> v_instance_id (f x) = v_instance_id x"
  shows "safe_step s (set_evaluation rid iid f s)"
  by (rule safeI)
     (auto intro: same_tables simp: set_evaluation_def uuids_ok_def assms intro!: evaluations_update [OF _ assms])

lemma safe_add_timeline: "safe_step s (add_timeline eid k a n v now s)"
  by (rule safe_other_tables) (simp_all add: add_timeline_def)

lemma safe_insert_delivery: "safe_step s (insert_delivery ev ch kind spr actor note now s)"
proof (rule safeI)
  let ?s' = "insert_delivery ev ch kind spr actor note now s"
  show u: "uuids_ok s ?s'" by (simp add: insert_delivery_def uuids_ok_def Let_def)
  show "events_ok s ?s'" by (rule events_same [OF u]) (simp add: insert_delivery_def Let_def)
  show "evaluations_ok s ?s'" by (rule evaluations_same) (simp add: insert_delivery_def Let_def)
  show "deliveries_ok s ?s'"
  proof (cases "spr = None \<and> (\<exists>x \<in> set (deliveries s). same_lifecycle (e_id ev) (c_id ch) kind x \<and>
       d_status x \<noteq> ''suppressed'')")
    case True
    then show ?thesis by (intro deliveries_same [OF u]) (simp add: insert_delivery_def Let_def)
  next
    case False
    show ?thesis
      by (rule deliveries_append [OF u, where d = "new_delivery (new_uuid s) ev ch kind spr actor note now"])
         (use False in \<open>auto simp: insert_delivery_def Let_def deliverable_def delivery_key_def
           new_delivery_def same_lifecycle_def\<close>)
  qed
qed

lemma safe_enqueue: "safe_step s (enqueue_event_lifecycle ev kind spr actor note now s)"
  unfolding enqueue_event_lifecycle_def
  by (rule safe_fold) (auto simp: enqueue_to_channel_def safe_insert_delivery)

lemma event_field_updates [simp]:
  "e_id (mark_resolved now r v l e) = e_id e"
  "event_key (mark_resolved now r v l e) = event_key e"
  "e_id (refresh_event fv now spr c e) = e_id e"
  "event_key (refresh_event fv now spr c e) = event_key e"
  "e_id (mark_acknowledged u i n now e) = e_id e"
  "event_key (mark_acknowledged u i n now e) = event_key e"
  by (simp_all add: mark_resolved_def refresh_event_def mark_acknowledged_def event_key_def)

lemma delivery_closed [simp]:
  "delivery_key (close_row st now d) = delivery_key d"
  "d_status (close_row st now d) = st" "d_event_id (close_row st now d) = d_event_id d"
  "d_id (close_row st now d) = d_id d"
  by (simp_all add: close_row_def delivery_key_def)

lemma safe_mark_resolved:
  "safe_step s (s\<lparr>alert_events := update_where (\<lambda>e. e_id e = eid \<and> e_status e \<noteq> ''resolved'')
       (mark_resolved now reason v l) (alert_events s),
     deliveries := suppress_undelivered eid now (deliveries s)\<rparr>)" (is "safe_step s ?s'")
proof (rule safeI)
  show u: "uuids_ok s ?s'" by (simp add: uuids_ok_def)
  show "events_ok s ?s'" by (rule events_update [OF u], simp) (auto simp: event_active_def)
  show "deliveries_ok s ?s'"
    by (rule deliveries_update [OF u], simp add: suppress_undelivered_def)
       (auto simp: deliverable_def delivery_key_def)
  show "evaluations_ok s ?s'" by (rule evaluations_same) simp
qed

lemma safe_resolve_event: "safe_step s (resolve_event ev now reason rcv s)"
proof (cases "e_status ev = ''resolved''")
  case False
  obtain v l where vl: "resolution_values (e_current_value ev) (e_last_observed_at ev) rcv = (v, l)"
    by force
  show ?thesis using False
    by (auto simp: resolve_event_def vl Let_def
        intro: safe_trans [OF safe_mark_resolved safe_trans [OF safe_add_timeline safe_enqueue]])
qed (simp add: resolve_event_def)

lemma safe_resolve_rule_events: "safe_step s (resolve_rule_events rid now reason s)"
  unfolding resolve_rule_events_def by (rule safe_fold) (rule safe_resolve_event)

lemma safe_delete_evaluations: "safe_step s (s\<lparr>evaluations := delete_where p (evaluations s)\<rparr>)"
  by (rule safeI) (auto intro: same_tables intro!: evaluations_delete simp: uuids_ok_def)

lemma safe_resolve_instance: "safe_step s (resolve_instance iid reason now s)"
  unfolding resolve_instance_def Let_def
  by (rule safe_trans [OF safe_fold safe_delete_evaluations]) (rule safe_resolve_event)

lemma safe_upsert: "safe_step s (upsert_evaluation rule iid s)"
proof (rule safeI)
  let ?s' = "upsert_evaluation rule iid s"
  show u: "uuids_ok s ?s'" by (simp add: uuids_ok_def upsert_evaluation_def Let_def)
  show "events_ok s ?s'" by (rule events_same [OF u]) (simp add: upsert_evaluation_def Let_def)
  show "deliveries_ok s ?s'" by (rule deliveries_same [OF u]) (simp add: upsert_evaluation_def Let_def)
  show "evaluations_ok s ?s'"
  proof (cases "evaluation_for (r_id rule) iid s = None")
    case True
    then show ?thesis
      by (intro evaluations_append [where v = "blank_evaluation (r_id rule) iid (r_version rule)"])
         (simp_all add: upsert_evaluation_def blank_evaluation_def Let_def)
  next
    case False
    then show ?thesis
      by (intro evaluations_update [where f = "\<lambda>_. blank_evaluation (r_id rule) iid (r_version rule)"
            and q = "\<lambda>v. v_rule_id v = r_id rule \<and> v_instance_id v = iid \<and>
              v_rule_version v \<noteq> r_version rule"])
         (auto simp: upsert_evaluation_def blank_evaluation_def Let_def)
  qed
qed

lemma active_event_SomeD:
  "active_event rid iid s = Some e \<Longrightarrow>
     e \<in> set (alert_events s) \<and> e_rule_id e = rid \<and> e_instance_id e = iid \<and> event_active e"
  by (auto simp: active_event_def dest: find_SomeD)

lemma safe_observe_normal:
  "safe_step s (observe_normal rule iid ev active v observed sample s)"
  unfolding observe_normal_def Let_def
  by (auto split: prod.splits option.splits if_splits
      intro: safe_set_evaluation safe_trans [OF safe_set_evaluation safe_resolve_event])

lemma safe_observe_active:
  assumes "active_event rid iid s = Some e"
  shows "safe_step s (observe_active rule iid ev e spr v observed sample s)"
proof -
  let ?f = "refresh_event v observed spr (sat_add (e_match_count e) 1)"
  let ?s1 = "s\<lparr>alert_events := update_where (\<lambda>x. e_id x = e_id e) ?f (alert_events s)\<rparr>"
  have "safe_step s ?s1"
  proof (rule safeI)
    show u: "uuids_ok s ?s1" by (simp add: uuids_ok_def)
    show "events_ok s ?s1"
      by (rule events_update [OF u], simp)
         (use active_event_SomeD [OF assms] in
           \<open>auto simp: alerts_inv_def ids_inv_def distinct_map dest: inj_onD\<close>)
  qed (auto intro!: same_tables)
  then show ?thesis unfolding observe_active_def Let_def
    by (rule safe_trans [OF _ safe_trans [OF safe_enqueue safe_set_evaluation]]) simp
qed

lemma safe_fire_event:
  assumes "active_event (r_id rule) iid s = None"
  shows "safe_step s (fire_event rule iid spr v pending observed count s)"
proof -
  let ?e = "fired_event (new_uuid s) rule iid (node_snapshot iid s) spr v pending observed count"
  have "safe_step s (s\<lparr>uuid_next := Suc (uuid_next s), alert_events := alert_events s @ [?e],
      event_channels := event_channels s @ l\<rparr>)" (is "safe_step s ?s1") for l
  proof (rule safeI)
    show u: "uuids_ok s ?s1" by (simp add: uuids_ok_def)
    show "events_ok s ?s1"
      by (rule events_append [OF u, where e = ?e]) (simp_all add: fired_event_def assms)
  qed (auto intro!: same_tables)
  then show ?thesis unfolding fire_event_def Let_def
    by (rule safe_trans [OF _ safe_trans [OF safe_add_timeline safe_enqueue]])
qed

lemma active_event_set_evaluation [simp]:
  "active_event r i (set_evaluation rid iid f s) = active_event r i s"
  by (simp add: active_event_def set_evaluation_def)

lemma safe_observe_pending:
  assumes "active_event (r_id rule) iid s = None"
  shows "safe_step s (observe_pending rule iid ev spr v observed sample s)"
  unfolding observe_pending_def Let_def
  using assms by (auto intro: safe_set_evaluation safe_trans [OF safe_set_evaluation safe_fire_event])

lemma safe_process: "safe_step s (process_rule_observation rule iid obs observed sample s)"
  unfolding process_rule_observation_def Let_def
  by (auto split: option.splits prod.splits intro: safe_delete_evaluations safe_upsert
      safe_trans [OF safe_upsert safe_observe_normal] safe_trans [OF safe_upsert safe_observe_active]
      safe_trans [OF safe_upsert safe_observe_pending])


lemma safe_observe_offline: "safe_step s (observe_offline_at iid observed s)"
  unfolding observe_offline_at_def
  by (auto intro: safe_delete_evaluations safe_fold safe_process)

lemma safe_reset: "safe_step s (reset_metric_pending_states iid s)"
  unfolding reset_metric_pending_states_def by (rule safe_delete_evaluations)

lemma safe_observe_connection: "safe_step s (observe_connection iid now s)"
  unfolding observe_connection_def
  by (auto intro: safe_observe_offline safe_trans [OF safe_reset safe_observe_offline])

lemma safe_observe_metric: "safe_step s (observe_metric iid ob s)"
  unfolding observe_metric_def
  by (rule safe_fold) (auto simp: observe_rule_metric_def split: option.splits intro: safe_process)

lemma safe_observe_expiration: "safe_step s (observe_expiration_at iid observed s)"
  unfolding observe_expiration_at_def
  by (auto split: option.splits prod.splits intro!: safe_fold
      simp: observe_rule_expiration_def intro: safe_process)

lemma safe_refresh: "safe_step s (refresh_suppression now ev s)"
proof (cases "rule_by_id (e_rule_id ev) s")
  case (Some rule)
  show ?thesis
  proof (rule safeI)
    show u: "uuids_ok s (refresh_suppression now ev s)"
      by (simp add: Some refresh_suppression_def uuids_ok_def Let_def)
    show "events_ok s (refresh_suppression now ev s)"
      by (rule events_update [OF u], simp add: Some refresh_suppression_def Let_def)
         (auto simp: event_active_def event_key_def)
  qed (auto intro!: same_tables simp: Some refresh_suppression_def Let_def)
qed (simp add: refresh_suppression_def)

lemma safe_tick: "safe_step s (evaluation_tick started now s)"
  unfolding evaluation_tick_def refresh_active_suppression_states_def
  by (rule safe_trans [OF safe_fold safe_fold], simp add: evaluate_node_def Let_def)
     (auto intro: safe_trans [OF safe_observe_expiration safe_observe_offline] safe_observe_expiration
        safe_refresh)

subsection \<open>The administration is safe\<close>

text \<open>Handlers: a transaction that fails leaves the tables, one that succeeds is safe.\<close>

definition safe_handler :: "(alert_db, 'a) handler \<Rightarrow> bool" where
  "safe_handler m \<longleftrightarrow> (\<forall>s. safe_step s (snd (m s)))"

lemma safe_handlerD: "safe_handler m \<Longrightarrow> safe_step s (snd (m s))"
  by (simp add: safe_handler_def)

lemma safe_handler_bind: "safe_handler m \<Longrightarrow> (\<And>x. safe_handler (k x)) \<Longrightarrow> safe_handler (h_bind m k)"
  unfolding safe_handler_def h_bind_def
proof
  fix s assume m: "\<forall>s. safe_step s (snd (m s))" and k: "\<And>x. \<forall>s. safe_step s (snd (k x s))"
  show "safe_step s (snd (case m s of (Inl e, s') \<Rightarrow> (Inl e, s') | (Inr x, s') \<Rightarrow> k x s'))"
    using m [rule_format, of s] k
    by (auto split: prod.splits sum.splits intro: safe_trans)
qed

lemma safe_handler_then: "safe_handler m \<Longrightarrow> safe_handler k \<Longrightarrow> safe_handler (h_then m k)"
  unfolding h_then_def by (rule safe_handler_bind)

lemma safe_handler_simple:
  "safe_handler (h_lift r)" "safe_handler (h_get g)" "safe_handler (h_return x)"
  "safe_handler (h_guard b e)" "safe_handler (h_fail e)" "safe_handler draw_uuid"
  "safe_handler (audit_action u i a t)"
  by (auto simp: safe_handler_def handler_simps draw_uuid_def audit_action_def intro!: safe_other_tables)

lemma safe_handler_modify: "(\<And>s. safe_step s (f s)) \<Longrightarrow> safe_handler (h_modify f)"
  by (simp add: safe_handler_def h_modify_def)

lemma safe_handler_tx:
  assumes "safe_handler m"
  shows "safe_handler (in_tx m)"
  unfolding safe_handler_def
proof
  fix s
  have m: "safe_step s (snd (m s))" using assms by (rule safe_handlerD)
  show "safe_step s (snd (in_tx m s))"
  proof (cases "m s")
    case (Pair r s')
    have "safe_step s (s\<lparr>uuid_next := uuid_next s'\<rparr>)"
      using m by (intro safe_other_tables) (simp_all add: Pair safe_step_def)
    then show ?thesis using m by (auto simp: in_tx_def Pair split: sum.splits)
  qed
qed

lemmas safe_handler_intros = safe_handler_tx safe_handler_bind safe_handler_then safe_handler_simple
  safe_handler_modify

lemma safe_validate_links: "safe_handler (validate_rule_links q)"
  by (auto simp: safe_handler_def validate_rule_links_def split: option.splits)

lemma safe_replace_links: "safe_step s (replace_rule_links rid q s)"
  by (rule safe_other_tables) (simp_all add: replace_rule_links_def)

lemma safe_delete_rule_evaluations: "safe_step s (delete_rule_evaluations rid s)"
  unfolding delete_rule_evaluations_def by (rule safe_delete_evaluations)

lemma safe_resolve_and_forget:
  "safe_step s (delete_rule_evaluations rid (resolve_rule_events rid now reason s))"
  by (rule safe_trans [OF safe_resolve_rule_events safe_delete_rule_evaluations])

lemma safe_create_rule: "safe_handler (create_rule u uid q now)"
  unfolding create_rule_def
  by (intro safe_handler_intros safe_validate_links safe_replace_links)
     (auto intro!: safe_other_tables)

lemma safe_update_rule_tx: "safe_handler (update_rule_tx rid q now)"
proof -
  have "safe_step s (apply_rule_update rid q changed now s)" for changed s
    by (rule safe_other_tables) (simp_all add: apply_rule_update_def)
  then have "safe_handler (h_then (validate_rule_links q)
            (h_then (h_modify (\<lambda>s. if changed then
                 delete_rule_evaluations rid (resolve_rule_events rid now ''rule_conditions_changed'' s)
               else s))
            (h_then (h_modify (apply_rule_update rid q changed now))
            (h_then (h_modify (replace_rule_links rid q))
            (h_then (h_modify (\<lambda>s. if r_enabled old \<and> \<not> q_enabled q \<and> \<not> changed then
                 delete_rule_evaluations rid (resolve_rule_events rid now ''rule_disabled'' s)
               else s))
            (h_return changed))))))" for old changed
    by (intro safe_handler_intros safe_validate_links safe_replace_links)
       (auto intro: safe_resolve_and_forget)
  then show ?thesis
    by (auto simp: safe_handler_def update_rule_tx_def Let_def split: option.splits)
qed

lemma safe_update_rule: "safe_handler (update_rule u uid rid q now)"
  unfolding update_rule_def by (intro safe_handler_intros safe_update_rule_tx)

lemma safe_handler_case:
  "(\<And>s. g s = None \<Longrightarrow> safe_step s (snd (m s))) \<Longrightarrow> (\<And>x. safe_handler (k x)) \<Longrightarrow>
     safe_handler (\<lambda>s. case g s of None \<Rightarrow> m s | Some x \<Rightarrow> k x s)"
  by (auto simp: safe_handler_def split: option.splits)

lemma safe_handler_if:
  "safe_handler m \<Longrightarrow> safe_handler k \<Longrightarrow> safe_handler (\<lambda>s. if b s then m s else k s)"
  by (auto simp: safe_handler_def)

lemma safe_handler_const: "safe_handler (\<lambda>s. (r, s))"
  by (auto simp: safe_handler_def)

lemma safe_modify_rules: "safe_step s (s\<lparr>alert_rules := f (alert_rules s)\<rparr>)"
  by (rule safe_other_tables) simp_all

lemma safe_set_rule_enabled: "safe_handler (set_rule_enabled u uid rid b now)"
proof -
  have *: "safe_handler (\<lambda>s. if r_enabled old = b then (Inr (), s)
     else h_then (h_modify (\<lambda>s. if b then s
                 else delete_rule_evaluations rid (resolve_rule_events rid now ''rule_disabled'' s)))
               (h_then (h_modify (\<lambda>s. s\<lparr>alert_rules := update_where (\<lambda>r. r_id r = rid)
                  (\<lambda>r. r\<lparr>r_enabled := b, r_updated_at := now\<rparr>) (alert_rules s)\<rparr>))
               (audit_action u uid ''alert_rule_enabled'' rid)) s)" for old
    by (rule safe_handler_if, rule safe_handler_const,
        intro safe_handler_then safe_handler_modify safe_handler_simple safe_modify_rules)
       (auto intro: safe_resolve_and_forget)
  show ?thesis unfolding set_rule_enabled_def
    by (rule safe_handler_tx, rule safe_handler_case) (simp, rule *)
qed

lemma safe_remove_maintenance_target: "safe_step s (remove_maintenance_target scope target s)"
  by (rule safe_other_tables) (simp_all add: remove_maintenance_target_def Let_def)

lemma safe_delete_rule_row: "safe_step s (delete_rule_row rid s)"
  by (rule safeI) (auto intro: same_tables intro!: evaluations_delete
      simp: delete_rule_row_def uuids_ok_def)

lemma safe_delete_rule: "safe_handler (delete_rule u uid rid now)"
proof -
  have *: "safe_handler (h_then (h_modify (resolve_rule_events rid now ''rule_deleted''))
          (h_then (h_modify (remove_maintenance_target ''rule'' rid))
          (h_then (h_modify (delete_rule_row rid))
          (audit_action u uid ''alert_rule_delete'' rid))))"
    by (intro safe_handler_then safe_handler_modify safe_handler_simple safe_resolve_rule_events
        safe_remove_maintenance_target safe_delete_rule_row)
  show ?thesis unfolding delete_rule_def
    by (rule safe_handler_tx, rule safe_handler_case) (simp, rule *)
qed

lemma safe_mark_acknowledged:
  assumes "find (\<lambda>e. e_id e = eid) (alert_events s) = Some e" "event_active e"
  shows "safe_step s (s\<lparr>alert_events := update_where (\<lambda>x. e_id x = eid)
      (mark_acknowledged u uid note now) (alert_events s)\<rparr>)" (is "safe_step s ?s'")
proof (rule safeI)
  show u: "uuids_ok s ?s'" by (simp add: uuids_ok_def)
  show "events_ok s ?s'"
    by (rule events_update [OF u], simp)
       (use assms(2) find_SomeD [OF assms(1)] in
         \<open>auto simp: alerts_inv_def ids_inv_def distinct_map dest: inj_onD\<close>)
qed (auto intro!: same_tables)

lemma safe_acknowledge: "safe_handler (acknowledge_event u uid eid note now)"
proof -
  have "safe_handler (acknowledge_event_tx eid u uid n now)" for n
    unfolding safe_handler_def acknowledge_event_tx_def Let_def
    by (auto split: option.splits simp: event_active_def
        intro!: safe_trans [OF safe_mark_acknowledged safe_trans [OF safe_add_timeline safe_enqueue]])
  then show ?thesis unfolding acknowledge_event_def Let_def
    by (auto intro: safe_handler_intros)
qed

lemma safe_maintenance:
  "safe_handler (create_maintenance u uid m now)"
  "safe_handler (update_maintenance u uid wid m now)"
  "safe_handler (delete_maintenance u uid wid)"
proof -
  have v: "safe_handler (validate_maintenance_targets m)" for m
    by (auto simp: safe_handler_def validate_maintenance_targets_def split: option.splits)
  have w: "safe_step s (s\<lparr>windows := f (windows s)\<rparr>)" for s f
    by (rule safe_other_tables) simp_all
  have wt: "safe_step s (s\<lparr>windows := f (windows s), window_targets := g (window_targets s)\<rparr>)" for s f g
    by (rule safe_other_tables) simp_all
  have r: "safe_step s (replace_maintenance_targets wid ts s)" for wid ts s
    by (rule safe_other_tables) (simp_all add: replace_maintenance_targets_def)
  show "safe_handler (create_maintenance u uid m now)" unfolding create_maintenance_def
    by (intro safe_handler_intros v w r)
  show "safe_handler (update_maintenance u uid wid m now)" unfolding update_maintenance_def
    by (intro safe_handler_intros v w r)
  show "safe_handler (delete_maintenance u uid wid)" unfolding delete_maintenance_def
    by (intro safe_handler_intros wt)
qed


subsection \<open>The delivery queue is safe\<close>

lemma safe_deliveries_update:
  assumes "s' = s\<lparr>deliveries := update_where q f (deliveries s)\<rparr>"
    and "\<And>x. alerts_inv s \<Longrightarrow> x \<in> set (deliveries s) \<Longrightarrow> q x \<Longrightarrow> deliverable (f x) \<Longrightarrow> deliverable x"
    and "\<And>x. d_id (f x) = d_id x" "\<And>x. delivery_key (f x) = delivery_key x"
  shows "safe_step s s'"
proof (rule safeI)
  show u: "uuids_ok s s'" by (simp add: assms(1) uuids_ok_def)
  show "deliveries_ok s s'"
    by (rule deliveries_update [OF u, where q = q and f = f])
       (simp add: assms(1), rule assms(2), assumption+, rule assms(3), rule assms(4))
qed (auto intro!: events_same evaluations_same uuids_okI simp: assms(1))

lemma claim_candidate_SomeD:
  "claim_candidate now s = Some d \<Longrightarrow> d \<in> set (deliveries s) \<and> claimable now s d"
proof -
  assume c: "claim_candidate now s = Some d"
  let ?l = "sort_key (\<lambda>d. coalesce (d_next_attempt_at d) (d_created_at d))
        (sort_key d_created_at (sort_key d_id (filter (claimable now s) (deliveries s))))"
  have "d \<in> set ?l" using c
    by (cases ?l) (simp_all add: claim_candidate_def del: set_sort)
  then have "d \<in> set (filter (claimable now s) (deliveries s))" by simp
  then show ?thesis by simp
qed

lemma lease_simps [simp]:
  "d_id (lease now tok d) = d_id d" "delivery_key (lease now tok d) = delivery_key d"
  "d_event_id (lease now tok d) = d_event_id d" "d_status (lease now tok d) = ''processing''"
  by (simp_all add: lease_def delivery_key_def)

lemma safe_claim: "safe_step s (snd (claim_delivery now s))"
proof (cases "claim_candidate now s")
  case None
  then show ?thesis by (intro safe_other_tables) (simp_all add: claim_delivery_def Let_def)
next
  case (Some d)
  note d = claim_candidate_SomeD [OF Some]
  let ?s0 = "s\<lparr>uuid_next := Suc (uuid_next s)\<rparr>"
  have "safe_step ?s0 (?s0\<lparr>deliveries := update_where (\<lambda>x. d_id x = d_id d) (lease now (new_uuid s)) (deliveries ?s0)\<rparr>)"
    (is "safe_step _ ?s1")
  proof (rule safe_deliveries_update [OF refl])
    fix x assume "alerts_inv ?s0" "x \<in> set (deliveries ?s0)" "d_id x = d_id d"
      and l: "deliverable (lease now (new_uuid s) x)"
    then have "x = d" using d by (auto simp: alerts_inv_def ids_inv_def distinct_map dest: inj_onD)
    then show "deliverable x" using d l by (auto simp: deliverable_def claimable_def due_def)
  qed simp_all
  moreover have "safe_step s ?s0"
    by (rule safe_other_tables) simp_all
  moreover have "snd (claim_delivery now s) = ?s1"
    by (simp add: claim_delivery_def Let_def Some)
  ultimately show ?thesis by (simp only: safe_trans)
qed

lemma safe_start: "safe_step s (snd (start_delivery_attempt d now s))"
  unfolding start_delivery_attempt_def Let_def
  by (auto split: option.splits intro!: safe_deliveries_update [OF refl] simp: deliverable_def delivery_key_def)

lemma safe_release: "safe_step s (release_delivery_claim d t s)"
  unfolding release_delivery_claim_def
  by (auto split: option.splits intro!: safe_deliveries_update [OF refl]
      simp: deliverable_def delivery_key_def held_def)

lemma safe_mark_suppressed: "safe_step s (mark_delivery_suppressed d reason now s)"
proof (cases "d_lease_token d")
  case (Some token)
  let ?s1 = "s\<lparr>deliveries := update_where (held (d_id d) token)
       (\<lambda>x. close_row ''suppressed'' now (x\<lparr>d_suppression_reason := reason\<rparr>)) (deliveries s)\<rparr>"
  have s1: "safe_step s ?s1"
    by (rule safe_deliveries_update [OF refl]) (auto simp: deliverable_def delivery_key_def close_row_def)
  have s2: "safe_step ?s1 (?s1\<lparr>alert_events := update_where (\<lambda>e. e_id e = eid \<and> e_status e \<noteq> ''resolved'')
      (\<lambda>e. e\<lparr>e_suppressed := True, e_suppression_reason := reason\<rparr>) (alert_events s)\<rparr>)"
    (is "safe_step _ ?s2") for eid
  proof (rule safeI)
    show u: "uuids_ok ?s1 ?s2" by (simp add: uuids_ok_def)
    show "events_ok ?s1 ?s2"
      by (rule events_update [OF u], simp) (auto simp: event_active_def event_key_def)
  qed (auto intro!: same_tables)
  show ?thesis
    using s1 safe_trans [OF s1 s2]
    by (auto simp: mark_delivery_suppressed_def Some split: option.splits)
qed (simp add: mark_delivery_suppressed_def)

lemma safe_cooldown: "safe_step s (apply_channel_cooldown cid now delay s)"
proof (rule safeI)
  let ?s' = "apply_channel_cooldown cid now delay s"
  show u: "uuids_ok s ?s'" by (simp add: apply_channel_cooldown_def uuids_ok_def Let_def)
  show "events_ok s ?s'" by (rule events_same [OF u]) (simp add: apply_channel_cooldown_def Let_def)
  show "evaluations_ok s ?s'" by (rule evaluations_same) (simp add: apply_channel_cooldown_def Let_def)
  show "deliveries_ok s ?s'"
    by (rule deliveries_update [OF u], simp add: apply_channel_cooldown_def Let_def)
       (auto simp: deliverable_def delivery_key_def)
qed

lemma finish_row_simps [simp]:
  "d_id (finish_row out r i c now x) = d_id x"
  "delivery_key (finish_row out r i c now x) = delivery_key x"
  by (auto simp: finish_row_def close_row_def delivery_key_def split: option.splits)

lemma safe_finish: "safe_step s (finish_delivery_attempt d out now s)"
proof (cases "d_lease_token d")
  case (Some token)
  have a: "safe_step s (s\<lparr>uuid_next := Suc (uuid_next s), attempts := l\<rparr>)" for l
    by (rule safe_other_tables) simp_all
  have f: "safe_step t (t\<lparr>deliveries := update_where (held (d_id d) token) (finish_row out r i c now) ds\<rparr>)"
    if "ds = deliveries t" for t r i c ds
    unfolding that by (rule safe_deliveries_update [OF refl])
       (auto simp: held_def deliverable_def finish_row_def close_row_def delivery_key_def
          split: if_splits option.splits)
  show ?thesis
    unfolding finish_delivery_attempt_def Let_def Some option.case
    by (auto split: option.splits intro!: safe_trans [OF a f] safe_trans [OF a safe_trans [OF safe_cooldown f]])
qed (simp add: finish_delivery_attempt_def)


lemma safe_retry: "safe_handler (retry_delivery u uid did now)"
proof -
  have "safe_handler (reset_failed_delivery_tx did now)"
    unfolding safe_handler_def reset_failed_delivery_tx_def
    by (auto split: option.splits intro!: safe_deliveries_update [OF refl]
        simp: deliverable_def delivery_key_def)
  then show ?thesis unfolding retry_delivery_def by (intro safe_handler_intros)
qed

lemma safe_test_channel: "safe_handler (test_channel u uid legacy cid now)"
proof -
  let ?d = "\<lambda>c s. \<lparr>d_id = new_uuid s, d_event_id = None,
                   d_channel_id = cid, d_kind = ''webhook.test'', d_status = ''pending'',
                   d_payload = TestBody now u uid, d_channel_name = c_name c,
                   d_channel_type = c_type c, d_suppression_reason = [], d_attempts_count = 0,
                   d_cycle_attempts = 0, d_manual_retry_count = 0, d_next_attempt_at = Some now,
                   d_lease_until = None, d_lease_token = None, d_last_error = [],
                   d_created_at = now, d_updated_at = now, d_completed_at = None\<rparr>"
  have i: "safe_step s (s\<lparr>uuid_next := Suc (uuid_next s), deliveries := deliveries s @ [?d c s]\<rparr>)"
    (is "safe_step s ?s'") for c s
  proof (rule safeI)
    show u: "uuids_ok s ?s'" by (simp add: uuids_ok_def)
    show "deliveries_ok s ?s'"
      by (rule deliveries_append [OF u, where d = "?d c s"]) (simp_all add: deliverable_def)
  qed (auto intro!: events_same evaluations_same uuids_okI)
  have "safe_handler (\<lambda>s. if \<not> is_ok (ensure_channel_uri_supports legacy (c_type c)) then
            (Inl (app_error_bad_request ''legacy webhook path''), s)
          else if \<not> c_enabled c then (Inl (app_error_new 409 ''channel disabled''), s)
          else h_then (h_modify (\<lambda>s. s\<lparr>uuid_next := Suc (uuid_next s), deliveries := deliveries s @ [?d c s]\<rparr>))
               (audit_action u uid ''alert_webhook_test'' cid) s)" for c
    by (intro safe_handler_if safe_handler_const safe_handler_then safe_handler_modify i safe_handler_simple)
  then show ?thesis unfolding test_channel_def
    by (intro safe_handler_tx safe_handler_case) simp_all
qed

lemma safe_channel_switch:
  "safe_handler (update_channel_tx u uid cid n cfg b now)"
  "safe_handler (delete_channel_tx u uid cid now)"
proof -
  have d: "safe_step s (s\<lparr>channels := f (channels s), deliveries := fail_pending cid reason now (deliveries s)\<rparr>)"
    (is "safe_step s ?s'") for s f reason
  proof (rule safeI)
    show u: "uuids_ok s ?s'" by (simp add: uuids_ok_def)
    show "deliveries_ok s ?s'"
      by (rule deliveries_update [OF u], simp add: fail_pending_def)
         (auto simp: deliverable_def delivery_key_def close_row_def)
  qed (auto intro!: events_same evaluations_same uuids_okI)
  have e: "safe_step s (s\<lparr>channels := f (channels s),
      deliveries := (if b then deliveries s else fail_pending cid reason now (deliveries s))\<rparr>)" for s f reason
    using d [where s = s and f = f and reason = reason] by (cases b) (auto intro!: safe_other_tables)
  have g: "safe_step s (s\<lparr>channels := f (channels s), rule_channels := h (rule_channels s),
      deliveries := fail_pending cid reason now (deliveries s)\<rparr>)" for s f h reason
    by (rule safe_trans [OF d [where s = s and f = f and reason = reason]]) (rule safe_other_tables; simp)
  show "safe_handler (update_channel_tx u uid cid n cfg b now)"
    unfolding update_channel_tx_def
    by (intro safe_handler_tx safe_handler_if safe_handler_const safe_handler_then safe_handler_modify e
        safe_handler_simple)
  show "safe_handler (delete_channel_tx u uid cid now)"
    unfolding delete_channel_tx_def
    by (intro safe_handler_tx safe_handler_if safe_handler_const safe_handler_then safe_handler_modify g
        safe_handler_simple)
qed

lemma safe_cleanup: "safe_step s (cleanup_old_alerts cutoff s)"
proof -
  have a: "safe_step s (s\<lparr>deliveries := delete_where p (deliveries s), attempts := l\<rparr>)" (is "safe_step s ?s'") for s p l
  proof (rule safeI)
    show u: "uuids_ok s ?s'" by (simp add: uuids_ok_def)
    show "deliveries_ok s ?s'" by (rule deliveries_delete [OF u]) simp
  qed (auto intro!: events_same evaluations_same uuids_okI)
  have b: "safe_step s (delete_events p s)" for s p
  proof (rule safeI)
    show u: "uuids_ok s (delete_events p s)" by (simp add: delete_events_def uuids_ok_def Let_def)
    show "events_ok s (delete_events p s)"
      by (rule events_delete [OF u]) (simp add: delete_events_def Let_def)
    show "deliveries_ok s (delete_events p s)"
      by (rule deliveries_delete [OF u]) (simp add: delete_events_def Let_def)
    show "evaluations_ok s (delete_events p s)"
      by (rule evaluations_same) (simp add: delete_events_def Let_def)
  qed
  have c: "safe_step s (delete_windows p s)" for s p
    by (rule safe_other_tables) (simp_all add: delete_windows_def)
  show ?thesis unfolding cleanup_old_alerts_def Let_def
    by (rule safe_trans [OF a safe_trans [OF b c]])
qed

lemma alert_step_safe: "safe_step s (alert_step req s)"
proof (cases req)
  case (AgentConnected iid)
  then show ?thesis by (auto intro: safe_other_tables)
next
  case (AgentDisconnected iid)
  then show ?thesis by (auto intro: safe_other_tables)
qed (simp_all add: safe_tick safe_observe_metric safe_observe_connection safe_resolve_instance safe_reset
    safe_create_rule safe_update_rule safe_set_rule_enabled safe_delete_rule safe_acknowledge
    safe_maintenance safe_claim safe_start safe_release safe_mark_suppressed safe_finish safe_retry
    safe_test_channel safe_channel_switch safe_cleanup safe_handlerD)

text \<open>The machine: its runs keep the invariant, from the laws of one step.\<close>

interpretation alerts: invariant_machine alert_step alerts_inv
  by unfold_locales (use alert_step_safe in \<open>auto simp: safe_step_def\<close>)

lemma run_safe: "safe_step s (fold alert_step reqs s)"
  by (rule safe_fold) (rule alert_step_safe)

subsection \<open>The unique indexes\<close>

definition empty_alerts :: "(nat \<Rightarrow> string) \<Rightarrow> alert_db" where
  "empty_alerts ids = \<lparr>instances = [], alert_rules = [], rule_targets = [], rule_channels = [],
     evaluations = [], alert_events = [], event_channels = [], alert_timeline = [], windows = [],
     window_targets = [], channels = [], deliveries = [], attempts = [], agents = [], audit_log = [],
     uuids = ids, uuid_next = 0\<rparr>"

lemma active_unique_lookup:
  assumes "one_active s" "e \<in> set (alert_events s)" "f \<in> set (alert_events s)"
    "event_active e" "event_active f" "event_key e = event_key f"
  shows "e = f"
  using assms by (auto simp: one_active_def distinct_map dest: inj_onD)

lemma deliverable_unique_lookup:
  assumes "one_deliverable s" "c \<in> set (deliveries s)" "d \<in> set (deliveries s)"
    "deliverable c" "deliverable d" "delivery_key c = delivery_key d"
  shows "c = d"
  using assms by (auto simp: one_deliverable_def distinct_map dest: inj_onD)

end
