(* ===== verification/AlertMonitor.thy ===== *)
theory AlertMonitor
  imports AlertSafety
begin

text \<open>
  An abstract specification of one alert: a monitor for a rule and a node, which knows since when the
  condition holds, since when it has recovered, and whether the alert is active.
  \<open>process_rule_observation\<close> refines it, so statements about sequences of readings are proved on
  the monitor and hold of the tables.
\<close>

record monitor =
  mon_pending :: "int option"
  mon_recovery :: "int option"
  mon_last_at :: "int option"
  mon_last_value :: "f64 option"
  mon_last_sample :: "int option"
  mon_active :: bool

text \<open>A reading: value, abnormal or not, time of the observation, time of the sample.\<close>

type_synonym reading = "f64 \<times> bool \<times> int \<times> int"

definition reading_time :: "reading \<Rightarrow> int" where "reading_time = (\<lambda>(v, ab, t, u). t)"
definition reading_abnormal :: "reading \<Rightarrow> bool" where "reading_abnormal = (\<lambda>(v, ab, t, u). ab)"

definition note_reading :: "reading \<Rightarrow> monitor \<Rightarrow> monitor" where
  "note_reading = (\<lambda>(v, ab, t, u) m.
     m\<lparr>mon_last_at := Some t, mon_last_value := Some v, mon_last_sample := Some u\<rparr>)"

definition monitor_fresh_step :: "rule_row \<Rightarrow> reading \<Rightarrow> monitor \<Rightarrow> monitor" where
  "monitor_fresh_step rule r m = note_reading r
     (if \<not> reading_abnormal r then
        let (since, confirmed) = recovery_confirmation (r_metric rule) (mon_active m) (mon_recovery m)
              (reading_time r)
        in m\<lparr>mon_pending := None, mon_recovery := (if confirmed then None else since),
             mon_active := mon_active m \<and> \<not> confirmed\<rparr>
      else if mon_active m then m\<lparr>mon_recovery := None\<rparr>
      else m\<lparr>mon_pending := Some (case mon_pending m of None \<Rightarrow> reading_time r | Some p \<Rightarrow> p),
             mon_recovery := None,
             mon_active := pending_should_fire (r_duration rule) (mon_pending m) (mon_last_at m)
               (reading_time r)\<rparr>)"

definition reading_stale :: "reading \<Rightarrow> int option \<Rightarrow> f64 option \<Rightarrow> bool" where
  "reading_stale = (\<lambda>(v, ab, t, u) last_u last_v. observation_is_stale last_u last_v u v)"

definition monitor_step :: "rule_row \<Rightarrow> reading \<Rightarrow> monitor \<Rightarrow> monitor" where
  "monitor_step rule r m = (if reading_stale r (mon_last_sample m) (mon_last_value m) then m
     else monitor_fresh_step rule r m)"

text \<open>The state of the monitor in the tables.\<close>

definition evaluation_now :: "rule_row \<Rightarrow> string \<Rightarrow> alert_db \<Rightarrow> evaluation_row" where
  "evaluation_now rule iid s =
     (let blank = blank_evaluation (r_id rule) iid (r_version rule)
      in case evaluation_for (r_id rule) iid s of None \<Rightarrow> blank
         | Some v \<Rightarrow> if v_rule_version v = r_version rule then v else blank)"

definition monitor_of :: "rule_row \<Rightarrow> string \<Rightarrow> alert_db \<Rightarrow> monitor" where
  "monitor_of rule iid s = (let v = evaluation_now rule iid s in
     \<lparr>mon_pending = v_pending_since v, mon_recovery = v_recovery_since v,
      mon_last_at = v_last_observed_at v, mon_last_value = v_last_value v,
      mon_last_sample = v_last_sample_at v,
      mon_active = (active_event (r_id rule) iid s \<noteq> None)\<rparr>)"

definition rule_live :: "rule_row \<Rightarrow> string \<Rightarrow> alert_db \<Rightarrow> bool" where
  "rule_live rule iid s \<longleftrightarrow> instance_eligible iid s \<and>
     map_option (\<lambda>r. (r_enabled r, r_version r)) (rule_by_id (r_id rule) s) = Some (True, r_version rule)"

definition observation_reading :: "rule_observation \<Rightarrow> string \<Rightarrow> int \<Rightarrow> int \<Rightarrow> alert_db \<Rightarrow> reading" where
  "observation_reading obs iid t u s =
     (case observation_value obs iid s of (v, ab) \<Rightarrow> (v, ab, t, u))"

subsection \<open>What the operations leave of events and evaluations\<close>

lemma enqueue_tables [simp]:
  "alert_events (enqueue_event_lifecycle ev k spr a n now s) = alert_events s"
  "evaluations (enqueue_event_lifecycle ev k spr a n now s) = evaluations s"
  "instances (enqueue_event_lifecycle ev k spr a n now s) = instances s"
  "alert_rules (enqueue_event_lifecycle ev k spr a n now s) = alert_rules s"
  "agents (enqueue_event_lifecycle ev k spr a n now s) = agents s"
proof -
  have "alert_events (fold (enqueue_to_channel ev k spr a n now) cs s) = alert_events s \<and>
     evaluations (fold (enqueue_to_channel ev k spr a n now) cs s) = evaluations s \<and>
     instances (fold (enqueue_to_channel ev k spr a n now) cs s) = instances s \<and>
     alert_rules (fold (enqueue_to_channel ev k spr a n now) cs s) = alert_rules s \<and>
     agents (fold (enqueue_to_channel ev k spr a n now) cs s) = agents s" for cs
    by (induction cs arbitrary: s) (auto simp: enqueue_to_channel_def insert_delivery_def Let_def)
  then show "alert_events (enqueue_event_lifecycle ev k spr a n now s) = alert_events s"
    "evaluations (enqueue_event_lifecycle ev k spr a n now s) = evaluations s"
    "instances (enqueue_event_lifecycle ev k spr a n now s) = instances s"
    "alert_rules (enqueue_event_lifecycle ev k spr a n now s) = alert_rules s"
    "agents (enqueue_event_lifecycle ev k spr a n now s) = agents s"
    by (simp_all add: enqueue_event_lifecycle_def)
qed

lemma timeline_tables [simp]:
  "alert_events (add_timeline eid k a n v now s) = alert_events s"
  "evaluations (add_timeline eid k a n v now s) = evaluations s"
  "instances (add_timeline eid k a n v now s) = instances s"
  "alert_rules (add_timeline eid k a n v now s) = alert_rules s"
  "agents (add_timeline eid k a n v now s) = agents s"
  by (simp_all add: add_timeline_def)

lemma resolve_event_tables:
  "evaluations (resolve_event ev now reason rcv s) = evaluations s"
  "instances (resolve_event ev now reason rcv s) = instances s"
  "alert_rules (resolve_event ev now reason rcv s) = alert_rules s"
  "agents (resolve_event ev now reason rcv s) = agents s"
  by (simp_all add: resolve_event_def Let_def split: prod.splits)

lemma process_keeps_context:
  "instances (process_rule_observation rule iid obs t u s) = instances s"
  "alert_rules (process_rule_observation rule iid obs t u s) = alert_rules s"
  "agents (process_rule_observation rule iid obs t u s) = agents s"
  by (auto simp: process_rule_observation_def observe_normal_def observe_active_def observe_pending_def
      fire_event_def set_evaluation_def upsert_evaluation_def resolve_event_tables Let_def
      split: option.splits prod.splits)

lemma rule_live_process: "rule_live rule iid (process_rule_observation r i obs t u s) = rule_live rule iid s"
  by (simp add: rule_live_def instance_eligible_def rule_by_id_def process_keeps_context)

lemma evaluation_after_upsert:
  "evaluation_for (r_id rule) iid (upsert_evaluation rule iid s) = Some (evaluation_now rule iid s)"
proof (cases "evaluation_for (r_id rule) iid s")
  case None
  then show ?thesis
    by (auto simp: evaluation_for_def upsert_evaluation_def evaluation_now_def Let_def find_append
        blank_evaluation_def)
next
  case (Some v)
  then have v: "v_rule_id v = r_id rule" "v_instance_id v = iid"
    by (auto simp: evaluation_for_def dest: find_SomeD)
  have "evaluations (upsert_evaluation rule iid s) = update_where
     (\<lambda>v. v_rule_id v = r_id rule \<and> v_instance_id v = iid \<and> v_rule_version v \<noteq> r_version rule)
     (\<lambda>_. blank_evaluation (r_id rule) iid (r_version rule)) (evaluations s)"
    by (simp add: upsert_evaluation_def Some Let_def)
  then have "evaluation_for (r_id rule) iid (upsert_evaluation rule iid s) =
     map_option (\<lambda>x. if v_rule_id x = r_id rule \<and> v_instance_id x = iid \<and> v_rule_version x \<noteq> r_version rule
        then blank_evaluation (r_id rule) iid (r_version rule) else x) (evaluation_for (r_id rule) iid s)"
    unfolding evaluation_for_def
    by (simp only:) (rule find_update_where, simp add: blank_evaluation_def)
  then show ?thesis using v by (simp add: Some evaluation_now_def Let_def)
qed

lemma evaluation_after_set:
  assumes "\<And>x. v_rule_id (f x) = v_rule_id x \<and> v_instance_id (f x) = v_instance_id x"
  shows "evaluation_for rid iid (set_evaluation rid iid f s) = map_option f (evaluation_for rid iid s)"
proof -
  have "evaluation_for rid iid (set_evaluation rid iid f s) =
     map_option (\<lambda>x. if v_rule_id x = rid \<and> v_instance_id x = iid then f x else x) (evaluation_for rid iid s)"
    unfolding evaluation_for_def set_evaluation_def by (simp add: find_update_where assms)
  then show ?thesis
    by (cases "evaluation_for rid iid s") (auto simp: evaluation_for_def dest: find_SomeD)
qed

lemma active_after_upsert [simp]: "active_event r i (upsert_evaluation rule iid s) = active_event r i s"
  by (simp add: active_event_def upsert_evaluation_def Let_def)

lemma active_event_cong: "alert_events t = alert_events s \<Longrightarrow> active_event r i t = active_event r i s"
  by (simp add: active_event_def)

lemma evaluation_for_cong: "evaluations t = evaluations s \<Longrightarrow> evaluation_for r i t = evaluation_for r i s"
  by (simp add: evaluation_for_def)

lemma resolve_event_events:
  assumes "e_status ev \<noteq> ''resolved''"
  shows "\<exists>v l. alert_events (resolve_event ev now reason rcv s) =
     update_where (\<lambda>e. e_id e = e_id ev \<and> e_status e \<noteq> ''resolved'') (mark_resolved now reason v l) (alert_events s)"
  using assms by (auto simp: resolve_event_def Let_def split: prod.splits)

lemma active_after_resolve:
  assumes "one_active s" "active_event rid iid s = Some e"
  shows "active_event rid iid (resolve_event e now reason rcv s) = None"
proof -
  note e = active_event_SomeD [OF assms(2)]
  then have "e_status e \<noteq> ''resolved''" by (simp add: event_active_def)
  from resolve_event_events [OF this, of now reason rcv s] obtain v l where upd: "alert_events (resolve_event e now reason rcv s) =
     update_where (\<lambda>x. e_id x = e_id e \<and> e_status x \<noteq> ''resolved'') (mark_resolved now reason v l) (alert_events s)"
    by (elim exE)
  have uniq: "x = e" if "x \<in> set (alert_events s)" "e_rule_id x = rid" "e_instance_id x = iid" "event_active x" for x
    by (rule active_unique_lookup [OF assms(1) that(1)]) (use e that in \<open>simp_all add: event_key_def\<close>)
  have "\<not> (e_rule_id y = rid \<and> e_instance_id y = iid \<and> event_active y)"
    if y: "y \<in> set (alert_events (resolve_event e now reason rcv s))" for y
  proof -
    from y obtain x where x: "x \<in> set (alert_events s)"
      "y = (if e_id x = e_id e \<and> e_status x \<noteq> ''resolved'' then mark_resolved now reason v l x else x)"
      unfolding upd set_update_where by blast
    show ?thesis
    proof (cases "e_id x = e_id e \<and> e_status x \<noteq> ''resolved''")
      case True
      then show ?thesis using x(2) by (simp add: event_active_def mark_resolved_def)
    next
      case False
      then show ?thesis using x uniq [OF x(1)] e unfolding event_active_def by metis
    qed
  qed
  then show ?thesis by (simp add: active_event_def find_None)
qed

lemma active_after_refresh:
  assumes "active_event rid iid s = Some e"
    "alert_events t = update_where (\<lambda>x. e_id x = e_id e) (refresh_event v now spr n) (alert_events s)"
  shows "active_event rid iid t \<noteq> None"
proof -
  note e = active_event_SomeD [OF assms(1)]
  have "refresh_event v now spr n e \<in> set (alert_events t)"
    using e by (auto simp: assms(2) set_update_where)
  moreover have "e_rule_id (refresh_event v now spr n e) = rid"
    "e_instance_id (refresh_event v now spr n e) = iid" "event_active (refresh_event v now spr n e)"
    using e by (auto simp: event_active_def refresh_event_def)
  ultimately show ?thesis unfolding active_event_def find_None by blast
qed

lemma active_after_fire:
  assumes "active_event (r_id rule) iid s = None"
  shows "active_event (r_id rule) iid (fire_event rule iid spr v p t n s)
     = Some (fired_event (new_uuid s) rule iid (node_snapshot iid s) spr v p t n)"
  using assms
  by (simp add: active_event_def fire_event_def Let_def find_append fired_event_def event_active_def)

lemma evaluations_after_fire [simp]: "evaluations (fire_event rule iid spr v p t n s) = evaluations s"
  by (simp add: fire_event_def Let_def)


subsection \<open>The refinement\<close>

lemma monitor_of_tables:
  assumes "evaluation_for (r_id rule) iid t = Some v" "v_rule_version v = r_version rule"
  shows "monitor_of rule iid t = \<lparr>mon_pending = v_pending_since v, mon_recovery = v_recovery_since v,
      mon_last_at = v_last_observed_at v, mon_last_value = v_last_value v,
      mon_last_sample = v_last_sample_at v, mon_active = (active_event (r_id rule) iid t \<noteq> None)\<rparr>"
  using assms by (simp add: monitor_of_def evaluation_now_def Let_def)

lemma evaluation_now_version [simp]: "v_rule_version (evaluation_now rule iid s) = r_version rule"
  by (simp add: evaluation_now_def Let_def blank_evaluation_def split: option.split)

lemma process_live:
  assumes "rule_live rule iid s" "observation_reading obs iid t u s = (v, ab, t, u)"
  shows "process_rule_observation rule iid obs t u s =
    (let s1 = upsert_evaluation rule iid s; ev = evaluation_now rule iid s;
         active = active_event (r_id rule) iid s
     in if observation_is_stale (v_last_sample_at ev) (v_last_value ev) u v then s1
        else if \<not> ab then observe_normal rule iid ev active v t u s1
        else case active of
            Some e \<Rightarrow> observe_active rule iid ev e (suppression_reason rule iid t s1) v t u s1
          | None \<Rightarrow> observe_pending rule iid ev (suppression_reason rule iid t s1) v t u s1)"
proof -
  have "observation_value obs iid (upsert_evaluation rule iid s) = (v, ab)"
    using assms(2)
    by (auto simp: observation_reading_def observation_value_def upsert_evaluation_def Let_def
        split: rule_observation.splits prod.splits)
  then show ?thesis
    using assms(1)
    by (simp add: process_rule_observation_def rule_live_def evaluation_after_upsert Let_def)
qed

lemma monitor_normal:
  assumes "one_active s" "evaluation_for (r_id rule) iid s = Some ev" "v_rule_version ev = r_version rule"
    and "active = active_event (r_id rule) iid s"
  shows "monitor_of rule iid (observe_normal rule iid ev active v t u s) =
    monitor_fresh_step rule (v, False, t, u) (monitor_of rule iid s)"
proof -
  obtain since conf where rc: "recovery_confirmation (r_metric rule) (active \<noteq> None) (v_recovery_since ev) t
      = (since, conf)" by force
  define s1 where "s1 = set_evaluation (r_id rule) iid (\<lambda>x. x\<lparr>v_pending_since := None,
                 v_recovery_since := (if conf then None else since),
                 v_last_observed_at := Some t, v_last_value := Some v,
                 v_last_sample_at := Some u, v_match_count := 0\<rparr>) s"
  define s2 where "s2 = observe_normal rule iid ev active v t u s"
  have s2: "s2 = (case active of None \<Rightarrow> s1 | Some e \<Rightarrow> if conf
      then resolve_event e t ''condition_recovered'' (Some (v, t)) s1 else s1)"
    unfolding s2_def observe_normal_def rc s1_def Let_def prod.case by (rule refl)
  have a1: "active_event (r_id rule) iid s1 = active" by (simp add: s1_def assms(4))
  have one: "one_active s1" using assms(1) by (simp add: one_active_def s1_def set_evaluation_def)
  have a2: "(active_event (r_id rule) iid s2 \<noteq> None) = (active \<noteq> None \<and> \<not> conf)"
    using active_after_resolve [OF one] a1 by (auto simp: s2 split: option.splits)
  have "evaluations s2 = evaluations s1" by (simp add: s2 resolve_event_tables split: option.splits)
  then have e2: "evaluation_for (r_id rule) iid s2 = Some (ev\<lparr>v_pending_since := None,
      v_recovery_since := (if conf then None else since), v_last_observed_at := Some t,
      v_last_value := Some v, v_last_sample_at := Some u, v_match_count := 0\<rparr>)"
    using evaluation_for_cong [of s2 s1] by (simp add: s1_def evaluation_after_set assms(2))
  have m: "monitor_of rule iid s = \<lparr>mon_pending = v_pending_since ev, mon_recovery = v_recovery_since ev,
      mon_last_at = v_last_observed_at ev, mon_last_value = v_last_value ev,
      mon_last_sample = v_last_sample_at ev, mon_active = (active \<noteq> None)\<rparr>"
    by (simp add: monitor_of_tables assms)
  have "monitor_of rule iid s2 = monitor_fresh_step rule (v, False, t, u) (monitor_of rule iid s)"
    unfolding m using rc a2
    by (simp add: monitor_of_tables [OF e2] assms(3) monitor_fresh_step_def note_reading_def
        reading_abnormal_def reading_time_def)
  then show ?thesis by (simp add: s2_def)
qed


lemma monitor_active:
  assumes "evaluation_for (r_id rule) iid s = Some ev" "v_rule_version ev = r_version rule"
    and "active_event (r_id rule) iid s = Some e"
  shows "monitor_of rule iid (observe_active rule iid ev e spr v t u s) =
    monitor_fresh_step rule (v, True, t, u) (monitor_of rule iid s)"
proof -
  let ?t = "observe_active rule iid ev e spr v t u s"
  have a: "active_event (r_id rule) iid ?t \<noteq> None"
    by (rule active_after_refresh [OF assms(3), where v = v and now = t and spr = spr
          and n = "sat_add (e_match_count e) 1"])
       (simp add: observe_active_def set_evaluation_def Let_def)
  let ?f = "\<lambda>x. x\<lparr>v_recovery_since := None, v_last_observed_at := Some t, v_last_value := Some v,
      v_last_sample_at := Some u, v_match_count := sat_add (v_match_count ev) 1\<rparr>"
  have "evaluation_for (r_id rule) iid ?t = map_option ?f (evaluation_for (r_id rule) iid s)"
    unfolding observe_active_def Let_def
    by (subst evaluation_after_set) (simp_all add: evaluation_for_def)
  then have e: "evaluation_for (r_id rule) iid ?t = Some (?f ev)" by (simp add: assms(1))
  show ?thesis
    using a assms(3)
    by (simp add: monitor_of_tables [OF e] monitor_of_tables [OF assms(1,2)] assms(2) monitor_fresh_step_def
        note_reading_def reading_abnormal_def)
qed

lemma monitor_pending:
  assumes "evaluation_for (r_id rule) iid s = Some ev" "v_rule_version ev = r_version rule"
    and "active_event (r_id rule) iid s = None"
  shows "monitor_of rule iid (observe_pending rule iid ev spr v t u s) =
    monitor_fresh_step rule (v, True, t, u) (monitor_of rule iid s)"
proof -
  let ?t = "observe_pending rule iid ev spr v t u s"
  let ?fire = "pending_should_fire (r_duration rule) (v_pending_since ev) (v_last_observed_at ev) t"
  let ?f = "\<lambda>x. x\<lparr>v_pending_since := Some (case v_pending_since ev of None \<Rightarrow> t | Some p \<Rightarrow> p),
     v_recovery_since := None, v_last_observed_at := Some t, v_last_value := Some v,
     v_last_sample_at := Some u, v_match_count := sat_add (v_match_count ev) 1\<rparr>"
  have a: "(active_event (r_id rule) iid ?t \<noteq> None) = ?fire"
    by (simp add: observe_pending_def Let_def active_after_fire assms(3))
  have "evaluation_for (r_id rule) iid ?t =
      evaluation_for (r_id rule) iid (set_evaluation (r_id rule) iid ?f s)"
    by (rule evaluation_for_cong) (simp add: observe_pending_def Let_def)
  also have "\<dots> = Some (?f ev)" by (simp add: evaluation_after_set assms(1))
  finally have e: "evaluation_for (r_id rule) iid ?t = Some (?f ev)" .
  show ?thesis
    using a assms(3)
    by (simp add: monitor_of_tables [OF e] monitor_of_tables [OF assms(1,2)] assms(2) monitor_fresh_step_def
        note_reading_def reading_abnormal_def reading_time_def split: option.split)
qed

text \<open>One observation of the code is one step of the monitor.\<close>

lemma process_refines:
  assumes "rule_live rule iid s" "one_active s"
  shows "monitor_of rule iid (process_rule_observation rule iid obs t u s) =
    monitor_step rule (observation_reading obs iid t u s) (monitor_of rule iid s)"
proof -
  obtain v ab where "observation_value obs iid s = (v, ab)" by force
  then have r: "observation_reading obs iid t u s = (v, ab, t, u)" by (simp add: observation_reading_def)
  define s1 where "s1 = upsert_evaluation rule iid s"
  define ev where "ev = evaluation_now rule iid s"
  have e1: "evaluation_for (r_id rule) iid s1 = Some ev" "v_rule_version ev = r_version rule"
    by (simp_all add: s1_def ev_def evaluation_after_upsert)
  have a1: "active_event (r_id rule) iid s1 = active_event (r_id rule) iid s" by (simp add: s1_def)
  have o1: "one_active s1" using assms(2) by (simp add: one_active_def s1_def upsert_evaluation_def Let_def)
  have m1: "monitor_of rule iid s1 = monitor_of rule iid s"
    using a1 by (simp add: monitor_of_tables [OF e1]) (simp add: monitor_of_def ev_def Let_def)
  have last_ev: "mon_last_sample (monitor_of rule iid s) = v_last_sample_at ev"
    "mon_last_value (monitor_of rule iid s) = v_last_value ev"
    by (simp_all add: monitor_of_def ev_def Let_def)
  show ?thesis
  proof (cases "observation_is_stale (v_last_sample_at ev) (v_last_value ev) u v")
    case True
    then show ?thesis
      using process_live [OF assms(1) r] m1
      by (simp add: r monitor_step_def reading_stale_def last_ev Let_def ev_def [symmetric] s1_def [symmetric])
  next
    case False
    then have step: "monitor_step rule (v, ab, t, u) (monitor_of rule iid s) =
        monitor_fresh_step rule (v, ab, t, u) (monitor_of rule iid s1)"
      by (simp add: monitor_step_def reading_stale_def last_ev m1)
    show ?thesis
    proof (cases ab)
      case True
      then show ?thesis
        using step process_live [OF assms(1) r] False monitor_active [OF e1] monitor_pending [OF e1] a1
        by (cases "active_event (r_id rule) iid s")
           (simp_all add: r Let_def ev_def [symmetric] s1_def [symmetric])
    next
      case normal: False
      then show ?thesis
        using step process_live [OF assms(1) r] False monitor_normal [OF o1 e1 refl] a1
        by (simp add: r Let_def ev_def [symmetric] s1_def [symmetric])
    qed
  qed
qed


subsection \<open>Sequences of readings\<close>

fun fresh_readings :: "int option \<Rightarrow> f64 option \<Rightarrow> reading list \<Rightarrow> reading list" where
  "fresh_readings lu lv [] = []"
| "fresh_readings lu lv (r # rs) = (if reading_stale r lu lv then fresh_readings lu lv rs
     else r # fresh_readings (Some (snd (snd (snd r)))) (Some (fst r)) rs)"

lemma monitor_run_fresh:
  "fold (monitor_step rule) rs m =
     fold (monitor_fresh_step rule) (fresh_readings (mon_last_sample m) (mon_last_value m) rs) m"
proof (induction rs arbitrary: m)
  case (Cons r rs)
  have "mon_last_sample (monitor_fresh_step rule r m) = Some (snd (snd (snd r)))"
    "mon_last_value (monitor_fresh_step rule r m) = Some (fst r)"
    by (auto simp: monitor_fresh_step_def note_reading_def split: prod.splits)
  with Cons show ?case by (auto simp: monitor_step_def)
qed simp

text \<open>Since \<open>x\<close>, every reading of the list has been abnormal (normal).\<close>

definition since :: "bool \<Rightarrow> reading \<Rightarrow> reading list \<Rightarrow> bool" where
  "since ab x rs \<longleftrightarrow> (\<exists>pre mid. rs = pre @ x # mid \<and> (\<forall>r \<in> set (x # mid). reading_abnormal r = ab))"

text \<open>The alert was raised by a reading that closed a run of abnormal ones of the rule's duration.\<close>

definition raised_by_run :: "int \<Rightarrow> reading list \<Rightarrow> bool" where
  "raised_by_run duration rs \<longleftrightarrow> (\<exists>x y hist post. rs = hist @ y # post \<and> since True x (hist @ [y]) \<and>
     reading_time y - reading_time x \<ge> duration)"

lemma since_snoc: "since ab x rs \<Longrightarrow> reading_abnormal r = ab \<Longrightarrow> since ab x (rs @ [r])"
  unfolding since_def by force

lemma since_last: "reading_abnormal r = ab \<Longrightarrow> since ab r (rs @ [r])"
  unfolding since_def by force

lemma raised_snoc: "raised_by_run d rs \<Longrightarrow> raised_by_run d (rs @ [r])"
  unfolding raised_by_run_def by force

definition monitor_inv :: "rule_row \<Rightarrow> reading list \<Rightarrow> monitor \<Rightarrow> bool" where
  "monitor_inv rule hist m \<longleftrightarrow>
     (mon_active m \<longrightarrow> raised_by_run (r_duration rule) hist) \<and>
     (\<forall>p. \<not> mon_active m \<longrightarrow> mon_pending m = Some p \<longrightarrow>
        (\<exists>x. since True x hist \<and> reading_time x = p))"

lemma note_reading_simps [simp]:
  "mon_active (note_reading r m) = mon_active m" "mon_pending (note_reading r m) = mon_pending m"
  "mon_recovery (note_reading r m) = mon_recovery m"
  by (auto simp: note_reading_def split: prod.splits)

lemma monitor_fresh_step_fields:
  "mon_active (monitor_fresh_step rule r m) = (if reading_abnormal r
     then mon_active m \<or> pending_should_fire (r_duration rule) (mon_pending m) (mon_last_at m) (reading_time r)
     else mon_active m \<and> \<not> snd (recovery_confirmation (r_metric rule) (mon_active m) (mon_recovery m)
       (reading_time r)))"
  "mon_pending (monitor_fresh_step rule r m) = (if \<not> reading_abnormal r then None
     else if mon_active m then mon_pending m
     else Some (case mon_pending m of None \<Rightarrow> reading_time r | Some p \<Rightarrow> p))"
  "mon_recovery (monitor_fresh_step rule r m) = (if reading_abnormal r then None
     else case recovery_confirmation (r_metric rule) (mon_active m) (mon_recovery m) (reading_time r) of
       (rc, confirmed) \<Rightarrow> if confirmed then None else rc)"
  by (auto simp: monitor_fresh_step_def split: prod.splits)

lemma monitor_inv_step:
  assumes inv: "monitor_inv rule hist m"
    and d: "0 < r_duration rule" "is_i64 (r_duration rule)"
  shows "monitor_inv rule (hist @ [r]) (monitor_fresh_step rule r m)"
proof (cases "reading_abnormal r")
  case False
  then show ?thesis using inv raised_snoc
    by (auto simp: monitor_inv_def monitor_fresh_step_fields)
next
  case ab: True
  show ?thesis
  proof (cases "mon_active m")
    case True
    then show ?thesis using ab inv raised_snoc
      by (auto simp: monitor_inv_def monitor_fresh_step_fields)
  next
    case False
    show ?thesis
    proof (cases "mon_pending m")
      case None
      then show ?thesis using ab False d since_last [of r True hist]
        by (auto simp: monitor_inv_def monitor_fresh_step_fields pending_should_fire_def
            simp del: split_paired_Ex)
    next
      case (Some p)
      then obtain x where x: "since True x hist" "reading_time x = p"
        using inv False by (auto simp: monitor_inv_def)
      have x': "since True x (hist @ [r])" using since_snoc [OF x(1)] ab by simp
      have "raised_by_run (r_duration rule) (hist @ [r])"
        if "sat_sub (reading_time r) p \<ge> r_duration rule"
        using that x x' d sat_sub_ge [of "r_duration rule"] unfolding raised_by_run_def
        by (intro exI [of _ x] exI [of _ r] exI [of _ hist] exI [of _ "[]"])
           (simp add: i64_min_def)
      then show ?thesis using Some ab False d x x'
        by (auto simp: monitor_inv_def monitor_fresh_step_fields pending_should_fire_def
            simp del: split_paired_Ex)
    qed
  qed
qed

lemma monitor_inv_run:
  assumes "monitor_inv rule hist m" "0 < r_duration rule" "is_i64 (r_duration rule)"
  shows "monitor_inv rule (hist @ rs) (fold (monitor_fresh_step rule) rs m)"
  using assms(1)
proof (induction rs arbitrary: hist m)
  case (Cons r rs)
  then have "monitor_inv rule (hist @ [r]) (monitor_fresh_step rule r m)"
    using monitor_inv_step assms(2,3) by blast
  from Cons.IH [OF this] show ?case by simp
qed simp


text \<open>The dual: an offline alert is closed by a run of normal readings of 60 seconds.\<close>

definition recovered_by_run :: "reading list \<Rightarrow> bool" where
  "recovered_by_run rs \<longleftrightarrow> (\<exists>x y hist post. rs = hist @ y # post \<and> since False x (hist @ [y]) \<and>
     reading_time y - reading_time x \<ge> 60)"

lemma recovered_snoc: "recovered_by_run rs \<Longrightarrow> recovered_by_run (rs @ [r])"
  unfolding recovered_by_run_def by force

definition recovery_inv :: "reading list \<Rightarrow> monitor \<Rightarrow> bool" where
  "recovery_inv hist m \<longleftrightarrow> recovered_by_run hist \<or>
     mon_active m \<and> (\<forall>p. mon_recovery m = Some p \<longrightarrow> (\<exists>x. since False x hist \<and> reading_time x = p))"

lemma recovery_inv_step:
  assumes inv: "recovery_inv hist m" and metric: "r_metric rule = ''node_offline''"
  shows "recovery_inv (hist @ [r]) (monitor_fresh_step rule r m)"
proof (cases "recovered_by_run hist")
  case True
  then show ?thesis by (simp add: recovery_inv_def recovered_snoc)
next
  case False
  with inv have act: "mon_active m"
    and rec: "\<And>p. mon_recovery m = Some p \<Longrightarrow> \<exists>x. since False x hist \<and> reading_time x = p"
    by (auto simp: recovery_inv_def)
  show ?thesis
  proof (cases "reading_abnormal r")
    case True
    then show ?thesis using act by (simp add: recovery_inv_def monitor_fresh_step_fields)
  next
    case normal: False
    obtain x where x: "since False x (hist @ [r])"
      "reading_time x = (case mon_recovery m of None \<Rightarrow> reading_time r | Some t \<Rightarrow> t)"
    proof (cases "mon_recovery m")
      case None
      then show ?thesis using that since_last [of r False hist] normal by auto
    next
      case (Some p)
      from rec [OF Some] obtain x where "since False x hist" "reading_time x = p" by blast
      then show ?thesis using that [of x] Some since_snoc [of False x hist r] normal by simp
    qed
    have "recovered_by_run (hist @ [r])" if "sat_sub (reading_time r) (reading_time x) \<ge> 60"
      using that x(1) sat_sub_ge [of 60] unfolding recovered_by_run_def
      by (intro exI [of _ x] exI [of _ r] exI [of _ hist] exI [of _ "[]"])
         (simp add: i64_min_def is_i64_def i64_max_def)
    then show ?thesis using x act normal metric
      by (auto simp: recovery_inv_def monitor_fresh_step_fields recovery_confirmation_def Let_def
          offline_recovery_stability_seconds_def simp del: split_paired_Ex)
  qed
qed

lemma recovery_inv_run:
  assumes "recovery_inv hist m" "r_metric rule = ''node_offline''"
  shows "recovery_inv (hist @ rs) (fold (monitor_fresh_step rule) rs m)"
  using assms(1)
proof (induction rs arbitrary: hist m)
  case (Cons r rs)
  then have "recovery_inv (hist @ [r]) (monitor_fresh_step rule r m)"
    using recovery_inv_step assms(2) by blast
  from Cons.IH [OF this] show ?case by simp
qed simp

text \<open>A condition that lasts raises the alert.\<close>

lemma monitor_all_abnormal:
  assumes "\<forall>r \<in> set rs. reading_abnormal r"
    and "mon_active m \<or> mon_pending m = Some p \<and> mon_last_at m \<noteq> None"
  shows "let m' = fold (monitor_fresh_step rule) rs m
     in mon_active m' \<or> mon_pending m' = Some p \<and> mon_last_at m' \<noteq> None"
  using assms
proof (induction rs arbitrary: m)
  case (Cons r rs)
  have "mon_last_at (monitor_fresh_step rule r m) \<noteq> None"
    by (auto simp: monitor_fresh_step_def note_reading_def split: prod.splits)
  with Cons.prems have "mon_active (monitor_fresh_step rule r m) \<or>
      mon_pending (monitor_fresh_step rule r m) = Some p \<and> mon_last_at (monitor_fresh_step rule r m) \<noteq> None"
    by (auto simp: monitor_fresh_step_fields)
  then show ?case using Cons.IH Cons.prems(1) by simp
qed simp

lemma monitor_fires:
  assumes "reading_abnormal x" "\<forall>r \<in> set mid. reading_abnormal r" "reading_abnormal y"
    and "reading_time y - reading_time x \<ge> r_duration rule"
    and "is_i64 (r_duration rule)" "0 \<le> r_duration rule"
    and "\<not> mon_active m" "mon_pending m = None"
  shows "mon_active (fold (monitor_fresh_step rule) (x # mid @ [y]) m)"
proof -
  let ?m1 = "monitor_fresh_step rule x m"
  let ?m2 = "fold (monitor_fresh_step rule) mid ?m1"
  have "mon_last_at ?m1 \<noteq> None"
    by (auto simp: monitor_fresh_step_def note_reading_def split: prod.splits)
  then have "mon_active ?m1 \<or> mon_pending ?m1 = Some (reading_time x) \<and> mon_last_at ?m1 \<noteq> None"
    using assms(1,7,8) by (simp add: monitor_fresh_step_fields)
  from monitor_all_abnormal [OF assms(2) this, of rule]
  have "mon_active ?m2 \<or> mon_pending ?m2 = Some (reading_time x) \<and> mon_last_at ?m2 \<noteq> None"
    by (simp add: Let_def)
  then show ?thesis
    using assms(3-6) sat_sub_ge [of "r_duration rule"]
    by (auto simp: monitor_fresh_step_fields pending_should_fire_def i64_min_def)
qed

subsection \<open>Reports of a node\<close>

text \<open>A report that reaches one rule: a metric reading, or the state of the connection.\<close>

datatype report = Reading f64 bool int int | Link bool int

fun apply_report :: "rule_row \<Rightarrow> string \<Rightarrow> report \<Rightarrow> alert_db \<Rightarrow> alert_db" where
  "apply_report rule iid (Reading v ab t u) s =
     process_rule_observation rule iid (ThresholdObs v ab) t u s"
| "apply_report rule iid (Link online t) s =
     process_rule_observation rule iid ConnectionObs t t
       (s\<lparr>agents := (if online then List.insert iid (agents s) else removeAll iid (agents s))\<rparr>)"

fun report_reading :: "report \<Rightarrow> reading" where
  "report_reading (Reading v ab t u) = (v, ab, t, u)"
| "report_reading (Link online t) = (case connection_observation online of (v, ab) \<Rightarrow> (v, ab, t, t))"

lemma apply_report_refines:
  assumes "rule_live rule iid s" "alerts_inv s"
  shows "monitor_of rule iid (apply_report rule iid r s) =
      monitor_step rule (report_reading r) (monitor_of rule iid s) \<and>
    rule_live rule iid (apply_report rule iid r s) \<and> alerts_inv (apply_report rule iid r s)"
proof (cases r)
  case (Reading v ab t u)
  have "safe_step s (process_rule_observation rule iid (ThresholdObs v ab) t u s)" by (rule safe_process)
  then show ?thesis using assms process_refines [of rule iid s "ThresholdObs v ab" t u]
    by (simp add: Reading rule_live_process observation_reading_def observation_value_def alerts_inv_def
        safe_step_def)
next
  case (Link online t)
  define s1 where "s1 = s\<lparr>agents := (if online then List.insert iid (agents s) else removeAll iid (agents s))\<rparr>"
  have s1: "rule_live rule iid s1" "alerts_inv s1" "monitor_of rule iid s1 = monitor_of rule iid s"
    using assms by (simp_all add: s1_def rule_live_def instance_eligible_def rule_by_id_def alerts_inv_def
        ids_inv_def drawn_def one_active_def one_deliverable_def one_evaluation_def monitor_of_def
        evaluation_now_def evaluation_for_def active_event_def)
  have "safe_step s1 (process_rule_observation rule iid ConnectionObs t t s1)" by (rule safe_process)
  then show ?thesis using s1 process_refines [of rule iid s1 ConnectionObs t t]
    by (simp add: Link rule_live_process observation_reading_def observation_value_def
        safe_step_def s1_def [symmetric]) (simp add: s1_def alerts_inv_def)
qed

lemma reports_refine:
  assumes "rule_live rule iid s" "alerts_inv s"
  shows "monitor_of rule iid (fold (apply_report rule iid) rs s) =
    fold (monitor_step rule) (map report_reading rs) (monitor_of rule iid s)"
  using assms
proof (induction rs arbitrary: s)
  case (Cons r rs)
  then show ?case using apply_report_refines [OF Cons.prems, of r] by simp
qed simp

lemma monitor_of_start:
  assumes "evaluation_for (r_id rule) iid s = None"
  shows "monitor_of rule iid s = \<lparr>mon_pending = None, mon_recovery = None, mon_last_at = None,
     mon_last_value = None, mon_last_sample = None, mon_active = (active_event (r_id rule) iid s \<noteq> None)\<rparr>"
  using assms by (simp add: monitor_of_def evaluation_now_def blank_evaluation_def)

lemma reports_from_start:
  assumes "rule_live rule iid s" "alerts_inv s" "evaluation_for (r_id rule) iid s = None"
  shows "monitor_of rule iid (fold (apply_report rule iid) rs s) =
    fold (monitor_fresh_step rule) (fresh_readings None None (map report_reading rs)) (monitor_of rule iid s)"
  by (simp add: reports_refine [OF assms(1,2)] monitor_run_fresh monitor_of_start [OF assms(3)])

lemma monitor_active_iff: "mon_active (monitor_of rule iid s) = (active_event (r_id rule) iid s \<noteq> None)"
  by (simp add: monitor_of_def Let_def)

lemma reports_active_iff:
  assumes "rule_live rule iid s" "alerts_inv s" "evaluation_for (r_id rule) iid s = None"
  shows "(active_event (r_id rule) iid (fold (apply_report rule iid) rs s) \<noteq> None) =
    mon_active (fold (monitor_fresh_step rule) (fresh_readings None None (map report_reading rs))
      (monitor_of rule iid s))"
  using monitor_active_iff [of rule iid "fold (apply_report rule iid) rs s"] reports_from_start [OF assms]
  by simp

end
