(* ===== verification/AlertProperties.thy ===== *)
theory AlertProperties
  imports AlertMonitor
begin

text \<open>
  What makes the alert module correct, stated of the tables, with a small database on which each
  statement is exercised: one node, a CPU rule of two minutes, an offline rule and one channel.
\<close>

subsection \<open>A database to apply the theorems to\<close>

definition demo_id :: "nat \<Rightarrow> string" where
  "demo_id n = replicate n (CHR ''x'') @ ''u''"

lemma inj_demo_id: "inj demo_id"
proof (rule injI)
  fix m n assume "demo_id m = demo_id n"
  then have "length (demo_id m) = length (demo_id n)" by simp
  then show "m = n" by (simp add: demo_id_def)
qed

definition demo_node :: instance_row where
  "demo_node = \<lparr>i_id = ''n1'', i_name = ''node'', i_hostname = ''h'', i_region = ''r'', i_os = ''linux'',
     i_arch = ''x86_64'', i_agent_version = ''1.0.0'', i_expires_at = None, i_approved = True,
     i_disabled = False\<rparr>"

definition cpu_rule :: rule_row where
  "cpu_rule = \<lparr>r_id = ''r1'', r_name = ''cpu'', r_metric = ''cpu_percent'',
     r_threshold = Some (Finite 90), r_duration = 120, r_severity = ''warning'', r_scope = ''all'',
     r_enabled = True, r_version = 1, r_created_by = ''a'', r_created_at = 0, r_updated_at = 0\<rparr>"

definition offline_rule :: rule_row where
  "offline_rule = cpu_rule\<lparr>r_id := ''r2'', r_metric := ''node_offline'', r_threshold := None,
     r_duration := 0\<rparr>"

definition demo_channel :: channel_row where
  "demo_channel = \<lparr>c_id = ''c1'', c_name = ''hook'', c_type = ''generic_webhook'', c_config = [],
     c_enabled = True, c_cooldown_until = None, c_created_at = 0, c_updated_at = 0, c_deleted_at = None\<rparr>"

definition demo_db :: alert_db where
  "demo_db = (empty_alerts demo_id)\<lparr>instances := [demo_node], alert_rules := [cpu_rule, offline_rule],
     channels := [demo_channel], rule_channels := [(''r1'', ''c1''), (''r2'', ''c1'')]\<rparr>"

lemmas demo_defs = demo_db_def demo_node_def cpu_rule_def offline_rule_def demo_channel_def empty_alerts_def

lemma empty_tables_inv:
  assumes "inj (uuids s)" "alert_events s = []" "deliveries s = []" "evaluations s = []"
  shows "alerts_inv s"
  using assms by (simp add: alerts_inv_def ids_inv_def one_active_def one_deliverable_def one_evaluation_def)

lemma demo_db_inv: "alerts_inv demo_db"
  by (rule empty_tables_inv) (simp_all add: demo_defs inj_demo_id)

lemma demo_db_live: "rule_live cpu_rule ''n1'' demo_db" "rule_live offline_rule ''n1'' demo_db"
  by (simp_all add: rule_live_def instance_eligible_def rule_by_id_def demo_defs)

lemma demo_db_fresh:
  "evaluation_for rid iid demo_db = None" "active_event rid iid demo_db = None"
  by (simp_all add: evaluation_for_def active_event_def demo_defs)

lemma demo_mon_inactive: "mon_active (monitor_of rule iid demo_db) = False"
  by (simp add: monitor_active_iff demo_db_fresh)

subsection \<open>The unique indexes\<close>

text \<open>
  C4: Whatever the loops, workers and administrators do, in whatever order, the tables satisfy the
  partial unique indexes of the schema: a rule and node have at most one unresolved event, and an event,
  channel and lifecycle stage at most one notification that is not suppressed.  No insert of the code
  can therefore fail on them.
\<close>
theorem alert_indexes_hold:
  assumes "inj (uuids s0)" "alert_events s0 = []" "deliveries s0 = []" "evaluations s0 = []"
    and "s = fold alert_step reqs s0"
  shows "(\<forall>e f. e \<in> set (alert_events s) \<and> f \<in> set (alert_events s) \<and> e_status e \<noteq> ''resolved'' \<and>
        e_status f \<noteq> ''resolved'' \<and> e_rule_id e = e_rule_id f \<and> e_instance_id e = e_instance_id f \<longrightarrow> e = f) \<and>
    (\<forall>c d. c \<in> set (deliveries s) \<and> d \<in> set (deliveries s) \<and> d_event_id c \<noteq> None \<and>
        d_status c \<noteq> ''suppressed'' \<and> d_status d \<noteq> ''suppressed'' \<and> d_event_id c = d_event_id d \<and>
        d_channel_id c = d_channel_id d \<and> d_kind c = d_kind d \<longrightarrow> c = d)"
proof -
  have "alerts_inv s" unfolding assms(5)
    by (rule alerts.run_inv) (rule empty_tables_inv [OF assms(1-4)])
  then have "one_active s" "one_deliverable s" by (simp_all add: alerts_inv_def)
  then show ?thesis
    using active_unique_lookup [of s] deliverable_unique_lookup [of s]
    by (auto simp: event_active_def event_key_def deliverable_def delivery_key_def)
qed

definition demo_requests :: "alert_request list" where
  "demo_requests = [AgentConnected ''n1'', AgentDisconnected ''n1'', ObserveConnection ''n1'' 1000,
     ClaimDelivery 1000, AcknowledgeEvent ''a'' ''u'' (demo_id 0) [] 1001, AgentConnected ''n1'',
     ObserveConnection ''n1'' 1010]"

lemma demo_db_tables:
  "inj (uuids demo_db)" "alert_events demo_db = []" "deliveries demo_db = []" "evaluations demo_db = []"
  by (simp_all add: demo_defs inj_demo_id)

lemma demo_run:
  "map e_status (alert_events (fold alert_step demo_requests demo_db)) = [''acknowledged'']"
  "map (\<lambda>d. (d_kind d, d_status d)) (deliveries (fold alert_step demo_requests demo_db)) =
     [(''alert.firing'', ''processing''), (''alert.acknowledged'', ''pending'')]"
  by code_simp+

theorem alert_indexes_hold_witness:
  "(\<nexists>e f. e \<in> set (alert_events (fold alert_step demo_requests demo_db)) \<and>
      f \<in> set (alert_events (fold alert_step demo_requests demo_db)) \<and> e_status e \<noteq> ''resolved'' \<and>
      e_status f \<noteq> ''resolved'' \<and> e_rule_id e = e_rule_id f \<and> e_instance_id e = e_instance_id f \<and> e \<noteq> f) \<and>
   map e_status (alert_events (fold alert_step demo_requests demo_db)) = [''acknowledged'']"
proof (rule conjI)
  show "\<nexists>e f. e \<in> set (alert_events (fold alert_step demo_requests demo_db)) \<and>
      f \<in> set (alert_events (fold alert_step demo_requests demo_db)) \<and> e_status e \<noteq> ''resolved'' \<and>
      e_status f \<noteq> ''resolved'' \<and> e_rule_id e = e_rule_id f \<and> e_instance_id e = e_instance_id f \<and> e \<noteq> f"
    using conjunct1 [OF alert_indexes_hold [OF demo_db_tables refl, of demo_requests]] by blast
qed (rule demo_run)

text \<open>
  A resolved event is final.  Whatever happens afterwards, the event with its id is the same row, with
  its resolution time, reason and last value, as long as it is kept; it is never reopened.
\<close>
theorem resolved_event_final:
  assumes "alerts_inv s" "e \<in> set (alert_events s)" "e_status e = ''resolved''"
    and "e' \<in> set (alert_events (fold alert_step reqs s))" "e_id e' = e_id e"
  shows "e' = e"
proof -
  have "resolved_kept s (fold alert_step reqs s)" using run_safe assms(1) by (simp add: safe_step_def)
  moreover have "e_id e' \<in> drawn s" using assms by (auto simp: alerts_inv_def ids_inv_def)
  ultimately obtain e0 where e0: "e0 \<in> set (alert_events s)" "e_id e0 = e_id e'" "event_active e0 \<or> e' = e0"
    using assms(4) by (auto simp: resolved_kept_def)
  have "inj_on e_id (set (alert_events s))"
    using assms(1) by (simp add: alerts_inv_def ids_inv_def distinct_map)
  then have "e0 = e" by (rule inj_onD) (use e0 assms(2,5) in simp_all)
  with assms(3) have "\<not> event_active e0" by (simp add: event_active_def)
  with e0(3) \<open>e0 = e\<close> show ?thesis by simp
qed


definition resolved_requests :: "alert_request list" where
  "resolved_requests = [ObserveConnection ''n1'' 1000, AgentConnected ''n1'', ObserveConnection ''n1'' 1010,
     ObserveConnection ''n1'' 1080]"

definition later_requests :: "alert_request list" where
  "later_requests = [AgentDisconnected ''n1'', ObserveConnection ''n1'' 2000, ClaimDelivery 2000]"

definition resolved_db :: alert_db where
  "resolved_db = fold alert_step resolved_requests demo_db"

lemma resolved_db_run:
  "map e_status (alert_events resolved_db) = [''resolved'']"
  "map e_resolved_at (alert_events resolved_db) = [Some 1080]"
  "map e_status (alert_events (fold alert_step later_requests resolved_db)) = [''resolved'', ''firing'']"
  by code_simp+

theorem resolved_event_final_witness:
  "hd (alert_events (fold alert_step later_requests resolved_db)) = hd (alert_events resolved_db)"
proof -
  obtain e where e: "alert_events resolved_db = [e]" "e_status e = ''resolved''"
    using resolved_db_run(1) by (auto simp: map_eq_Cons_conv)
  have id: "map e_id (alert_events resolved_db) = [demo_id 0]"
    "map e_id (take 1 (alert_events (fold alert_step later_requests resolved_db))) = [demo_id 0]"
    by code_simp+
  obtain e' es where e': "alert_events (fold alert_step later_requests resolved_db) = e' # es"
    using resolved_db_run(3) by (cases "alert_events (fold alert_step later_requests resolved_db)") auto
  have "alerts_inv resolved_db" unfolding resolved_db_def by (rule alerts.run_inv) (rule demo_db_inv)
  from resolved_event_final [OF this, of e e' later_requests] e e' id show ?thesis by simp
qed

subsection \<open>When an alert is raised and closed\<close>

text \<open>
  C2: The tables refine the monitor: on a live rule, one observation of the code is exactly one step of
  the abstract alert, whose state is since when the condition holds, since when it has recovered and
  whether the alert is active.
\<close>
theorem observation_refines_monitor:
  assumes "rule_live rule iid s" "alerts_inv s"
  shows "monitor_of rule iid (process_rule_observation rule iid obs t u s) =
    monitor_step rule (observation_reading obs iid t u s) (monitor_of rule iid s)"
  using process_refines [OF assms(1)] assms(2) by (simp add: alerts_inv_def)

theorem observation_refines_monitor_witness:
  "monitor_of offline_rule ''n1'' (process_rule_observation offline_rule ''n1'' ConnectionObs 1000 1000 demo_db) =
     monitor_step offline_rule (observation_reading ConnectionObs ''n1'' 1000 1000 demo_db)
       (monitor_of offline_rule ''n1'' demo_db)"
  by (rule observation_refines_monitor [OF demo_db_live(2) demo_db_inv])

text \<open>
  C8: No alert without a sustained condition.  When a rule with a duration has an active event after a
  sequence of reports, then among the readings that are not stale there is one, abnormal, at least the
  duration after another, with every reading between them abnormal.  One bad sample, or a normal reading
  in between, never raises it.
\<close>
theorem alert_needs_sustained_condition:
  assumes "rule_live rule iid s" "alerts_inv s" "evaluation_for (r_id rule) iid s = None"
    and "active_event (r_id rule) iid s = None" "0 < r_duration rule" "r_duration rule \<le> 365 * 24 * 3600"
    and "active_event (r_id rule) iid (fold (apply_report rule iid) rs s) \<noteq> None"
  shows "raised_by_run (r_duration rule) (fresh_readings None None (map report_reading rs))"
proof -
  have d: "is_i64 (r_duration rule)" using assms(5,6) by (simp add: is_i64_def i64_min_def i64_max_def)
  have "monitor_inv rule [] (monitor_of rule iid s)"
    by (simp add: monitor_inv_def monitor_of_start [OF assms(3)] assms(4))
  from monitor_inv_run [OF this assms(5) d, of "fresh_readings None None (map report_reading rs)"]
  show ?thesis
    using assms(7) reports_active_iff [OF assms(1-3), of rs] by (simp add: monitor_inv_def)
qed

definition hot_reports :: "report list" where
  "hot_reports = [Reading (Finite 95) True 1000 1000, Reading (Finite 97) True 1060 1060,
     Reading (Finite 96) True 1130 1130]"

lemma hot_reports_fire: "active_event ''r1'' ''n1'' (fold (apply_report cpu_rule ''n1'') hot_reports demo_db) \<noteq> None"
proof -
  have "map_option e_fired_at (active_event ''r1'' ''n1'' (fold (apply_report cpu_rule ''n1'') hot_reports demo_db))
      = Some 1130" by code_simp
  then show ?thesis by auto
qed

theorem alert_needs_sustained_condition_witness:
  "raised_by_run 120 (fresh_readings None None (map report_reading hot_reports))"
  using alert_needs_sustained_condition [OF demo_db_live(1) demo_db_inv demo_db_fresh, of hot_reports]
    hot_reports_fire
  by (simp add: cpu_rule_def [THEN arg_cong, of r_duration] cpu_rule_def [THEN arg_cong, of r_id])

text \<open>
  C9: A sustained condition raises the alert: when the readings that are not stale are all abnormal and
  the last is at least the duration after the first, the rule has an active event.
\<close>
theorem sustained_condition_raises_alert:
  assumes "rule_live rule iid s" "alerts_inv s" "evaluation_for (r_id rule) iid s = None"
    and "active_event (r_id rule) iid s = None" "0 \<le> r_duration rule" "r_duration rule \<le> 365 * 24 * 3600"
    and "fresh_readings None None (map report_reading rs) = x # mid @ [y]"
    and "\<forall>r \<in> set (x # mid @ [y]). reading_abnormal r"
    and "reading_time y - reading_time x \<ge> r_duration rule"
  shows "active_event (r_id rule) iid (fold (apply_report rule iid) rs s) \<noteq> None"
proof -
  have d: "is_i64 (r_duration rule)" using assms(5,6) by (simp add: is_i64_def i64_min_def i64_max_def)
  have "mon_active (fold (monitor_fresh_step rule) (x # mid @ [y]) (monitor_of rule iid s))"
    by (rule monitor_fires) (use assms d in \<open>simp_all add: monitor_of_start\<close>)
  then show ?thesis
    using reports_active_iff [OF assms(1-3), of rs] assms(7) by simp
qed

theorem sustained_condition_raises_alert_witness:
  "active_event ''r1'' ''n1'' (fold (apply_report cpu_rule ''n1'') hot_reports demo_db) \<noteq> None"
proof -
  have r: "r_id cpu_rule = ''r1''" "r_duration cpu_rule = 120" by (simp_all add: cpu_rule_def)
  have "fresh_readings None None (map report_reading hot_reports) =
      (Finite 95, True, 1000, 1000) # [(Finite 97, True, 1060, 1060)] @ [(Finite 96, True, 1130, 1130)]"
    by code_simp
  from sustained_condition_raises_alert [OF demo_db_live(1) demo_db_inv demo_db_fresh _ _ this] r
  show ?thesis by (simp add: reading_abnormal_def reading_time_def)
qed

text \<open>
  A flapping node does not close its offline alert.  When the active event of an offline rule is gone
  after a sequence of reports, then among the readings that are not stale the node was connected at two
  moments at least 60 seconds apart and at every reading between them.
\<close>
theorem offline_recovery_needs_stability:
  assumes "rule_live rule iid s" "alerts_inv s" "evaluation_for (r_id rule) iid s = None"
    and "active_event (r_id rule) iid s \<noteq> None" "r_metric rule = ''node_offline''"
    and "active_event (r_id rule) iid (fold (apply_report rule iid) rs s) = None"
  shows "recovered_by_run (fresh_readings None None (map report_reading rs))"
proof -
  have "recovery_inv [] (monitor_of rule iid s)"
    using assms(4) by (simp add: recovery_inv_def monitor_of_start [OF assms(3)])
  from recovery_inv_run [OF this assms(5), of "fresh_readings None None (map report_reading rs)"]
  show ?thesis
    using assms(6) reports_active_iff [OF assms(1-3), of rs] by (simp add: recovery_inv_def)
qed

definition offline_db :: alert_db where
  "offline_db = (fold (apply_report offline_rule ''n1'') [Link False 1000] demo_db)\<lparr>evaluations := []\<rparr>"

lemma offline_db_ok:
  "rule_live offline_rule ''n1'' offline_db" "alerts_inv offline_db"
  "evaluation_for ''r2'' ''n1'' offline_db = None" "active_event ''r2'' ''n1'' offline_db \<noteq> None"
proof -
  let ?s = "fold (apply_report offline_rule ''n1'') [Link False 1000] demo_db"
  have s: "rule_live offline_rule ''n1'' ?s" "alerts_inv ?s"
    using apply_report_refines [OF demo_db_live(2) demo_db_inv, of "Link False 1000"] by simp_all
  show "rule_live offline_rule ''n1'' offline_db"
    using s(1) by (simp add: offline_db_def rule_live_def instance_eligible_def rule_by_id_def)
  show "alerts_inv offline_db"
    using s(2) by (simp add: offline_db_def alerts_inv_def ids_inv_def drawn_def one_active_def
        one_deliverable_def one_evaluation_def)
  show "evaluation_for ''r2'' ''n1'' offline_db = None" by (simp add: offline_db_def evaluation_for_def)
  have "map_option e_status (active_event ''r2'' ''n1'' offline_db) = Some ''firing''" by code_simp
  then show "active_event ''r2'' ''n1'' offline_db \<noteq> None" by auto
qed

definition flapping_reports :: "report list" where
  "flapping_reports = [Link True 1010, Link False 1030, Link True 1040, Link True 1080, Link True 1105]"

theorem offline_recovery_needs_stability_witness:
  "recovered_by_run (fresh_readings None None (map report_reading flapping_reports))"
proof -
  have "map_option e_id (active_event ''r2'' ''n1'' (fold (apply_report offline_rule ''n1'') flapping_reports offline_db)) = None"
    by code_simp
  moreover have "r_id offline_rule = ''r2''" "r_metric offline_rule = ''node_offline''"
    by (simp_all add: offline_rule_def)
  ultimately show ?thesis
    using offline_recovery_needs_stability [of offline_rule "''n1''" offline_db flapping_reports] offline_db_ok
    by simp
qed

end
