(* ===== verification/AlertNotify.thy ===== *)
theory AlertNotify
  imports AlertProperties
begin

text \<open>
  The notifications of the alert module: who is notified when an alert fires or is suppressed, the
  leases and the retry budget of the delivery queue, and the administration of rules.
\<close>

subsection \<open>Enqueueing\<close>

lemma enqueue_channel_mono: "set (deliveries s) \<subseteq> set (deliveries (enqueue_to_channel ev k spr a n now c s))"
  by (auto simp: enqueue_to_channel_def insert_delivery_def Let_def)

lemma enqueue_fold_mono: "set (deliveries s) \<subseteq> set (deliveries (fold (enqueue_to_channel ev k spr a n now) cs s))"
proof (induction cs arbitrary: s)
  case (Cons c cs)
  show ?case
    using order_trans [OF enqueue_channel_mono [of s ev k spr a n now c] Cons.IH] by simp
qed simp

lemma enqueue_mono: "set (deliveries s) \<subseteq> set (deliveries (enqueue_event_lifecycle ev k spr a n now s))"
  unfolding enqueue_event_lifecycle_def by (rule enqueue_fold_mono)

definition has_notification :: "string \<Rightarrow> string \<Rightarrow> string \<Rightarrow> alert_db \<Rightarrow> bool" where
  "has_notification eid cid kind s \<longleftrightarrow>
     (\<exists>d \<in> set (deliveries s). same_lifecycle eid cid kind d \<and> d_status d \<noteq> ''suppressed'')"

lemma enqueue_channel_notifies:
  "has_notification (e_id ev) (c_id c) k (enqueue_to_channel ev k None a n now c s)"
  by (auto simp: has_notification_def enqueue_to_channel_def insert_delivery_def Let_def new_delivery_def
      same_lifecycle_def)

lemma has_notification_mono:
  "has_notification e c k s \<Longrightarrow> set (deliveries s) \<subseteq> set (deliveries t) \<Longrightarrow> has_notification e c k t"
  by (auto simp: has_notification_def)

lemma enqueue_fold_notifies:
  "c \<in> set cs \<Longrightarrow> has_notification (e_id ev) (c_id c) k (fold (enqueue_to_channel ev k None a n now) cs s)"
proof (induction cs arbitrary: s)
  case (Cons x cs)
  show ?case
  proof (cases "c = x")
    case True
    then show ?thesis
      using has_notification_mono [OF enqueue_channel_notifies enqueue_fold_mono] by simp
  next
    case False
    then show ?thesis using Cons by simp
  qed
qed simp

definition notified_channels :: "string \<Rightarrow> alert_db \<Rightarrow> channel_row set" where
  "notified_channels eid s = {c \<in> set (channels s). (eid, c_id c) \<in> set (event_channels s) \<and>
     c_enabled c \<and> c_deleted_at c = None}"

lemma enqueue_notifies:
  "c \<in> notified_channels (e_id ev) s \<Longrightarrow>
     has_notification (e_id ev) (c_id c) k (enqueue_event_lifecycle ev k None a n now s)"
  unfolding enqueue_event_lifecycle_def
  by (rule enqueue_fold_notifies) (simp add: notified_channels_def event_notification_channels_def)

text \<open>A suppressed firing leaves no delivery to send, and one record for each channel.\<close>

definition to_send :: "alert_db \<Rightarrow> delivery_row set" where
  "to_send s = {d \<in> set (deliveries s). d_status d \<noteq> ''suppressed''}"

definition firing_records :: "string \<Rightarrow> string \<Rightarrow> alert_db \<Rightarrow> delivery_row list" where
  "firing_records eid cid s = filter (same_lifecycle eid cid ''alert.firing'') (deliveries s)"

lemma enqueue_channel_suppressed:
  "to_send (enqueue_to_channel ev ''alert.firing'' (Some r) a n now c s) = to_send s"
  "firing_records eid cid (enqueue_to_channel ev ''alert.firing'' (Some r) a n now c s) =
     firing_records eid cid s @ (if eid = e_id ev \<and> cid = c_id c \<and> firing_records eid cid s = []
       then [new_delivery (new_uuid s) ev c ''alert.firing'' (Some r) a n now] else [])"
  by (auto simp: enqueue_to_channel_def insert_delivery_def Let_def to_send_def firing_records_def
      new_delivery_def same_lifecycle_def filter_empty_conv)

lemma enqueue_suppressed:
  "to_send (enqueue_event_lifecycle ev ''alert.firing'' (Some r) a n now s) = to_send s"
  "length (firing_records eid cid (enqueue_event_lifecycle ev ''alert.firing'' (Some r) a n now s))
     \<le> max 1 (length (firing_records eid cid s))"
proof -
  have "to_send (fold (enqueue_to_channel ev ''alert.firing'' (Some r) a n now) cs s) = to_send s \<and>
     length (firing_records eid cid (fold (enqueue_to_channel ev ''alert.firing'' (Some r) a n now) cs s))
     \<le> max 1 (length (firing_records eid cid s))" for cs
  proof (induction cs arbitrary: s)
    case (Cons c cs)
    have "length (firing_records eid cid (enqueue_to_channel ev ''alert.firing'' (Some r) a n now c s))
        \<le> max 1 (length (firing_records eid cid s))"
      by (auto simp: enqueue_channel_suppressed)
    moreover note Cons.IH [of "enqueue_to_channel ev ''alert.firing'' (Some r) a n now c s"]
    ultimately show ?case
      unfolding fold_simps(2) enqueue_channel_suppressed(1) by linarith
  qed simp
  then show "to_send (enqueue_event_lifecycle ev ''alert.firing'' (Some r) a n now s) = to_send s"
    "length (firing_records eid cid (enqueue_event_lifecycle ev ''alert.firing'' (Some r) a n now s))
     \<le> max 1 (length (firing_records eid cid s))"
    by (simp_all add: enqueue_event_lifecycle_def)
qed

lemma enqueue_other_tables [simp]:
  "channels (enqueue_event_lifecycle ev k spr a n now s) = channels s"
  "event_channels (enqueue_event_lifecycle ev k spr a n now s) = event_channels s"
proof -
  have "channels (fold (enqueue_to_channel ev k spr a n now) cs s) = channels s \<and>
     event_channels (fold (enqueue_to_channel ev k spr a n now) cs s) = event_channels s" for cs
    by (induction cs arbitrary: s) (auto simp: enqueue_to_channel_def insert_delivery_def Let_def)
  then show "channels (enqueue_event_lifecycle ev k spr a n now s) = channels s"
    "event_channels (enqueue_event_lifecycle ev k spr a n now s) = event_channels s"
    by (simp_all add: enqueue_event_lifecycle_def)
qed

lemma to_send_unaffected [simp]:
  "to_send (s\<lparr>alert_events := es\<rparr>) = to_send s"
  "to_send (s\<lparr>uuid_next := m, alert_events := es, event_channels := ecs\<rparr>) = to_send s"
  "to_send (set_evaluation r i f s) = to_send s"
  "to_send (upsert_evaluation rule i s) = to_send s"
  "to_send (add_timeline eid k a n v now s) = to_send s"
  by (simp_all add: to_send_def set_evaluation_def upsert_evaluation_def add_timeline_def Let_def)

lemma firing_records_unaffected [simp]:
  "firing_records e c (s\<lparr>alert_events := es\<rparr>) = firing_records e c s"
  "firing_records e c (s\<lparr>uuid_next := m, alert_events := es, event_channels := ecs\<rparr>) = firing_records e c s"
  "firing_records e c (set_evaluation r i f s) = firing_records e c s"
  "firing_records e c (upsert_evaluation rule i s) = firing_records e c s"
  "firing_records e c (add_timeline eid k a n v now s) = firing_records e c s"
  by (simp_all add: firing_records_def set_evaluation_def upsert_evaluation_def add_timeline_def Let_def)

lemma observe_suppressed:
  "to_send (observe_active rule iid ev e (Some r) v t u s) = to_send s"
  "length (firing_records eid cid (observe_active rule iid ev e (Some r) v t u s))
     \<le> max 1 (length (firing_records eid cid s))"
  "to_send (observe_pending rule iid ev (Some r) v t u s) = to_send s"
  "length (firing_records eid cid (observe_pending rule iid ev (Some r) v t u s))
     \<le> max 1 (length (firing_records eid cid s))"
  by (auto simp: observe_active_def observe_pending_def fire_event_def Let_def enqueue_suppressed(1)
      intro!: order_trans [OF enqueue_suppressed(2)])

text \<open>The abnormal branch of one observation.\<close>

lemma process_abnormal:
  assumes "rule_live rule iid s" "observation_reading obs iid t u s = (v, True, t, u)"
    and "\<not> reading_stale (v, True, t, u) (mon_last_sample (monitor_of rule iid s))
        (mon_last_value (monitor_of rule iid s))"
  defines "s1 \<equiv> upsert_evaluation rule iid s" and "ev \<equiv> evaluation_now rule iid s"
  defines "spr \<equiv> suppression_reason rule iid t s1"
  shows "process_rule_observation rule iid obs t u s =
     (case active_event (r_id rule) iid s of
        Some e \<Rightarrow> observe_active rule iid ev e spr v t u s1
      | None \<Rightarrow> observe_pending rule iid ev spr v t u s1)"
proof -
  have "mon_last_sample (monitor_of rule iid s) = v_last_sample_at ev"
    "mon_last_value (monitor_of rule iid s) = v_last_value ev"
    by (simp_all add: monitor_of_def ev_def Let_def)
  then show ?thesis
    using process_live [OF assms(1,2)] assms(3)
    by (simp add: reading_stale_def s1_def ev_def spr_def Let_def split: option.split)
qed

lemma suppression_cong:
  assumes "windows b = windows a" "window_targets b = window_targets a" "alert_events b = alert_events a"
  shows "suppression_reason rule iid t b = suppression_reason rule iid t a"
proof -
  have "window_covers (r_id rule) iid b = window_covers (r_id rule) iid a"
    by (rule ext) (simp add: window_covers_def assms(2))
  then show ?thesis
    unfolding suppression_reason_def covering_window_def active_offline_event_def assms by simp
qed

lemma suppression_after_upsert:
  "suppression_reason rule iid t (upsert_evaluation r i s) = suppression_reason rule iid t s"
  by (rule suppression_cong) (simp_all add: upsert_evaluation_def Let_def)

lemma upsert_deliveries [simp]: "deliveries (upsert_evaluation r i s) = deliveries s"
  "channels (upsert_evaluation r i s) = channels s"
  "event_channels (upsert_evaluation r i s) = event_channels s"
  by (simp_all add: upsert_evaluation_def Let_def)

lemma set_evaluation_deliveries [simp]: "deliveries (set_evaluation r i f s) = deliveries s"
  "channels (set_evaluation r i f s) = channels s"
  "event_channels (set_evaluation r i f s) = event_channels s"
  by (simp_all add: set_evaluation_def)

text \<open>
  A suppressed alert sends nothing.  While a maintenance window covers it, or its node is known to be
  offline, an abnormal observation adds no delivery that a worker could send, and each channel keeps at
  most one record of the suppressed firing.
\<close>
theorem suppressed_observation_sends_nothing:
  assumes "rule_live rule iid s" "observation_reading obs iid t u s = (v, True, t, u)"
    and "\<not> reading_stale (v, True, t, u) (mon_last_sample (monitor_of rule iid s))
        (mon_last_value (monitor_of rule iid s))"
    and "suppression_reason rule iid t s \<noteq> None"
  defines "s' \<equiv> process_rule_observation rule iid obs t u s"
  shows "to_send s' = to_send s \<and>
    length (firing_records eid cid s') \<le> max 1 (length (firing_records eid cid s))"
proof -
  obtain r where r: "suppression_reason rule iid t (upsert_evaluation rule iid s) = Some r"
    using assms(4) by (auto simp: suppression_after_upsert)
  note p = process_abnormal [OF assms(1-3), unfolded r]
  show ?thesis
    using observe_suppressed [where s = "upsert_evaluation rule iid s" and r = r]
    by (simp add: s'_def p split: option.split)
qed


definition silenced_db :: alert_db where
  "silenced_db = demo_db\<lparr>windows := [\<lparr>w_id = ''w1'', w_name = ''night'', w_reason = [], w_scope = ''global'',
     w_starts_at = 900, w_ends_at = 1200, w_enabled = True, w_created_by = ''a'',
     w_created_by_user_id = None, w_created_at = 0, w_updated_at = 0\<rparr>]\<rparr>"

lemma silenced_db_live: "rule_live offline_rule ''n1'' silenced_db"
  by (simp add: silenced_db_def rule_live_def instance_eligible_def rule_by_id_def demo_defs)

lemma silenced_db_suppressed: "suppression_reason offline_rule ''n1'' 1000 silenced_db \<noteq> None"
proof -
  have "suppression_reason offline_rule ''n1'' 1000 silenced_db = Some ''maintenance:night''" by code_simp
  then show ?thesis by simp
qed

lemma demo_offline_reading:
  assumes "s = silenced_db \<or> s = demo_db"
  shows "observation_reading ConnectionObs ''n1'' t u s = (Finite 1, True, t, u)"
  using assms by (auto simp: observation_reading_def observation_value_def connection_observation_def
      silenced_db_def demo_defs)

lemma demo_not_stale:
  assumes "s = silenced_db \<or> s = demo_db"
  shows "\<not> reading_stale r (mon_last_sample (monitor_of rule iid s)) (mon_last_value (monitor_of rule iid s))"
  using assms by (cases r) (auto simp: monitor_of_start evaluation_for_def silenced_db_def demo_defs
      reading_stale_def observation_is_stale_def)

theorem suppressed_observation_sends_nothing_witness:
  "to_send (process_rule_observation offline_rule ''n1'' ConnectionObs 1000 1000 silenced_db) = to_send silenced_db \<and>
   map d_status (deliveries (process_rule_observation offline_rule ''n1'' ConnectionObs 1000 1000 silenced_db))
     = [''suppressed'']"
proof (rule conjI)
  show "to_send (process_rule_observation offline_rule ''n1'' ConnectionObs 1000 1000 silenced_db) = to_send silenced_db"
    by (rule conjunct1 [OF suppressed_observation_sends_nothing [OF silenced_db_live demo_offline_reading
          demo_not_stale silenced_db_suppressed]]) simp_all
qed code_simp

text \<open>
  An alert that is not suppressed reaches every channel.  After an abnormal observation of an active
  (or just raised) alert, each enabled channel linked to the event has a firing notification that is not
  suppressed: one that is queued, in flight, delivered or failed.  This includes the first observation
  after a maintenance window ends.
\<close>
theorem unsuppressed_alert_notifies:
  assumes "rule_live rule iid s" "observation_reading obs iid t u s = (v, True, t, u)"
    and "\<not> reading_stale (v, True, t, u) (mon_last_sample (monitor_of rule iid s))
        (mon_last_value (monitor_of rule iid s))"
    and "suppression_reason rule iid t s = None"
    and "active_event (r_id rule) iid (process_rule_observation rule iid obs t u s) = Some e"
    and "c \<in> notified_channels (e_id e) (process_rule_observation rule iid obs t u s)"
  shows "has_notification (e_id e) (c_id c) ''alert.firing'' (process_rule_observation rule iid obs t u s)"
proof -
  define s1 where "s1 = upsert_evaluation rule iid s"
  define ev where "ev = evaluation_now rule iid s"
  have spr: "suppression_reason rule iid t s1 = None"
    using assms(4) by (simp add: suppression_after_upsert s1_def)
  note p = process_abnormal [OF assms(1-3), folded s1_def ev_def, unfolded spr]
  show ?thesis
  proof (cases "active_event (r_id rule) iid s")
    case None
    let ?p = "case v_pending_since ev of None \<Rightarrow> t | Some p \<Rightarrow> p"
    let ?n = "sat_add (v_match_count ev) 1"
    have none: "active_event (r_id rule) iid s1 = None" by (simp add: None s1_def)
    have fire: "pending_should_fire (r_duration rule) (v_pending_since ev) (v_last_observed_at ev) t"
      using assms(5) by (auto simp: p None observe_pending_def Let_def none split: if_splits)
    obtain s2 where s2: "process_rule_observation rule iid obs t u s = fire_event rule iid None v ?p t ?n s2"
      "active_event (r_id rule) iid s2 = None"
      using fire by (simp add: p None observe_pending_def Let_def none)
    have e: "e = fired_event (new_uuid s2) rule iid (node_snapshot iid s2) None v ?p t ?n"
      using assms(5) active_after_fire [OF s2(2)] by (simp add: s2(1))
    then obtain s3 where s3: "process_rule_observation rule iid obs t u s =
        enqueue_event_lifecycle e ''alert.firing'' None None None t s3"
      by (simp add: s2(1) fire_event_def Let_def e)
    then show ?thesis using assms(6) enqueue_notifies [of c e s3] by (simp add: notified_channels_def)
  next
    case (Some e0)
    define f where "f = refresh_event v t None (sat_add (e_match_count e0) 1)"
    define s2 where "s2 = s1\<lparr>alert_events := update_where (\<lambda>x. e_id x = e_id e0) f (alert_events s1)\<rparr>"
    define s3 where "s3 = enqueue_event_lifecycle (f e0) ''alert.firing'' None None None t s2"
    obtain g where g: "process_rule_observation rule iid obs t u s = set_evaluation (r_id rule) iid g s3"
      by (simp add: p Some observe_active_def Let_def f_def s2_def s3_def)
    have "find (\<lambda>x. e_rule_id x = r_id rule \<and> e_instance_id x = iid \<and> event_active x) (alert_events s2) =
      map_option (\<lambda>x. if e_id x = e_id e0 then f x else x)
        (find (\<lambda>x. e_rule_id x = r_id rule \<and> e_instance_id x = iid \<and> event_active x) (alert_events s1))"
      unfolding s2_def by (simp, rule find_update_where)
         (simp add: f_def refresh_event_def event_active_def)
    then have "active_event (r_id rule) iid s2 = Some (f e0)"
      using Some by (simp add: active_event_def s1_def upsert_evaluation_def Let_def)
    then have e: "e = f e0"
      using assms(5) by (simp add: g s3_def active_event_cong [OF enqueue_tables(1)])
    then have "c \<in> notified_channels (e_id (f e0)) s2"
      using assms(6) by (simp add: g notified_channels_def s3_def)
    from enqueue_notifies [OF this] show ?thesis by (simp add: e g s3_def has_notification_def)
  qed
qed

theorem unsuppressed_alert_notifies_witness:
  "has_notification (demo_id 0) ''c1'' ''alert.firing''
     (process_rule_observation offline_rule ''n1'' ConnectionObs 1000 1000 demo_db)"
proof -
  let ?s = "process_rule_observation offline_rule ''n1'' ConnectionObs 1000 1000 demo_db"
  have "map_option e_id (active_event ''r2'' ''n1'' ?s) = Some (demo_id 0)" by code_simp
  then obtain e where e: "active_event (r_id offline_rule) ''n1'' ?s = Some e" "e_id e = demo_id 0"
    by (auto simp: offline_rule_def)
  have n: "suppression_reason offline_rule ''n1'' 1000 demo_db = None" by code_simp
  have "demo_channel \<in> set (channels ?s) \<and> (demo_id 0, ''c1'') \<in> set (event_channels ?s)" by code_simp
  then have "demo_channel \<in> notified_channels (e_id e) ?s"
    by (simp add: notified_channels_def e(2) demo_channel_def)
  from unsuppressed_alert_notifies [OF demo_db_live(2) demo_offline_reading demo_not_stale n e(1) this] e(2)
  show ?thesis by (simp add: demo_channel_def)
qed

end
