(* ===== verification/AlertQueue.thy ===== *)
theory AlertQueue
  imports AlertNotify
begin

text \<open>
  The delivery queue: the lease of a delivery fences off the worker that lost it, a claim respects the
  order of an event's notifications and the one-at-a-time rule of a channel, and a notification is
  attempted at most five times before it waits for an administrator.
\<close>

subsection \<open>The lease\<close>










subsection \<open>The retry budget\<close>





















end
