(* ===== verification/UpdateSignature.thy ===== *)
theory UpdateSignature
  imports Prelude
begin

text \<open>
  The signed offers of an agent update, on both sides: \<open>backend/src/update_signature.rs\<close> signs, the
  end of \<open>instanceEnd/src/update.rs\<close> verifies.  Both sides render an offer as the same text, one
  \<open>name=value\<close> line a field under a domain line, and sign its bytes with Ed25519.  The signature
  scheme and Base64 are parameters.  Errors (\<open>anyhow\<close>) are short texts.
\<close>

record update_offer =
  o_attempt_id :: "string option"
  o_instance_id :: "string option"
  o_release_id :: string
  o_version :: string
  o_artifact_id :: string
  o_download_url :: string
  o_sha256 :: string
  o_size_bytes :: int
  o_package_type :: string
  o_native_arch :: string
  o_target_os :: "string option"
  o_signature_key_id :: "string option"
  o_signature :: "string option"
  o_signature_v2 :: "string option"
  o_retry_count :: int

record rollback_package =
  k_artifact_id :: string
  k_download_url :: string
  k_sha256 :: string
  k_size_bytes :: int
  k_package_type :: string
  k_native_arch :: string
  k_target_os :: string

record rollback_offer =
  b_attempt_id :: string
  b_release_id :: string
  b_instance_id :: string
  b_from_version :: string
  b_target_version :: string
  b_retry_count :: int
  b_package :: "rollback_package option"
  b_signature_key_id :: "string option"
  b_signature :: "string option"

definition max_agent_update_retry_count :: int where
  "max_agent_update_retry_count = 100"

definition newline :: char where "newline = CHR 0x0A"

definition legacy_domain :: string where
  "legacy_domain = ''operation-monitoring-agent-update-v1''"
definition v2_domain :: string where
  "v2_domain = ''operation-monitoring-agent-update-v2''"
definition rollback_domain :: string where
  "rollback_domain = ''operation-monitoring-agent-rollback-v1''"

text \<open>A byte that would break the line structure: NUL, carriage return, line feed.\<close>

definition breaks_line :: "char \<Rightarrow> bool" where
  "breaks_line c \<longleftrightarrow> c = CHR 0x00 \<or> c = CHR 0x0D \<or> c = newline"

definition plain_value :: "string \<Rightarrow> bool" where
  "plain_value v \<longleftrightarrow> \<not> list_ex breaks_line v"

definition signable_value :: "string \<Rightarrow> bool" where
  "signable_value v \<longleftrightarrow> v \<noteq> [] \<and> plain_value v"

text \<open>\<open>{}\<close> of an \<open>i64\<close>.\<close>

definition int_string :: "int \<Rightarrow> string" where
  "int_string i = (if i < 0 then CHR ''-'' # dec_string (nat (- i)) else dec_string (nat i))"

definition payload_line :: "string \<Rightarrow> string \<Rightarrow> string" where
  "payload_line name v = name @ CHR ''='' # v @ [newline]"

definition payload_text :: "string \<Rightarrow> (string \<times> string) list \<Rightarrow> string" where
  "payload_text domain entries = domain @ newline # concat (map (\<lambda>(n, v). payload_line n v) entries)"

subsection \<open>The signing side\<close>

definition valid_signature_key_id :: "string \<Rightarrow> bool" where
  "valid_signature_key_id v \<longleftrightarrow> v \<noteq> [] \<and> length v \<le> 64 \<and>
     list_all (\<lambda>c. is_ascii_alphanumeric c \<or> c \<in> set ''-_.'') v"

definition legacy_update_signature_payload :: "update_offer \<Rightarrow> string + string" where
  "legacy_update_signature_payload off =
     (case o_target_os off of None \<Rightarrow> Inl ''missing target_os''
      | Some target_os \<Rightarrow>
        if \<not> list_all signable_value [o_version off, target_os, o_package_type off, o_native_arch off, o_sha256 off]
        then Inl ''update signature field is invalid''
        else Inr (payload_text legacy_domain
          [(''version'', o_version off), (''target_os'', target_os), (''package_type'', o_package_type off),
           (''native_arch'', o_native_arch off), (''size_bytes'', int_string (o_size_bytes off)),
           (''sha256'', to_ascii_lowercase (o_sha256 off))]))"

definition update_signature_payload_v2 :: "update_offer \<Rightarrow> string + string" where
  "update_signature_payload_v2 off =
     (case o_attempt_id off of None \<Rightarrow> Inl ''missing attempt_id'' | Some attempt_id \<Rightarrow>
      case o_instance_id off of None \<Rightarrow> Inl ''missing instance_id'' | Some instance_id \<Rightarrow>
      case o_target_os off of None \<Rightarrow> Inl ''missing target_os'' | Some target_os \<Rightarrow>
        if \<not> list_all signable_value [attempt_id, instance_id, o_release_id off, o_version off, o_artifact_id off,
             o_download_url off, target_os, o_package_type off, o_native_arch off, o_sha256 off]
        then Inl ''update v2 signature field is invalid''
        else if o_size_bytes off \<le> 0 \<or> \<not> (0 \<le> o_retry_count off \<and> o_retry_count off \<le> max_agent_update_retry_count)
        then Inl ''update v2 signature numeric fields are invalid''
        else Inr (payload_text v2_domain
          [(''attempt_id'', attempt_id), (''instance_id'', instance_id), (''release_id'', o_release_id off),
           (''version'', o_version off), (''retry_count'', int_string (o_retry_count off)),
           (''artifact_id'', o_artifact_id off), (''download_url'', o_download_url off),
           (''target_os'', target_os), (''package_type'', o_package_type off), (''native_arch'', o_native_arch off),
           (''size_bytes'', int_string (o_size_bytes off)), (''sha256'', to_ascii_lowercase (o_sha256 off))]))"

definition rollback_package_fields :: "rollback_offer \<Rightarrow> string \<times> string \<times> string \<times> string \<times> int \<times> string" where
  "rollback_package_fields off = (case b_package off of
       None \<Rightarrow> ([], [], [], [], 0, [])
     | Some k \<Rightarrow> (k_artifact_id k, k_target_os k, k_package_type k, k_native_arch k, k_size_bytes k, k_sha256 k))"

definition rollback_signature_payload :: "rollback_offer \<Rightarrow> string + string" where
  "rollback_signature_payload off =
     (case rollback_package_fields off of (artifact_id, target_os, package_type, native_arch, size_bytes, sha256) \<Rightarrow>
        if \<not> list_all plain_value [b_attempt_id off, b_release_id off, b_instance_id off, b_from_version off,
             b_target_version off, artifact_id, target_os, package_type, native_arch, sha256]
        then Inl ''rollback signature field is invalid''
        else if b_attempt_id off = [] \<or> b_release_id off = [] \<or> b_instance_id off = [] \<or> b_from_version off = []
          \<or> b_target_version off = [] \<or> b_retry_count off < 0
        then Inl ''rollback signature fields are incomplete''
        else Inr (payload_text rollback_domain
          [(''attempt_id'', b_attempt_id off), (''release_id'', b_release_id off), (''instance_id'', b_instance_id off),
           (''from_version'', b_from_version off), (''target_version'', b_target_version off),
           (''retry_count'', int_string (b_retry_count off)), (''artifact_id'', artifact_id), (''target_os'', target_os),
           (''package_type'', package_type), (''native_arch'', native_arch), (''size_bytes'', int_string size_bytes),
           (''sha256'', to_ascii_lowercase sha256)]))"

text \<open>A signer: its key id, and signing followed by \<open>STANDARD.encode\<close>.\<close>

record update_signer =
  s_key_id :: string
  s_sign :: "string \<Rightarrow> string"

definition sign_offer :: "update_signer \<Rightarrow> update_offer \<Rightarrow> string + update_offer" where
  "sign_offer g off =
     try_bind (legacy_update_signature_payload off) (\<lambda>legacy_payload.
     try_bind (update_signature_payload_v2 off) (\<lambda>payload_v2.
       Inr (off\<lparr>o_signature_key_id := Some (s_key_id g), o_signature := Some (s_sign g legacy_payload),
         o_signature_v2 := Some (s_sign g payload_v2)\<rparr>)))"

definition sign_rollback_offer :: "update_signer \<Rightarrow> rollback_offer \<Rightarrow> string + rollback_offer" where
  "sign_rollback_offer g off =
     try_bind (rollback_signature_payload off) (\<lambda>payload.
       Inr (off\<lparr>b_signature_key_id := Some (s_key_id g), b_signature := Some (s_sign g payload)\<rparr>))"

subsection \<open>The verifying side\<close>

text \<open>
  The agent's copies of the payload functions are the same text (\<open>legacy_update_signature_payload\<close>,
  \<open>update_signature_payload_v2\<close>, \<open>rollback_signature_payload\<close> of \<open>instanceEnd/src/update.rs\<close>), so the
  model has them once.  \<open>b64_decode\<close> is \<open>BASE64_STANDARD.decode\<close> followed by
  \<open>Signature::from_slice\<close>; \<open>key_verify\<close> is \<open>VerifyingKey::verify\<close> of the embedded key.
\<close>

record 'sig verifying_key =
  v_key_id :: string
  b64_decode :: "string \<Rightarrow> 'sig option"
  key_verify :: "string \<Rightarrow> 'sig \<Rightarrow> bool"

definition check_signature ::
  "'sig verifying_key \<Rightarrow> string option \<Rightarrow> string option \<Rightarrow> string + string \<Rightarrow> string + unit" where
  "check_signature vk key_id encoded payload =
     (case key_id of None \<Rightarrow> Inl ''missing signature_key_id''
      | Some key_id \<Rightarrow>
        if \<not> valid_signature_key_id key_id \<or> key_id \<noteq> v_key_id vk then Inl ''signature key ID is not trusted''
        else case encoded of None \<Rightarrow> Inl ''missing signature''
        | Some encoded \<Rightarrow> (case b64_decode vk encoded of None \<Rightarrow> Inl ''signature is malformed''
          | Some sig \<Rightarrow> try_bind payload (\<lambda>p.
              if key_verify vk p sig then Inr () else Inl ''signature verification failed'')))"

definition verify_legacy_update_signature :: "'sig verifying_key \<Rightarrow> update_offer \<Rightarrow> string + unit" where
  "verify_legacy_update_signature vk off =
     check_signature vk (o_signature_key_id off) (o_signature off) (legacy_update_signature_payload off)"

definition verify_update_signature_v2 :: "'sig verifying_key \<Rightarrow> update_offer \<Rightarrow> string + unit" where
  "verify_update_signature_v2 vk off =
     check_signature vk (o_signature_key_id off) (o_signature_v2 off) (update_signature_payload_v2 off)"

definition verify_rollback_signature :: "'sig verifying_key \<Rightarrow> rollback_offer \<Rightarrow> string + unit" where
  "verify_rollback_signature vk off =
     check_signature vk (b_signature_key_id off) (b_signature off) (rollback_signature_payload off)"

definition verify_update_signature_policy_with_key ::
  "update_offer \<Rightarrow> bool \<Rightarrow> 'sig verifying_key option \<Rightarrow> string + unit" where
  "verify_update_signature_policy_with_key off server_is_https embedded =
     (case embedded of
        Some vk \<Rightarrow> if o_signature_v2 off \<noteq> None then verify_update_signature_v2 vk off
          else if server_is_https then verify_legacy_update_signature vk off
          else Inl ''automatic updates over HTTP require an update metadata v2 signature''
      | None \<Rightarrow> if server_is_https then Inr ()
          else Inl ''automatic updates over HTTP require an embedded public key'')"

definition verify_rollback_signature_policy_with_key ::
  "rollback_offer \<Rightarrow> bool \<Rightarrow> 'sig verifying_key option \<Rightarrow> string + unit" where
  "verify_rollback_signature_policy_with_key off server_is_https embedded =
     (case embedded of
        Some vk \<Rightarrow> verify_rollback_signature vk off
      | None \<Rightarrow> if server_is_https then Inr ()
          else Inl ''automatic rollback over HTTP requires an embedded public key'')"

definition validate_update_instance_binding :: "update_offer \<Rightarrow> string \<Rightarrow> string + unit" where
  "validate_update_instance_binding off instance_id =
     (if o_signature_v2 off = None then Inr ()
      else case o_instance_id off of None \<Rightarrow> Inl ''missing instance_id''
      | Some target \<Rightarrow> if target \<noteq> instance_id then Inl ''update targets a different agent instance'' else Inr ())"

end
