(* ===== verification/UpdateState.thy ===== *)
theory UpdateState
  imports UpdateSignature Tables
begin

text \<open>
  The tables behind \<open>backend/src/updates.rs\<close> (\<open>db.rs\<close>, lines 460 to 728), the connected agents and
  the messages queued for them, and the pure decisions of the module: versions, statuses, artifact
  metadata and who may receive a release.  SemVer is a library: a type \<open>'v\<close> with a linear order, its
  parser and its printer are parameters (\<open>update_env\<close>), as are the clock, fresh identifiers and the
  signer.  A handler runs without interleaving; the columns not used by the module are left out.
\<close>

record fleet_row =
  i_id :: string
  i_secret :: string
  i_name :: string
  i_os :: string
  i_agent_version :: string
  i_package_type :: string
  i_native_arch :: string
  i_update_privileged :: int
  i_rollback_supported :: int
  i_rollback_version :: string
  i_approved :: int
  i_disabled :: int

record release_row =
  r_id :: string
  r_version :: string
  r_notes :: string
  r_status :: string
  r_rollout_state :: string
  r_rollout_updated_at :: "int option"
  r_created_at :: int
  r_published_at :: "int option"

record artifact_row =
  a_id :: string
  a_release_id :: string
  a_os :: string
  a_package_type :: string
  a_native_arch :: string
  a_file_name :: string
  a_size_bytes :: int
  a_sha256 :: string
  a_storage_path :: string
  a_created_at :: int
  a_status :: string
  a_published_at :: "int option"

record target_row =
  t_release_id :: string
  t_instance_id :: string
  t_state :: string
  t_created_at :: int
  t_updated_at :: int

record attempt_row =
  u_id :: string
  u_release_id :: string
  u_artifact_id :: "string option"
  u_instance_id :: string
  u_operation :: string
  u_parent_attempt_id :: "string option"
  u_from_version :: string
  u_target_version :: string
  u_status :: string
  u_message :: string
  u_retry_count :: int
  u_created_at :: int
  u_updated_at :: int
  u_completed_at :: "int option"

datatype agent_outbound = UpdateAvailable update_offer | RollbackAvailable rollback_offer

record update_db =
  fleet :: "fleet_row list"
  releases :: "release_row list"
  artifacts :: "artifact_row list"
  release_targets :: "target_row list"
  update_attempts :: "attempt_row list"
  connections :: "(string, string) table"
  sent :: "(string \<times> agent_outbound) list"
  update_log :: "(string \<times> string \<times> string \<times> string) list"
  ids_drawn :: nat

record 'v update_env =
  now :: int
  parse_version :: "string \<Rightarrow> 'v option"
  show_version :: "'v \<Rightarrow> string"
  fresh_id :: "nat \<Rightarrow> string"
  signer :: "update_signer option"

type_synonym 'a update_handler = "(update_db, 'a) handler"

subsection \<open>Versions and statuses\<close>

definition terminal_attempt_statuses :: "string list" where
  "terminal_attempt_statuses = [''succeeded'', ''rollback_succeeded'', ''failed'', ''cancelled'']"

definition max_status_message_bytes :: nat where "max_status_message_bytes = 4096"
definition update_handoff_timeout_seconds :: int where "update_handoff_timeout_seconds = 60 * 60"

definition validate_version :: "('v::linorder) update_env \<Rightarrow> string \<Rightarrow> string result" where
  "validate_version env raw =
     (let version = trim raw in
      case parse_version env version of
        None \<Rightarrow> Inl (app_error_new 400 ''version must be valid SemVer'')
      | Some parsed \<Rightarrow> if show_version env parsed \<noteq> version
          then Inl (app_error_new 400 ''version must be canonical SemVer'') else Inr version)"

definition version_is_newer :: "('v::linorder) update_env \<Rightarrow> 'v \<Rightarrow> string \<Rightarrow> bool" where
  "version_is_newer env target current =
     (case parse_version env current of Some c \<Rightarrow> target > c | None \<Rightarrow> True)"

definition valid_agent_status :: "string \<Rightarrow> bool" where
  "valid_agent_status status \<longleftrightarrow> status \<in> set [''waiting'', ''downloading'', ''verifying'', ''waiting_idle'',
     ''installing'', ''awaiting_restart'', ''succeeded'', ''rollback_succeeded'', ''failed'']"

definition status_progress :: "string \<Rightarrow> nat option" where
  "status_progress status = map_of [(''pending'', 0), (''waiting'', 1), (''downloading'', 2), (''verifying'', 3),
     (''waiting_idle'', 4), (''installing'', 5), (''awaiting_restart'', 6)] status"

definition update_status_transition_allowed :: "string \<Rightarrow> string \<Rightarrow> bool" where
  "update_status_transition_allowed current nxt =
     (if current \<in> set terminal_attempt_statuses then current = nxt
      else if nxt \<in> set terminal_attempt_statuses then True
      else case (status_progress current, status_progress nxt) of
          (Some c, Some n) \<Rightarrow> n \<ge> c
        | _ \<Rightarrow> False)"

subsection \<open>Uploaded artifacts\<close>

record received_artifact =
  rc_os :: string
  rc_package_type :: string
  rc_native_arch :: string
  rc_file_name :: string
  rc_sha256 :: string
  rc_checksum_file_name :: string
  rc_checksum_contents :: string
  rc_first_bytes :: bytes

definition expected_extension :: "string \<Rightarrow> string" where
  "expected_extension os = (if os = ''windows'' then ''exe'' else ''bin'')"

definition starts_with_bytes :: "bytes \<Rightarrow> bytes \<Rightarrow> bool" where
  "starts_with_bytes p bs \<longleftrightarrow> take (length p) bs = p"

definition package_signature_matches :: "string \<Rightarrow> bytes \<Rightarrow> bool" where
  "package_signature_matches os bs \<longleftrightarrow>
     (if os = ''windows'' then starts_with_bytes [0x4d, 0x5a] bs
      else if os = ''linux'' then starts_with_bytes [0x7f, 0x45, 0x4c, 0x46] bs
      else if os = ''macos'' then list_ex (\<lambda>p. starts_with_bytes p bs)
        [[0xcf, 0xfa, 0xed, 0xfe], [0xfe, 0xed, 0xfa, 0xcf], [0xca, 0xfe, 0xba, 0xbe], [0xca, 0xfe, 0xba, 0xbf]]
      else False)"

definition is_ascii_hexdigit :: "char \<Rightarrow> bool" where
  "is_ascii_hexdigit c \<longleftrightarrow> c \<in> set ''0123456789abcdefABCDEF''"

text \<open>
  \<open>split_whitespace\<close>: the non-empty runs between Unicode white space.  \<open>word_end\<close> is the number of
  bytes before the first white space.
\<close>

fun word_end :: "string \<Rightarrow> nat" where
  "word_end [] = 0"
| "word_end (c # cs) = (if ws_prefix (c # cs) > 0 then 0 else Suc (word_end cs))"

function split_whitespace :: "string \<Rightarrow> string list" where
  "split_whitespace s = (case trim_start s of [] \<Rightarrow> []
     | c # cs \<Rightarrow> (c # take (word_end cs) cs) # split_whitespace (drop (word_end cs) cs))"
  by pat_completeness auto
termination
proof (relation "measure length")
  fix s c cs
  assume "trim_start s = c # cs"
  moreover have "length (trim_start s) \<le> length s" by (rule length_trim_start)
  ultimately show "(drop (word_end cs) cs, s) \<in> measure length" by auto
qed simp

declare split_whitespace.simps [simp del]

definition trim_start_matches_star :: "string \<Rightarrow> string" where
  "trim_start_matches_star s = dropWhile (\<lambda>c. c = CHR ''*'') s"

definition validate_checksum_file :: "string \<Rightarrow> string \<Rightarrow> string \<Rightarrow> string \<Rightarrow> unit result" where
  "validate_checksum_file file_name checksum_file_name checksum_contents actual_sha256 =
     (if \<not> eq_ignore_ascii_case checksum_file_name (file_name @ ''.sha256'')
      then Inl (app_error_new 400 ''checksum file name must match the executable'')
      else let fields = split_whitespace checksum_contents;
               supplied = (case fields of [] \<Rightarrow> [] | f # _ \<Rightarrow> f)
        in if length supplied \<noteq> 64 \<or> \<not> list_all is_ascii_hexdigit supplied
             \<or> \<not> eq_ignore_ascii_case supplied actual_sha256
           then Inl (app_error_new 400 ''checksum does not match the executable'')
           else case drop 1 fields of
               [] \<Rightarrow> Inr ()
             | supplied_name # others \<Rightarrow>
                 if trim_start_matches_star supplied_name \<noteq> file_name
                 then Inl (app_error_new 400 ''checksum file names another file'')
                 else if others \<noteq> [] then Inl (app_error_new 400 ''checksum file format is invalid'')
                 else Inr ())"

text \<open>
  \<open>Path::extension\<close> of a name without separators: what follows the last dot, unless that dot is
  the first character or the name is the parent directory.
\<close>

definition file_extension :: "string \<Rightarrow> string option" where
  "file_extension name =
     (if name = ''..'' then None
      else case split_once (CHR ''.'') (rev name) of None \<Rightarrow> None
      | Some (ext, stem) \<Rightarrow> if stem = [] then None else Some (rev ext))"

definition validate_artifact_metadata :: "received_artifact \<Rightarrow> received_artifact result" where
  "validate_artifact_metadata rc0 =
     (let rc = rc0\<lparr>rc_os := to_ascii_lowercase (trim (rc_os rc0)),
        rc_package_type := to_ascii_lowercase (trim (rc_package_type rc0)), rc_native_arch := trim (rc_native_arch rc0)\<rparr>
      in if rc_package_type rc \<noteq> ''standalone'' then Inl (app_error_new 400 ''only standalone executables'')
      else if rc_os rc \<notin> set [''linux'', ''windows'', ''macos''] then Inl (app_error_new 400 ''unsupported target system'')
      else if rc_native_arch rc = [] \<or> length (rc_native_arch rc) > 64
        \<or> \<not> list_all (\<lambda>c. is_ascii_alphanumeric c \<or> c \<in> set ''_-.'') (rc_native_arch rc)
      then Inl (app_error_new 400 ''invalid native architecture'')
      else case map_option to_ascii_lowercase (file_extension (rc_file_name rc)) of
          None \<Rightarrow> Inl (app_error_new 400 ''invalid executable extension'')
        | Some extension \<Rightarrow>
            if extension \<noteq> expected_extension (rc_os rc)
            then Inl (app_error_new 400 ''extension does not match the target system'')
            else if \<not> package_signature_matches (rc_os rc) (rc_first_bytes rc)
            then Inl (app_error_new 400 ''executable signature does not match the target system'')
            else try_bind (validate_checksum_file (rc_file_name rc) (rc_checksum_file_name rc)
                (rc_checksum_contents rc) (rc_sha256 rc)) (\<lambda>_. Inr rc))"

subsection \<open>Who may receive a release\<close>

definition update_target_os :: "string \<Rightarrow> string \<Rightarrow> string option" where
  "update_target_os package_type reported_os =
     (if package_type \<noteq> ''standalone'' then None
      else if reported_os = ''windows'' then Some ''windows''
      else if reported_os = ''macos'' then Some ''macos''
      else Some ''linux'')"

definition target_matches :: "string \<Rightarrow> string \<Rightarrow> string \<Rightarrow> artifact_row \<Rightarrow> bool" where
  "target_matches reported_os package_type native_arch art \<longleftrightarrow>
     (case update_target_os package_type reported_os of None \<Rightarrow> False | Some os \<Rightarrow> a_os art = os)
     \<and> a_package_type art = package_type \<and> a_native_arch art = native_arch"

definition publish_attempt_state :: "fleet_row \<Rightarrow> int \<Rightarrow> string \<times> string \<times> int option" where
  "publish_attempt_state inst t =
     (if i_update_privileged inst = 1 then (''pending'', '''', None)
      else (''failed'', ''agent may not replace its executable'', Some t))"

definition matching_artifact :: "fleet_row \<Rightarrow> artifact_row list \<Rightarrow> artifact_row option" where
  "matching_artifact inst arts =
     find (target_matches (i_os inst) (i_package_type inst) (i_native_arch inst)) arts"

definition rollout_selects_instance :: "string \<Rightarrow> string \<Rightarrow> string list \<Rightarrow> string list \<Rightarrow> bool" where
  "rollout_selects_instance rollout_state instance_id included excluded \<longleftrightarrow>
     (rollout_state \<in> set [''full_active'', ''full_paused''] \<and> instance_id \<notin> set excluded)
     \<or> instance_id \<in> set included"

definition rollout_ineligibility_reason ::
  "('v::linorder) update_env \<Rightarrow> fleet_row \<Rightarrow> 'v \<Rightarrow> artifact_row list \<Rightarrow> string option" where
  "rollout_ineligibility_reason env inst target arts =
     (if i_update_privileged inst \<noteq> 1 then Some ''no update privilege''
      else if update_target_os (i_package_type inst) (i_os inst) = None \<or> i_native_arch inst = []
      then Some ''not a managed standalone installation''
      else if \<not> version_is_newer env target (i_agent_version inst) then Some ''not older than the target''
      else if matching_artifact inst arts = None then Some ''no matching package''
      else None)"

definition validate_rollout_instance ::
  "('v::linorder) update_env \<Rightarrow> fleet_row \<Rightarrow> 'v \<Rightarrow> artifact_row list \<Rightarrow> unit result" where
  "validate_rollout_instance env inst target arts =
     (case rollout_ineligibility_reason env inst target arts of
        Some reason \<Rightarrow> Inl (app_error_new 400 (''instance cannot join the rollout: '' @ reason))
      | None \<Rightarrow> Inr ())"

end
