(* ===== verification/UpdateAttempts.thy ===== *)
theory UpdateAttempts
  imports UpdateState "HOL-Library.Product_Lexorder" "HOL-Library.Option_ord" "HOL-Library.List_Lexorder"
    "HOL-Library.Char_ord"
begin

text \<open>
  The life of an update attempt (\<open>backend/src/updates.rs\<close>): inserting one under the unique indexes of
  its table, offering it to the agent, the reports of the agent, the confirmation by a version the
  agent runs, the time-out of a hand-over, and the rollback of a release, which queues one attempt an
  upgraded instance and ends when they are all finished.
\<close>

subsection \<open>Rows\<close>

definition attempt_active :: "attempt_row \<Rightarrow> bool" where
  "attempt_active u \<longleftrightarrow> u_status u \<notin> set terminal_attempt_statuses"

definition instance_by_id :: "string \<Rightarrow> update_db \<Rightarrow> fleet_row option" where
  "instance_by_id iid db = find (\<lambda>i. i_id i = iid) (fleet db)"

definition release_by_id :: "string \<Rightarrow> update_db \<Rightarrow> release_row option" where
  "release_by_id rid db = find (\<lambda>r. r_id r = rid) (releases db)"

definition attempt_by_id :: "string \<Rightarrow> update_db \<Rightarrow> attempt_row option" where
  "attempt_by_id uid db = find (\<lambda>u. u_id u = uid) (update_attempts db)"

definition get_instance :: "string \<Rightarrow> fleet_row update_handler" where
  "get_instance iid db = (case instance_by_id iid db of
       None \<Rightarrow> (Inl (app_error_new 404 ''instance not found''), db) | Some i \<Rightarrow> (Inr i, db))"

definition get_release :: "string \<Rightarrow> release_row update_handler" where
  "get_release rid db = (case release_by_id rid db of
       None \<Rightarrow> (Inl (app_error_new 404 ''release not found''), db) | Some r \<Rightarrow> (Inr r, db))"

definition get_attempt :: "string \<Rightarrow> attempt_row update_handler" where
  "get_attempt uid db = (case attempt_by_id uid db of
       None \<Rightarrow> (Inl (app_error_new 404 ''attempt not found''), db) | Some u \<Rightarrow> (Inr u, db))"

definition target_state :: "string \<Rightarrow> string \<Rightarrow> update_db \<Rightarrow> string option" where
  "target_state rid iid db = map_option t_state
     (find (\<lambda>t. t_release_id t = rid \<and> t_instance_id t = iid) (release_targets db))"

text \<open>The row an insert would collide with: the primary key and the two partial unique indexes.\<close>

definition attempt_collides :: "attempt_row \<Rightarrow> attempt_row \<Rightarrow> bool" where
  "attempt_collides u v \<longleftrightarrow> u_id u = u_id v
     \<or> (attempt_active u \<and> attempt_active v \<and> u_instance_id u = u_instance_id v)
     \<or> (u_operation u = ''rollback'' \<and> u_operation v = ''rollback'' \<and> u_parent_attempt_id u \<noteq> None
        \<and> u_parent_attempt_id u = u_parent_attempt_id v)"

text \<open>\<open>INSERT ... ON CONFLICT DO NOTHING\<close>, and whether a row was inserted.\<close>

definition insert_attempt :: "attempt_row \<Rightarrow> update_db \<Rightarrow> bool \<times> update_db" where
  "insert_attempt u db =
     (if list_ex (attempt_collides u) (update_attempts db) then (False, db)
      else (True, db\<lparr>update_attempts := update_attempts db @ [u]\<rparr>))"

definition change_attempts :: "(attempt_row \<Rightarrow> bool) \<Rightarrow> (attempt_row \<Rightarrow> attempt_row) \<Rightarrow> update_db \<Rightarrow> update_db" where
  "change_attempts p f db = db\<lparr>update_attempts := update_where p f (update_attempts db)\<rparr>"

definition change_fleet :: "(fleet_row \<Rightarrow> bool) \<Rightarrow> (fleet_row \<Rightarrow> fleet_row) \<Rightarrow> update_db \<Rightarrow> update_db" where
  "change_fleet p f db = db\<lparr>fleet := update_where p f (fleet db)\<rparr>"

definition change_releases :: "(release_row \<Rightarrow> bool) \<Rightarrow> (release_row \<Rightarrow> release_row) \<Rightarrow> update_db \<Rightarrow> update_db" where
  "change_releases p f db = db\<lparr>releases := update_where p f (releases db)\<rparr>"

definition set_agent_version :: "string \<Rightarrow> string \<Rightarrow> update_db \<Rightarrow> update_db" where
  "set_agent_version iid version = change_fleet (\<lambda>i. i_id i = iid) (\<lambda>i. i\<lparr>i_agent_version := version\<rparr>)"

definition clear_rollback_baseline :: "string \<Rightarrow> update_db \<Rightarrow> update_db" where
  "clear_rollback_baseline iid = change_fleet (\<lambda>i. i_id i = iid)
     (\<lambda>i. i\<lparr>i_rollback_supported := 0, i_rollback_version := []\<rparr>)"

definition set_rollout_state :: "string \<Rightarrow> string \<Rightarrow> int \<Rightarrow> update_db \<Rightarrow> update_db" where
  "set_rollout_state rid st t = change_releases (\<lambda>r. r_id r = rid)
     (\<lambda>r. r\<lparr>r_rollout_state := st, r_rollout_updated_at := Some t\<rparr>)"

text \<open>\<open>INSERT INTO agent_release_targets ... ON CONFLICT ... DO UPDATE\<close>\<close>

definition set_target :: "string \<Rightarrow> string \<Rightarrow> string \<Rightarrow> int \<Rightarrow> update_db \<Rightarrow> update_db" where
  "set_target rid iid st t db =
     (if target_state rid iid db = None
      then db\<lparr>release_targets := release_targets db @
        [\<lparr>t_release_id = rid, t_instance_id = iid, t_state = st, t_created_at = t, t_updated_at = t\<rparr>]\<rparr>
      else db\<lparr>release_targets := update_where (\<lambda>r. t_release_id r = rid \<and> t_instance_id r = iid)
        (\<lambda>r. r\<lparr>t_state := st, t_updated_at := t\<rparr>) (release_targets db)\<rparr>)"

definition draw_id :: "'v update_env \<Rightarrow> string update_handler" where
  "draw_id env db = (Inr (fresh_id env (ids_drawn db)), db\<lparr>ids_drawn := Suc (ids_drawn db)\<rparr>)"

definition internal_failure :: app_error where
  "internal_failure = app_error_new 500 ''internal error''"

definition lift_anyhow :: "string + 'a \<Rightarrow> 'a result" where
  "lift_anyhow r = (case r of Inl _ \<Rightarrow> Inl internal_failure | Inr x \<Rightarrow> Inr x)"

subsection \<open>Rolling an upgrade back\<close>

text \<open>The published package of a version for an instance, if any.\<close>

definition rollback_artifact_for_instance :: "fleet_row \<Rightarrow> string \<Rightarrow> update_db \<Rightarrow> artifact_row option" where
  "rollback_artifact_for_instance inst version db =
     (case update_target_os (i_package_type inst) (i_os inst) of None \<Rightarrow> None
      | Some target_os \<Rightarrow>
        find (\<lambda>a. a_status a = ''published'' \<and> a_os a = target_os \<and> a_package_type a = i_package_type inst
            \<and> a_native_arch a = i_native_arch inst
            \<and> list_ex (\<lambda>r. r_id r = a_release_id a \<and> r_version r = version \<and> r_status r = ''published'') (releases db))
          (artifacts db))"

definition rollback_decision :: "fleet_row \<Rightarrow> attempt_row \<Rightarrow> artifact_row option \<Rightarrow> string \<times> string" where
  "rollback_decision inst upgrade art =
     (if i_approved inst \<noteq> 1 \<or> i_disabled inst = 1 then (''failed'', ''instance disabled or not approved'')
      else if i_agent_version inst \<noteq> u_target_version upgrade then (''failed'', ''instance runs another version'')
      else if i_rollback_supported inst \<noteq> 1 then (''failed'', ''agent does not support rollback'')
      else if i_update_privileged inst \<noteq> 1 then (''failed'', ''agent may not replace its executable'')
      else if art = None \<and> i_rollback_version inst \<noteq> u_from_version upgrade
      then (''failed'', ''no package of the old version'')
      else (''pending'', ''''))"

record rollback_queue_outcome =
  q_inserted :: bool
  q_pending :: bool

definition not_queued :: rollback_queue_outcome where
  "not_queued = \<lparr>q_inserted = False, q_pending = False\<rparr>"

definition queue_rollback_for_upgrade_in_transaction ::
  "'v update_env \<Rightarrow> attempt_row \<Rightarrow> rollback_queue_outcome update_handler" where
  "queue_rollback_for_upgrade_in_transaction env upgrade db =
     (if list_ex (\<lambda>u. u_parent_attempt_id u = Some (u_id upgrade) \<and> u_operation u = ''rollback'') (update_attempts db)
      then (Inr not_queued, db)
      else if list_ex (\<lambda>u. u_instance_id u = u_instance_id upgrade \<and> u_id u \<noteq> u_id upgrade \<and> attempt_active u)
        (update_attempts db)
      then (Inr not_queued, db)
      else h_bind (get_instance (u_instance_id upgrade)) (\<lambda>inst.
        let art = rollback_artifact_for_instance inst (u_from_version upgrade) db;
            (status, message) = rollback_decision inst upgrade art
        in h_bind (draw_id env) (\<lambda>new_id db.
          let (inserted, db') = insert_attempt
                \<lparr>u_id = new_id, u_release_id = u_release_id upgrade, u_artifact_id = map_option a_id art,
                 u_instance_id = u_instance_id upgrade, u_operation = ''rollback'',
                 u_parent_attempt_id = Some (u_id upgrade), u_from_version = u_target_version upgrade,
                 u_target_version = u_from_version upgrade, u_status = status, u_message = message,
                 u_retry_count = 0, u_created_at = now env, u_updated_at = now env,
                 u_completed_at = (if status = ''pending'' then None else Some (now env))\<rparr> db
          in (Inr \<lparr>q_inserted = inserted, q_pending = inserted \<and> status = ''pending''\<rparr>, db'))) db)"

definition queue_rollback_for_upgrade :: "'v update_env \<Rightarrow> attempt_row \<Rightarrow> bool update_handler" where
  "queue_rollback_for_upgrade env upgrade =
     h_bind (h_transaction (queue_rollback_for_upgrade_in_transaction env upgrade)) (\<lambda>q. h_return (q_pending q))"

text \<open>\<open>DISTINCT ON (instance_id)\<close>: the latest succeeded upgrade of each instance.\<close>

definition succeeded_upgrades :: "string \<Rightarrow> update_db \<Rightarrow> attempt_row list" where
  "succeeded_upgrades rid db = filter (\<lambda>u. u_release_id u = rid \<and> u_operation u = ''upgrade'' \<and> u_status u = ''succeeded'')
     (update_attempts db)"

definition latest_upgrade_of :: "string \<Rightarrow> attempt_row list \<Rightarrow> attempt_row option" where
  "latest_upgrade_of iid us = max_by_key (\<lambda>u. (u_completed_at u, u_updated_at u)) (filter (\<lambda>u. u_instance_id u = iid) us)"

definition latest_upgrades :: "string \<Rightarrow> update_db \<Rightarrow> attempt_row list" where
  "latest_upgrades rid db = (let us = succeeded_upgrades rid db
     in List.map_filter (\<lambda>iid. latest_upgrade_of iid us) (remdups (map u_instance_id us)))"

definition active_of_release :: "string \<Rightarrow> update_db \<Rightarrow> attempt_row list" where
  "active_of_release rid db = filter (\<lambda>u. u_release_id u = rid \<and> attempt_active u) (update_attempts db)"

definition unqueued_upgrades :: "string \<Rightarrow> update_db \<Rightarrow> attempt_row list" where
  "unqueued_upgrades rid db = filter (\<lambda>up. \<not> list_ex (\<lambda>u. u_parent_attempt_id u = Some (u_id up) \<and> u_operation u = ''rollback'')
     (update_attempts db)) (latest_upgrades rid db)"

text \<open>\<open>DISTINCT ON (parent_attempt_id)\<close>: the latest rollback of each upgrade, when it failed.\<close>

definition rollbacks_of_release :: "string \<Rightarrow> update_db \<Rightarrow> attempt_row list" where
  "rollbacks_of_release rid db = filter (\<lambda>u. u_release_id u = rid \<and> u_operation u = ''rollback'' \<and> u_parent_attempt_id u \<noteq> None)
     (update_attempts db)"

definition failed_rollbacks :: "string \<Rightarrow> update_db \<Rightarrow> attempt_row list" where
  "failed_rollbacks rid db = (let rs = rollbacks_of_release rid db
     in filter (\<lambda>u. u_status u = ''failed'')
       (List.map_filter (\<lambda>p. max_by_key (\<lambda>u. (u_updated_at u, u_created_at u, u_id u)) (filter (\<lambda>u. u_parent_attempt_id u = p) rs))
         (remdups (map u_parent_attempt_id rs))))"

text \<open>The tail of \<open>reconcile_release_rollback\<close>: the release leaves the rollback when nothing is left.\<close>

definition finish_rollback :: "'v update_env \<Rightarrow> string \<Rightarrow> update_db \<Rightarrow> update_db" where
  "finish_rollback env rid db =
     (if active_of_release rid db = [] \<and> unqueued_upgrades rid db = []
      then change_releases (\<lambda>r. r_id r = rid \<and> r_rollout_state r = ''rollback_active'')
        (\<lambda>r. r\<lparr>r_rollout_state := (if failed_rollbacks rid db \<noteq> [] then ''rollback_partial'' else ''rolled_back''),
            r_rollout_updated_at := Some (now env)\<rparr>) db
      else db)"

fun queue_rollbacks :: "'v update_env \<Rightarrow> attempt_row list \<Rightarrow> string list update_handler" where
  "queue_rollbacks env [] = h_return []"
| "queue_rollbacks env (up # ups) =
     h_bind (queue_rollback_for_upgrade env up) (\<lambda>pending.
     h_bind (queue_rollbacks env ups) (\<lambda>rest.
       h_return (if pending then u_instance_id up # rest else rest)))"

end
