(* ===== verification/UpdateOffers.thy ===== *)
theory UpdateOffers
  imports UpdateAttempts
begin

text \<open>
  Offers and reports (\<open>backend/src/updates.rs\<close>): which offer an agent gets from the manifest or over
  its socket, the artifact it may download, the status it reports, and what the server does on its own
  (confirming a version, expiring a hand-over, finishing a rollback).
\<close>

subsection \<open>The offer of an instance\<close>

definition manageable :: "fleet_row \<Rightarrow> bool" where
  "manageable inst \<longleftrightarrow> i_update_privileged inst = 1
     \<and> update_target_os (i_package_type inst) (i_os inst) \<noteq> None \<and> i_native_arch inst \<noteq> []"

definition target_os_of :: "fleet_row \<Rightarrow> string" where
  "target_os_of inst = (case update_target_os (i_package_type inst) (i_os inst) of Some os \<Rightarrow> os | None \<Rightarrow> [])"

type_synonym 'v candidate = "'v \<times> release_row \<times> artifact_row"

text \<open>\<open>select_update_candidate\<close>: the newest release rolled out to the instance, if it is an upgrade.\<close>

definition rolled_out_to :: "string \<Rightarrow> release_row \<Rightarrow> update_db \<Rightarrow> bool" where
  "rolled_out_to iid rel db \<longleftrightarrow> (let st = target_state (r_id rel) iid db in
     (r_rollout_state rel = ''full_active'' \<or> (r_rollout_state rel = ''canary_active'' \<and> st = Some ''included''))
     \<and> st \<noteq> Some ''excluded'')"

definition rollout_candidates :: "fleet_row \<Rightarrow> update_db \<Rightarrow> (release_row \<times> artifact_row) list" where
  "rollout_candidates inst db =
     [(rel, art). rel \<leftarrow> releases db, art \<leftarrow> artifacts db, a_release_id art = r_id rel,
        r_status rel = ''published'', a_status art = ''published'',
        to_ascii_lowercase (a_os art) = to_ascii_lowercase (target_os_of inst),
        a_package_type art = i_package_type inst, a_native_arch art = i_native_arch inst,
        rolled_out_to (i_id inst) rel db]"

definition upgrade_candidates :: "('v::linorder) update_env \<Rightarrow> fleet_row \<Rightarrow> update_db \<Rightarrow> 'v candidate list" where
  "upgrade_candidates env inst db =
     List.map_filter (\<lambda>(rel, art). case parse_version env (r_version rel) of None \<Rightarrow> None
       | Some v \<Rightarrow> (case parse_version env (i_agent_version inst) of
            None \<Rightarrow> Some (v, rel, art)
          | Some current \<Rightarrow> if v \<le> current then None else Some (v, rel, art)))
       (rollout_candidates inst db)"

definition select_update_candidate :: "('v::linorder) update_env \<Rightarrow> fleet_row \<Rightarrow> update_db \<Rightarrow> (release_row \<times> artifact_row) option" where
  "select_update_candidate env inst db =
     (if \<not> manageable inst then None
      else map_option snd (max_by_key fst (rev (upgrade_candidates env inst db))))"

definition active_offer_matches_instance :: "fleet_row \<Rightarrow> artifact_row \<Rightarrow> bool" where
  "active_offer_matches_instance inst art \<longleftrightarrow>
     update_target_os (i_package_type inst) (i_os inst) = Some (a_os art)
     \<and> a_package_type art = i_package_type inst \<and> a_native_arch art = i_native_arch inst"

definition signed_offer :: "'v update_env \<Rightarrow> update_offer \<Rightarrow> update_offer result" where
  "signed_offer env off = (case signer env of None \<Rightarrow> Inr off | Some g \<Rightarrow> lift_anyhow (sign_offer g off))"

definition download_url_of :: "string \<Rightarrow> string" where
  "download_url_of aid = ''/api/agent/update/artifacts/'' @ aid @ ''/download''"

definition offer_of :: "fleet_row \<Rightarrow> attempt_row \<Rightarrow> release_row \<Rightarrow> artifact_row \<Rightarrow> update_offer" where
  "offer_of inst u rel art =
     \<lparr>o_attempt_id = Some (u_id u), o_instance_id = Some (i_id inst), o_release_id = r_id rel,
      o_version = r_version rel, o_artifact_id = a_id art, o_download_url = download_url_of (a_id art),
      o_sha256 = a_sha256 art, o_size_bytes = a_size_bytes art, o_package_type = a_package_type art,
      o_native_arch = a_native_arch art, o_target_os = Some (a_os art), o_signature_key_id = None,
      o_signature = None, o_signature_v2 = None, o_retry_count = u_retry_count u\<rparr>"

definition active_upgrades :: "fleet_row \<Rightarrow> string option \<Rightarrow> update_db \<Rightarrow> (attempt_row \<times> release_row \<times> artifact_row) list" where
  "active_upgrades inst attempt_id db =
     [(u, rel, art). u \<leftarrow> update_attempts db, rel \<leftarrow> releases db, r_id rel = u_release_id u,
        art \<leftarrow> artifacts db, u_artifact_id u = Some (a_id art), u_instance_id u = i_id inst,
        u_operation u = ''upgrade'', attempt_active u, r_status rel = ''published'', a_status art = ''published'',
        (case attempt_id of None \<Rightarrow> True | Some i \<Rightarrow> u_id u = i)]"

definition replacement_artifact :: "fleet_row \<Rightarrow> string \<Rightarrow> update_db \<Rightarrow> artifact_row option" where
  "replacement_artifact inst rid db =
     find (\<lambda>a. a_release_id a = rid \<and> a_status a = ''published''
         \<and> to_ascii_lowercase (a_os a) = to_ascii_lowercase (target_os_of inst)
         \<and> a_package_type a = i_package_type inst \<and> a_native_arch a = i_native_arch inst) (artifacts db)"

definition pre_handoff_statuses :: "string list" where
  "pre_handoff_statuses = [''pending'', ''waiting'', ''downloading'', ''verifying'', ''waiting_idle'']"

text \<open>The attempt's artifact no longer fits the instance: match another one, when it is not too late.\<close>

definition reconcile_artifact ::
  "'v update_env \<Rightarrow> fleet_row \<Rightarrow> attempt_row \<times> release_row \<times> artifact_row
     \<Rightarrow> (attempt_row \<times> release_row \<times> artifact_row) option update_handler" where
  "reconcile_artifact env inst cand db = (case cand of (u, rel, art) \<Rightarrow>
     if active_offer_matches_instance inst art then (Inr (Some (u, rel, art)), db)
     else if u_status u \<notin> set pre_handoff_statuses then (Inr None, db)
     else case replacement_artifact inst (r_id rel) db of None \<Rightarrow> (Inr None, db)
       | Some art' \<Rightarrow>
          let st = (if u_status u = ''pending'' then ''pending'' else ''waiting'');
              p = (\<lambda>x. u_id x = u_id u \<and> u_status x = u_status u \<and> u_status x \<in> set pre_handoff_statuses);
              db' = change_attempts p (\<lambda>x. x\<lparr>u_artifact_id := Some (a_id art'), u_status := st,
                u_message := ''capability changed, artifact matched again'', u_updated_at := now env\<rparr>) db
          in if length (filter p (update_attempts db)) \<noteq> 1 then (Inr None, db')
             else (Inr (Some (u\<lparr>u_artifact_id := Some (a_id art'), u_status := st\<rparr>, rel, art')), db'))"

definition deliver_pending ::
  "'v update_env \<Rightarrow> attempt_row \<times> release_row \<times> artifact_row \<Rightarrow> bool update_handler" where
  "deliver_pending env cand db = (case cand of (u, rel, art) \<Rightarrow>
     if u_status u \<noteq> ''pending'' then (Inr True, db)
     else if r_rollout_state rel \<notin> set [''canary_active'', ''full_active''] then (Inr False, db)
     else let p = (\<lambda>x. u_id x = u_id u \<and> u_status x = ''pending''
               \<and> list_ex (\<lambda>r. r_id r = u_release_id x \<and> r_rollout_state r \<in> set [''canary_active'', ''full_active'']) (releases db))
       in (Inr (length (filter p (update_attempts db)) = 1),
           change_attempts p (\<lambda>x. x\<lparr>u_status := ''waiting'', u_updated_at := now env\<rparr>) db))"

definition active_upgrade_offer ::
  "'v update_env \<Rightarrow> fleet_row \<Rightarrow> string option \<Rightarrow> update_offer option update_handler" where
  "active_upgrade_offer env inst attempt_id db =
     (if \<not> manageable inst then (Inr None, db)
      else case max_by_key (\<lambda>(u, _, _). u_updated_at u) (active_upgrades inst attempt_id db) of
        None \<Rightarrow> (Inr None, db)
      | Some cand \<Rightarrow>
        h_bind (reconcile_artifact env inst cand) (\<lambda>found. case found of
            None \<Rightarrow> h_return None
          | Some (u, rel, art) \<Rightarrow> h_bind (deliver_pending env (u, rel, art)) (\<lambda>delivered.
              if \<not> delivered then h_return None
              else h_bind (h_lift (signed_offer env (offer_of inst u rel art))) (\<lambda>off. h_return (Some off)))) db)"

definition fresh_attempt ::
  "'v update_env \<Rightarrow> string \<Rightarrow> fleet_row \<Rightarrow> string \<Rightarrow> string \<Rightarrow> string \<Rightarrow> string \<times> string \<times> int option \<Rightarrow> attempt_row" where
  "fresh_attempt env new_id inst rid version aid st =
     \<lparr>u_id = new_id, u_release_id = rid, u_artifact_id = Some aid, u_instance_id = i_id inst,
      u_operation = ''upgrade'', u_parent_attempt_id = None, u_from_version = i_agent_version inst,
      u_target_version = version, u_status = fst st, u_message = fst (snd st), u_retry_count = 0,
      u_created_at = now env, u_updated_at = now env, u_completed_at = snd (snd st)\<rparr>"

definition upgrade_attempted :: "string \<Rightarrow> string \<Rightarrow> update_db \<Rightarrow> bool" where
  "upgrade_attempted rid iid db \<longleftrightarrow> list_ex (\<lambda>u. u_release_id u = rid \<and> u_instance_id u = iid
     \<and> u_operation u = ''upgrade'') (update_attempts db)"

text \<open>The part of \<open>find_update_for_instance\<close> that starts an upgrade nobody has queued yet.\<close>

definition start_upgrade :: "('v::linorder) update_env \<Rightarrow> fleet_row \<Rightarrow> update_offer option update_handler" where
  "start_upgrade env inst db =
     (case select_update_candidate env inst db of
        None \<Rightarrow> (Inr None, db)
      | Some (rel, art) \<Rightarrow> h_bind (draw_id env) (\<lambda>new_id db.
          if upgrade_attempted (r_id rel) (i_id inst) db then (Inr None, db)
          else case insert_attempt (fresh_attempt env new_id inst (r_id rel) (r_version rel) (a_id art)
              (''pending'', [], None)) db of
            (False, db') \<Rightarrow> (Inr None, db')
          | (True, db') \<Rightarrow> active_upgrade_offer env inst (Some new_id) db') db)"

definition find_update_for_instance ::
  "('v::linorder) update_env \<Rightarrow> fleet_row \<Rightarrow> update_offer option update_handler" where
  "find_update_for_instance env inst =
     h_bind (active_upgrade_offer env inst None) (\<lambda>offered. case offered of
       Some off \<Rightarrow> h_return (Some off)
     | None \<Rightarrow> start_upgrade env inst)"

definition rollback_package_of :: "artifact_row \<Rightarrow> rollback_package" where
  "rollback_package_of art = \<lparr>k_artifact_id = a_id art, k_download_url = download_url_of (a_id art),
     k_sha256 = a_sha256 art, k_size_bytes = a_size_bytes art, k_package_type = a_package_type art,
     k_native_arch = a_native_arch art, k_target_os = a_os art\<rparr>"

definition signed_rollback :: "'v update_env \<Rightarrow> rollback_offer \<Rightarrow> rollback_offer result" where
  "signed_rollback env off = (case signer env of None \<Rightarrow> Inr off | Some g \<Rightarrow> lift_anyhow (sign_rollback_offer g off))"

definition rollback_offer_of :: "attempt_row \<Rightarrow> artifact_row option \<Rightarrow> rollback_offer" where
  "rollback_offer_of u art = \<lparr>b_attempt_id = u_id u, b_release_id = u_release_id u, b_instance_id = u_instance_id u,
     b_from_version = u_from_version u, b_target_version = u_target_version u, b_retry_count = u_retry_count u,
     b_package = map_option rollback_package_of art, b_signature_key_id = None, b_signature = None\<rparr>"

definition find_rollback_for_instance :: "'v update_env \<Rightarrow> fleet_row \<Rightarrow> rollback_offer option update_handler" where
  "find_rollback_for_instance env inst db =
     (if i_rollback_supported inst \<noteq> 1 \<or> i_update_privileged inst \<noteq> 1 then (Inr None, db)
      else case max_by_key u_updated_at (filter (\<lambda>u. u_instance_id u = i_id inst \<and> u_operation u = ''rollback''
          \<and> attempt_active u) (update_attempts db)) of
        None \<Rightarrow> (Inr None, db)
      | Some u \<Rightarrow>
        if i_agent_version inst \<noteq> u_from_version u then (Inr None, db)
        else let art = find (\<lambda>a. u_artifact_id u = Some (a_id a) \<and> a_status a = ''published'') (artifacts db);
                 p = (\<lambda>x. u_id x = u_id u \<and> u_status x = ''pending'');
                 db' = (if u_status u = ''pending'' then change_attempts p
                   (\<lambda>x. x\<lparr>u_status := ''waiting'', u_updated_at := now env\<rparr>) db else db)
          in if u_status u = ''pending'' \<and> length (filter p (update_attempts db)) \<noteq> 1 then (Inr None, db')
             else h_bind (h_lift (signed_rollback env (rollback_offer_of u art))) (\<lambda>off. h_return (Some off)) db')"

definition send_to :: "string \<Rightarrow> agent_outbound \<Rightarrow> update_db \<Rightarrow> update_db" where
  "send_to iid m db = db\<lparr>sent := sent db @ [(iid, m)]\<rparr>"

definition notify_instance :: "('v::linorder) update_env \<Rightarrow> string \<Rightarrow> update_db \<Rightarrow> update_db" where
  "notify_instance env iid db =
     (case instance_by_id iid db of None \<Rightarrow> db | Some inst \<Rightarrow>
      if map_of (connections db) iid = None then db
      else case find_rollback_for_instance env inst db of
          (Inr (Some off), db1) \<Rightarrow> send_to iid (RollbackAvailable off) db1
        | (_, db1) \<Rightarrow> (case find_update_for_instance env inst db1 of
            (Inr (Some off), db2) \<Rightarrow> send_to iid (UpdateAvailable off) db2
          | (_, db2) \<Rightarrow> db2))"

definition notify_instances :: "('v::linorder) update_env \<Rightarrow> string list \<Rightarrow> update_db \<Rightarrow> update_db" where
  "notify_instances env iids db = fold (notify_instance env) iids db"

definition notify_retried_attempt :: "('v::linorder) update_env \<Rightarrow> string \<Rightarrow> string \<Rightarrow> update_db \<Rightarrow> update_db" where
  "notify_retried_attempt env iid uid db =
     (case instance_by_id iid db of None \<Rightarrow> db | Some inst \<Rightarrow>
      if (case attempt_by_id uid db of Some u \<Rightarrow> u_operation u = ''rollback'' | None \<Rightarrow> False)
      then notify_instance env iid db
      else case active_upgrade_offer env inst (Some uid) db of
          (Inr (Some off), db1) \<Rightarrow>
            if map_of (connections db1) iid = None then db1 else send_to iid (UpdateAvailable off) db1
        | (_, db1) \<Rightarrow> db1)"

definition reconcile_release_rollback :: "('v::linorder) update_env \<Rightarrow> string \<Rightarrow> unit update_handler" where
  "reconcile_release_rollback env rid =
     h_bind (get_release rid) (\<lambda>rel.
       if r_rollout_state rel \<noteq> ''rollback_active'' then h_return ()
       else (\<lambda>db. h_bind (queue_rollbacks env (latest_upgrades rid db)) (\<lambda>pending.
          h_modify (finish_rollback env rid \<circ> notify_instances env pending)) db))"

subsection \<open>Reports\<close>

definition report_target ::
  "string \<Rightarrow> string option \<Rightarrow> string \<Rightarrow> string \<Rightarrow> string \<Rightarrow> int \<Rightarrow> update_db \<Rightarrow> attempt_row option" where
  "report_target iid attempt_id rid aid version retry_count db =
     (let matching = filter (\<lambda>u. u_instance_id u = iid \<and> u_operation u = ''upgrade'' \<and> u_release_id u = rid
         \<and> u_artifact_id u = Some aid \<and> u_target_version u = version \<and> u_retry_count u = retry_count) (update_attempts db)
      in case attempt_id of Some i \<Rightarrow> find (\<lambda>u. u_id u = i) matching
         | None \<Rightarrow> max_by_key u_updated_at matching)"

definition write_status :: "'v update_env \<Rightarrow> string \<Rightarrow> string \<Rightarrow> string \<Rightarrow> update_db \<Rightarrow> update_db" where
  "write_status env uid status message = change_attempts (\<lambda>u. u_id u = uid)
     (\<lambda>u. u\<lparr>u_status := status, u_message := message, u_updated_at := now env,
        u_completed_at := (if status \<in> set terminal_attempt_statuses then Some (now env) else None)\<rparr>)"

definition record_update_status_for_attempt ::
  "'v update_env \<Rightarrow> string \<Rightarrow> string option \<Rightarrow> string \<Rightarrow> string \<Rightarrow> string \<Rightarrow> int \<Rightarrow> string \<Rightarrow> string option
     \<Rightarrow> unit update_handler" where
  "record_update_status_for_attempt env iid attempt_id rid aid version retry_count status message db =
     (let message = (case message of None \<Rightarrow> '''' | Some m \<Rightarrow> m) in
      if \<not> valid_agent_status status then (Inl (app_error_new 400 ''unknown status''), db)
      else if length message > max_status_message_bytes then (Inl (app_error_new 400 ''status message too long''), db)
      else case report_target iid attempt_id rid aid version retry_count db of
        None \<Rightarrow> (Inl (app_error_new 404 ''no such attempt''), db)
      | Some u \<Rightarrow>
        if u_status u = status \<and> status \<in> set terminal_attempt_statuses
        then (Inr (), if status = ''succeeded'' then set_agent_version iid version db else db)
        else if \<not> update_status_transition_allowed (u_status u) status
        then (Inl (app_error_new 409 ''status may not go back''), db)
        else let db' = write_status env (u_id u) status message db
          in (Inr (), if status = ''succeeded'' then set_agent_version iid version db'
              else if status = ''rollback_succeeded'' then set_agent_version iid (u_from_version u) db' else db'))"

definition record_connection_update_status ::
  "('v::linorder) update_env \<Rightarrow> string \<Rightarrow> string \<Rightarrow> string option \<Rightarrow> string \<Rightarrow> string \<Rightarrow> string \<Rightarrow> int \<Rightarrow> string \<Rightarrow> string option
     \<Rightarrow> bool update_handler" where
  "record_connection_update_status env iid conn attempt_id rid aid version retry_count status message db =
     (if map_of (connections db) iid \<noteq> Some conn then (Inr False, db)
      else h_then (record_update_status_for_attempt env iid attempt_id rid aid version retry_count status message)
        (h_then (reconcile_release_rollback env rid) (h_return True)) db)"

definition record_connection_rollback_status ::
  "('v::linorder) update_env \<Rightarrow> string \<Rightarrow> string \<Rightarrow> string \<Rightarrow> int \<Rightarrow> string \<Rightarrow> string option \<Rightarrow> bool update_handler" where
  "record_connection_rollback_status env iid conn uid retry_count status message db =
     (let message = (case message of None \<Rightarrow> '''' | Some m \<Rightarrow> m) in
      if map_of (connections db) iid \<noteq> Some conn then (Inr False, db)
      else if \<not> valid_agent_status status \<or> status = ''succeeded'' then (Inl (app_error_new 400 ''unknown status''), db)
      else if length message > max_status_message_bytes then (Inl (app_error_new 400 ''status message too long''), db)
      else case find (\<lambda>u. u_id u = uid \<and> u_instance_id u = iid \<and> u_operation u = ''rollback'' \<and> u_retry_count u = retry_count)
          (update_attempts db) of
        None \<Rightarrow> (Inl (app_error_new 404 ''no such rollback''), db)
      | Some u \<Rightarrow>
        if u_status u \<noteq> status \<and> \<not> update_status_transition_allowed (u_status u) status
        then (Inl (app_error_new 409 ''status may not go back''), db)
        else let db1 = write_status env uid status message db;
                 db2 = (if status = ''rollback_succeeded''
                   then clear_rollback_baseline iid (set_agent_version iid (u_target_version u) db1) else db1)
          in h_then (reconcile_release_rollback env (u_release_id u)) (h_return True) db2)"

subsection \<open>What the server does on its own\<close>

definition confirmed_by_version :: "string \<Rightarrow> string \<Rightarrow> update_db \<Rightarrow> attempt_row \<Rightarrow> bool" where
  "confirmed_by_version iid version db u \<longleftrightarrow> u_instance_id u = iid \<and> u_target_version u = version
     \<and> (attempt_active u \<or> (u_status u = ''cancelled'' \<and> u_operation u = ''upgrade''
         \<and> list_ex (\<lambda>r. r_id r = u_release_id u \<and> r_rollout_state r = ''rollback_active'') (releases db)))"

definition releases_rolling_back :: "update_db \<Rightarrow> string list" where
  "releases_rolling_back db = map r_id (filter (\<lambda>r. r_rollout_state r = ''rollback_active'') (releases db))"

fun reconcile_all :: "('v::linorder) update_env \<Rightarrow> string list \<Rightarrow> unit update_handler" where
  "reconcile_all env [] = h_return ()"
| "reconcile_all env (rid # rids) = h_then (reconcile_release_rollback env rid) (reconcile_all env rids)"

definition confirm_update_version :: "('v::linorder) update_env \<Rightarrow> string \<Rightarrow> string \<Rightarrow> unit update_handler" where
  "confirm_update_version env iid version db =
     (let p = confirmed_by_version iid version db;
          db1 = change_attempts p (\<lambda>u. u\<lparr>u_status := (if u_operation u = ''rollback'' then ''rollback_succeeded'' else ''succeeded''),
            u_message := '''', u_updated_at := now env, u_completed_at := Some (now env)\<rparr>) db;
          db2 = (if list_ex (\<lambda>u. p u \<and> u_operation u = ''rollback'') (update_attempts db)
            then clear_rollback_baseline iid db1 else db1)
      in reconcile_all env (releases_rolling_back db2) db2)"

definition expire_restart_attempts :: "'v update_env \<Rightarrow> update_db \<Rightarrow> update_db" where
  "expire_restart_attempts env = change_attempts
     (\<lambda>u. u_status u \<in> set [''installing'', ''awaiting_restart''] \<and> u_updated_at u < now env - update_handoff_timeout_seconds)
     (\<lambda>u. u\<lparr>u_status := ''failed'', u_message := ''no reconnection within 60 minutes'', u_updated_at := now env,
        u_completed_at := Some (now env)\<rparr>)"

text \<open>One tick of \<open>update_timeout_loop\<close>; an error of one release is logged and the next one is tried.\<close>

definition update_timeout_tick :: "('v::linorder) update_env \<Rightarrow> update_db \<Rightarrow> update_db" where
  "update_timeout_tick env db =
     (let db1 = expire_restart_attempts env db
      in fold (\<lambda>rid d. snd (reconcile_release_rollback env rid d)) (releases_rolling_back db1) db1)"

text \<open>
  What a node says of itself, when it registers over HTTP (\<open>handlers/mod.rs\<close>) and with each metrics
  message of its socket (\<open>ws.rs\<close>, where a node that does not say whether it can roll back loses its
  baseline once a rollback has brought it to this version); both then confirm the version.
\<close>

record agent_profile =
  g_os :: string
  g_agent_version :: string
  g_package_type :: "string option"
  g_native_arch :: "string option"
  g_update_privileged :: "bool option"
  g_rollback_supported :: "bool option"
  g_rollback_version :: "string option"

definition coalesce_to :: "'a option \<Rightarrow> 'a \<Rightarrow> 'a" where
  "coalesce_to x y = (case x of None \<Rightarrow> y | Some z \<Rightarrow> z)"

definition register_profile :: "agent_profile \<Rightarrow> fleet_row \<Rightarrow> fleet_row" where
  "register_profile g i = i\<lparr>i_os := g_os g, i_agent_version := g_agent_version g,
     i_package_type := coalesce_to (g_package_type g) (i_package_type i),
     i_native_arch := coalesce_to (g_native_arch g) (i_native_arch i),
     i_update_privileged := coalesce_to (map_option of_bool (g_update_privileged g)) (i_update_privileged i),
     i_rollback_supported := coalesce_to (map_option of_bool (g_rollback_supported g)) 0,
     i_rollback_version := (if g_rollback_supported g = Some True then coalesce_to (g_rollback_version g) [] else [])\<rparr>"

definition metrics_profile :: "agent_profile \<Rightarrow> update_db \<Rightarrow> fleet_row \<Rightarrow> fleet_row" where
  "metrics_profile g db i =
     (let rolled_back = (g_rollback_supported g = None \<and> list_ex (\<lambda>u. u_instance_id u = i_id i
          \<and> u_operation u = ''rollback'' \<and> u_target_version u = g_agent_version g) (update_attempts db))
      in (register_profile g i)\<lparr>
        i_rollback_supported := (if rolled_back then 0 else coalesce_to (map_option of_bool (g_rollback_supported g)) 0),
        i_rollback_version := (if rolled_back then [] else if g_rollback_supported g = Some True
          then coalesce_to (g_rollback_version g) [] else [])\<rparr>)"

definition agent_register :: "('v::linorder) update_env \<Rightarrow> string \<Rightarrow> agent_profile \<Rightarrow> unit update_handler" where
  "agent_register env iid g = h_then (h_modify (change_fleet (\<lambda>i. i_id i = iid) (register_profile g)))
     (confirm_update_version env iid (g_agent_version g))"

definition store_metrics :: "('v::linorder) update_env \<Rightarrow> string \<Rightarrow> string \<Rightarrow> agent_profile \<Rightarrow> unit update_handler" where
  "store_metrics env iid conn g db =
     (if map_of (connections db) iid \<noteq> Some conn then (Inr (), db)
      else h_then (h_modify (change_fleet (\<lambda>i. i_id i = iid) (metrics_profile g db)))
        (confirm_update_version env iid (g_agent_version g)) db)"

subsection \<open>Requests of the agent\<close>

definition authenticate_agent :: "(string \<Rightarrow> string \<Rightarrow> bool) \<Rightarrow> string option \<Rightarrow> string option \<Rightarrow> fleet_row update_handler" where
  "authenticate_agent secret_matches agent_id agent_secret =
     h_bind (h_lift (case agent_id of Some i \<Rightarrow> if i = [] then Inl (app_error_new 401 ''missing agent authentication'') else Inr i
        | None \<Rightarrow> Inl (app_error_new 401 ''missing agent authentication''))) (\<lambda>iid.
     h_bind (h_lift (case agent_secret of Some s \<Rightarrow> if s = [] then Inl (app_error_new 401 ''missing agent authentication'') else Inr s
        | None \<Rightarrow> Inl (app_error_new 401 ''missing agent authentication''))) (\<lambda>secret.
     h_bind (get_instance iid) (\<lambda>inst.
       if \<not> secret_matches (i_secret inst) secret then h_fail (app_error_new 401 ''secret does not match'')
       else if i_approved inst \<noteq> 1 \<or> i_disabled inst = 1 then h_fail (app_error_new 403 ''instance may not update'')
       else h_return inst)))"

definition agent_update_manifest ::
  "('v::linorder) update_env \<Rightarrow> (string \<Rightarrow> string \<Rightarrow> bool) \<Rightarrow> string option \<Rightarrow> string option
     \<Rightarrow> (update_offer option \<times> rollback_offer option) update_handler" where
  "agent_update_manifest env secret_matches agent_id agent_secret =
     h_bind (authenticate_agent secret_matches agent_id agent_secret) (\<lambda>inst.
     h_bind (find_rollback_for_instance env inst) (\<lambda>rollback.
     h_bind (if rollback = None then find_update_for_instance env inst else h_return None) (\<lambda>update.
       h_return (update, rollback))))"

definition authorized_artifact_download ::
  "(string \<Rightarrow> string \<Rightarrow> bool) \<Rightarrow> string option \<Rightarrow> string option \<Rightarrow> string \<Rightarrow> artifact_row update_handler" where
  "authorized_artifact_download secret_matches agent_id agent_secret aid =
     h_bind (authenticate_agent secret_matches agent_id agent_secret) (\<lambda>inst db.
       case find (\<lambda>a. a_id a = aid \<and> a_status a = ''published''
             \<and> list_ex (\<lambda>r. r_id r = a_release_id a \<and> r_status r = ''published'') (releases db)) (artifacts db) of
         None \<Rightarrow> (Inl (app_error_new 404 ''no executable for this instance''), db)
       | Some art \<Rightarrow>
         if \<not> (i_update_privileged inst = 1 \<and> target_matches (i_os inst) (i_package_type inst) (i_native_arch inst) art)
         then (Inl (app_error_new 404 ''no executable for this instance''), db)
         else if \<not> list_ex (\<lambda>u. u_artifact_id u = Some aid \<and> u_instance_id u = i_id inst) (update_attempts db)
         then (Inl (app_error_new 403 ''no update for this instance''), db)
         else (Inr art, db))"

end
