(* ===== verification/UpdateRollout.thy ===== *)
theory UpdateRollout
  imports UpdateOffers
begin

text \<open>
  The administrator's side of agent releases (\<open>backend/src/updates.rs\<close>): drafts and their
  artifacts, publishing to a first group of instances, widening, pausing and promoting the rollout,
  rolling back a release or one instance, upgrading it again, and retrying an attempt.  \<open>admin\<close> is
  the outcome of \<open>require_admin\<close>: the name and the id of the user, or its error.  The response
  bodies are left out: a handler returns what later steps need of them.
\<close>

type_synonym admin_login = "(string \<times> string) result"

definition write_update_log :: "string \<times> string \<Rightarrow> string \<Rightarrow> string \<Rightarrow> unit update_handler" where
  "write_update_log actor action target = h_modify (\<lambda>db. db\<lparr>update_log := update_log db @
     [(fst actor, snd actor, action, target)]\<rparr>)"

subsection \<open>Drafts\<close>

definition create_agent_release ::
  "('v::linorder) update_env \<Rightarrow> admin_login \<Rightarrow> string \<Rightarrow> string \<Rightarrow> string update_handler" where
  "create_agent_release env admin version notes =
     h_bind (h_lift admin) (\<lambda>actor.
     h_bind (h_lift (validate_version env version)) (\<lambda>version.
     h_bind (draw_id env) (\<lambda>rid.
     h_then (\<lambda>db. if list_ex (\<lambda>r. r_version r = version \<or> r_id r = rid) (releases db)
         then (Inl (app_error_new 409 ''version exists''), db)
         else (Inr (), db\<lparr>releases := releases db @ [\<lparr>r_id = rid, r_version = version, r_notes = trim notes,
           r_status = ''draft'', r_rollout_state = ''draft'', r_rollout_updated_at = Some (now env),
           r_created_at = now env, r_published_at = None\<rparr>]\<rparr>))
     (h_then (write_update_log actor ''create_agent_release'' rid) (h_return rid)))))"

definition require_draft_release :: "string \<Rightarrow> release_row update_handler" where
  "require_draft_release rid = h_bind (get_release rid) (\<lambda>rel.
     if r_status rel \<noteq> ''draft'' then h_fail (app_error_new 409 ''published release cannot change'') else h_return rel)"

definition update_agent_release ::
  "('v::linorder) update_env \<Rightarrow> admin_login \<Rightarrow> string \<Rightarrow> string \<Rightarrow> string \<Rightarrow> unit update_handler" where
  "update_agent_release env admin rid version notes =
     h_bind (h_lift admin) (\<lambda>actor.
     h_bind (require_draft_release rid) (\<lambda>_.
     h_bind (h_lift (validate_version env version)) (\<lambda>version.
     h_then (\<lambda>db. if list_ex (\<lambda>r. r_version r = version \<and> r_id r \<noteq> rid) (releases db)
         then (Inl (app_error_new 409 ''version exists''), db)
         else (Inr (), change_releases (\<lambda>r. r_id r = rid \<and> r_status r = ''draft'')
           (\<lambda>r. r\<lparr>r_version := version, r_notes := trim notes\<rparr>) db))
     (write_update_log actor ''update_agent_release'' rid))))"

definition artifact_collides :: "artifact_row \<Rightarrow> artifact_row \<Rightarrow> bool" where
  "artifact_collides a b \<longleftrightarrow> a_id a = a_id b \<or> (a_release_id a = a_release_id b \<and> a_os a = a_os b
     \<and> a_package_type a = a_package_type b \<and> a_native_arch a = a_native_arch b)"

text \<open>\<open>admin_upload_agent_artifact\<close>; \<open>byte_count\<close> is the number of bytes received, the files are not modelled.\<close>

definition store_artifact :: "'v update_env \<Rightarrow> string \<Rightarrow> received_artifact \<Rightarrow> int \<Rightarrow> artifact_row update_handler" where
  "store_artifact env rid received byte_count =
     h_bind (h_lift (validate_artifact_metadata received)) (\<lambda>rc.
     h_bind (draw_id env) (\<lambda>aid db.
       let art = \<lparr>a_id = aid, a_release_id = rid, a_os = rc_os rc, a_package_type = rc_package_type rc,
             a_native_arch = rc_native_arch rc, a_file_name = rc_file_name rc, a_size_bytes = byte_count,
             a_sha256 = rc_sha256 rc, a_storage_path = rid @ ''/'' @ aid @ ''.'' @ expected_extension (rc_os rc),
             a_created_at = now env, a_status = ''draft'', a_published_at = None\<rparr>
       in if release_by_id rid db = None then (Inl (app_error_new 404 ''release not found''), db)
          else if list_ex (artifact_collides art) (artifacts db)
          then (Inl (app_error_new 409 ''target exists in this release''), db)
          else (Inr art, db\<lparr>artifacts := artifacts db @ [art]\<rparr>)))"

definition upload_agent_artifact ::
  "'v update_env \<Rightarrow> admin_login \<Rightarrow> string \<Rightarrow> received_artifact \<Rightarrow> int \<Rightarrow> unit update_handler" where
  "upload_agent_artifact env admin rid received byte_count =
     h_bind (h_lift admin) (\<lambda>actor.
     h_bind (get_release rid) (\<lambda>_.
     h_bind (store_artifact env rid received byte_count) (\<lambda>art.
       write_update_log actor ''upload_agent_artifact'' (a_id art))))"

text \<open>\<open>ON DELETE SET NULL\<close> of \<open>parent_attempt_id\<close>.\<close>

definition orphan_parents :: "attempt_row list \<Rightarrow> attempt_row list \<Rightarrow> attempt_row list" where
  "orphan_parents gone rows = update_where
     (\<lambda>u. case u_parent_attempt_id u of None \<Rightarrow> False | Some x \<Rightarrow> x \<in> u_id ` set gone)
     (\<lambda>u. u\<lparr>u_parent_attempt_id := None\<rparr>) rows"

definition delete_agent_artifact :: "admin_login \<Rightarrow> string \<Rightarrow> string \<Rightarrow> unit update_handler" where
  "delete_agent_artifact admin rid aid =
     h_bind (h_lift admin) (\<lambda>actor.
     h_then (\<lambda>db. if list_ex (\<lambda>a. a_id a = aid \<and> a_release_id a = rid) (artifacts db) then (Inr (), db)
       else (Inl (app_error_new 404 ''executable not found''), db))
     (h_transaction (h_then (\<lambda>db.
        let p = (\<lambda>a. a_id a = aid \<and> a_release_id a = rid \<and> a_status a = ''draft'') in
        if length (filter p (artifacts db)) \<noteq> 1 then (Inl (app_error_new 409 ''published executable''), db)
        else (Inr (), db\<lparr>artifacts := delete_where p (artifacts db),
          update_attempts := orphan_parents (filter (\<lambda>u. u_artifact_id u = Some aid) (update_attempts db))
            (delete_where (\<lambda>u. u_artifact_id u = Some aid) (update_attempts db))\<rparr>))
       (write_update_log actor ''delete_agent_artifact'' aid))))"

subsection \<open>Deleting a release\<close>

text \<open>
  \<open>DELETE FROM agent_releases\<close> with its foreign keys: artifacts, targets and attempts go with it,
  as do attempts of other releases that use one of its artifacts; a rollback loses a deleted parent.
\<close>

definition attempt_goes :: "string \<Rightarrow> update_db \<Rightarrow> attempt_row \<Rightarrow> bool" where
  "attempt_goes rid db u \<longleftrightarrow> u_release_id u = rid \<or>
     list_ex (\<lambda>a. a_release_id a = rid \<and> u_artifact_id u = Some (a_id a)) (artifacts db)"

definition cascade_release :: "string \<Rightarrow> update_db \<Rightarrow> update_db" where
  "cascade_release rid db =
     db\<lparr>releases := delete_where (\<lambda>r. r_id r = rid) (releases db),
        artifacts := delete_where (\<lambda>a. a_release_id a = rid) (artifacts db),
        release_targets := delete_where (\<lambda>t. t_release_id t = rid) (release_targets db),
        update_attempts := orphan_parents (filter (attempt_goes rid db) (update_attempts db))
          (delete_where (attempt_goes rid db) (update_attempts db))\<rparr>"

definition rollback_dependency :: "release_row \<Rightarrow> update_db \<Rightarrow> attempt_row \<Rightarrow> bool" where
  "rollback_dependency rel db u \<longleftrightarrow> u_operation u = ''rollback'' \<and> attempt_active u
     \<and> instance_by_id (u_instance_id u) db \<noteq> None
     \<and> (u_release_id u = r_id rel \<or> u_target_version u = r_version rel
        \<or> list_ex (\<lambda>a. u_artifact_id u = Some (a_id a) \<and> a_release_id a = r_id rel) (artifacts db))"

definition only_rollback_path :: "release_row \<Rightarrow> update_db \<Rightarrow> fleet_row \<Rightarrow> bool" where
  "only_rollback_path rel db i \<longleftrightarrow> i_rollback_supported i = 1 \<and> i_update_privileged i = 1 \<and> i_approved i = 1
     \<and> i_disabled i = 0 \<and> i_rollback_version i \<noteq> r_version rel
     \<and> list_ex (\<lambda>u. u_instance_id u = i_id i \<and> u_operation u = ''upgrade'' \<and> u_status u = ''succeeded''
          \<and> u_from_version u = r_version rel \<and> i_agent_version i = u_target_version u) (update_attempts db)"

definition delete_agent_release :: "string \<times> string \<Rightarrow> string \<Rightarrow> unit update_handler" where
  "delete_agent_release actor rid =
     h_transaction (h_bind (get_release rid) (\<lambda>rel db.
       if list_ex (\<lambda>u. u_release_id u = rid \<and> instance_by_id (u_instance_id u) db \<noteq> None \<and> attempt_active u) (update_attempts db)
       then (Inl (app_error_new 409 ''updates are still running''), db)
       else if list_ex (rollback_dependency rel db) (update_attempts db)
       then (Inl (app_error_new 409 ''rollbacks depend on this release''), db)
       else if r_status rel = ''published'' \<and> list_ex (only_rollback_path rel db) (fleet db)
       then (Inl (app_error_new 409 ''the only rollback path of an instance''), db)
       else h_then (h_modify (cascade_release rid)) (write_update_log actor ''delete_agent_release'' rid) db))"

definition admin_delete_agent_release :: "admin_login \<Rightarrow> string \<Rightarrow> unit update_handler" where
  "admin_delete_agent_release admin rid = h_bind (h_lift admin) (\<lambda>actor. delete_agent_release actor rid)"

subsection \<open>Publishing and widening a rollout\<close>

definition controlled_states :: "string list" where
  "controlled_states = [''canary_active'', ''canary_paused'', ''full_paused'', ''rollback_active'']"

definition ensure_no_other_controlled_release :: "string \<Rightarrow> unit update_handler" where
  "ensure_no_other_controlled_release rid db =
     (if list_ex (\<lambda>r. r_id r \<noteq> rid \<and> r_rollout_state r \<in> set controlled_states) (releases db)
      then (Inl (app_error_new 409 ''another release is controlled''), db) else (Inr (), db))"

definition capability_instances :: "update_db \<Rightarrow> fleet_row list" where
  "capability_instances db = filter (\<lambda>i. i_approved i = 1 \<and> i_disabled i = 0) (fleet db)"

definition targets_in_state :: "string \<Rightarrow> string \<Rightarrow> update_db \<Rightarrow> string list" where
  "targets_in_state rid st db = map t_instance_id
     (filter (\<lambda>t. t_release_id t = rid \<and> t_state t = st) (release_targets db))"

definition published_artifacts :: "string \<Rightarrow> update_db \<Rightarrow> artifact_row list" where
  "published_artifacts rid db = filter (\<lambda>a. a_release_id a = rid \<and> a_status a = ''published'') (artifacts db)"

definition parse_release_version :: "('v::linorder) update_env \<Rightarrow> release_row \<Rightarrow> 'v result" where
  "parse_release_version env rel = (case parse_version env (r_version rel) of
       None \<Rightarrow> Inl (app_error_new 400 ''version is not SemVer'') | Some v \<Rightarrow> Inr v)"

definition queue_upgrade_attempt ::
  "('v::linorder) update_env \<Rightarrow> release_row \<Rightarrow> fleet_row \<Rightarrow> artifact_row \<Rightarrow> bool \<Rightarrow> bool update_handler" where
  "queue_upgrade_attempt env rel inst art explicit_reupgrade =
     h_bind (h_lift (parse_release_version env rel)) (\<lambda>target db.
       if \<not> version_is_newer env target (i_agent_version inst) then (Inr False, db)
       else if \<not> explicit_reupgrade \<and> upgrade_attempted (r_id rel) (i_id inst) db then (Inr False, db)
       else h_bind (draw_id env) (\<lambda>new_id db.
         let st = publish_attempt_state inst (now env);
             (inserted, db') = insert_attempt (fresh_attempt env new_id inst (r_id rel) (r_version rel) (a_id art) st) db
         in (Inr (inserted \<and> fst st = ''pending''), db')) db)"

text \<open>Include the chosen instances, each of which must be eligible.\<close>

fun include_targets ::
  "('v::linorder) update_env \<Rightarrow> string \<Rightarrow> fleet_row list \<Rightarrow> 'v \<Rightarrow> artifact_row list \<Rightarrow> string list \<Rightarrow> unit update_handler" where
  "include_targets env rid insts target arts [] = h_return ()"
| "include_targets env rid insts target arts (iid # iids) =
     h_bind (h_lift (case find (\<lambda>i. i_id i = iid) insts of
         None \<Rightarrow> Inl (app_error_new 400 ''instance missing or disabled'')
       | Some inst \<Rightarrow> validate_rollout_instance env inst target arts)) (\<lambda>_.
     h_then (h_modify (set_target rid iid ''included'' (now env))) (include_targets env rid insts target arts iids))"

text \<open>Queue an attempt for each selected instance; the instances to notify.\<close>

fun queue_upgrades ::
  "('v::linorder) update_env \<Rightarrow> release_row \<Rightarrow> (fleet_row \<Rightarrow> artifact_row option) \<Rightarrow> fleet_row list \<Rightarrow> string list update_handler" where
  "queue_upgrades env rel pick [] = h_return []"
| "queue_upgrades env rel pick (inst # insts) =
     (case pick inst of None \<Rightarrow> queue_upgrades env rel pick insts
      | Some art \<Rightarrow> h_bind (queue_upgrade_attempt env rel inst art False) (\<lambda>queued.
          h_bind (queue_upgrades env rel pick insts) (\<lambda>rest.
            h_return (if queued then i_id inst # rest else rest))))"

definition publish_choice ::
  "('v::linorder) update_env \<Rightarrow> string \<Rightarrow> string list \<Rightarrow> string list \<Rightarrow> 'v \<Rightarrow> artifact_row list \<Rightarrow> fleet_row \<Rightarrow> artifact_row option" where
  "publish_choice env rollout_state included excluded target arts inst =
     (if \<not> rollout_selects_instance rollout_state (i_id inst) included excluded then None
      else if \<not> version_is_newer env target (i_agent_version inst) then None
      else matching_artifact inst arts)"

definition publish_rows :: "'v update_env \<Rightarrow> string \<Rightarrow> string \<Rightarrow> update_db \<Rightarrow> update_db" where
  "publish_rows env rid rollout_state db =
     (change_releases (\<lambda>r. r_id r = rid) (\<lambda>r. r\<lparr>r_status := ''published'', r_rollout_state := rollout_state,
        r_rollout_updated_at := Some (now env),
        r_published_at := (case r_published_at r of None \<Rightarrow> Some (now env) | Some t \<Rightarrow> Some t)\<rparr>) db)
     \<lparr>artifacts := update_where (\<lambda>a. a_release_id a = rid \<and> a_status a = ''draft'')
        (\<lambda>a. a\<lparr>a_status := ''published'', a_published_at := Some (now env)\<rparr>) (artifacts db)\<rparr>"

text \<open>The transaction of a publication: its last part, its writing part, and its checks.\<close>

definition publish_state :: "release_row \<Rightarrow> string" where
  "publish_state rel = (if r_status rel = ''draft'' then ''canary_active'' else r_rollout_state rel)"

definition publish_attempts ::
  "('v::linorder) update_env \<Rightarrow> string \<times> string \<Rightarrow> release_row \<Rightarrow> 'v \<Rightarrow> fleet_row list \<Rightarrow> string list update_handler" where
  "publish_attempts env actor rel target insts db =
     h_bind (queue_upgrades env rel (publish_choice env (publish_state rel) (targets_in_state (r_id rel) ''included'' db)
         (targets_in_state (r_id rel) ''excluded'' db) target (published_artifacts (r_id rel) db)) insts) (\<lambda>queued.
       h_then (write_update_log actor ''publish_agent_release'' (r_id rel))
         (h_return (if publish_state rel \<in> set [''canary_active'', ''full_active''] then queued else []))) db"

definition publish_artifacts ::
  "('v::linorder) update_env \<Rightarrow> string \<times> string \<Rightarrow> release_row \<Rightarrow> 'v \<Rightarrow> string list \<Rightarrow> fleet_row list \<Rightarrow> string list update_handler" where
  "publish_artifacts env actor rel target requested insts db =
     (let drafts = filter (\<lambda>a. a_release_id a = r_id rel \<and> a_status a = ''draft'') (artifacts db) in
      h_then (h_guard (drafts \<noteq> []) (app_error_new (if r_status rel = ''draft'' then 400 else 409) ''no executable to publish''))
      (h_then (h_modify (publish_rows env (r_id rel) (publish_state rel)))
      (h_then (if r_status rel = ''draft'' then include_targets env (r_id rel) insts target drafts (remdups requested)
          else h_return ())
        (publish_attempts env actor rel target insts))) db)"

definition publish_tx ::
  "('v::linorder) update_env \<Rightarrow> string \<times> string \<Rightarrow> string \<Rightarrow> string list \<Rightarrow> fleet_row list \<Rightarrow> string list update_handler" where
  "publish_tx env actor rid requested insts =
     h_bind (get_release rid) (\<lambda>rel.
     h_bind (h_lift (parse_release_version env rel)) (\<lambda>target.
     h_then (h_guard (\<not> (r_status rel = ''draft'' \<and> requested = [])) (app_error_new 400 ''choose at least one instance''))
     (h_then (h_guard (\<not> (r_status rel \<noteq> ''draft'' \<and> r_rollout_state rel \<in> set [''rollback_active'', ''rolled_back'', ''rollback_partial'']))
         (app_error_new 409 ''release is being rolled back''))
     (h_then (if r_status rel = ''draft'' then ensure_no_other_controlled_release rid else h_return ())
       (publish_artifacts env actor rel target requested insts)))))"

definition publish_agent_release ::
  "('v::linorder) update_env \<Rightarrow> admin_login \<Rightarrow> string \<Rightarrow> string list \<Rightarrow> unit update_handler" where
  "publish_agent_release env admin rid requested =
     h_bind (h_lift admin) (\<lambda>actor db.
       h_bind (h_transaction (publish_tx env actor rid requested (capability_instances db)))
         (\<lambda>notify. h_modify (notify_instances env notify)) db)"

fun add_targets ::
  "('v::linorder) update_env \<Rightarrow> release_row \<Rightarrow> fleet_row list \<Rightarrow> 'v \<Rightarrow> artifact_row list \<Rightarrow> string list
     \<Rightarrow> string list update_handler" where
  "add_targets env rel insts target arts [] = h_return []"
| "add_targets env rel insts target arts (iid # iids) =
     (case find (\<lambda>i. i_id i = iid) insts of
        None \<Rightarrow> h_fail (app_error_new 400 ''instance missing or disabled'')
      | Some inst \<Rightarrow>
        h_bind (h_lift (validate_rollout_instance env inst target arts)) (\<lambda>_.
        h_then (h_modify (set_target (r_id rel) iid ''included'' (now env)))
        (h_bind (case matching_artifact inst arts of None \<Rightarrow> h_return False
            | Some art \<Rightarrow> queue_upgrade_attempt env rel inst art False) (\<lambda>queued.
          h_bind (add_targets env rel insts target arts iids) (\<lambda>rest.
            h_return (if queued \<and> r_rollout_state rel = ''canary_active'' then iid # rest else rest))))))"

definition is_canary :: "release_row \<Rightarrow> bool" where
  "is_canary rel \<longleftrightarrow> r_rollout_state rel \<in> set [''canary_active'', ''canary_paused'']"

definition is_rolling_out :: "release_row \<Rightarrow> bool" where
  "is_rolling_out rel \<longleftrightarrow> r_rollout_state rel \<in> set [''canary_active'', ''canary_paused'', ''full_active'', ''full_paused'']"

definition add_agent_rollout_targets ::
  "('v::linorder) update_env \<Rightarrow> admin_login \<Rightarrow> string \<Rightarrow> string list \<Rightarrow> unit update_handler" where
  "add_agent_rollout_targets env admin rid requested =
     h_bind (h_lift admin) (\<lambda>actor.
     h_then (h_guard (requested \<noteq> []) (app_error_new 400 ''choose at least one instance''))
     (h_bind (get_release rid) (\<lambda>rel.
     h_then (h_guard (is_canary rel) (app_error_new 409 ''only a canary takes more instances''))
     (h_bind (h_lift (parse_release_version env rel)) (\<lambda>target db.
        let arts = published_artifacts rid db; insts = capability_instances db in
        h_then (h_guard (\<not> list_ex (\<lambda>iid. iid \<in> set (targets_in_state rid ''excluded'' db)) requested)
          (app_error_new 409 ''excluded instances need an explicit upgrade''))
        (h_bind (h_transaction (h_bind (add_targets env rel insts target arts (remdups requested)) (\<lambda>notify.
            h_then (write_update_log actor ''add_agent_rollout_targets'' rid) (h_return notify))))
          (\<lambda>notify. h_modify (notify_instances env notify))) db)))))"

subsection \<open>Pausing, resuming, promoting\<close>

definition pause_transition :: "string \<Rightarrow> bool \<Rightarrow> string option" where
  "pause_transition st paused = map_of [((''canary_active'', True), ''canary_paused''), ((''full_active'', True), ''full_paused''),
     ((''canary_paused'', False), ''canary_active''), ((''full_paused'', False), ''full_active'')] (st, paused)"

definition pending_upgrades_of :: "string \<Rightarrow> update_db \<Rightarrow> string list" where
  "pending_upgrades_of rid db = map u_instance_id (filter (\<lambda>u. u_release_id u = rid \<and> u_operation u = ''upgrade''
     \<and> u_status u = ''pending'') (update_attempts db))"

definition pause_tx :: "'v update_env \<Rightarrow> string \<times> string \<Rightarrow> string \<Rightarrow> bool \<Rightarrow> unit update_handler" where
  "pause_tx env actor rid paused =
     h_bind (get_release rid) (\<lambda>rel.
       case pause_transition (r_rollout_state rel) paused of
         None \<Rightarrow> h_fail (app_error_new 409 ''release cannot be paused or resumed'')
       | Some next_state \<Rightarrow>
         h_then (if paused then ensure_no_other_controlled_release rid else h_return ())
         (h_then (h_modify (set_rollout_state rid next_state (now env)))
           (write_update_log actor (if paused then ''pause_agent_rollout'' else ''resume_agent_rollout'') rid)))"

definition set_rollout_paused ::
  "('v::linorder) update_env \<Rightarrow> admin_login \<Rightarrow> string \<Rightarrow> bool \<Rightarrow> unit update_handler" where
  "set_rollout_paused env admin rid paused =
     h_bind (h_lift admin) (\<lambda>actor.
     h_then (h_transaction (pause_tx env actor rid paused))
     (if paused then h_return ()
      else h_modify (\<lambda>db. notify_instances env (pending_upgrades_of rid db) db)))"

definition promote_choice ::
  "('v::linorder) update_env \<Rightarrow> string list \<Rightarrow> 'v \<Rightarrow> artifact_row list \<Rightarrow> fleet_row \<Rightarrow> artifact_row option" where
  "promote_choice env excluded target arts inst =
     (if i_id inst \<in> set excluded then None
      else if rollout_ineligibility_reason env inst target arts \<noteq> None then None
      else matching_artifact inst arts)"

definition promote_transition :: "string \<Rightarrow> string option" where
  "promote_transition st = map_of [(''canary_active'', ''full_active''), (''canary_paused'', ''full_paused'')] st"

definition promote_tx ::
  "('v::linorder) update_env \<Rightarrow> string \<times> string \<Rightarrow> release_row \<Rightarrow> 'v \<Rightarrow> artifact_row list \<Rightarrow> fleet_row list
     \<Rightarrow> string list update_handler" where
  "promote_tx env actor rel target arts insts db =
     (case promote_transition (r_rollout_state rel) of
        None \<Rightarrow> (Inl (app_error_new 409 ''only a canary can be promoted''), db)
      | Some next_state \<Rightarrow>
          let excluded = targets_in_state (r_id rel) ''excluded'' db in
          h_then (h_modify (set_rollout_state (r_id rel) next_state (now env)))
          (h_bind (queue_upgrades env rel (promote_choice env excluded target arts) insts) (\<lambda>queued.
            h_then (write_update_log actor ''promote_agent_rollout'' (r_id rel))
              (h_return (if next_state = ''full_active'' then queued else [])))) db)"

definition promote_agent_rollout :: "('v::linorder) update_env \<Rightarrow> admin_login \<Rightarrow> string \<Rightarrow> unit update_handler" where
  "promote_agent_rollout env admin rid =
     h_bind (h_lift admin) (\<lambda>actor.
     h_bind (get_release rid) (\<lambda>rel.
     h_bind (h_lift (parse_release_version env rel)) (\<lambda>target db.
       h_bind (h_transaction (promote_tx env actor rel target (published_artifacts rid db) (capability_instances db)))
         (\<lambda>notify. h_modify (notify_instances env notify)) db)))"

subsection \<open>Rolling back and upgrading again\<close>

definition cancel_pending_upgrades :: "'v update_env \<Rightarrow> string \<Rightarrow> update_db \<Rightarrow> update_db" where
  "cancel_pending_upgrades env rid = change_attempts
     (\<lambda>u. u_release_id u = rid \<and> u_operation u = ''upgrade'' \<and> u_status u = ''pending'')
     (\<lambda>u. u\<lparr>u_status := ''cancelled'', u_message := ''release is being rolled back'', u_updated_at := now env,
        u_completed_at := Some (now env)\<rparr>)"

definition rollback_release_tx :: "'v update_env \<Rightarrow> string \<times> string \<Rightarrow> string \<Rightarrow> unit update_handler" where
  "rollback_release_tx env actor rid =
     h_bind (get_release rid) (\<lambda>rel.
       h_then (h_guard (is_rolling_out rel \<or> r_rollout_state rel = ''rollback_partial'')
         (app_error_new 409 ''release cannot be rolled back''))
       (h_then (ensure_no_other_controlled_release rid)
       (h_then (h_modify (set_rollout_state rid ''rollback_active'' (now env)))
       (h_then (h_modify (cancel_pending_upgrades env rid))
         (write_update_log actor ''rollback_agent_release'' rid)))))"

definition rollback_agent_release :: "('v::linorder) update_env \<Rightarrow> admin_login \<Rightarrow> string \<Rightarrow> unit update_handler" where
  "rollback_agent_release env admin rid =
     h_bind (h_lift admin) (\<lambda>actor.
     h_then (h_transaction (rollback_release_tx env actor rid)) (reconcile_release_rollback env rid))"

definition latest_successful_upgrade :: "string \<Rightarrow> string \<Rightarrow> attempt_row update_handler" where
  "latest_successful_upgrade rid iid db =
     (case latest_upgrade_of iid (succeeded_upgrades rid db) of
        None \<Rightarrow> (Inl (app_error_new 409 ''no successful upgrade''), db)
      | Some u \<Rightarrow> h_bind (get_instance iid) (\<lambda>inst.
          if i_agent_version inst \<noteq> u_target_version u then h_fail (app_error_new 409 ''instance runs another version'')
          else h_return u) db)"

definition rollback_instance_tx ::
  "'v update_env \<Rightarrow> string \<times> string \<Rightarrow> string \<Rightarrow> string \<Rightarrow> attempt_row \<Rightarrow> rollback_queue_outcome update_handler" where
  "rollback_instance_tx env actor rid iid parent db =
     (if list_ex (\<lambda>u. u_instance_id u = iid \<and> attempt_active u) (update_attempts db)
      then (Inl (app_error_new 409 ''instance has an active attempt''), db)
      else h_then (h_modify (set_target rid iid ''excluded'' (now env)))
        (h_bind (queue_rollback_for_upgrade_in_transaction env parent) (\<lambda>q.
         h_then (h_guard (q_inserted q) (app_error_new 409 ''instance has a rollback already''))
         (h_then (write_update_log actor ''rollback_agent_instance'' iid) (h_return q)))) db)"

definition rollback_agent_instance ::
  "('v::linorder) update_env \<Rightarrow> admin_login \<Rightarrow> string \<Rightarrow> string \<Rightarrow> unit update_handler" where
  "rollback_agent_instance env admin rid iid =
     h_bind (h_lift admin) (\<lambda>actor.
     h_bind (get_release rid) (\<lambda>rel.
     h_then (h_guard (is_rolling_out rel) (app_error_new 409 ''instances of this release cannot be rolled back''))
     (h_bind (latest_successful_upgrade rid iid) (\<lambda>parent.
     h_bind (h_transaction (rollback_instance_tx env actor rid iid parent)) (\<lambda>q.
       if q_pending q then h_modify (notify_instance env iid) else h_return ())))))"

definition was_rolled_back :: "string \<Rightarrow> string \<Rightarrow> unit update_handler" where
  "was_rolled_back rid iid db =
     (if list_ex (\<lambda>u. u_release_id u = rid \<and> u_instance_id u = iid \<and> u_operation u = ''rollback''
        \<and> u_status u = ''rollback_succeeded'') (update_attempts db) then (Inr (), db)
      else (Inl (app_error_new 409 ''no successful rollback''), db))"

definition reupgrade_tx ::
  "('v::linorder) update_env \<Rightarrow> string \<times> string \<Rightarrow> release_row \<Rightarrow> fleet_row \<Rightarrow> artifact_row \<Rightarrow> unit update_handler" where
  "reupgrade_tx env actor rel inst art =
     h_then (h_modify (set_target (r_id rel) (i_id inst) ''included'' (now env)))
     (h_bind (queue_upgrade_attempt env rel inst art True) (\<lambda>queued.
      h_then (h_guard queued (app_error_new 409 ''instance has an active attempt''))
        (write_update_log actor ''reupgrade_agent_instance'' (i_id inst))))"

definition reupgrade_instance ::
  "('v::linorder) update_env \<Rightarrow> string \<times> string \<Rightarrow> release_row \<Rightarrow> fleet_row \<Rightarrow> 'v \<Rightarrow> unit update_handler" where
  "reupgrade_instance env actor rel inst target db =
     (let arts = published_artifacts (r_id rel) db in
      h_bind (h_lift (validate_rollout_instance env inst target arts)) (\<lambda>_.
      case matching_artifact inst arts of
        None \<Rightarrow> h_fail (app_error_new 409 ''no matching package'')
      | Some art \<Rightarrow> h_then (h_transaction (reupgrade_tx env actor rel inst art))
          (if r_rollout_state rel \<in> set [''canary_active'', ''full_active''] then h_modify (notify_instance env (i_id inst))
           else h_return ())) db)"

definition reupgrade_agent_instance ::
  "('v::linorder) update_env \<Rightarrow> admin_login \<Rightarrow> string \<Rightarrow> string \<Rightarrow> unit update_handler" where
  "reupgrade_agent_instance env admin rid iid =
     h_bind (h_lift admin) (\<lambda>actor.
     h_bind (get_release rid) (\<lambda>rel.
     h_then (h_guard (is_rolling_out rel) (app_error_new 409 ''release cannot be installed again''))
     (h_then (was_rolled_back rid iid)
     (h_bind (get_instance iid) (\<lambda>inst.
     h_bind (h_lift (parse_release_version env rel)) (\<lambda>target.
       reupgrade_instance env actor rel inst target))))))"

subsection \<open>Retrying an attempt\<close>

definition require_latest_retry_candidate :: "('v::linorder) update_env \<Rightarrow> attempt_row \<Rightarrow> unit update_handler" where
  "require_latest_retry_candidate env u =
     h_bind (get_instance (u_instance_id u)) (\<lambda>inst db.
       case select_update_candidate env inst db of
         None \<Rightarrow> (Inl (app_error_new 409 ''nothing newer to install''), db)
       | Some (rel, art) \<Rightarrow>
           if r_id rel \<noteq> u_release_id u \<or> Some (a_id art) \<noteq> u_artifact_id u \<or> r_version rel \<noteq> u_target_version u
           then (Inl (app_error_new 409 ''superseded by a newer release''), db) else (Inr (), db))"

definition rollback_retry_artifact :: "attempt_row \<Rightarrow> string option update_handler" where
  "rollback_retry_artifact u =
     h_bind (get_instance (u_instance_id u)) (\<lambda>inst db.
       if i_agent_version inst \<noteq> u_from_version u then (Inl (app_error_new 409 ''instance runs another version''), db)
       else if i_rollback_supported inst \<noteq> 1 then (Inl (app_error_new 409 ''agent does not support rollback''), db)
       else case rollback_artifact_for_instance inst (u_target_version u) db of
           None \<Rightarrow> if i_rollback_version inst \<noteq> u_target_version u
             then (Inl (app_error_new 409 ''no package of the old version''), db) else (Inr None, db)
         | Some art \<Rightarrow> (Inr (Some (a_id art)), db))"

definition retryable :: "attempt_row \<Rightarrow> bool" where
  "retryable u \<longleftrightarrow> (if u_operation u = ''upgrade'' then u_status u \<in> set [''failed'', ''rollback_succeeded'']
     else if u_operation u = ''rollback'' then u_status u = ''failed'' else False)"

definition rollout_allows_retry :: "attempt_row \<Rightarrow> release_row \<Rightarrow> bool" where
  "rollout_allows_retry u rel \<longleftrightarrow> (if u_operation u = ''upgrade'' then is_rolling_out rel
     else if u_operation u = ''rollback'' then is_rolling_out rel
       \<or> r_rollout_state rel \<in> set [''rollback_active'', ''rollback_partial''] else False)"

definition requeue_attempt :: "'v update_env \<Rightarrow> attempt_row \<Rightarrow> string option \<Rightarrow> unit update_handler" where
  "requeue_attempt env u artifact_id db =
     (let p = (\<lambda>x. u_id x = u_id u \<and> u_status x = u_status u \<and> u_retry_count x = u_retry_count u
          \<and> u_retry_count x < max_agent_update_retry_count) in
      if list_ex (\<lambda>x. u_id x \<noteq> u_id u \<and> attempt_active x \<and> u_instance_id x = u_instance_id u) (update_attempts db)
        \<and> list_ex p (update_attempts db)
      then (Inl (app_error_new 409 ''instance has an active attempt''), db)
      else if length (filter p (update_attempts db)) \<noteq> 1 then (Inl (app_error_new 409 ''attempt has changed''), db)
      else (Inr (), change_attempts p (\<lambda>x. x\<lparr>
          u_artifact_id := (case artifact_id of Some a \<Rightarrow> Some a | None \<Rightarrow> u_artifact_id x),
          u_status := ''pending'', u_message := '''', u_retry_count := u_retry_count x + 1, u_updated_at := now env,
          u_completed_at := None\<rparr>) db))"

definition retry_tx :: "('v::linorder) update_env \<Rightarrow> string \<times> string \<Rightarrow> attempt_row \<Rightarrow> unit update_handler" where
  "retry_tx env actor observed =
     h_bind (get_release (u_release_id observed)) (\<lambda>rel.
     h_bind (get_attempt (u_id observed)) (\<lambda>u.
     h_then (h_guard (u_release_id u = r_id rel) (app_error_new 409 ''attempt moved to another release''))
     (h_then (h_guard (retryable u) (app_error_new 409 ''attempt cannot be retried''))
     (h_then (h_guard (rollout_allows_retry u rel) (app_error_new 409 ''rollout does not allow a retry''))
     (h_then (h_guard (u_retry_count u < max_agent_update_retry_count) (app_error_new 409 ''too many retries''))
     (h_bind (if u_operation u = ''upgrade''
         then h_then (require_latest_retry_candidate env u) (h_return None) else rollback_retry_artifact u) (\<lambda>artifact_id.
     h_then (if u_operation u = ''rollback'' \<and> r_rollout_state rel = ''rollback_partial''
       then h_then (ensure_no_other_controlled_release (u_release_id u))
         (h_modify (set_rollout_state (u_release_id u) ''rollback_active'' (now env)))
       else h_return ())
     (h_then (\<lambda>db. if list_ex (\<lambda>x. u_instance_id x = u_instance_id u \<and> u_id x \<noteq> u_id u \<and> attempt_active x) (update_attempts db)
         then (Inl (app_error_new 409 ''instance has an active attempt''), db) else (Inr (), db))
     (h_then (requeue_attempt env u artifact_id)
       (write_update_log actor ''retry_agent_update'' (u_id u)))))))))))"

definition retry_agent_update :: "('v::linorder) update_env \<Rightarrow> admin_login \<Rightarrow> string \<Rightarrow> unit update_handler" where
  "retry_agent_update env admin uid =
     h_bind (h_lift admin) (\<lambda>actor.
     h_bind (get_attempt uid) (\<lambda>observed.
     h_then (h_transaction (retry_tx env actor observed))
       (h_modify (notify_retried_attempt env (u_instance_id observed) uid))))"

end
