(* ===== verification/UpdateSafety.thy ===== *)
theory UpdateSafety
  imports UpdateRollout
begin

text \<open>
  Safety of agent updates.  \<open>update_safe\<close> relates the tables before and after a handler: the invariant
  \<open>updates_inv\<close> is kept, an excluded instance gets no new upgrade, a finished attempt stays finished
  until it is retried, and identifiers are not reused.  It is reflexive and transitive, so each
  handler is checked by the steps it is made of; \<open>update_step\<close> collects all requests.
\<close>

subsection \<open>The invariant\<close>

definition attempt_ids :: "update_db \<Rightarrow> string set" where
  "attempt_ids db = u_id ` set (update_attempts db)"

definition one_active :: "attempt_row list \<Rightarrow> bool" where
  "one_active us \<longleftrightarrow> (\<forall>u \<in> set us. \<forall>v \<in> set us. attempt_active u \<and> attempt_active v
     \<and> u_instance_id u = u_instance_id v \<longrightarrow> u_id u = u_id v)"

definition one_rollback :: "attempt_row list \<Rightarrow> bool" where
  "one_rollback us \<longleftrightarrow> (\<forall>u \<in> set us. \<forall>v \<in> set us. u_operation u = ''rollback'' \<and> u_operation v = ''rollback''
     \<and> u_parent_attempt_id u \<noteq> None \<and> u_parent_attempt_id u = u_parent_attempt_id v \<longrightarrow> u_id u = u_id v)"

definition controlled :: "release_row \<Rightarrow> bool" where
  "controlled r \<longleftrightarrow> r_rollout_state r \<in> set controlled_states"

definition one_controlled :: "release_row list \<Rightarrow> bool" where
  "one_controlled rs \<longleftrightarrow> (\<forall>r \<in> set rs. \<forall>q \<in> set rs. controlled r \<and> controlled q \<longrightarrow> r_id r = r_id q)"

definition release_ok :: "release_row \<Rightarrow> bool" where
  "release_ok r \<longleftrightarrow> (r_status r = ''draft'' \<and> r_rollout_state r = ''draft'')
     \<or> (r_status r = ''published'' \<and> r_rollout_state r \<noteq> ''draft'')"

definition retry_count_ok :: "attempt_row \<Rightarrow> bool" where
  "retry_count_ok u \<longleftrightarrow> 0 \<le> u_retry_count u \<and> u_retry_count u \<le> max_agent_update_retry_count"

definition target_key :: "target_row \<Rightarrow> string \<times> string" where
  "target_key t = (t_release_id t, t_instance_id t)"

definition target_lookup :: "string \<Rightarrow> string \<Rightarrow> target_row list \<Rightarrow> string option" where
  "target_lookup rid iid ts = map_option t_state (find (\<lambda>t. t_release_id t = rid \<and> t_instance_id t = iid) ts)"

text \<open>An upgrade attempt exists only for a published release, and under a canary only for an instance
  that was chosen for it.\<close>

definition upgrade_selected :: "release_row list \<Rightarrow> target_row list \<Rightarrow> attempt_row \<Rightarrow> bool" where
  "upgrade_selected rs ts u \<longleftrightarrow> (u_operation u = ''upgrade'' \<longrightarrow> (\<exists>r \<in> set rs. r_id r = u_release_id u
     \<and> r_status r = ''published'' \<and> (is_canary r \<longrightarrow> target_lookup (u_release_id u) (u_instance_id u) ts \<noteq> None)))"

definition target_published :: "release_row list \<Rightarrow> target_row \<Rightarrow> bool" where
  "target_published rs t \<longleftrightarrow> (\<exists>r \<in> set rs. r_id r = t_release_id t \<and> r_status r = ''published'')"

definition updates_inv :: "(nat \<Rightarrow> string) \<Rightarrow> update_db \<Rightarrow> bool" where
  "updates_inv E db \<longleftrightarrow> inj E \<and> attempt_ids db \<subseteq> E ` {..<ids_drawn db}
     \<and> distinct (map u_id (update_attempts db)) \<and> distinct (map r_id (releases db))
     \<and> distinct (map target_key (release_targets db))
     \<and> one_active (update_attempts db) \<and> one_rollback (update_attempts db) \<and> one_controlled (releases db)
     \<and> list_all release_ok (releases db) \<and> list_all retry_count_ok (update_attempts db)
     \<and> list_all (upgrade_selected (releases db) (release_targets db)) (update_attempts db)
     \<and> list_all (target_published (releases db)) (release_targets db)"

subsection \<open>What a handler may do\<close>

definition done_statuses :: "string list" where
  "done_statuses = [''succeeded'', ''rollback_succeeded'', ''failed'']"

text \<open>How the row of an attempt may change: its identity is fixed, and a finished generation keeps its
  status.\<close>

definition follows :: "attempt_row \<Rightarrow> attempt_row \<Rightarrow> bool" where
  "follows u v \<longleftrightarrow> u_release_id v = u_release_id u \<and> u_instance_id v = u_instance_id u
     \<and> u_operation v = u_operation u \<and> u_retry_count u \<le> u_retry_count v
     \<and> (u_retry_count v = u_retry_count u \<and> u_status u \<in> set done_statuses \<longrightarrow> u_status v = u_status u)"

definition upgrade_ids :: "string \<Rightarrow> string \<Rightarrow> update_db \<Rightarrow> string set" where
  "upgrade_ids rid iid db = u_id ` set (filter (\<lambda>u. u_operation u = ''upgrade'' \<and> u_release_id u = rid
     \<and> u_instance_id u = iid) (update_attempts db))"

definition excluded_kept :: "(string \<times> string) set \<Rightarrow> update_db \<Rightarrow> update_db \<Rightarrow> bool" where
  "excluded_kept F db db' \<longleftrightarrow> (\<forall>rid iid. (rid, iid) \<notin> F \<and> target_state rid iid db = Some ''excluded'' \<longrightarrow>
     target_state rid iid db' = Some ''excluded'' \<and> upgrade_ids rid iid db' \<subseteq> upgrade_ids rid iid db)"

definition attempts_follow :: "update_db \<Rightarrow> update_db \<Rightarrow> bool" where
  "attempts_follow db db' \<longleftrightarrow> (\<forall>u \<in> set (update_attempts db). \<forall>v \<in> set (update_attempts db'). u_id v = u_id u \<longrightarrow> follows u v)"

definition ids_not_reused :: "(nat \<Rightarrow> string) \<Rightarrow> update_db \<Rightarrow> update_db \<Rightarrow> bool" where
  "ids_not_reused E db db' \<longleftrightarrow> ids_drawn db \<le> ids_drawn db' \<and>
     (\<forall>x \<in> E ` {..<ids_drawn db}. x \<in> attempt_ids db' \<longrightarrow> x \<in> attempt_ids db)"

definition update_safe :: "(nat \<Rightarrow> string) \<Rightarrow> (string \<times> string) set \<Rightarrow> update_db \<Rightarrow> update_db \<Rightarrow> bool" where
  "update_safe E F db db' \<longleftrightarrow> (updates_inv E db \<longrightarrow>
     updates_inv E db' \<and> excluded_kept F db db' \<and> attempts_follow db db' \<and> ids_not_reused E db db')"

lemma attempt_unique:
  assumes "updates_inv E db" "u \<in> set (update_attempts db)" "v \<in> set (update_attempts db)" "u_id u = u_id v"
  shows "u = v"
proof -
  have "inj_on u_id (set (update_attempts db))" using assms(1) by (simp add: updates_inv_def distinct_map)
  then show ?thesis using assms(2-4) by (auto dest: inj_onD)
qed

lemma attempt_idsI: "u \<in> set (update_attempts db) \<Longrightarrow> u_id u \<in> attempt_ids db"
  by (simp add: attempt_ids_def)

lemma attempt_drawn: "updates_inv E db \<Longrightarrow> u \<in> set (update_attempts db) \<Longrightarrow> u_id u \<in> E ` {..<ids_drawn db}"
  unfolding updates_inv_def attempt_ids_def by (meson imageI subsetD)

lemma ids_drawn_mono: "ids_not_reused E a b \<Longrightarrow> x \<in> E ` {..<ids_drawn a} \<Longrightarrow> x \<in> E ` {..<ids_drawn b}"
  unfolding ids_not_reused_def by (elim imageE conjE) (rule image_eqI, assumption, simp)

lemma not_reusedD: "ids_not_reused E a b \<Longrightarrow> x \<in> E ` {..<ids_drawn a} \<Longrightarrow> x \<in> attempt_ids b \<Longrightarrow> x \<in> attempt_ids a"
  unfolding ids_not_reused_def by blast

lemma follows_refl [simp]: "follows u u"
  by (simp add: follows_def)

lemma follows_trans: "follows u v \<Longrightarrow> follows v w \<Longrightarrow> follows u w"
  by (auto simp: follows_def)

lemma attempts_follow_same:
  assumes "updates_inv E db" "update_attempts db' = update_attempts db"
  shows "attempts_follow db db'"
  unfolding attempts_follow_def assms(2)
proof (intro ballI impI)
  fix u v assume "u \<in> set (update_attempts db)" "v \<in> set (update_attempts db)" "u_id v = u_id u"
  then have "v = u" using attempt_unique [OF assms(1)] by blast
  then show "follows u v" by simp
qed

lemma update_safe_refl [simp]: "update_safe E F db db"
  by (auto simp: update_safe_def excluded_kept_def ids_not_reused_def intro: attempts_follow_same)

lemma excluded_kept_trans:
  assumes "excluded_kept F a b" "excluded_kept F b c"
  shows "excluded_kept F a c"
  unfolding excluded_kept_def
proof (intro allI impI, elim conjE)
  fix rid iid
  assume h: "(rid, iid) \<notin> F" "target_state rid iid a = Some ''excluded''"
  then have b: "target_state rid iid b = Some ''excluded''" "upgrade_ids rid iid b \<subseteq> upgrade_ids rid iid a"
    using assms(1) by (auto simp: excluded_kept_def)
  with h(1) have "target_state rid iid c = Some ''excluded''" "upgrade_ids rid iid c \<subseteq> upgrade_ids rid iid b"
    using assms(2) by (auto simp: excluded_kept_def)
  with b show "target_state rid iid c = Some ''excluded'' \<and> upgrade_ids rid iid c \<subseteq> upgrade_ids rid iid a" by auto
qed

lemma update_safe_trans:
  assumes "update_safe E F a b" "update_safe E F b c"
  shows "update_safe E F a c"
  unfolding update_safe_def
proof
  assume a: "updates_inv E a"
  then have b: "updates_inv E b" "excluded_kept F a b" "attempts_follow a b" "ids_not_reused E a b"
    using assms(1) by (auto simp: update_safe_def)
  then have c: "updates_inv E c" "excluded_kept F b c" "attempts_follow b c" "ids_not_reused E b c"
    using assms(2) by (auto simp: update_safe_def)
  have "attempts_follow a c" unfolding attempts_follow_def
  proof (intro ballI impI)
    fix u w
    assume u: "u \<in> set (update_attempts a)" and w: "w \<in> set (update_attempts c)" and i: "u_id w = u_id u"
    have "u_id u \<in> E ` {..<ids_drawn b}" using b(4) attempt_drawn [OF a u] by (rule ids_drawn_mono)
    moreover have "u_id u \<in> attempt_ids c" using attempt_idsI [OF w] i by simp
    ultimately have "u_id u \<in> attempt_ids b" by (rule not_reusedD [OF c(4)])
    then obtain v where v: "v \<in> set (update_attempts b)" "u_id v = u_id u" by (auto simp: attempt_ids_def)
    then have "follows u v" "follows v w" using u w i b(3) c(3) by (auto simp: attempts_follow_def)
    then show "follows u w" by (rule follows_trans)
  qed
  have "ids_not_reused E a c" unfolding ids_not_reused_def
  proof (intro conjI ballI impI)
    show "ids_drawn a \<le> ids_drawn c" using b(4) c(4) by (simp add: ids_not_reused_def)
    fix x assume x: "x \<in> E ` {..<ids_drawn a}" "x \<in> attempt_ids c"
    then have "x \<in> attempt_ids b" using not_reusedD [OF c(4) ids_drawn_mono [OF b(4) x(1)]] by simp
    then show "x \<in> attempt_ids a" using not_reusedD [OF b(4) x(1)] by simp
  qed
  show "updates_inv E c \<and> excluded_kept F a c \<and> attempts_follow a c \<and> ids_not_reused E a c"
    using c(1) excluded_kept_trans [OF b(2) c(2)] \<open>attempts_follow a c\<close> \<open>ids_not_reused E a c\<close> by simp
qed

lemma update_safe_mono: "update_safe E F db db' \<Longrightarrow> F \<subseteq> G \<Longrightarrow> update_safe E G db db'"
  unfolding update_safe_def excluded_kept_def by (meson subsetD)

subsection \<open>Handlers\<close>

definition safe_at :: "(nat \<Rightarrow> string) \<Rightarrow> (string \<times> string) set \<Rightarrow> 'a update_handler \<Rightarrow> update_db \<Rightarrow> bool" where
  "safe_at E F m db \<longleftrightarrow> update_safe E F db (snd (m db))"

named_theorems safe_rules "handlers that are safe"

lemma safe_bind:
  assumes "safe_at E F m db" "\<And>x db1. m db = (Inr x, db1) \<Longrightarrow> safe_at E F (k x) db1"
  shows "safe_at E F (h_bind m k) db"
proof (cases "m db")
  case (Pair r db1)
  show ?thesis
  proof (cases r)
    case (Inl e)
    then show ?thesis using assms(1) Pair by (simp add: safe_at_def h_bind_def)
  next
    case (Inr x)
    then show ?thesis
      using assms(1) assms(2) [of x db1] Pair update_safe_trans [of E F db db1] by (simp add: safe_at_def h_bind_def)
  qed
qed

lemma safe_then:
  "safe_at E F m db \<Longrightarrow> (\<And>x db1. m db = (Inr x, db1) \<Longrightarrow> safe_at E F k db1) \<Longrightarrow> safe_at E F (h_then m k) db"
  unfolding h_then_def by (rule safe_bind)

lemma safe_simple [simp]:
  "safe_at E F (h_return x) db" "safe_at E F (h_fail e) db" "safe_at E F (h_lift r) db"
  "safe_at E F (h_guard b e) db" "safe_at E F (\<lambda>db. (f db, db)) db"
  by (simp_all add: safe_at_def handler_simps)

lemma safe_modify [simp]: "safe_at E F (h_modify f) db = update_safe E F db (f db)"
  by (simp add: safe_at_def h_modify_def)

lemma safe_transaction: "safe_at E F m db \<Longrightarrow> safe_at E F (h_transaction m) db"
  by (auto simp: safe_at_def h_transaction_def split: prod.splits sum.splits)

lemma safe_transactionI: "(\<And>x db'. m db = (Inr x, db') \<Longrightarrow> update_safe E F db db') \<Longrightarrow> safe_at E F (h_transaction m) db"
  by (auto simp: safe_at_def h_transaction_def split: prod.splits sum.splits)

lemma safe_reads [simp]:
  "safe_at E F (get_instance i) db" "safe_at E F (get_release i) db" "safe_at E F (get_attempt i) db"
  "safe_at E F (ensure_no_other_controlled_release i) db"
  by (auto simp: safe_at_def get_instance_def get_release_def get_attempt_def ensure_no_other_controlled_release_def
      split: option.splits)

lemma reads_Inr [simp]:
  "get_instance i db = (Inr x, db') \<longleftrightarrow> instance_by_id i db = Some x \<and> db' = db"
  "get_release i db = (Inr r, db') \<longleftrightarrow> release_by_id i db = Some r \<and> db' = db"
  "get_attempt i db = (Inr u, db') \<longleftrightarrow> attempt_by_id i db = Some u \<and> db' = db"
  "ensure_no_other_controlled_release i db = (Inr y, db') \<longleftrightarrow> db' = db
     \<and> (\<forall>r \<in> set (releases db). r_id r \<noteq> i \<longrightarrow> \<not> controlled r)"
  by (auto simp: get_instance_def get_release_def get_attempt_def ensure_no_other_controlled_release_def
      list_ex_iff controlled_def split: option.splits)

subsection \<open>Elementary steps\<close>

lemma target_state_lookup: "target_state rid iid db = target_lookup rid iid (release_targets db)"
  by (simp add: target_state_def target_lookup_def)

lemma safe_core_same:
  assumes "releases db' = releases db" "release_targets db' = release_targets db"
    and "update_attempts db' = update_attempts db" "ids_drawn db \<le> ids_drawn db'"
  shows "update_safe E F db db'"
  unfolding update_safe_def
proof (intro impI conjI)
  assume inv: "updates_inv E db"
  have "E ` {..<ids_drawn db} \<subseteq> E ` {..<ids_drawn db'}" using assms(4) by (intro image_mono) simp
  then show "updates_inv E db'" using inv assms by (auto simp: updates_inv_def attempt_ids_def)
  show "excluded_kept F db db'" using assms by (simp add: excluded_kept_def target_state_def upgrade_ids_def)
  show "ids_not_reused E db db'" using assms by (simp add: ids_not_reused_def attempt_ids_def)
  show "attempts_follow db db'" by (rule attempts_follow_same [OF inv assms(3)])
qed

text \<open>Rows are dropped, or changed without touching what identifies an attempt.\<close>

definition mild :: "attempt_row \<Rightarrow> attempt_row \<Rightarrow> bool" where
  "mild u v \<longleftrightarrow> u_id v = u_id u \<and> u_release_id v = u_release_id u \<and> u_instance_id v = u_instance_id u
     \<and> u_operation v = u_operation u \<and> (u_parent_attempt_id v = u_parent_attempt_id u \<or> u_parent_attempt_id v = None)
     \<and> u_retry_count v = u_retry_count u \<and> (attempt_active v \<longrightarrow> attempt_active u)
     \<and> (u_status u \<in> set done_statuses \<longrightarrow> u_status v = u_status u)"

lemma mild_refl [simp]: "mild u u"
  by (simp add: mild_def)

lemma mild_follows: "mild u v \<Longrightarrow> follows u v"
  by (simp add: mild_def follows_def)

lemma one_activeD:
  "one_active us \<Longrightarrow> u \<in> set us \<Longrightarrow> v \<in> set us \<Longrightarrow> attempt_active u \<Longrightarrow> attempt_active v
    \<Longrightarrow> u_instance_id u = u_instance_id v \<Longrightarrow> u_id u = u_id v"
  unfolding one_active_def by blast

lemma one_rollbackD:
  "one_rollback us \<Longrightarrow> u \<in> set us \<Longrightarrow> v \<in> set us \<Longrightarrow> u_operation u = ''rollback'' \<Longrightarrow> u_operation v = ''rollback''
    \<Longrightarrow> u_parent_attempt_id u \<noteq> None \<Longrightarrow> u_parent_attempt_id u = u_parent_attempt_id v \<Longrightarrow> u_id u = u_id v"
  unfolding one_rollback_def by blast

lemma one_active_mild:
  assumes "one_active us" "\<And>v. v \<in> set vs \<Longrightarrow> \<exists>u \<in> set us. mild u v"
  shows "one_active vs"
  unfolding one_active_def
proof (intro ballI impI, elim conjE)
  fix v w assume h: "v \<in> set vs" "w \<in> set vs" "attempt_active v" "attempt_active w" "u_instance_id v = u_instance_id w"
  obtain x y where x: "x \<in> set us" "mild x v" and y: "y \<in> set us" "mild y w" using assms(2) h by blast
  with h have "attempt_active x" "attempt_active y" "u_instance_id x = u_instance_id y" by (auto simp: mild_def)
  then have "u_id x = u_id y" by (rule one_activeD [OF assms(1) x(1) y(1)])
  with x y show "u_id v = u_id w" by (simp add: mild_def)
qed

lemma one_rollback_mild:
  assumes "one_rollback us" "\<And>v. v \<in> set vs \<Longrightarrow> \<exists>u \<in> set us. mild u v"
  shows "one_rollback vs"
  unfolding one_rollback_def
proof (intro ballI impI, elim conjE)
  fix v w assume h: "v \<in> set vs" "w \<in> set vs" "u_operation v = ''rollback''" "u_operation w = ''rollback''"
    "u_parent_attempt_id v \<noteq> None" "u_parent_attempt_id v = u_parent_attempt_id w"
  obtain x y where x: "x \<in> set us" "mild x v" and y: "y \<in> set us" "mild y w" using assms(2) h by blast
  have "u_operation x = ''rollback''" "u_operation y = ''rollback''" "u_parent_attempt_id x \<noteq> None"
    "u_parent_attempt_id x = u_parent_attempt_id y"
    using h x(2) y(2) by (auto simp: mild_def)
  then have "u_id x = u_id y" by (rule one_rollbackD [OF assms(1) x(1) y(1)])
  with x y show "u_id v = u_id w" by (simp add: mild_def)
qed

lemma safe_attempts_part:
  assumes rows: "update_attempts db' = map g (filter q (update_attempts db))"
    and same: "releases db' = releases db" "release_targets db' = release_targets db" "ids_drawn db' = ids_drawn db"
    and m: "\<And>u. u \<in> set (update_attempts db) \<Longrightarrow> q u \<Longrightarrow> mild u (g u)"
  shows "update_safe E F db db'"
  unfolding update_safe_def
proof
  assume inv: "updates_inv E db"
  have from_old: "\<exists>u \<in> set (update_attempts db). mild u v" if "v \<in> set (update_attempts db')" for v
    using that m by (auto simp: rows)
  have ids: "map u_id (update_attempts db') = map u_id (filter q (update_attempts db))"
    using m by (simp add: rows mild_def)
  have sub: "attempt_ids db' \<subseteq> attempt_ids db"
  proof
    fix x assume "x \<in> attempt_ids db'"
    then have "x \<in> set (map u_id (filter q (update_attempts db)))" by (simp add: attempt_ids_def flip: ids)
    then show "x \<in> attempt_ids db" by (auto simp: attempt_ids_def)
  qed
  have follow: "follows u v" if u: "u \<in> set (update_attempts db)" and v: "v \<in> set (update_attempts db')" and i: "u_id v = u_id u" for u v
  proof -
    obtain w where w: "w \<in> set (update_attempts db)" "mild w v" using from_old v by blast
    then have "u_id w = u_id u" using i by (simp add: mild_def)
    then have "w = u" using attempt_unique [OF inv w(1) u] by simp
    with w(2) show ?thesis by (simp add: mild_follows)
  qed
  have ids_sub: "upgrade_ids rid iid db' \<subseteq> upgrade_ids rid iid db" for rid iid
  proof
    fix x assume "x \<in> upgrade_ids rid iid db'"
    then obtain v where v: "v \<in> set (update_attempts db')" "x = u_id v" "u_operation v = ''upgrade''"
      "u_release_id v = rid" "u_instance_id v = iid" by (auto simp: upgrade_ids_def)
    obtain w where "w \<in> set (update_attempts db)" "mild w v" using from_old v(1) by blast
    with v show "x \<in> upgrade_ids rid iid db" by (auto simp: upgrade_ids_def mild_def)
  qed
  have old: "one_active (update_attempts db)" "one_rollback (update_attempts db)"
    "distinct (map u_id (update_attempts db))"
    "\<And>u. u \<in> set (update_attempts db) \<Longrightarrow> retry_count_ok u \<and> upgrade_selected (releases db) (release_targets db) u"
    using inv by (auto simp: updates_inv_def list_all_iff)
  have "retry_count_ok v \<and> upgrade_selected (releases db) (release_targets db) v" if v: "v \<in> set (update_attempts db')" for v
  proof -
    obtain w where "w \<in> set (update_attempts db)" "mild w v" using from_old v by blast
    then show ?thesis using old(4) by (auto simp: retry_count_ok_def upgrade_selected_def mild_def)
  qed
  then have new: "list_all retry_count_ok (update_attempts db')"
    "list_all (upgrade_selected (releases db) (release_targets db)) (update_attempts db')"
    by (simp_all add: list_all_iff)
  have "distinct (map u_id (update_attempts db'))" unfolding ids using old(3) by (rule distinct_map_filter)
  with inv sub new one_active_mild [OF old(1) from_old] one_rollback_mild [OF old(2) from_old]
  have "updates_inv E db'" unfolding updates_inv_def same by auto
  moreover have "excluded_kept F db db'" using ids_sub by (simp add: excluded_kept_def target_state_def same)
  moreover have "attempts_follow db db'" using follow by (simp add: attempts_follow_def)
  moreover have "ids_not_reused E db db'" using sub by (auto simp: ids_not_reused_def same)
  ultimately show "updates_inv E db' \<and> excluded_kept F db db' \<and> attempts_follow db db' \<and> ids_not_reused E db db'" by simp
qed

lemma safe_change_attempts:
  assumes "\<And>u. u \<in> set (update_attempts db) \<Longrightarrow> p u \<Longrightarrow> mild u (f u)"
  shows "update_safe E F db (change_attempts p f db)"
  by (rule safe_attempts_part [where g = "\<lambda>u. if p u then f u else u" and q = "\<lambda>_. True"])
    (simp_all add: change_attempts_def update_where_def assms)

lemma safe_fields [simp]:
  "update_safe E F db (db\<lparr>fleet := a\<rparr>)" "update_safe E F db (db\<lparr>artifacts := b\<rparr>)"
  "update_safe E F db (db\<lparr>connections := c\<rparr>)" "update_safe E F db (db\<lparr>sent := d\<rparr>)"
  "update_safe E F db (db\<lparr>update_log := e\<rparr>)" "update_safe E F db (db\<lparr>ids_drawn := Suc (ids_drawn db)\<rparr>)"
  "update_safe E F db (change_fleet p f db)" "update_safe E F db (set_agent_version iid v db)"
  "update_safe E F db (clear_rollback_baseline iid db)" "update_safe E F db (send_to iid m db)"
  by (simp_all add: safe_core_same change_fleet_def set_agent_version_def clear_rollback_baseline_def send_to_def)

lemma safe_log [simp]: "safe_at E F (write_update_log actor act tgt) db"
  by (simp add: write_update_log_def)

text \<open>A new attempt, with the identifier drawn for it.\<close>

definition upgrade_allowed :: "update_db \<Rightarrow> string \<Rightarrow> string \<Rightarrow> bool" where
  "upgrade_allowed db rid iid \<longleftrightarrow> (\<exists>r \<in> set (releases db). r_id r = rid \<and> r_status r = ''published''
     \<and> (is_canary r \<longrightarrow> target_state rid iid db \<noteq> None)) \<and> target_state rid iid db \<noteq> Some ''excluded''"

lemma one_active_insert:
  assumes "one_active us" "\<not> list_ex (attempt_collides u) us"
  shows "one_active (us @ [u])"
proof -
  have "\<not> (attempt_active u \<and> attempt_active v \<and> u_instance_id u = u_instance_id v)" if "v \<in> set us" for v
    using assms(2) that by (auto simp: list_ex_iff attempt_collides_def)
  then show ?thesis using assms(1) unfolding one_active_def set_append by (metis Un_iff empty_iff insert_iff list.set(1,2))
qed

lemma one_rollback_insert:
  assumes "one_rollback us" "\<not> list_ex (attempt_collides u) us"
  shows "one_rollback (us @ [u])"
proof -
  have "\<not> (u_operation u = ''rollback'' \<and> u_operation v = ''rollback'' \<and> u_parent_attempt_id u \<noteq> None
      \<and> u_parent_attempt_id u = u_parent_attempt_id v)" if "v \<in> set us" for v
    using assms(2) that by (auto simp: list_ex_iff attempt_collides_def)
  then show ?thesis using assms(1) unfolding one_rollback_def set_append by (metis Un_iff empty_iff insert_iff list.set(1,2))
qed

lemma drawn_fresh: "inj (E :: nat \<Rightarrow> string) \<Longrightarrow> E n \<notin> E ` {..<n}"
  by (simp add: inj_image_mem_iff)

lemma safe_insert:
  assumes "u_id u = E (ids_drawn db)" "u_retry_count u = 0"
    and "u_operation u = ''upgrade'' \<Longrightarrow> upgrade_allowed db (u_release_id u) (u_instance_id u)"
  shows "update_safe E F db (snd (insert_attempt u (db\<lparr>ids_drawn := Suc (ids_drawn db)\<rparr>)))"
proof (cases "list_ex (attempt_collides u) (update_attempts db)")
  case True
  then show ?thesis by (simp add: insert_attempt_def)
next
  case False
  let ?db = "db\<lparr>ids_drawn := Suc (ids_drawn db), update_attempts := update_attempts db @ [u]\<rparr>"
  have "update_safe E F db ?db" unfolding update_safe_def
  proof (intro impI conjI)
    assume inv: "updates_inv E db"
    have fresh: "u_id u \<notin> E ` {..<ids_drawn db}" using drawn_fresh [of E "ids_drawn db"] inv by (simp only: assms(1) updates_inv_def) simp
    then have new: "u_id u \<notin> attempt_ids db" using inv by (auto simp: updates_inv_def)
    have "E ` {..<Suc (ids_drawn db)} = insert (u_id u) (E ` {..<ids_drawn db})"
      by (simp add: assms(1) lessThan_Suc)
    moreover have "retry_count_ok u" by (simp add: retry_count_ok_def assms(2) max_agent_update_retry_count_def)
    moreover have "upgrade_selected (releases db) (release_targets db) u"
      using assms(3) by (auto simp: upgrade_selected_def upgrade_allowed_def target_state_lookup)
    moreover have "distinct (map u_id (update_attempts db @ [u]))"
      using inv new by (simp add: updates_inv_def attempt_ids_def)
    ultimately show "updates_inv E ?db"
      using inv one_active_insert [OF _ False] one_rollback_insert [OF _ False]
      by (auto simp: updates_inv_def attempt_ids_def)
    show "excluded_kept F db ?db"
      using assms(3) by (auto simp: excluded_kept_def target_state_def upgrade_ids_def upgrade_allowed_def)
    show "attempts_follow db ?db" unfolding attempts_follow_def
    proof (intro ballI impI)
      fix w v assume h: "w \<in> set (update_attempts db)" "v \<in> set (update_attempts ?db)" "u_id v = u_id w"
      then have "v \<noteq> u" using new attempt_idsI [OF h(1)] by auto
      with h have "v = w" using attempt_unique [OF inv] by auto
      then show "follows w v" by simp
    qed
    show "ids_not_reused E db ?db" using fresh by (auto simp: ids_not_reused_def attempt_ids_def)
  qed
  moreover have "snd (insert_attempt u (db\<lparr>ids_drawn := Suc (ids_drawn db)\<rparr>)) = ?db"
    using False by (simp add: insert_attempt_def)
  ultimately show ?thesis by simp
qed

text \<open>A retried attempt: pending again, one generation later.\<close>

lemma safe_requeue:
  assumes "u \<in> set (update_attempts db)" "u_retry_count u < max_agent_update_retry_count"
    and idle: "\<And>x. x \<in> set (update_attempts db) \<Longrightarrow> attempt_active x \<Longrightarrow> u_instance_id x = u_instance_id u \<Longrightarrow> u_id x = u_id u"
    and g: "\<And>x. g x = (if p x then x\<lparr>u_artifact_id := art x, u_status := ''pending'', u_message := m,
        u_retry_count := u_retry_count x + 1, u_updated_at := t, u_completed_at := None\<rparr> else x)"
    and p: "\<And>x. p x \<Longrightarrow> u_id x = u_id u"
    and rows: "db' = db\<lparr>update_attempts := map g (update_attempts db)\<rparr>"
  shows "update_safe E F db db'"
  unfolding update_safe_def
proof (intro impI conjI)
  assume inv: "updates_inv E db"
  have only: "x = u" if "p x" "x \<in> set (update_attempts db)" for x
    using attempt_unique [OF inv that(2) assms(1)] p that(1) by blast
  have idg [simp]: "u_id (g x) = u_id x" "u_instance_id (g x) = u_instance_id x" "u_operation (g x) = u_operation x"
    "u_release_id (g x) = u_release_id x" "u_parent_attempt_id (g x) = u_parent_attempt_id x" for x
    by (simp_all add: g)
  have ids: "map (u_id \<circ> g) (update_attempts db) = map u_id (update_attempts db)" by simp
  have old: "one_active (update_attempts db)" "one_rollback (update_attempts db)" using inv by (simp_all add: updates_inv_def)
  have active_g: "attempt_active x \<or> x = u" if "x \<in> set (update_attempts db)" "attempt_active (g x)" for x
    using that only by (auto simp: g split: if_splits)
  have "one_active (map g (update_attempts db))" unfolding one_active_def
  proof (intro ballI impI, elim conjE)
    fix v w assume "v \<in> set (map g (update_attempts db))" "w \<in> set (map g (update_attempts db))"
    then obtain x y where x: "x \<in> set (update_attempts db)" "v = g x" and y: "y \<in> set (update_attempts db)" "w = g y" by auto
    assume a: "attempt_active v" "attempt_active w" "u_instance_id v = u_instance_id w"
    then have "attempt_active x \<or> x = u" "attempt_active y \<or> y = u" using x y active_g by auto
    moreover have "u_instance_id x = u_instance_id y" using a x y by simp
    ultimately have "u_id x = u_id y"
      using idle x y one_activeD [OF old(1) x(1) y(1)] by metis
    then show "u_id v = u_id w" using x y by simp
  qed
  moreover have "one_rollback (map g (update_attempts db))" unfolding one_rollback_def
  proof (intro ballI impI, elim conjE)
    fix v w assume "v \<in> set (map g (update_attempts db))" "w \<in> set (map g (update_attempts db))"
    then obtain x y where x: "x \<in> set (update_attempts db)" "v = g x" and y: "y \<in> set (update_attempts db)" "w = g y" by auto
    assume "u_operation v = ''rollback''" "u_operation w = ''rollback''" "u_parent_attempt_id v \<noteq> None"
      "u_parent_attempt_id v = u_parent_attempt_id w"
    then have "u_operation x = ''rollback''" "u_operation y = ''rollback''" "u_parent_attempt_id x \<noteq> None"
      "u_parent_attempt_id x = u_parent_attempt_id y" using x y by simp_all
    then have "u_id x = u_id y" by (rule one_rollbackD [OF old(2) x(1) y(1)])
    then show "u_id v = u_id w" using x y by simp
  qed
  moreover have "retry_count_ok (g x)" if x: "x \<in> set (update_attempts db)" for x
  proof -
    have "retry_count_ok x" using inv x by (simp add: updates_inv_def list_all_iff)
    then show ?thesis using only [OF _ x] assms(2) by (auto simp: g retry_count_ok_def)
  qed
  moreover have "upgrade_selected (releases db) (release_targets db) (g x)" if x: "x \<in> set (update_attempts db)" for x
    using inv x by (simp add: updates_inv_def list_all_iff upgrade_selected_def)
  moreover have "attempt_ids db' = attempt_ids db" by (simp add: rows attempt_ids_def image_image)
  moreover have "distinct (map (u_id \<circ> g) (update_attempts db))"
    unfolding ids using inv by (simp add: updates_inv_def)
  ultimately show "updates_inv E db'" using inv by (simp add: rows updates_inv_def list_all_iff)
  have "upgrade_ids rid iid db' = upgrade_ids rid iid db" for rid iid
    by (simp add: upgrade_ids_def rows filter_map comp_def image_image)
  then show "excluded_kept F db db'" by (simp add: excluded_kept_def target_state_def rows)
  show "ids_not_reused E db db'" using \<open>attempt_ids db' = attempt_ids db\<close> by (simp add: ids_not_reused_def rows)
  show "attempts_follow db db'" unfolding attempts_follow_def
  proof (intro ballI impI)
    fix x v assume x: "x \<in> set (update_attempts db)" and v: "v \<in> set (update_attempts db')" "u_id v = u_id x"
    then obtain y where y: "y \<in> set (update_attempts db)" "v = g y" by (auto simp: rows)
    then have "y = x" using attempt_unique [OF inv y(1) x] v(2) by simp
    with y show "follows x v" by (simp add: follows_def g)
  qed
qed

text \<open>Targets.\<close>

lemma target_lookup_update:
  "target_lookup r i (update_where (\<lambda>x. t_release_id x = rid \<and> t_instance_id x = iid) (\<lambda>x. x\<lparr>t_state := st, t_updated_at := t\<rparr>) ts)
     = (if r = rid \<and> i = iid then map_option (\<lambda>_. st) (target_lookup r i ts) else target_lookup r i ts)"
  by (induction ts) (auto simp: target_lookup_def update_where_def)

lemma target_state_set:
  "target_state r i (set_target rid iid st t db) = (if r = rid \<and> i = iid then Some st else target_state r i db)"
  by (auto simp: target_state_lookup set_target_def target_lookup_update)
    (auto simp: target_lookup_def find_append split: option.splits)

lemma target_state_None: "target_state rid iid db = None \<longleftrightarrow> (rid, iid) \<notin> target_key ` set (release_targets db)"
  by (auto simp: target_state_def find_None target_key_def)

lemma safe_set_target:
  assumes "\<exists>r \<in> set (releases db). r_id r = rid \<and> r_status r = ''published''"
    and "st = ''excluded'' \<or> target_state rid iid db \<noteq> Some ''excluded'' \<or> (rid, iid) \<in> F"
  shows "update_safe E F db (set_target rid iid st t db)"
  unfolding update_safe_def
proof (intro impI conjI)
  let ?db = "set_target rid iid st t db"
  assume inv: "updates_inv E db"
  have same: "releases ?db = releases db" "update_attempts ?db = update_attempts db" "ids_drawn ?db = ids_drawn db"
    by (simp_all add: set_target_def)
  have "distinct (map target_key (release_targets ?db))"
  proof (cases "target_state rid iid db = None")
    case True
    then show ?thesis using inv target_state_None [of rid iid db]
      by (auto simp: set_target_def updates_inv_def target_key_def)
  next
    case False
    then have "map target_key (release_targets ?db) = map target_key (release_targets db)"
      by (simp add: set_target_def map_update_where target_key_def)
    then show ?thesis using inv by (simp add: updates_inv_def)
  qed
  moreover have "target_published (releases db) x" if "x \<in> set (release_targets ?db)" for x
    using that assms(1) inv
    by (auto simp: set_target_def updates_inv_def list_all_iff target_published_def split: if_splits elim!: update_whereE)
  moreover have "upgrade_selected (releases db) (release_targets ?db) u" if "u \<in> set (update_attempts db)" for u
  proof -
    have "target_lookup a b (release_targets db) \<noteq> None \<Longrightarrow> target_lookup a b (release_targets ?db) \<noteq> None" for a b
      using target_state_set [of a b rid iid st t db] by (auto simp: target_state_lookup split: if_splits)
    then show ?thesis using inv that by (fastforce simp: updates_inv_def list_all_iff upgrade_selected_def)
  qed
  ultimately show "updates_inv E ?db"
    using inv by (simp add: updates_inv_def same list_all_iff attempt_ids_def)
  show "excluded_kept F db ?db"
    using assms(2) by (auto simp: excluded_kept_def target_state_set upgrade_ids_def same)
  show "attempts_follow db ?db" by (rule attempts_follow_same [OF inv same(2)])
  show "ids_not_reused E db ?db" by (simp add: ids_not_reused_def attempt_ids_def same)
qed

text \<open>Releases.\<close>

definition release_move :: "release_row list \<Rightarrow> release_row \<Rightarrow> release_row \<Rightarrow> bool" where
  "release_move rs r q \<longleftrightarrow> r_id q = r_id r \<and> release_ok q \<and> (r_status r = ''published'' \<longrightarrow> r_status q = ''published'')
     \<and> (controlled q \<longrightarrow> controlled r \<or> (\<forall>x \<in> set rs. r_id x \<noteq> r_id r \<longrightarrow> \<not> controlled x))
     \<and> (is_canary q \<longrightarrow> is_canary r \<or> r_status r = ''draft'')"

lemma release_move_refl: "release_ok r \<Longrightarrow> release_move rs r r"
  by (simp add: release_move_def)

lemma safe_release_change:
  assumes rows: "db' = db\<lparr>releases := map g (releases db)\<rparr>"
    and other: "\<And>r. r \<in> set (releases db) \<Longrightarrow> r_id r \<noteq> rid \<Longrightarrow> g r = r"
    and move: "\<And>r. updates_inv E db \<Longrightarrow> r \<in> set (releases db) \<Longrightarrow> r_id r = rid \<Longrightarrow> release_move (releases db) r (g r)"
  shows "update_safe E F db db'"
  unfolding update_safe_def
proof (intro impI conjI)
  assume inv: "updates_inv E db"
  have ok: "list_all release_ok (releases db)" "one_controlled (releases db)" using inv by (simp_all add: updates_inv_def)
  have m: "release_move (releases db) r (g r)" if "r \<in> set (releases db)" for r
  proof (cases "r_id r = rid")
    case True
    then show ?thesis by (rule move [OF inv that])
  next
    case False
    have "release_ok r" using ok(1) that by (simp add: list_all_iff)
    then show ?thesis by (simp add: other [OF that False] release_move_refl)
  qed
  have ids: "map (r_id \<circ> g) (releases db) = map r_id (releases db)" using m by (simp add: release_move_def)
  have single: "r_id x = r_id y" if "x \<in> set (releases db)" "y \<in> set (releases db)" "controlled x" "controlled (g y)" for x y
  proof -
    have "controlled y \<or> (\<forall>z \<in> set (releases db). r_id z \<noteq> r_id y \<longrightarrow> \<not> controlled z)"
      using m [OF that(2)] that(4) by (simp add: release_move_def)
    then show ?thesis using ok(2) that(1-3) unfolding one_controlled_def by blast
  qed
  have "one_controlled (map g (releases db))" unfolding one_controlled_def
  proof (intro ballI impI, elim conjE)
    fix v w assume "v \<in> set (map g (releases db))" "w \<in> set (map g (releases db))"
    then obtain x y where x: "x \<in> set (releases db)" "v = g x" and y: "y \<in> set (releases db)" "w = g y" by auto
    assume c: "controlled v" "controlled w"
    have "r_id x = r_id y"
    proof (cases "r_id x = rid")
      case False
      then have "controlled x" using other [OF x(1)] c(1) x(2) by simp
      then show ?thesis using single [OF x(1) y(1)] c(2) y(2) by simp
    next
      case True
      show ?thesis
      proof (cases "r_id y = rid")
        case False
        then have "controlled y" using other [OF y(1)] c(2) y(2) by simp
        then show ?thesis using single [OF y(1) x(1)] c(1) x(2) by simp
      qed (simp add: True)
    qed
    then show "r_id v = r_id w" using m x y by (simp add: release_move_def)
  qed
  moreover have "list_all release_ok (map g (releases db))" using m by (simp add: list_all_iff release_move_def)
  moreover have "upgrade_selected (map g (releases db)) (release_targets db) u" if u: "u \<in> set (update_attempts db)" for u
  proof -
    have old: "upgrade_selected (releases db) (release_targets db) u" using inv u by (simp add: updates_inv_def list_all_iff)
    show ?thesis unfolding upgrade_selected_def
    proof
      assume "u_operation u = ''upgrade''"
      then obtain r where r: "r \<in> set (releases db)" "r_id r = u_release_id u" "r_status r = ''published''"
        "is_canary r \<longrightarrow> target_lookup (u_release_id u) (u_instance_id u) (release_targets db) \<noteq> None"
        using old by (auto simp: upgrade_selected_def)
      with m [OF r(1)] have "r_id (g r) = u_release_id u" "r_status (g r) = ''published''" "is_canary (g r) \<Longrightarrow> is_canary r"
        by (auto simp: release_move_def)
      with r show "\<exists>r \<in> set (map g (releases db)). r_id r = u_release_id u \<and> r_status r = ''published''
          \<and> (is_canary r \<longrightarrow> target_lookup (u_release_id u) (u_instance_id u) (release_targets db) \<noteq> None)" by auto
    qed
  qed
  moreover have "target_published (map g (releases db)) t" if t: "t \<in> set (release_targets db)" for t
  proof -
    have "target_published (releases db) t" using inv t by (simp add: updates_inv_def list_all_iff)
    then obtain r where "r \<in> set (releases db)" "r_id r = t_release_id t" "r_status r = ''published''"
      by (auto simp: target_published_def)
    then show ?thesis using m by (force simp: target_published_def release_move_def)
  qed
  moreover have "distinct (map (r_id \<circ> g) (releases db))"
    unfolding ids using inv by (simp add: updates_inv_def)
  ultimately show "updates_inv E db'"
    using inv by (simp add: rows updates_inv_def list_all_iff attempt_ids_def)
  have same: "update_attempts db' = update_attempts db" "ids_drawn db' = ids_drawn db" "release_targets db' = release_targets db"
    by (simp_all add: rows)
  show "excluded_kept F db db'" by (simp add: excluded_kept_def target_state_def upgrade_ids_def same)
  show "attempts_follow db db'" by (rule attempts_follow_same [OF inv same(1)])
  show "ids_not_reused E db db'" by (simp add: ids_not_reused_def attempt_ids_def same)
qed

end
