(* ===== verification/UpdateSteps.thy ===== *)
theory UpdateSteps
  imports UpdateSafety
begin

text \<open>
  The handlers of the update component up to the pausing of a release are safe: their elementary steps
  are, and each guard of the code supplies what its step needs.  \<open>UpdateMachine\<close> has the others.
\<close>

subsection \<open>Releases appear and disappear\<close>

lemma one_controlledD: "one_controlled rs \<Longrightarrow> r \<in> set rs \<Longrightarrow> q \<in> set rs \<Longrightarrow> controlled r \<Longrightarrow> controlled q
    \<Longrightarrow> r_id r = r_id q"
  unfolding one_controlled_def by blast

lemma one_controlled_append:
  assumes "one_controlled rs" "\<not> controlled r"
  shows "one_controlled (rs @ [r])"
  unfolding one_controlled_def
proof (intro ballI impI, elim conjE)
  fix x q assume h: "x \<in> set (rs @ [r])" "q \<in> set (rs @ [r])" "controlled x" "controlled q"
  then have "x \<in> set rs" "q \<in> set rs" using assms(2) by auto
  then show "r_id x = r_id q" using h(3,4) by (rule one_controlledD [OF assms(1)])
qed

lemma safe_new_release:
  assumes "r_status r = ''draft''" "r_rollout_state r = ''draft''" "r_id r \<notin> r_id ` set (releases db)"
  shows "update_safe E F db (db\<lparr>releases := releases db @ [r]\<rparr>)"
  unfolding update_safe_def
proof (intro impI conjI)
  let ?db = "db\<lparr>releases := releases db @ [r]\<rparr>"
  assume inv: "updates_inv E db"
  have "\<not> controlled r" by (simp add: controlled_def controlled_states_def assms)
  then have "one_controlled (releases db @ [r])" using inv by (simp add: one_controlled_append updates_inv_def)
  moreover have "release_ok r" by (simp add: release_ok_def assms)
  moreover have "upgrade_selected (releases db) ts u \<Longrightarrow> upgrade_selected (releases db @ [r]) ts u" for u ts
    by (auto simp: upgrade_selected_def)
  moreover have "target_published (releases db) t \<Longrightarrow> target_published (releases db @ [r]) t" for t
    by (auto simp: target_published_def)
  ultimately show "updates_inv E ?db"
    using inv assms(3) by (simp add: updates_inv_def list_all_iff attempt_ids_def)
  show "excluded_kept F db ?db" by (simp add: excluded_kept_def target_state_def upgrade_ids_def)
  show "attempts_follow db ?db" by (rule attempts_follow_same [OF inv]) simp
  show "ids_not_reused E db ?db" by (simp add: ids_not_reused_def attempt_ids_def)
qed

lemma find_delete_where:
  "(\<And>x. x \<in> set xs \<Longrightarrow> p x \<Longrightarrow> \<not> q x) \<Longrightarrow> find p (delete_where q xs) = find p xs"
  by (induction xs) (auto simp: delete_where_def)

lemma target_lookup_delete:
  "r \<noteq> rid \<Longrightarrow> target_lookup r i (delete_where (\<lambda>t. t_release_id t = rid) ts) = target_lookup r i ts"
  unfolding target_lookup_def by (subst find_delete_where) auto

lemma safe_drop_release:
  assumes "\<And>u. u \<in> set (update_attempts db) \<Longrightarrow> u_release_id u \<noteq> rid" "{rid} \<times> UNIV \<subseteq> F"
    and rows: "db' = db\<lparr>releases := delete_where (\<lambda>r. r_id r = rid) (releases db), artifacts := arts,
      release_targets := delete_where (\<lambda>t. t_release_id t = rid) (release_targets db)\<rparr>"
  shows "update_safe E F db db'"
  unfolding update_safe_def
proof (intro impI conjI)
  assume inv: "updates_inv E db"
  have "upgrade_selected (releases db') (release_targets db') u" if u: "u \<in> set (update_attempts db)" for u
  proof -
    have "upgrade_selected (releases db) (release_targets db) u" using inv u by (simp add: updates_inv_def list_all_iff)
    then show ?thesis using assms(1) [OF u] by (fastforce simp: upgrade_selected_def rows target_lookup_delete)
  qed
  moreover have "target_published (releases db') t" if t: "t \<in> set (release_targets db')" for t
  proof -
    have "target_published (releases db) t" "t_release_id t \<noteq> rid"
      using inv t by (auto simp: updates_inv_def list_all_iff rows)
    then show ?thesis by (auto simp: target_published_def rows)
  qed
  moreover have "one_controlled (releases db')" "list_all release_ok (releases db')"
    using inv by (auto simp: updates_inv_def one_controlled_def list_all_iff rows)
  moreover have "distinct (map r_id (releases db'))" "distinct (map target_key (release_targets db'))"
    using inv by (auto simp: updates_inv_def rows delete_where_def intro: distinct_map_filter)
  ultimately show "updates_inv E db'" using inv by (simp add: updates_inv_def list_all_iff attempt_ids_def rows)
  have same: "update_attempts db' = update_attempts db" "ids_drawn db' = ids_drawn db" by (simp_all add: rows)
  have "target_state r i db' = target_state r i db" if "(r, i) \<notin> F" for r i
  proof -
    have "r \<noteq> rid" using that assms(2) by auto
    then show ?thesis by (simp add: target_state_lookup rows target_lookup_delete)
  qed
  then show "excluded_kept F db db'" by (simp add: excluded_kept_def upgrade_ids_def same)
  show "attempts_follow db db'" by (rule attempts_follow_same [OF inv same(1)])
  show "ids_not_reused E db db'" by (simp add: ids_not_reused_def attempt_ids_def same)
qed

text \<open>Dropping attempts, with their children orphaned.\<close>

lemma safe_drop_attempts:
  "update_safe E F db (db\<lparr>update_attempts := orphan_parents gone (delete_where q (update_attempts db))\<rparr>)"
  by (rule safe_attempts_part [where q = "\<lambda>u. \<not> q u" and g = "\<lambda>u. if (case u_parent_attempt_id u of None \<Rightarrow> False
      | Some x \<Rightarrow> x \<in> u_id ` set gone) then u\<lparr>u_parent_attempt_id := None\<rparr> else u"])
    (simp_all add: orphan_parents_def update_where_def delete_where_def mild_def attempt_active_def)

lemma safe_cascade:
  assumes "{rid} \<times> UNIV \<subseteq> F"
  shows "update_safe E F db (cascade_release rid db)"
proof -
  let ?mid = "db\<lparr>update_attempts := orphan_parents (filter (attempt_goes rid db) (update_attempts db))
      (delete_where (attempt_goes rid db) (update_attempts db))\<rparr>"
  have "update_safe E F ?mid (cascade_release rid db)"
  proof (rule safe_drop_release [OF _ assms, where arts = "delete_where (\<lambda>a. a_release_id a = rid) (artifacts db)"])
    show "u_release_id u \<noteq> rid" if "u \<in> set (update_attempts ?mid)" for u
      using that by (auto simp: orphan_parents_def attempt_goes_def elim!: update_whereE)
  qed (simp add: cascade_release_def)
  with safe_drop_attempts show ?thesis by (rule update_safe_trans)
qed

subsection \<open>Rollbacks and offers\<close>

lemma mild_status:
  "u_status u \<notin> set done_statuses \<Longrightarrow> attempt_active u \<Longrightarrow>
    mild u (u\<lparr>u_status := st, u_message := m, u_updated_at := t, u_completed_at := c\<rparr>)"
  "u_status u \<notin> set done_statuses \<Longrightarrow> attempt_active u \<Longrightarrow> mild u (u\<lparr>u_status := st, u_updated_at := t\<rparr>)"
  "u_status u \<notin> set done_statuses \<Longrightarrow> attempt_active u \<Longrightarrow>
    mild u (u\<lparr>u_artifact_id := a, u_status := st, u_message := m, u_updated_at := t\<rparr>)"
  by (simp_all add: mild_def)

lemmas status_defs = attempt_active_def terminal_attempt_statuses_def done_statuses_def pre_handoff_statuses_def

lemma safe_queue_rollback_tx [safe_rules]:
  "safe_at (fresh_id env) F (queue_rollback_for_upgrade_in_transaction env up) db"
proof -
  have "update_safe (fresh_id env) F db (snd (insert_attempt
      \<lparr>u_id = fresh_id env (ids_drawn db), u_release_id = a, u_artifact_id = b, u_instance_id = c, u_operation = ''rollback'',
       u_parent_attempt_id = d, u_from_version = e, u_target_version = f, u_status = st, u_message = m,
       u_retry_count = 0, u_created_at = t, u_updated_at = t', u_completed_at = k\<rparr>
      (db\<lparr>ids_drawn := Suc (ids_drawn db)\<rparr>)))" for a b c d e f st m t t' k
    by (rule safe_insert) simp_all
  then show ?thesis
    by (simp add: queue_rollback_for_upgrade_in_transaction_def safe_at_def h_bind_def get_instance_def draw_id_def
        Let_def split_beta split: option.split)
qed

lemma safe_queue_rollback [safe_rules]: "safe_at (fresh_id env) F (queue_rollback_for_upgrade env up) db"
  unfolding queue_rollback_for_upgrade_def by (intro safe_bind safe_transaction safe_queue_rollback_tx) simp

lemma safe_queue_rollbacks [safe_rules]: "safe_at (fresh_id env) F (queue_rollbacks env ups) db"
  by (induction ups arbitrary: db) (auto intro!: safe_bind safe_queue_rollback)

lemma safe_finish_rollback [safe_rules]: "update_safe E F db (finish_rollback env rid db)"
proof -
  have "update_safe E F db (change_releases (\<lambda>r. r_id r = rid \<and> r_rollout_state r = ''rollback_active'')
      (\<lambda>r. r\<lparr>r_rollout_state := st, r_rollout_updated_at := t\<rparr>) db)" if "st \<in> {''rollback_partial'', ''rolled_back''}" for st t
  proof (rule safe_release_change [where rid = rid and g = "\<lambda>r. if r_id r = rid \<and> r_rollout_state r = ''rollback_active''
      then r\<lparr>r_rollout_state := st, r_rollout_updated_at := t\<rparr> else r"])
    fix r assume inv: "updates_inv E db" "r \<in> set (releases db)"
    then have "release_ok r" by (simp add: updates_inv_def list_all_iff)
    then show "release_move (releases db) r (if r_id r = rid \<and> r_rollout_state r = ''rollback_active''
        then r\<lparr>r_rollout_state := st, r_rollout_updated_at := t\<rparr> else r)"
      using that by (auto simp: release_move_def release_ok_def controlled_def controlled_states_def is_canary_def)
  qed (simp_all add: change_releases_def update_where_def)
  then show ?thesis by (simp add: finish_rollback_def)
qed

lemma safe_pre_handoff:
  "update_safe E F db (change_attempts (\<lambda>x. u_id x = i \<and> u_status x = st \<and> u_status x \<in> set pre_handoff_statuses)
     (\<lambda>x. x\<lparr>u_artifact_id := a, u_status := st', u_message := m, u_updated_at := t\<rparr>) db)"
  by (rule safe_change_attempts) (auto simp: mild_def status_defs)

lemma safe_deliver:
  "update_safe E F db (change_attempts (\<lambda>x. u_id x = i \<and> u_status x = ''pending'' \<and> q x)
     (\<lambda>x. x\<lparr>u_status := ''waiting'', u_updated_at := t\<rparr>) db)"
  "update_safe E F db (change_attempts (\<lambda>x. u_id x = i \<and> u_status x = ''pending'')
     (\<lambda>x. x\<lparr>u_status := ''waiting'', u_updated_at := t\<rparr>) db)"
  by (rule safe_change_attempts, auto simp: mild_def status_defs)+

lemma safe_reconcile_artifact [safe_rules]: "safe_at E F (reconcile_artifact env inst cand) db"
proof -
  obtain u rel art where "cand = (u, rel, art)" by (cases cand)
  then show ?thesis
    by (simp add: safe_at_def reconcile_artifact_def Let_def safe_pre_handoff split: option.split)
qed

lemma safe_deliver_pending [safe_rules]: "safe_at E F (deliver_pending env cand) db"
proof -
  obtain u rel art where "cand = (u, rel, art)" by (cases cand)
  then show ?thesis by (simp add: safe_at_def deliver_pending_def Let_def safe_deliver)
qed

lemma safe_active_upgrade_offer [safe_rules]: "safe_at E F (active_upgrade_offer env inst i) db"
proof -
  have "safe_at E F (h_bind (reconcile_artifact env inst cand) (\<lambda>found. case found of None \<Rightarrow> h_return None
      | Some (u, rel, art) \<Rightarrow> h_bind (deliver_pending env (u, rel, art)) (\<lambda>delivered.
          if \<not> delivered then h_return None
          else h_bind (h_lift (signed_offer env (offer_of inst u rel art))) (\<lambda>off. h_return (Some off))))) db" for cand
    by (intro safe_bind safe_reconcile_artifact)
      (auto split: option.split intro!: safe_bind safe_deliver_pending)
  then show ?thesis by (auto simp: active_upgrade_offer_def safe_at_def split: option.split)
qed

lemma safe_find_rollback [safe_rules]: "safe_at E F (find_rollback_for_instance env inst) db"
  by (simp add: find_rollback_for_instance_def safe_at_def Let_def handler_simps safe_deliver split: option.split sum.split)

lemma rollout_candidate_allowed:
  assumes "(rel, art) \<in> set (rollout_candidates inst db)"
  shows "upgrade_allowed db (r_id rel) (i_id inst)"
proof -
  have "rel \<in> set (releases db)" "r_status rel = ''published''" "rolled_out_to (i_id inst) rel db"
    using assms by (auto simp: rollout_candidates_def split: if_splits)
  then show ?thesis
    by (auto simp: upgrade_allowed_def rolled_out_to_def is_canary_def Let_def intro!: bexI [of _ rel])
qed

lemma selected_candidate:
  assumes "select_update_candidate env inst db = Some (rel, art)"
  shows "(rel, art) \<in> set (rollout_candidates inst db) \<and> manageable inst"
proof -
  have "manageable inst" "\<exists>v. max_by_key fst (rev (upgrade_candidates env inst db)) = Some (v, rel, art)"
    using assms by (auto simp: select_update_candidate_def split: if_splits)
  then obtain v where "(v, rel, art) \<in> set (upgrade_candidates env inst db)" by (auto dest: max_by_key_Some)
  then show ?thesis
    using \<open>manageable inst\<close>
    by (auto simp: upgrade_candidates_def List.map_filter_def split: option.splits if_splits)
qed

lemma safe_start_upgrade [safe_rules]: "safe_at (fresh_id env) F (start_upgrade env inst) db"
proof (cases "select_update_candidate env inst db")
  case None
  then show ?thesis by (simp add: start_upgrade_def safe_at_def)
next
  case (Some sel)
  obtain rel art where sel: "sel = (rel, art)" by (cases sel)
  let ?u = "fresh_attempt env (fresh_id env (ids_drawn db)) inst (r_id rel) (r_version rel) (a_id art) (''pending'', [], None)"
  let ?r = "insert_attempt ?u (db\<lparr>ids_drawn := Suc (ids_drawn db)\<rparr>)"
  have "upgrade_allowed db (r_id rel) (i_id inst)"
    using selected_candidate Some sel rollout_candidate_allowed by blast
  then have ins: "update_safe (fresh_id env) F db (snd ?r)"
    by (intro safe_insert) (simp_all add: fresh_attempt_def)
  have "update_safe (fresh_id env) F (snd ?r) (snd (active_upgrade_offer env inst i (snd ?r)))" for i
    using safe_active_upgrade_offer by (simp add: safe_at_def)
  then have "update_safe (fresh_id env) F db (snd (active_upgrade_offer env inst i (snd ?r)))" for i
    by (rule update_safe_trans [OF ins])
  then show ?thesis using ins
    by (auto simp: start_upgrade_def Some sel safe_at_def h_bind_def draw_id_def split: prod.split bool.split)
qed

lemma safe_find_update [safe_rules]: "safe_at (fresh_id env) F (find_update_for_instance env inst) db"
  unfolding find_update_for_instance_def
  by (intro safe_bind safe_active_upgrade_offer) (simp add: safe_start_upgrade split: option.split)

lemma update_safe_pair: "safe_at E F m db \<Longrightarrow> m db = (r, db1) \<Longrightarrow> update_safe E F db db1"
  by (simp add: safe_at_def)

lemma safe_notify [safe_rules]: "update_safe (fresh_id env) F db (notify_instance env iid db)"
proof (cases "instance_by_id iid db")
  case None
  then show ?thesis by (simp add: notify_instance_def)
next
  case (Some inst)
  obtain r1 db1 where r1: "find_rollback_for_instance env inst db = (r1, db1)" by fastforce
  obtain r2 db2 where r2: "find_update_for_instance env inst db1 = (r2, db2)" by fastforce
  have s1: "update_safe (fresh_id env) F db db1" using safe_find_rollback r1 by (rule update_safe_pair)
  have "update_safe (fresh_id env) F db1 db2" using safe_find_update r2 by (rule update_safe_pair)
  with s1 have s2: "update_safe (fresh_id env) F db db2" by (rule update_safe_trans)
  have "update_safe (fresh_id env) F db (send_to iid m db1)" "update_safe (fresh_id env) F db (send_to iid m db2)" for m
    using update_safe_trans [OF s1] update_safe_trans [OF s2] by simp_all
  then show ?thesis using s1 s2 by (auto simp: notify_instance_def Some r1 r2 split: sum.split option.split)
qed

lemma safe_notify_all [safe_rules]: "update_safe (fresh_id env) F db (notify_instances env iids db)"
  unfolding notify_instances_def
proof (induction iids arbitrary: db)
  case (Cons iid iids)
  have "update_safe (fresh_id env) F db (notify_instance env iid db)" by (rule safe_notify)
  then show ?case using Cons by (auto intro: update_safe_trans)
qed simp

lemma safe_notify_retried [safe_rules]: "update_safe (fresh_id env) F db (notify_retried_attempt env iid uid db)"
proof (cases "instance_by_id iid db")
  case None
  then show ?thesis by (simp add: notify_retried_attempt_def)
next
  case (Some inst)
  obtain r1 db1 where r1: "active_upgrade_offer env inst (Some uid) db = (r1, db1)" by fastforce
  have s1: "update_safe (fresh_id env) F db db1" using safe_active_upgrade_offer r1 by (rule update_safe_pair)
  then have "update_safe (fresh_id env) F db (send_to iid m db1)" for m by (rule update_safe_trans) simp
  then show ?thesis using s1 safe_notify
    by (auto simp: notify_retried_attempt_def Some r1 split: sum.split option.split)
qed

lemma safe_reconcile [safe_rules]: "safe_at (fresh_id env) F (reconcile_release_rollback env rid) db"
proof -
  have "update_safe (fresh_id env) F d (finish_rollback env rid (notify_instances env p d))" for p d
    using safe_notify_all safe_finish_rollback by (rule update_safe_trans)
  then have "safe_at (fresh_id env) F (h_bind (queue_rollbacks env ups) (\<lambda>pending.
      h_modify (finish_rollback env rid \<circ> notify_instances env pending))) d" for ups d
    by (intro safe_bind safe_queue_rollbacks) simp
  then have "safe_at (fresh_id env) F (\<lambda>db. h_bind (queue_rollbacks env (latest_upgrades rid db)) (\<lambda>pending.
      h_modify (finish_rollback env rid \<circ> notify_instances env pending)) db) d" for d
    by (simp add: safe_at_def)
  then show ?thesis unfolding reconcile_release_rollback_def by (intro safe_bind) simp_all
qed

lemma safe_reconcile_all [safe_rules]: "safe_at (fresh_id env) F (reconcile_all env rids) db"
  by (induction rids arbitrary: db) (auto intro!: safe_then safe_reconcile)

subsection \<open>Reports, confirmations, time-outs\<close>

lemma terminal_final:
  "update_status_transition_allowed a b \<Longrightarrow> a \<in> set terminal_attempt_statuses \<Longrightarrow> b = a"
  by (simp add: update_status_transition_allowed_def)

lemma safe_write_status:
  assumes "\<And>u. u \<in> set (update_attempts db) \<Longrightarrow> u_id u = uid \<Longrightarrow> u_status u \<in> set terminal_attempt_statuses \<Longrightarrow> u_status u = st"
  shows "update_safe E F db (write_status env uid st m db)"
  unfolding write_status_def
proof (rule safe_change_attempts)
  fix u assume u: "u \<in> set (update_attempts db)" "u_id u = uid"
  have "attempt_active u \<or> u_status u = st" using assms [OF u] by (auto simp: attempt_active_def)
  moreover have "u_status u \<in> set done_statuses \<Longrightarrow> u_status u \<in> set terminal_attempt_statuses"
    by (auto simp: status_defs)
  ultimately show "mild u (u\<lparr>u_status := st, u_message := m, u_updated_at := now env,
      u_completed_at := if st \<in> set terminal_attempt_statuses then Some (now env) else None\<rparr>)"
    using assms [OF u] by (auto simp: mild_def attempt_active_def)
qed

lemma update_safeI: "(updates_inv E db \<Longrightarrow> update_safe E F db db') \<Longrightarrow> update_safe E F db db'"
  by (auto simp: update_safe_def)

lemma safe_write_status_row:
  assumes "u \<in> set (update_attempts db)" "u_id u = uid" "u_status u = st \<or> update_status_transition_allowed (u_status u) st"
  shows "update_safe E F db (write_status env uid st m db)"
proof (rule update_safeI, rule safe_write_status)
  fix v assume "updates_inv E db" "v \<in> set (update_attempts db)" "u_id v = uid" "u_status v \<in> set terminal_attempt_statuses"
  then show "u_status v = st" using attempt_unique [of E db v u] assms terminal_final by auto
qed

lemma report_target_row: "report_target iid i rid aid v n db = Some u \<Longrightarrow> u \<in> set (update_attempts db)"
  by (auto simp: report_target_def Let_def split: option.splits dest!: find_SomeD max_by_key_Some)

lemma safe_record_update_status [safe_rules]:
  "safe_at E F (record_update_status_for_attempt env iid i rid aid v n st m) db"
proof (cases "report_target iid i rid aid v n db")
  case None
  then show ?thesis by (auto simp: safe_at_def record_update_status_for_attempt_def Let_def)
next
  case (Some u)
  have w: "update_safe E F db (write_status env (u_id u) st m db)" if "update_status_transition_allowed (u_status u) st" for m st
    using report_target_row [OF Some] refl that by (intro safe_write_status_row) auto
  have "update_safe E F db (set_agent_version a b (write_status env (u_id u) st m db))"
    if "update_status_transition_allowed (u_status u) st" for a b m st by (rule update_safe_trans [OF w [OF that, of m]]) simp
  with w Some show ?thesis by (simp add: safe_at_def record_update_status_for_attempt_def Let_def)
qed

lemma safe_connection_update_status [safe_rules]:
  "safe_at (fresh_id env) F (record_connection_update_status env iid conn i rid aid v n st m) db"
proof -
  have "safe_at (fresh_id env) F (h_then (record_update_status_for_attempt env iid i rid aid v n st m)
      (h_then (reconcile_release_rollback env rid) (h_return True))) db"
    by (intro safe_then safe_record_update_status safe_reconcile) simp
  then show ?thesis by (simp add: safe_at_def record_connection_update_status_def)
qed

lemma safe_connection_rollback_status [safe_rules]:
  "safe_at (fresh_id env) F (record_connection_rollback_status env iid conn uid n st m) db"
proof (cases "find (\<lambda>u. u_id u = uid \<and> u_instance_id u = iid \<and> u_operation u = ''rollback'' \<and> u_retry_count u = n)
    (update_attempts db)")
  case None
  then show ?thesis by (simp add: safe_at_def record_connection_rollback_status_def Let_def)
next
  case (Some u)
  then have u: "u \<in> set (update_attempts db)" "u_id u = uid" by (auto dest: find_SomeD)
  have rec: "safe_at (fresh_id env) F (h_then (reconcile_release_rollback env r) (h_return True)) d" for r d
    by (intro safe_then safe_reconcile) simp
  have w: "update_safe (fresh_id env) F db (write_status env uid st m db)"
    if "\<not> (u_status u \<noteq> st \<and> \<not> update_status_transition_allowed (u_status u) st)" for m
    using u that by (intro safe_write_status_row) auto
  have w2: "update_safe (fresh_id env) F db (clear_rollback_baseline a (set_agent_version b c (write_status env uid st m db)))"
    if "\<not> (u_status u \<noteq> st \<and> \<not> update_status_transition_allowed (u_status u) st)" for m a b c
    by (rule update_safe_trans [OF w [OF that]]) (rule update_safe_trans, rule safe_fields, rule safe_fields)
  have "update_safe (fresh_id env) F db (snd (h_then (reconcile_release_rollback env r) (h_return True) d))"
    if "update_safe (fresh_id env) F db d" for r d
    using rec that by (auto simp: safe_at_def intro: update_safe_trans)
  with w w2 Some show ?thesis
    by (auto simp: safe_at_def record_connection_rollback_status_def Let_def)
qed

lemma update_safe_after: "update_safe E F a b \<Longrightarrow> safe_at E F m b \<Longrightarrow> update_safe E F a (snd (m b))"
  unfolding safe_at_def by (rule update_safe_trans)

lemma safe_confirm [safe_rules]: "safe_at (fresh_id env) F (confirm_update_version env iid v) db"
proof -
  have c: "update_safe (fresh_id env) F db (change_attempts (confirmed_by_version iid v db)
      (\<lambda>u. u\<lparr>u_status := g u, u_message := m, u_updated_at := t, u_completed_at := t'\<rparr>) db)"
    if "\<And>u. g u \<in> set terminal_attempt_statuses" for g m t t'
    using that by (intro safe_change_attempts) (auto simp: mild_def confirmed_by_version_def status_defs)
  have "update_safe (fresh_id env) F db (change_attempts (confirmed_by_version iid v db)
      (\<lambda>u. u\<lparr>u_status := (if u_operation u = ''rollback'' then ''rollback_succeeded'' else ''succeeded''),
         u_message := [], u_updated_at := now env, u_completed_at := Some (now env)\<rparr>) db)"
    by (rule c) (simp add: terminal_attempt_statuses_def)
  note step = this update_safe_trans [OF this safe_fields(9)]
  show ?thesis
    unfolding safe_at_def confirm_update_version_def Let_def
    by (rule update_safe_after) (auto intro: step safe_reconcile_all)
qed

lemma safe_expire [safe_rules]: "update_safe E F db (expire_restart_attempts env db)"
  unfolding expire_restart_attempts_def by (rule safe_change_attempts) (auto simp: mild_def status_defs)

lemma safe_timeout_tick [safe_rules]: "update_safe (fresh_id env) F db (update_timeout_tick env db)"
proof -
  have "update_safe (fresh_id env) F d (fold (\<lambda>rid d. snd (reconcile_release_rollback env rid d)) rids d)" for rids d
  proof (induction rids arbitrary: d)
    case (Cons rid rids)
    have "update_safe (fresh_id env) F d (snd (reconcile_release_rollback env rid d))"
      using safe_reconcile by (simp add: safe_at_def)
    then show ?case using Cons by (auto intro: update_safe_trans)
  qed simp
  then show ?thesis unfolding update_timeout_tick_def Let_def using safe_expire by (rule update_safe_trans [rotated])
qed

lemma safe_register [safe_rules]: "safe_at (fresh_id env) F (agent_register env iid g) db"
  unfolding agent_register_def by (intro safe_then safe_confirm) simp

lemma safe_store_metrics [safe_rules]: "safe_at (fresh_id env) F (store_metrics env iid conn g) db"
proof -
  have "safe_at (fresh_id env) F (h_then (h_modify (change_fleet (\<lambda>i. i_id i = iid) f)) (confirm_update_version env iid v)) db" for f v
    by (intro safe_then safe_confirm) simp
  then show ?thesis by (simp add: store_metrics_def safe_at_def)
qed

lemma safe_authenticate [safe_rules]: "safe_at E F (authenticate_agent sm i sec) db"
  unfolding authenticate_agent_def by (intro safe_bind) simp_all

lemma safe_manifest [safe_rules]: "safe_at (fresh_id env) F (agent_update_manifest env sm i sec) db"
  unfolding agent_update_manifest_def
  by (intro safe_bind safe_authenticate safe_find_rollback) (simp_all add: safe_find_update)

lemma safe_download [safe_rules]: "safe_at E F (authorized_artifact_download sm i sec aid) db"
proof -
  have "safe_at E F (\<lambda>db. case find (\<lambda>a. a_id a = aid \<and> a_status a = ''published''
        \<and> list_ex (\<lambda>r. r_id r = a_release_id a \<and> r_status r = ''published'') (releases db)) (artifacts db) of
      None \<Rightarrow> (Inl e1, db)
    | Some art \<Rightarrow> if c art then (Inl e2, db) else if q art db then (Inl e3, db) else (Inr art, db)) d" for e1 e2 e3 c q d
    by (simp add: safe_at_def split: option.split)
  then show ?thesis unfolding authorized_artifact_download_def by (intro safe_bind safe_authenticate)
qed

subsection \<open>Requests of the administrator\<close>

lemma safe_create_release [safe_rules]: "safe_at (fresh_id env) F (create_agent_release env admin v notes) db"
proof -
  have "safe_at (fresh_id env) F (\<lambda>db. if list_ex (\<lambda>r. r_version r = v \<or> r_id r = rid) (releases db) then (Inl e, db)
      else (Inr (), db\<lparr>releases := releases db @ [\<lparr>r_id = rid, r_version = v, r_notes = n,
           r_status = ''draft'', r_rollout_state = ''draft'', r_rollout_updated_at = t, r_created_at = t', r_published_at = None\<rparr>]\<rparr>)) d"
    for v rid e n t t' d
    by (auto simp: safe_at_def list_ex_iff intro!: safe_new_release)
  moreover have "safe_at (fresh_id env) F (draw_id env) d" for d by (simp add: safe_at_def draw_id_def)
  ultimately show ?thesis unfolding create_agent_release_def by (intro safe_bind safe_then) simp_all
qed

lemma safe_update_release [safe_rules]: "safe_at E F (update_agent_release env admin rid v notes) db"
proof -
  have "update_safe E F d (change_releases (\<lambda>r. r_id r = rid \<and> r_status r = ''draft'')
      (\<lambda>r. r\<lparr>r_version := v, r_notes := n\<rparr>) d)" for v n d
  proof (rule safe_release_change [where rid = rid and g = "\<lambda>r. if r_id r = rid \<and> r_status r = ''draft''
      then r\<lparr>r_version := v, r_notes := n\<rparr> else r"])
    fix r assume inv: "updates_inv E d" "r \<in> set (releases d)"
    then have "release_ok r" by (simp add: updates_inv_def list_all_iff)
    then show "release_move (releases d) r (if r_id r = rid \<and> r_status r = ''draft'' then r\<lparr>r_version := v, r_notes := n\<rparr> else r)"
      by (auto simp: release_move_def release_ok_def controlled_def is_canary_def)
  qed (simp_all add: change_releases_def update_where_def)
  then have "safe_at E F (\<lambda>db. if list_ex (\<lambda>r. r_version r = v \<and> r_id r \<noteq> rid) (releases db) then (Inl e, db)
      else (Inr (), change_releases (\<lambda>r. r_id r = rid \<and> r_status r = ''draft'')
        (\<lambda>r. r\<lparr>r_version := v, r_notes := n\<rparr>) db)) d" for v e n d
    by (simp add: safe_at_def)
  moreover have "safe_at E F (require_draft_release rid) d" for d
    unfolding require_draft_release_def by (intro safe_bind) simp_all
  ultimately show ?thesis unfolding update_agent_release_def by (intro safe_bind safe_then) simp_all
qed

lemma safe_upload [safe_rules]: "safe_at (fresh_id env) F (upload_agent_artifact env admin rid rc n) db"
proof -
  have "safe_at (fresh_id env) F (store_artifact env rid rc n) d" for d
    unfolding store_artifact_def
    by (intro safe_bind) (auto simp: safe_at_def handler_simps draw_id_def Let_def)
  then show ?thesis unfolding upload_agent_artifact_def by (intro safe_bind) simp_all
qed

lemma safe_delete_artifact [safe_rules]: "safe_at E F (delete_agent_artifact admin rid aid) db"
proof -
  have "update_safe E F d (d\<lparr>artifacts := as, update_attempts := orphan_parents gone (delete_where q (update_attempts d))\<rparr>)" for d as gone q
    by (rule update_safe_trans [OF safe_drop_attempts]) (rule safe_core_same, simp_all)
  then show ?thesis unfolding delete_agent_artifact_def
    by (intro safe_bind safe_then safe_transaction) (auto simp: safe_at_def Let_def handler_simps write_update_log_def)
qed

lemma safe_delete_release [safe_rules]:
  assumes "{rid} \<times> UNIV \<subseteq> F"
  shows "safe_at E F (admin_delete_agent_release admin rid) db"
proof -
  have "safe_at E F (h_then (h_modify (cascade_release rid)) (write_update_log actor a t)) d" for actor a t d
    by (intro safe_then) (simp_all add: safe_cascade [OF assms])
  then have "safe_at E F (\<lambda>db. if A db then (Inl e1, db) else if B db then (Inl e2, db) else if C db then (Inl e3, db)
      else h_then (h_modify (cascade_release rid)) (write_update_log actor a t) db) d" for A B C e1 e2 e3 actor a t d
    by (simp add: safe_at_def)
  then have "safe_at E F (delete_agent_release actor rid) d" for actor d
    unfolding delete_agent_release_def by (intro safe_transaction safe_bind) simp_all
  then show ?thesis unfolding admin_delete_agent_release_def by (intro safe_bind) simp_all
qed

text \<open>Publishing: eligible instances are included, then attempts are queued.\<close>

lemma target_state_Some: "target_state rid iid db = Some st \<Longrightarrow> iid \<in> set (targets_in_state rid st db)"
  by (auto simp: target_state_def targets_in_state_def dest!: find_SomeD)

lemma targets_in_state_lookup:
  assumes "distinct (map target_key (release_targets db))" "iid \<in> set (targets_in_state rid st db)"
  shows "target_state rid iid db = Some st"
proof -
  obtain t where t: "t \<in> set (release_targets db)" "t_release_id t = rid" "t_instance_id t = iid" "t_state t = st"
    using assms(2) by (auto simp: targets_in_state_def)
  have "find (\<lambda>x. t_release_id x = rid \<and> t_instance_id x = iid) (release_targets db) \<noteq> None"
    using t by (auto simp: find_None)
  then obtain x where x: "find (\<lambda>x. t_release_id x = rid \<and> t_instance_id x = iid) (release_targets db) = Some x" by blast
  have "inj_on target_key (set (release_targets db))" using assms(1) by (simp add: distinct_map)
  moreover have "target_key x = target_key t" "x \<in> set (release_targets db)"
    using find_SomeD [OF x] t by (auto simp: target_key_def)
  ultimately have "x = t" using t(1) by (auto dest: inj_onD)
  with x t show ?thesis by (simp add: target_state_def)
qed

lemma safe_queue_upgrade:
  assumes "upgrade_allowed db (r_id rel) (i_id inst)"
  shows "safe_at (fresh_id env) F (queue_upgrade_attempt env rel inst art explicit) db"
proof -
  have "update_safe (fresh_id env) F db (snd (insert_attempt
      (fresh_attempt env (fresh_id env (ids_drawn db)) inst (r_id rel) v a st) (db\<lparr>ids_drawn := Suc (ids_drawn db)\<rparr>)))" for v a st
    using assms by (intro safe_insert) (simp_all add: fresh_attempt_def)
  then show ?thesis
    by (simp add: queue_upgrade_attempt_def safe_at_def h_bind_def h_lift_def draw_id_def Let_def split_beta split: sum.split)
qed

lemma queue_upgrade_frame:
  "queue_upgrade_attempt env rel inst art explicit db = (Inr q, db1) \<Longrightarrow>
     releases db1 = releases db \<and> release_targets db1 = release_targets db"
  by (auto simp: queue_upgrade_attempt_def h_bind_def h_lift_def draw_id_def Let_def insert_attempt_def
      split: sum.splits if_splits prod.splits)

lemma upgrade_allowed_cong:
  "releases a = releases b \<Longrightarrow> release_targets a = release_targets b \<Longrightarrow> upgrade_allowed a = upgrade_allowed b"
  by (intro ext) (simp add: upgrade_allowed_def target_state_def)

lemma safe_queue_upgrades:
  assumes "\<And>inst. inst \<in> set insts \<Longrightarrow> pick inst \<noteq> None \<Longrightarrow> upgrade_allowed db (r_id rel) (i_id inst)"
  shows "safe_at (fresh_id env) F (queue_upgrades env rel pick insts) db"
  using assms
proof (induction insts arbitrary: db)
  case (Cons inst insts)
  show ?case
  proof (cases "pick inst")
    case None
    then show ?thesis using Cons by simp
  next
    case (Some art)
    have "safe_at (fresh_id env) F (h_bind (queue_upgrade_attempt env rel inst art False) (\<lambda>queued.
        h_bind (queue_upgrades env rel pick insts) (\<lambda>rest. h_return (if queued then i_id inst # rest else rest)))) db"
    proof (intro safe_bind safe_queue_upgrade)
      show "upgrade_allowed db (r_id rel) (i_id inst)" using Cons.prems Some by simp
      fix q db1 assume "queue_upgrade_attempt env rel inst art False db = (Inr q, db1)"
      then have "upgrade_allowed db1 = upgrade_allowed db" by (intro upgrade_allowed_cong) (auto dest: queue_upgrade_frame)
      then show "safe_at (fresh_id env) F (queue_upgrades env rel pick insts) db1" using Cons by simp
    qed simp
    then show ?thesis using Some by simp
  qed
qed simp

definition is_published :: "string \<Rightarrow> update_db \<Rightarrow> bool" where
  "is_published rid db \<longleftrightarrow> (\<exists>r \<in> set (releases db). r_id r = rid \<and> r_status r = ''published'')"

lemma include_targets_frame:
  "include_targets env rid insts target arts iids db = (Inr u, db1) \<Longrightarrow>
     releases db1 = releases db \<and> (\<forall>r i. r \<noteq> rid \<longrightarrow> target_state r i db1 = target_state r i db)
     \<and> (\<forall>i. target_state rid i db \<noteq> Some ''excluded'' \<longrightarrow> target_state rid i db1 \<noteq> Some ''excluded'')"
proof (induction iids arbitrary: db)
  case (Cons iid iids)
  obtain db2 where "db2 = set_target rid iid ''included'' (now env) db" "include_targets env rid insts target arts iids db2 = (Inr u, db1)"
    using Cons.prems by (auto elim!: h_bind_InrE h_then_InrE)
  moreover have "releases (set_target rid iid ''included'' (now env) db) = releases db" by (simp add: set_target_def)
  ultimately show ?case using Cons.IH [of db2] by (auto simp: target_state_set split: if_splits)
qed simp

lemma safe_include_targets:
  assumes "is_published rid db" "\<And>i. i \<in> set iids \<Longrightarrow> target_state rid i db \<noteq> Some ''excluded''"
  shows "safe_at E F (include_targets env rid insts target arts iids) db"
  using assms
proof (induction iids arbitrary: db)
  case (Cons iid iids)
  show ?case unfolding include_targets.simps
  proof (intro safe_bind safe_then)
    fix x db1 assume l: "h_lift (case find (\<lambda>i. i_id i = iid) insts of
        None \<Rightarrow> Inl (app_error_new 400 ''instance missing or disabled'')
      | Some inst \<Rightarrow> validate_rollout_instance env inst target arts) db = (Inr x, db1)"
    then have d: "db1 = db" by simp
    show "safe_at E F (h_modify (set_target rid iid ''included'' (now env))) db1"
      unfolding d safe_modify using Cons.prems by (intro safe_set_target) (auto simp: is_published_def)
    fix y db2 assume "h_modify (set_target rid iid ''included'' (now env)) db1 = (Inr y, db2)"
    then have db2: "db2 = set_target rid iid ''included'' (now env) db" using d by simp
    have "is_published rid db2" using Cons.prems(1) by (simp add: db2 is_published_def set_target_def)
    moreover have "target_state rid i db2 \<noteq> Some ''excluded''" if "i \<in> set iids" for i
      using Cons.prems(2) that by (simp add: db2 target_state_set)
    ultimately show "safe_at E F (include_targets env rid insts target arts iids) db2" by (rule Cons.IH)
  qed simp
qed simp

lemma safe_atI: "(updates_inv E db \<Longrightarrow> safe_at E F m db) \<Longrightarrow> safe_at E F m db"
  unfolding safe_at_def by (rule update_safeI)

lemma release_by_id_row: "release_by_id rid db = Some rel \<Longrightarrow> rel \<in> set (releases db) \<and> r_id rel = rid"
  unfolding release_by_id_def by (drule find_SomeD) auto

lemma release_unique:
  assumes "updates_inv E db" "r \<in> set (releases db)" "q \<in> set (releases db)" "r_id r = r_id q"
  shows "r = q"
proof -
  have "inj_on r_id (set (releases db))" using assms(1) by (simp add: updates_inv_def distinct_map)
  then show ?thesis using assms(2-4) by (auto dest: inj_onD)
qed

lemma draft_no_target:
  assumes inv: "updates_inv E db" and "rel \<in> set (releases db)" "r_status rel = ''draft''"
  shows "target_state (r_id rel) i db = None"
proof (rule ccontr)
  assume "target_state (r_id rel) i db \<noteq> None"
  then obtain t where t: "t \<in> set (release_targets db)" "t_release_id t = r_id rel"
    by (auto simp: target_state_def dest!: find_SomeD)
  then have "target_published (releases db) t" using inv by (simp add: updates_inv_def list_all_iff)
  then obtain r where "r \<in> set (releases db)" "r_id r = r_id rel" "r_status r = ''published''"
    using t(2) by (auto simp: target_published_def)
  then have "r = rel" using release_unique [OF inv _ assms(2)] by simp
  with \<open>r_status r = ''published''\<close> assms(3) show False by simp
qed

definition publish_release :: "'v update_env \<Rightarrow> string \<Rightarrow> release_row \<Rightarrow> release_row" where
  "publish_release env st r = r\<lparr>r_status := ''published'', r_rollout_state := st, r_rollout_updated_at := Some (now env),
     r_published_at := (case r_published_at r of None \<Rightarrow> Some (now env) | Some t \<Rightarrow> Some t)\<rparr>"

lemma publish_rows_releases:
  "releases (publish_rows env rid st db) = update_where (\<lambda>r. r_id r = rid) (publish_release env st) (releases db)"
  "release_targets (publish_rows env rid st db) = release_targets db"
  by (simp_all add: publish_rows_def change_releases_def publish_release_def [abs_def])

text \<open>What the transaction of a publication knows of the release before and after it marks the rows.\<close>

definition publishable :: "release_row \<Rightarrow> string \<Rightarrow> update_db \<Rightarrow> bool" where
  "publishable rel st db \<longleftrightarrow> rel \<in> set (releases db) \<and>
     (if r_status rel = ''draft'' then st = ''canary_active''
        \<and> (\<forall>r \<in> set (releases db). r_id r \<noteq> r_id rel \<longrightarrow> \<not> controlled r)
      else st = r_rollout_state rel)"

lemma safe_publish_rows:
  assumes "publishable rel st db"
  shows "update_safe E F db (publish_rows env (r_id rel) st db)"
proof (rule update_safe_trans)
  let ?mid = "db\<lparr>releases := update_where (\<lambda>r. r_id r = r_id rel) (publish_release env st) (releases db)\<rparr>"
  show "update_safe E F db ?mid"
  proof (rule safe_release_change [where rid = "r_id rel" and g = "\<lambda>r. if r_id r = r_id rel then publish_release env st r else r"])
    fix r assume inv: "updates_inv E db" and r: "r \<in> set (releases db)" "r_id r = r_id rel"
    then have "r = rel" using assms release_unique [OF inv] by (auto simp: publishable_def)
    moreover have "release_ok r" using inv r by (simp add: updates_inv_def list_all_iff)
    ultimately show "release_move (releases db) r (if r_id r = r_id rel then publish_release env st r else r)"
      using assms by (auto simp: release_move_def release_ok_def publish_release_def publishable_def controlled_def is_canary_def
          split: if_splits)
  qed (simp_all add: update_where_def)
  show "update_safe E F ?mid (publish_rows env (r_id rel) st db)"
    by (rule safe_core_same) (simp_all add: publish_rows_def change_releases_def publish_release_def [abs_def])
qed

definition rollout_is :: "string \<Rightarrow> string \<Rightarrow> update_db \<Rightarrow> bool" where
  "rollout_is rid st db \<longleftrightarrow> (\<exists>r \<in> set (releases db). r_id r = rid \<and> r_status r = ''published'' \<and> r_rollout_state r = st)"

lemma publish_choice_allowed:
  assumes "distinct (map target_key (release_targets db))" "rollout_is rid st db"
    and "publish_choice env st (targets_in_state rid ''included'' db) (targets_in_state rid ''excluded'' db) v arts inst \<noteq> None"
  shows "upgrade_allowed db rid (i_id inst)"
proof -
  have sel: "rollout_selects_instance st (i_id inst) (targets_in_state rid ''included'' db) (targets_in_state rid ''excluded'' db)"
    using assms(3) by (auto simp: publish_choice_def split: if_splits)
  obtain r where r: "r \<in> set (releases db)" "r_id r = rid" "r_status r = ''published''" "r_rollout_state r = st"
    using assms(2) by (auto simp: rollout_is_def)
  show ?thesis
  proof (cases "i_id inst \<in> set (targets_in_state rid ''included'' db)")
    case True
    then have "target_state rid (i_id inst) db = Some ''included''" by (rule targets_in_state_lookup [OF assms(1)])
    with r show ?thesis by (auto simp: upgrade_allowed_def)
  next
    case False
    with sel have "st \<in> {''full_active'', ''full_paused''}" "i_id inst \<notin> set (targets_in_state rid ''excluded'' db)"
      by (auto simp: rollout_selects_instance_def)
    with r show ?thesis
      using target_state_Some [of rid "i_id inst" db "''excluded''"] by (auto simp: upgrade_allowed_def is_canary_def)
  qed
qed

lemma rollout_is_published: "rollout_is rid st db \<Longrightarrow> is_published rid db"
  by (auto simp: rollout_is_def is_published_def)

lemma rollout_is_cong: "releases a = releases b \<Longrightarrow> rollout_is rid st a = rollout_is rid st b"
  by (simp add: rollout_is_def)

lemma publish_rows_rollout:
  assumes "rel \<in> set (releases db)"
  shows "rollout_is (r_id rel) st (publish_rows env (r_id rel) st db)"
proof -
  have "publish_release env st rel \<in> set (releases (publish_rows env (r_id rel) st db))"
    using assms by (force simp: publish_rows_releases update_where_def)
  then show ?thesis unfolding rollout_is_def by (rule bexI [rotated]) (simp add: publish_release_def)
qed

lemma safe_publish_attempts:
  assumes "rollout_is (r_id rel) (publish_state rel) db"
  shows "safe_at (fresh_id env) F (publish_attempts env actor rel target insts) db"
proof (rule safe_atI)
  assume "updates_inv (fresh_id env) db"
  then have d: "distinct (map target_key (release_targets db))" by (simp add: updates_inv_def)
  show "safe_at (fresh_id env) F (publish_attempts env actor rel target insts) db"
    unfolding safe_at_def publish_attempts_def
    by (fold safe_at_def, intro safe_bind safe_then safe_queue_upgrades)
      (simp_all only: publish_choice_allowed [OF d assms] safe_log safe_simple)
qed

lemma safe_publish_artifacts:
  assumes "publishable rel (publish_state rel) db"
  shows "safe_at (fresh_id env) F (publish_artifacts env actor rel target requested insts) db"
proof (rule safe_atI)
  assume inv: "updates_inv (fresh_id env) db"
  let ?d = "publish_rows env (r_id rel) (publish_state rel) db"
  have rel: "rel \<in> set (releases db)" using assms by (simp add: publishable_def)
  have pub: "rollout_is (r_id rel) (publish_state rel) ?d" by (rule publish_rows_rollout [OF rel])
  have ex: "target_state (r_id rel) i ?d \<noteq> Some ''excluded''" if "r_status rel = ''draft''" for i
    using draft_no_target [OF inv rel that] by (simp add: target_state_def publish_rows_releases)
  have inc: "safe_at (fresh_id env) F (if r_status rel = ''draft'' then include_targets env (r_id rel) insts target drafts iids
      else h_return ()) ?d" for drafts iids
    using ex rollout_is_published [OF pub] by (auto intro: safe_include_targets)
  have keep: "releases d2 = releases ?d" if "(if r_status rel = ''draft'' then include_targets env (r_id rel) insts target drafts iids
      else h_return ()) ?d = (Inr x, d2)" for drafts iids x d2
    using that by (auto split: if_splits dest: include_targets_frame)
  have "safe_at (fresh_id env) F (h_then (h_guard (drafts \<noteq> []) e) (h_then (h_modify (publish_rows env (r_id rel) (publish_state rel)))
      (h_then (if r_status rel = ''draft'' then include_targets env (r_id rel) insts target drafts (remdups requested) else h_return ())
        (publish_attempts env actor rel target insts)))) db" for drafts e
  proof (rule safe_then)
    fix x d1 assume "h_guard (drafts \<noteq> []) e db = (Inr x, d1)"
    then have d1: "d1 = db" by simp
    show "safe_at (fresh_id env) F (h_then (h_modify (publish_rows env (r_id rel) (publish_state rel)))
      (h_then (if r_status rel = ''draft'' then include_targets env (r_id rel) insts target drafts (remdups requested) else h_return ())
        (publish_attempts env actor rel target insts))) d1"
    proof (rule safe_then)
      show "safe_at (fresh_id env) F (h_modify (publish_rows env (r_id rel) (publish_state rel))) d1"
        unfolding d1 safe_modify by (rule safe_publish_rows [OF assms])
      fix y d2 assume "h_modify (publish_rows env (r_id rel) (publish_state rel)) d1 = (Inr y, d2)"
      then have d2: "d2 = ?d" by (simp add: d1)
      show "safe_at (fresh_id env) F (h_then (if r_status rel = ''draft'' then include_targets env (r_id rel) insts target drafts
          (remdups requested) else h_return ()) (publish_attempts env actor rel target insts)) d2"
        unfolding d2
      proof (rule safe_then [OF inc])
        fix z d3 assume "(if r_status rel = ''draft'' then include_targets env (r_id rel) insts target drafts
          (remdups requested) else h_return ()) ?d = (Inr z, d3)"
        then have "rollout_is (r_id rel) (publish_state rel) d3" using pub keep rollout_is_cong by blast
        then show "safe_at (fresh_id env) F (publish_attempts env actor rel target insts) d3" by (rule safe_publish_attempts)
      qed
    qed
  qed simp
  then show "safe_at (fresh_id env) F (publish_artifacts env actor rel target requested insts) db"
    by (simp add: safe_at_def publish_artifacts_def Let_def)
qed

lemma safe_publish_tx [safe_rules]: "safe_at (fresh_id env) F (publish_tx env actor rid requested insts) db"
  unfolding publish_tx_def
proof (intro safe_bind safe_then safe_publish_artifacts)
  fix rel d1 target d2 x3 d3 x4 d4 x5 d5
  assume "get_release rid db = (Inr rel, d1)" "h_lift (parse_release_version env rel) d1 = (Inr target, d2)"
    "h_guard (\<not> (r_status rel = ''draft'' \<and> requested = [])) (app_error_new 400 ''choose at least one instance'') d2 = (Inr x3, d3)"
    "h_guard (\<not> (r_status rel \<noteq> ''draft'' \<and> r_rollout_state rel \<in> set [''rollback_active'', ''rolled_back'', ''rollback_partial'']))
       (app_error_new 409 ''release is being rolled back'') d3 = (Inr x4, d4)"
    "(if r_status rel = ''draft'' then ensure_no_other_controlled_release rid else h_return ()) d4 = (Inr x5, d5)"
  then show "publishable rel (publish_state rel) d5"
    by (auto simp: publishable_def publish_state_def split: if_splits dest!: release_by_id_row)
qed simp_all

lemma safe_publish [safe_rules]: "safe_at (fresh_id env) F (publish_agent_release env admin rid requested) db"
proof -
  have "safe_at (fresh_id env) F (h_bind (h_transaction (publish_tx env actor rid requested insts))
      (\<lambda>notify. h_modify (notify_instances env notify))) d" for actor insts d
    by (intro safe_bind safe_transaction safe_publish_tx) (simp add: safe_notify_all)
  then have "safe_at (fresh_id env) F (\<lambda>db. h_bind (h_transaction (publish_tx env actor rid requested (capability_instances db)))
      (\<lambda>notify. h_modify (notify_instances env notify)) db) d" for actor d by (simp add: safe_at_def)
  then show ?thesis unfolding publish_agent_release_def by (intro safe_bind) simp_all
qed

text \<open>Widening a canary.\<close>

lemma included_allowed:
  "is_published rid db \<Longrightarrow> upgrade_allowed (set_target rid iid ''included'' t db) rid iid"
  by (auto simp: is_published_def upgrade_allowed_def target_state_set) (auto simp: set_target_def)

lemma set_target_frame [simp]:
  "releases (set_target rid iid st t db) = releases db" "is_published r (set_target rid iid st t db) = is_published r db"
  by (simp_all add: set_target_def is_published_def)

lemma is_published_cong: "releases a = releases b \<Longrightarrow> is_published rid a = is_published rid b"
  by (simp add: is_published_def)

lemma safe_add_targets:
  assumes "is_published (r_id rel) db" "\<And>i. i \<in> set iids \<Longrightarrow> target_state (r_id rel) i db \<noteq> Some ''excluded''"
  shows "safe_at (fresh_id env) F (add_targets env rel insts target arts iids) db"
  using assms
proof (induction iids arbitrary: db)
  case (Cons iid iids)
  show ?case
  proof (cases "find (\<lambda>i. i_id i = iid) insts")
    case None
    then show ?thesis by simp
  next
    case (Some inst)
    then have iid: "i_id inst = iid" by (auto dest: find_SomeD)
    let ?d = "set_target (r_id rel) iid ''included'' (now env) db"
    have q: "safe_at (fresh_id env) F (case matching_artifact inst arts of None \<Rightarrow> h_return False
        | Some art \<Rightarrow> queue_upgrade_attempt env rel inst art False) ?d"
      using included_allowed [OF Cons.prems(1)] iid by (auto split: option.split intro!: safe_queue_upgrade)
    have fr: "releases d2 = releases ?d \<and> release_targets d2 = release_targets ?d"
      if "(case matching_artifact inst arts of None \<Rightarrow> h_return False | Some art \<Rightarrow> queue_upgrade_attempt env rel inst art False) ?d
        = (Inr b, d2)" for b d2
      using that by (auto split: option.splits dest: queue_upgrade_frame)
    have "safe_at (fresh_id env) F (h_bind (h_lift (validate_rollout_instance env inst target arts)) (\<lambda>_.
        h_then (h_modify (set_target (r_id rel) iid ''included'' (now env)))
        (h_bind (case matching_artifact inst arts of None \<Rightarrow> h_return False
            | Some art \<Rightarrow> queue_upgrade_attempt env rel inst art False) (\<lambda>queued.
          h_bind (add_targets env rel insts target arts iids) (\<lambda>rest.
            h_return (if queued \<and> r_rollout_state rel = ''canary_active'' then iid # rest else rest)))))) db"
    proof (rule safe_bind, simp, rule safe_then)
      fix x d1 assume "h_lift (validate_rollout_instance env inst target arts) db = (Inr x, d1)"
      then have d1: "d1 = db" by simp
      show "safe_at (fresh_id env) F (h_modify (set_target (r_id rel) iid ''included'' (now env))) d1"
        unfolding d1 safe_modify using Cons.prems by (intro safe_set_target) (auto simp: is_published_def)
      fix y d2 assume "h_modify (set_target (r_id rel) iid ''included'' (now env)) d1 = (Inr y, d2)"
      then have d2: "d2 = ?d" using d1 by simp
      show "safe_at (fresh_id env) F (h_bind (case matching_artifact inst arts of None \<Rightarrow> h_return False
            | Some art \<Rightarrow> queue_upgrade_attempt env rel inst art False) (\<lambda>queued.
          h_bind (add_targets env rel insts target arts iids) (\<lambda>rest.
            h_return (if queued \<and> r_rollout_state rel = ''canary_active'' then iid # rest else rest)))) d2"
        unfolding d2
      proof (intro safe_bind [OF q] safe_bind)
        fix b d3 assume "(case matching_artifact inst arts of None \<Rightarrow> h_return False
          | Some art \<Rightarrow> queue_upgrade_attempt env rel inst art False) ?d = (Inr b, d3)"
        then have f: "releases d3 = releases ?d" "release_targets d3 = release_targets ?d" using fr by blast+
        show "safe_at (fresh_id env) F (add_targets env rel insts target arts iids) d3"
        proof (rule Cons.IH)
          show "is_published (r_id rel) d3" using Cons.prems(1) is_published_cong [OF f(1)] by simp
          fix i assume "i \<in> set iids"
          then have "target_state (r_id rel) i ?d \<noteq> Some ''excluded''" using Cons.prems(2) by (simp add: target_state_set)
          then show "target_state (r_id rel) i d3 \<noteq> Some ''excluded''" using f(2) by (simp add: target_state_def)
        qed
      qed simp
    qed
    then show ?thesis using Some by simp
  qed
qed simp

lemma canary_published:
  "updates_inv E db \<Longrightarrow> rel \<in> set (releases db) \<Longrightarrow> is_rolling_out rel \<Longrightarrow> is_published (r_id rel) db"
  by (auto simp: updates_inv_def list_all_iff release_ok_def is_rolling_out_def is_published_def)

lemma canary_rolling_out: "is_canary rel \<Longrightarrow> is_rolling_out rel"
  by (auto simp: is_canary_def is_rolling_out_def)

lemma safe_add_rollout_targets [safe_rules]:
  "safe_at (fresh_id env) F (add_agent_rollout_targets env admin rid requested) db"
  unfolding add_agent_rollout_targets_def
proof (intro safe_bind safe_then)
  fix actor d1 y d2 rel d3 z d4 target d5
  assume "h_lift admin db = (Inr actor, d1)" "h_guard (requested \<noteq> []) (app_error_new 400 ''choose at least one instance'') d1 = (Inr y, d2)"
    "get_release rid d2 = (Inr rel, d3)" "h_guard (is_canary rel) (app_error_new 409 ''only a canary takes more instances'') d3 = (Inr z, d4)"
    "h_lift (parse_release_version env rel) d4 = (Inr target, d5)"
  then have d: "d5 = db" "rel \<in> set (releases db)" "r_id rel = rid" "is_canary rel" by (auto dest: release_by_id_row)
  let ?body = "\<lambda>db. h_then (h_guard (\<not> list_ex (\<lambda>iid. iid \<in> set (targets_in_state rid ''excluded'' db)) requested)
          (app_error_new 409 ''excluded instances need an explicit upgrade''))
        (h_bind (h_transaction (h_bind (add_targets env rel (capability_instances db) target (published_artifacts rid db) (remdups requested)) (\<lambda>notify.
            h_then (write_update_log actor ''add_agent_rollout_targets'' rid) (h_return notify))))
          (\<lambda>notify. h_modify (notify_instances env notify))) db"
  have "safe_at (fresh_id env) F ?body db"
  proof (rule safe_atI)
    assume inv: "updates_inv (fresh_id env) db"
    show "safe_at (fresh_id env) F ?body db"
    proof (cases "list_ex (\<lambda>iid. iid \<in> set (targets_in_state rid ''excluded'' db)) requested")
      case True
      then show ?thesis by (simp add: safe_at_def handler_simps)
    next
      case False
      then have "target_state (r_id rel) i db \<noteq> Some ''excluded''" if "i \<in> set (remdups requested)" for i
        using that d(3) target_state_Some [of rid i db "''excluded''"] by (auto simp: list_ex_iff)
      then have "safe_at (fresh_id env) F (h_bind (h_transaction (h_bind (add_targets env rel insts target arts (remdups requested)) (\<lambda>notify.
            h_then (write_update_log actor ''add_agent_rollout_targets'' rid) (h_return notify))))
          (\<lambda>notify. h_modify (notify_instances env notify))) db" for insts arts
        using canary_published [OF inv d(2) canary_rolling_out [OF d(4)]]
        by (intro safe_bind safe_then safe_transaction safe_add_targets) (simp_all add: safe_notify_all)
      then show ?thesis using False by (simp add: safe_at_def h_then_def h_bind_def h_guard_def h_return_def)
    qed
  qed
  then show "safe_at (fresh_id env) F (\<lambda>db. let arts = published_artifacts rid db; insts = capability_instances db in
        h_then (h_guard (\<not> list_ex (\<lambda>iid. iid \<in> set (targets_in_state rid ''excluded'' db)) requested)
          (app_error_new 409 ''excluded instances need an explicit upgrade''))
        (h_bind (h_transaction (h_bind (add_targets env rel insts target arts (remdups requested)) (\<lambda>notify.
            h_then (write_update_log actor ''add_agent_rollout_targets'' rid) (h_return notify))))
          (\<lambda>notify. h_modify (notify_instances env notify))) db) d5"
    by (simp add: d(1) Let_def)
qed simp_all

text \<open>Pausing, resuming, promoting.\<close>

lemma safe_set_rollout_state:
  assumes "rel \<in> set (releases db)"
    and move: "\<And>r. updates_inv E db \<Longrightarrow> release_ok rel \<Longrightarrow> r_id r = r_id rel \<Longrightarrow> r_status r = r_status rel \<Longrightarrow> r_rollout_state r = st
      \<Longrightarrow> release_move (releases db) rel r"
  shows "update_safe E F db (set_rollout_state (r_id rel) st t db)"
proof (rule safe_release_change [where rid = "r_id rel" and g = "\<lambda>r. if r_id r = r_id rel
    then r\<lparr>r_rollout_state := st, r_rollout_updated_at := Some t\<rparr> else r"])
  fix r assume inv: "updates_inv E db" and r: "r \<in> set (releases db)" "r_id r = r_id rel"
  then have "r = rel" using release_unique [OF inv] assms(1) by blast
  moreover have "release_ok rel" using inv assms(1) by (simp add: updates_inv_def list_all_iff)
  ultimately show "release_move (releases db) r (if r_id r = r_id rel then r\<lparr>r_rollout_state := st, r_rollout_updated_at := Some t\<rparr> else r)"
    using move [OF inv] by simp
qed (simp_all add: set_rollout_state_def change_releases_def update_where_def)

lemma pause_cases:
  assumes "pause_transition s p = Some st"
  shows "(s, p, st) \<in> {(''canary_active'', True, ''canary_paused''), (''full_active'', True, ''full_paused''),
     (''canary_paused'', False, ''canary_active''), (''full_paused'', False, ''full_active'')}"
  using assms unfolding pause_transition_def by (simp split: if_split_asm)

lemma release_move_state:
  assumes "r_id r = r_id rel" "r_status r = r_status rel" "r_rollout_state r = st" "release_ok rel"
    and "r_rollout_state rel \<noteq> ''draft''" "st \<noteq> ''draft''"
    and "st \<in> set controlled_states \<Longrightarrow> controlled rel \<or> (\<forall>x \<in> set rs. r_id x \<noteq> r_id rel \<longrightarrow> \<not> controlled x)"
    and "st \<in> {''canary_active'', ''canary_paused''} \<Longrightarrow> is_canary rel"
  shows "release_move rs rel r"
  using assms by (simp add: release_move_def release_ok_def controlled_def is_canary_def)

lemma safe_pause_tx: "safe_at E F (pause_tx env actor rid paused) db"
  unfolding pause_tx_def
proof (rule safe_bind)
  fix rel d1 assume "get_release rid db = (Inr rel, d1)"
  then have rel: "d1 = db" "rel \<in> set (releases db)" "r_id rel = rid" by (auto dest: release_by_id_row)
  show "safe_at E F (case pause_transition (r_rollout_state rel) paused of
         None \<Rightarrow> h_fail (app_error_new 409 ''release cannot be paused or resumed'')
       | Some next_state \<Rightarrow>
         h_then (if paused then ensure_no_other_controlled_release rid else h_return ())
         (h_then (h_modify (set_rollout_state rid next_state (now env)))
           (write_update_log actor (if paused then ''pause_agent_rollout'' else ''resume_agent_rollout'') rid))) d1"
  proof (cases "pause_transition (r_rollout_state rel) paused")
    case (Some st)
    have move: "release_move (releases db) rel r"
      if "release_ok rel" "r_id r = r_id rel" "r_status r = r_status rel" "r_rollout_state r = st"
        and "paused \<Longrightarrow> \<forall>x \<in> set (releases db). r_id x \<noteq> rid \<longrightarrow> \<not> controlled x" for r
      by (rule release_move_state [OF that(2-4,1)])
        (use pause_cases [OF Some] that(5) rel(3) in \<open>auto simp: controlled_def controlled_states_def is_canary_def\<close>)
    have "safe_at E F (h_then (if paused then ensure_no_other_controlled_release rid else h_return ())
         (h_then (h_modify (set_rollout_state rid st (now env))) (write_update_log actor a rid))) d1" for a
    proof (intro safe_then)
      fix x d2 assume "(if paused then ensure_no_other_controlled_release rid else h_return ()) d1 = (Inr x, d2)"
      then have d2: "d2 = db" "paused \<Longrightarrow> \<forall>x \<in> set (releases db). r_id x \<noteq> rid \<longrightarrow> \<not> controlled x"
        using rel(1) by (auto split: if_splits)
      have "update_safe E F db (set_rollout_state (r_id rel) st (now env) db)"
        by (rule safe_set_rollout_state [OF rel(2)], rule move) (use d2(2) rel(3) in simp_all)
      then show "safe_at E F (h_modify (set_rollout_state rid st (now env))) d2"
        unfolding d2(1) rel(3) by simp
    qed simp_all
    then show ?thesis using Some by simp
  qed simp
qed simp

lemma safe_pause [safe_rules]: "safe_at (fresh_id env) F (set_rollout_paused env admin rid paused) db"
  unfolding set_rollout_paused_def
  by (intro safe_bind safe_then safe_transaction safe_pause_tx) (simp_all add: safe_notify_all)

end
