(* ===== verification/UpdateMachine.thy ===== *)
theory UpdateMachine
  imports UpdateSteps
begin

text \<open>
  The remaining handlers are safe (promotion, rollback, renewed upgrade, retry), and the component as a
  machine: \<open>update_step\<close> is one request or background tick at its time, and the interpretation of
  \<open>invariant_machine\<close> gives the invariant along every run.
\<close>

subsection \<open>The fleet\<close>

text \<open>
  The tables of this component change as well when a socket of a node opens or closes (\<open>ws.rs\<close>) and
  when an administrator disables or deletes a node (\<open>handlers/mod.rs\<close>); what those handlers do to
  alerts, metrics and jobs is not part of this state.
\<close>

definition open_agent_socket :: "string \<Rightarrow> string \<Rightarrow> update_db \<Rightarrow> update_db" where
  "open_agent_socket iid conn db = db\<lparr>connections := AList.update iid conn (connections db)\<rparr>"

definition remove_current_agent :: "string \<Rightarrow> string \<Rightarrow> update_db \<Rightarrow> update_db" where
  "remove_current_agent iid conn db =
     (if map_of (connections db) iid = Some conn then db\<lparr>connections := AList.delete iid (connections db)\<rparr> else db)"

definition revoke_instance_connection :: "string \<Rightarrow> update_db \<Rightarrow> update_db" where
  "revoke_instance_connection iid db = db\<lparr>connections := AList.delete iid (connections db)\<rparr>"

definition disable_instance_tx :: "string \<times> string \<Rightarrow> string \<Rightarrow> unit update_handler" where
  "disable_instance_tx actor iid =
     h_then (\<lambda>db. (if length (filter (\<lambda>i. i_id i = iid) (fleet db)) \<noteq> 1
         then Inl (app_error_new 404 ''no such instance'') else Inr (),
         change_fleet (\<lambda>i. i_id i = iid) (\<lambda>i. i\<lparr>i_disabled := 1\<rparr>) db))
     (write_update_log actor ''disable_instance'' iid)"

definition admin_disable_instance :: "admin_login \<Rightarrow> string \<Rightarrow> unit update_handler" where
  "admin_disable_instance admin iid =
     h_bind (h_lift admin) (\<lambda>actor.
     h_then (h_transaction (disable_instance_tx actor iid)) (h_modify (revoke_instance_connection iid)))"

definition delete_instance_rows :: "string \<Rightarrow> update_db \<Rightarrow> update_db" where
  "delete_instance_rows iid db = db\<lparr>
     update_attempts := orphan_parents (filter (\<lambda>u. u_instance_id u = iid) (update_attempts db))
       (delete_where (\<lambda>u. u_instance_id u = iid) (update_attempts db)),
     release_targets := delete_where (\<lambda>t. t_instance_id t = iid) (release_targets db),
     fleet := delete_where (\<lambda>i. i_id i = iid) (fleet db)\<rparr>"

definition delete_instance_tx :: "string \<times> string \<Rightarrow> string \<Rightarrow> unit update_handler" where
  "delete_instance_tx actor iid =
     h_bind (get_instance iid) (\<lambda>inst db.
       let rows = length (filter (\<lambda>i. i_id i = iid) (fleet db))
       in h_then (h_modify (delete_instance_rows iid))
         (h_then (h_guard (rows = 1) (app_error_new 409 ''instance has changed''))
           (write_update_log actor ''delete_instance'' iid)) db)"

definition admin_delete_instance :: "admin_login \<Rightarrow> string \<Rightarrow> unit update_handler" where
  "admin_delete_instance admin iid =
     h_bind (h_lift admin) (\<lambda>actor.
     h_then (h_transaction (delete_instance_tx actor iid)) (h_modify (revoke_instance_connection iid)))"

lemma target_lookup_delete_instance:
  "i \<noteq> iid \<Longrightarrow> target_lookup r i (delete_where (\<lambda>t. t_instance_id t = iid) ts) = target_lookup r i ts"
  unfolding target_lookup_def by (subst find_delete_where) auto

lemma safe_drop_instance:
  assumes "\<And>u. u \<in> set (update_attempts db) \<Longrightarrow> u_instance_id u \<noteq> iid" "UNIV \<times> {iid} \<subseteq> F"
    and rows: "db' = db\<lparr>release_targets := delete_where (\<lambda>t. t_instance_id t = iid) (release_targets db), fleet := fl\<rparr>"
  shows "update_safe E F db db'"
  unfolding update_safe_def
proof (intro impI conjI)
  assume inv: "updates_inv E db"
  have "upgrade_selected (releases db') (release_targets db') u" if u: "u \<in> set (update_attempts db)" for u
  proof -
    have "upgrade_selected (releases db) (release_targets db) u" using inv u by (simp add: updates_inv_def list_all_iff)
    then show ?thesis using assms(1) [OF u] by (simp add: upgrade_selected_def rows target_lookup_delete_instance)
  qed
  moreover have "distinct (map target_key (release_targets db'))"
    using inv by (auto simp: updates_inv_def rows delete_where_def intro: distinct_map_filter)
  moreover have "target_published (releases db') t" if "t \<in> set (release_targets db')" for t
    using inv that by (auto simp: updates_inv_def list_all_iff rows)
  ultimately show "updates_inv E db'" using inv by (simp add: updates_inv_def list_all_iff attempt_ids_def rows)
  have same: "update_attempts db' = update_attempts db" "ids_drawn db' = ids_drawn db" by (simp_all add: rows)
  have "target_state r i db' = target_state r i db" if "(r, i) \<notin> F" for r i
  proof -
    have "i \<noteq> iid" using that assms(2) by auto
    then show ?thesis by (simp add: target_state_lookup rows target_lookup_delete_instance)
  qed
  then show "excluded_kept F db db'" by (simp add: excluded_kept_def upgrade_ids_def same)
  show "attempts_follow db db'" by (rule attempts_follow_same [OF inv same(1)])
  show "ids_not_reused E db db'" by (simp add: ids_not_reused_def attempt_ids_def same)
qed

lemma safe_delete_instance_rows:
  assumes "UNIV \<times> {iid} \<subseteq> F"
  shows "update_safe E F db (delete_instance_rows iid db)"
proof -
  let ?mid = "db\<lparr>update_attempts := orphan_parents (filter (\<lambda>u. u_instance_id u = iid) (update_attempts db))
      (delete_where (\<lambda>u. u_instance_id u = iid) (update_attempts db))\<rparr>"
  have "update_safe E F ?mid (delete_instance_rows iid db)"
  proof (rule safe_drop_instance [OF _ assms, where fl = "delete_where (\<lambda>i. i_id i = iid) (fleet db)"])
    show "u_instance_id u \<noteq> iid" if "u \<in> set (update_attempts ?mid)" for u
      using that by (auto simp: orphan_parents_def elim!: update_whereE)
  qed (simp add: delete_instance_rows_def)
  with safe_drop_attempts show ?thesis by (rule update_safe_trans)
qed

lemma safe_sockets [safe_rules]:
  "update_safe E F db (open_agent_socket iid conn db)" "update_safe E F db (remove_current_agent iid conn db)"
  "update_safe E F db (revoke_instance_connection iid db)"
  by (simp_all add: open_agent_socket_def remove_current_agent_def revoke_instance_connection_def)

lemma safe_disable_instance [safe_rules]: "safe_at E F (admin_disable_instance admin iid) db"
proof -
  have "safe_at E F (\<lambda>db. (r db, change_fleet p f db)) d" for r :: "update_db \<Rightarrow> unit result" and p f d
    by (simp add: safe_at_def change_fleet_def)
  then show ?thesis unfolding admin_disable_instance_def disable_instance_tx_def
    by (intro safe_bind safe_then safe_transaction) (simp_all add: safe_sockets)
qed

lemma safe_delete_instance [safe_rules]:
  assumes "UNIV \<times> {iid} \<subseteq> F"
  shows "safe_at E F (admin_delete_instance admin iid) db"
proof -
  have "safe_at E F (h_then (h_modify (delete_instance_rows iid)) (h_then (h_guard b e) (write_update_log actor a t))) d" for b e actor a t d
    by (intro safe_then) (simp_all add: safe_delete_instance_rows [OF assms])
  then have "safe_at E F (\<lambda>db. h_then (h_modify (delete_instance_rows iid)) (h_then (h_guard (b db) e)
       (write_update_log actor a t)) db) d" for b e actor a t d
    unfolding safe_at_def by blast
  then have "safe_at E F (delete_instance_tx actor iid) d" for actor d
    unfolding delete_instance_tx_def Let_def by (intro safe_bind safe_reads)
  then show ?thesis unfolding admin_delete_instance_def
    by (intro safe_bind safe_then safe_transaction) (simp_all add: safe_sockets)
qed

subsection \<open>Promotion\<close>

lemma promote_cases:
  assumes "promote_transition s = Some st"
  shows "(s, st) \<in> {(''canary_active'', ''full_active''), (''canary_paused'', ''full_paused'')}"
  using assms unfolding promote_transition_def by (simp split: if_split_asm)

lemma set_rollout_state_rows:
  "releases (set_rollout_state rid st t db) = map (\<lambda>r. if r_id r = rid
     then r\<lparr>r_rollout_state := st, r_rollout_updated_at := Some t\<rparr> else r) (releases db)"
  "release_targets (set_rollout_state rid st t db) = release_targets db"
  "update_attempts (set_rollout_state rid st t db) = update_attempts db"
  by (simp_all add: set_rollout_state_def change_releases_def update_where_def)

lemma target_state_rollout [simp]: "target_state r i (set_rollout_state rid st t db) = target_state r i db"
  by (simp add: target_state_def set_rollout_state_rows)

lemma promoted_allowed:
  assumes rel: "rel \<in> set (releases db)" "r_status rel = ''published''"
    and st: "promote_transition (r_rollout_state rel) = Some st"
    and pick: "promote_choice env (targets_in_state (r_id rel) ''excluded'' db) target arts inst \<noteq> None"
  shows "upgrade_allowed (set_rollout_state (r_id rel) st t db) (r_id rel) (i_id inst)"
proof -
  let ?r = "rel\<lparr>r_rollout_state := st, r_rollout_updated_at := Some t\<rparr>"
  have "?r \<in> set (releases (set_rollout_state (r_id rel) st t db))"
    using rel(1) by (force simp: set_rollout_state_rows)
  moreover have "\<not> is_canary ?r" using promote_cases [OF st] by (auto simp: is_canary_def)
  moreover have "i_id inst \<notin> set (targets_in_state (r_id rel) ''excluded'' db)"
    using pick by (auto simp: promote_choice_def)
  then have "target_state (r_id rel) (i_id inst) db \<noteq> Some ''excluded''" using target_state_Some by fastforce
  ultimately show ?thesis unfolding upgrade_allowed_def using rel(2)
    by (intro conjI bexI [of _ ?r]) simp_all
qed

lemma release_row_ok:
  "updates_inv E db \<Longrightarrow> rel \<in> set (releases db) \<Longrightarrow> release_ok rel"
  by (simp add: updates_inv_def list_all_iff)

lemma published_unless_draft:
  "updates_inv E db \<Longrightarrow> rel \<in> set (releases db) \<Longrightarrow> r_rollout_state rel \<noteq> ''draft'' \<Longrightarrow> r_status rel = ''published''"
  by (drule release_row_ok) (auto simp: release_ok_def)

lemma safe_promote_tx:
  assumes rel: "rel \<in> set (releases db)"
  shows "safe_at (fresh_id env) F (promote_tx env actor rel target arts insts) db"
proof (rule safe_atI)
  assume inv: "updates_inv (fresh_id env) db"
  show "safe_at (fresh_id env) F (promote_tx env actor rel target arts insts) db"
  proof (cases "promote_transition (r_rollout_state rel)")
    case None
    then show ?thesis by (simp add: promote_tx_def safe_at_def)
  next
    case (Some st)
    have pub: "r_status rel = ''published''"
      by (rule published_unless_draft [OF inv rel]) (use promote_cases [OF Some] in auto)
    have state: "update_safe (fresh_id env) F db (set_rollout_state (r_id rel) st (now env) db)"
      by (rule safe_set_rollout_state [OF rel], rule release_move_state [where st = st])
        (use promote_cases [OF Some] in \<open>auto simp: controlled_def controlled_states_def is_canary_def\<close>)
    let ?x = "targets_in_state (r_id rel) ''excluded'' db"
    have "safe_at (fresh_id env) F (h_then (h_modify (set_rollout_state (r_id rel) st (now env)))
          (h_bind (queue_upgrades env rel (promote_choice env ?x target arts) insts) (\<lambda>queued.
            h_then (write_update_log actor ''promote_agent_rollout'' (r_id rel))
              (h_return (if st = ''full_active'' then queued else []))))) db"
    proof (intro safe_then safe_bind)
      fix u d assume "h_modify (set_rollout_state (r_id rel) st (now env)) db = (Inr u, d)"
      then have "d = set_rollout_state (r_id rel) st (now env) db" by (simp add: h_modify_def)
      then show "safe_at (fresh_id env) F (queue_upgrades env rel (promote_choice env ?x target arts) insts) d"
        using promoted_allowed [OF rel pub Some] by (intro safe_queue_upgrades) blast
    qed (simp_all add: state)
    then show ?thesis using Some by (simp add: promote_tx_def safe_at_def)
  qed
qed

lemma safe_promote [safe_rules]: "safe_at (fresh_id env) F (promote_agent_rollout env admin rid) db"
  unfolding promote_agent_rollout_def
proof (intro safe_bind)
  fix actor d1 rel d2 target d3
  assume "h_lift admin db = (Inr actor, d1)" "get_release rid d1 = (Inr rel, d2)"
    "h_lift (parse_release_version env rel) d2 = (Inr target, d3)"
  then have d: "rel \<in> set (releases d3)" by (auto dest: release_by_id_row simp: handler_simps)
  have "safe_at (fresh_id env) F (h_bind (h_transaction (promote_tx env actor rel target arts insts))
         (\<lambda>notify. h_modify (notify_instances env notify))) d3" for arts insts
    by (intro safe_bind safe_transaction safe_promote_tx d) (simp add: safe_notify_all)
  then show "safe_at (fresh_id env) F (\<lambda>db. h_bind (h_transaction (promote_tx env actor rel target
       (published_artifacts rid db) (capability_instances db))) (\<lambda>notify. h_modify (notify_instances env notify)) db) d3"
    by (simp add: safe_at_def)
qed simp_all

subsection \<open>Rolling back\<close>

lemma safe_rollback_release_tx: "safe_at E F (rollback_release_tx env actor rid) db"
  unfolding rollback_release_tx_def
proof (intro safe_bind safe_then)
  fix rel d1 x d2 y d3
  assume h: "get_release rid db = (Inr rel, d1)"
    "h_guard (is_rolling_out rel \<or> r_rollout_state rel = ''rollback_partial'')
         (app_error_new 409 ''release cannot be rolled back'') d1 = (Inr x, d2)"
    "ensure_no_other_controlled_release rid d2 = (Inr y, d3)"
  then have rel: "rel \<in> set (releases db)" "r_id rel = rid" and eq: "d1 = db" "d2 = db"
    and st: "is_rolling_out rel \<or> r_rollout_state rel = ''rollback_partial''"
    by (auto dest: release_by_id_row simp: h_guard_def h_fail_def h_return_def split: if_splits)
  have d3: "d3 = db" and free: "\<forall>r \<in> set (releases db). r_id r \<noteq> rid \<longrightarrow> \<not> controlled r"
    using h(3) unfolding eq by auto
  have "update_safe E F db (set_rollout_state (r_id rel) ''rollback_active'' (now env) db)"
    by (rule safe_set_rollout_state [OF rel(1)], rule release_move_state [where st = "''rollback_active''"])
      (use st free rel(2) in \<open>auto simp: is_rolling_out_def\<close>)
  then show "safe_at E F (h_modify (set_rollout_state rid ''rollback_active'' (now env))) d3"
    unfolding d3 rel(2) by simp
next
  fix d
  show "safe_at E F (h_modify (cancel_pending_upgrades env rid)) d"
    unfolding cancel_pending_upgrades_def
    by (simp, rule safe_change_attempts) (auto simp: mild_def status_defs)
qed simp_all

lemma safe_rollback_release [safe_rules]: "safe_at (fresh_id env) F (rollback_agent_release env admin rid) db"
  unfolding rollback_agent_release_def
  by (intro safe_bind safe_then safe_transaction safe_rollback_release_tx safe_reconcile) simp

lemma safe_rollback_instance_tx:
  assumes "is_published rid db"
  shows "safe_at (fresh_id env) F (rollback_instance_tx env actor rid iid parent) db"
proof -
  have "safe_at (fresh_id env) F (h_then (h_modify (set_target rid iid ''excluded'' (now env)))
        (h_bind (queue_rollback_for_upgrade_in_transaction env parent) (\<lambda>q.
         h_then (h_guard (q_inserted q) (app_error_new 409 ''instance has a rollback already''))
         (h_then (write_update_log actor ''rollback_agent_instance'' iid) (h_return q))))) db"
    using assms by (intro safe_then safe_bind safe_queue_rollback_tx)
      (simp_all add: safe_set_target is_published_def list_ex_iff)
  then show ?thesis by (simp add: rollback_instance_tx_def safe_at_def)
qed

lemma latest_successful_frame: "latest_successful_upgrade rid iid db = (Inr u, db') \<Longrightarrow> db' = db"
  by (auto simp: latest_successful_upgrade_def get_instance_def handler_simps split: option.splits if_splits sum.splits)

lemma safe_latest_successful: "safe_at E F (latest_successful_upgrade rid iid) db"
  by (auto simp: safe_at_def latest_successful_upgrade_def get_instance_def handler_simps split: option.splits)

lemma safe_rollback_instance [safe_rules]: "safe_at (fresh_id env) F (rollback_agent_instance env admin rid iid) db"
proof (rule safe_atI)
  assume inv: "updates_inv (fresh_id env) db"
  show "safe_at (fresh_id env) F (rollback_agent_instance env admin rid iid) db"
    unfolding rollback_agent_instance_def
  proof (intro safe_bind safe_then safe_transaction safe_rollback_instance_tx safe_latest_successful)
    fix actor d1 rel d2 x d3 parent d4
    assume "h_lift admin db = (Inr actor, d1)" "get_release rid d1 = (Inr rel, d2)"
      "h_guard (is_rolling_out rel) (app_error_new 409 ''instances of this release cannot be rolled back'') d2 = (Inr x, d3)"
      "latest_successful_upgrade rid iid d3 = (Inr parent, d4)"
    then have "rel \<in> set (releases db)" "r_id rel = rid" "d4 = db" "is_rolling_out rel"
      by (auto dest!: latest_successful_frame release_by_id_row simp: handler_simps split: if_splits)
    then show "is_published rid d4" using canary_published [OF inv] by blast
  qed (simp_all add: safe_notify)
qed

subsection \<open>Upgrading again\<close>

lemma safe_reupgrade_tx:
  assumes "is_published (r_id rel) db" "(r_id rel, i_id inst) \<in> F"
  shows "safe_at (fresh_id env) F (reupgrade_tx env actor rel inst art) db"
  unfolding reupgrade_tx_def
proof (intro safe_then safe_bind)
  show "safe_at (fresh_id env) F (h_modify (set_target (r_id rel) (i_id inst) ''included'' (now env))) db"
    using assms by (auto simp: is_published_def list_ex_iff intro!: safe_set_target)
next
  fix u d assume "h_modify (set_target (r_id rel) (i_id inst) ''included'' (now env)) db = (Inr u, d)"
  then have "d = set_target (r_id rel) (i_id inst) ''included'' (now env) db" by (simp add: h_modify_def)
  then show "safe_at (fresh_id env) F (queue_upgrade_attempt env rel inst art True) d"
    using included_allowed [OF assms(1)] by (simp add: safe_queue_upgrade)
qed simp_all

lemma safe_reupgrade_instance:
  assumes "is_published (r_id rel) db" "(r_id rel, i_id inst) \<in> F"
  shows "safe_at (fresh_id env) F (reupgrade_instance env actor rel inst target) db"
proof -
  have "safe_at (fresh_id env) F (h_bind (h_lift v) (\<lambda>_. case m of
        None \<Rightarrow> h_fail (app_error_new 409 ''no matching package'')
      | Some art \<Rightarrow> h_then (h_transaction (reupgrade_tx env actor rel inst art))
          (if r_rollout_state rel \<in> set [''canary_active'', ''full_active''] then h_modify (notify_instance env (i_id inst))
           else h_return ()))) db" for v :: "'z result" and m
  proof (intro safe_bind)
    fix x d assume "h_lift v db = (Inr x, d)"
    then have d: "d = db" by (simp add: handler_simps)
    show "safe_at (fresh_id env) F (case m of None \<Rightarrow> h_fail (app_error_new 409 ''no matching package'')
      | Some art \<Rightarrow> h_then (h_transaction (reupgrade_tx env actor rel inst art))
          (if r_rollout_state rel \<in> set [''canary_active'', ''full_active''] then h_modify (notify_instance env (i_id inst))
           else h_return ())) d"
      using assms unfolding d
      by (cases m) (auto intro!: safe_then safe_transaction safe_reupgrade_tx safe_notify)
  qed simp
  then show ?thesis unfolding reupgrade_instance_def Let_def safe_at_def by blast
qed

lemma was_rolled_back_frame [simp]:
  "was_rolled_back rid iid db = (Inr u, db') \<Longrightarrow> db' = db" "safe_at E F (was_rolled_back rid iid) db"
  by (simp_all add: was_rolled_back_def safe_at_def split: if_splits)

lemma instance_by_id_row: "instance_by_id i db = Some inst \<Longrightarrow> inst \<in> set (fleet db) \<and> i_id inst = i"
  unfolding instance_by_id_def by (drule find_SomeD) auto

lemma safe_reupgrade [safe_rules]:
  assumes "(rid, iid) \<in> F"
  shows "safe_at (fresh_id env) F (reupgrade_agent_instance env admin rid iid) db"
proof (rule safe_atI)
  assume inv: "updates_inv (fresh_id env) db"
  show "safe_at (fresh_id env) F (reupgrade_agent_instance env admin rid iid) db"
    unfolding reupgrade_agent_instance_def
  proof (intro safe_bind safe_then safe_reupgrade_instance)
    fix actor d1 rel d2 x d3 y d4 inst d5 target d6
    assume "h_lift admin db = (Inr actor, d1)" "get_release rid d1 = (Inr rel, d2)"
      "h_guard (is_rolling_out rel) (app_error_new 409 ''release cannot be installed again'') d2 = (Inr x, d3)"
      "was_rolled_back rid iid d3 = (Inr y, d4)" "get_instance iid d4 = (Inr inst, d5)"
      "h_lift (parse_release_version env rel) d5 = (Inr target, d6)"
    then have "rel \<in> set (releases db)" "r_id rel = rid" "d6 = db" "is_rolling_out rel" "i_id inst = iid"
      by (auto dest!: was_rolled_back_frame(1) release_by_id_row instance_by_id_row simp: handler_simps split: if_splits)
    then show "is_published (r_id rel) d6" "(r_id rel, i_id inst) \<in> F" using canary_published [OF inv] assms by auto
  qed simp_all
qed

subsection \<open>Retrying\<close>

lemma attempt_by_id_row: "attempt_by_id i db = Some u \<Longrightarrow> u \<in> set (update_attempts db) \<and> u_id u = i"
  unfolding attempt_by_id_def by (drule find_SomeD) auto

lemma retry_checks_frame:
  "require_latest_retry_candidate env u db = (Inr x, db') \<Longrightarrow> db' = db"
  "rollback_retry_artifact u db = (Inr y, db') \<Longrightarrow> db' = db"
  by (auto simp: require_latest_retry_candidate_def rollback_retry_artifact_def get_instance_def handler_simps
      split: option.splits if_splits)

lemma safe_retry_checks:
  "safe_at E F (require_latest_retry_candidate env u) db" "safe_at E F (rollback_retry_artifact u) db"
  by (auto simp: safe_at_def require_latest_retry_candidate_def rollback_retry_artifact_def get_instance_def handler_simps
      split: option.splits)

lemma safe_requeue_attempt:
  assumes "u \<in> set (update_attempts db)" "u_retry_count u < max_agent_update_retry_count"
    and idle: "\<And>x. x \<in> set (update_attempts db) \<Longrightarrow> attempt_active x \<Longrightarrow> u_instance_id x = u_instance_id u \<Longrightarrow> u_id x = u_id u"
  shows "safe_at E F (requeue_attempt env u artifact_id) db"
proof -
  have "update_safe E F db (change_attempts (\<lambda>x. u_id x = u_id u \<and> u_status x = u_status u \<and> u_retry_count x = u_retry_count u
          \<and> u_retry_count x < max_agent_update_retry_count)
      (\<lambda>x. x\<lparr>u_artifact_id := (case artifact_id of Some a \<Rightarrow> Some a | None \<Rightarrow> u_artifact_id x),
          u_status := ''pending'', u_message := '''', u_retry_count := u_retry_count x + 1, u_updated_at := now env,
          u_completed_at := None\<rparr>) db)"
    by (rule safe_requeue [OF assms(1,2) idle, where p = "\<lambda>x. u_id x = u_id u \<and> u_status x = u_status u
          \<and> u_retry_count x = u_retry_count u \<and> u_retry_count x < max_agent_update_retry_count"
        and art = "\<lambda>x. case artifact_id of Some a \<Rightarrow> Some a | None \<Rightarrow> u_artifact_id x"])
      (assumption | rule refl | simp add: change_attempts_def update_where_def)+
  then show ?thesis by (simp add: safe_at_def requeue_attempt_def Let_def)
qed


lemma safe_retry_tx: "safe_at (fresh_id env) F (retry_tx env actor observed) db"
  unfolding retry_tx_def
proof (intro safe_bind safe_then)
  fix rel d1 u d2 x3 d3 x4 d4 x5 d5 x6 d6
  assume h: "get_release (u_release_id observed) db = (Inr rel, d1)" "get_attempt (u_id observed) d1 = (Inr u, d2)"
    "h_guard (u_release_id u = r_id rel) (app_error_new 409 ''attempt moved to another release'') d2 = (Inr x3, d3)"
    "h_guard (retryable u) (app_error_new 409 ''attempt cannot be retried'') d3 = (Inr x4, d4)"
    "h_guard (rollout_allows_retry u rel) (app_error_new 409 ''rollout does not allow a retry'') d4 = (Inr x5, d5)"
    "h_guard (u_retry_count u < max_agent_update_retry_count) (app_error_new 409 ''too many retries'') d5 = (Inr x6, d6)"
  then have eq: "d6 = db" and rel: "rel \<in> set (releases db)" "r_id rel = u_release_id u" and u: "u \<in> set (update_attempts db)"
    and count: "u_retry_count u < max_agent_update_retry_count"
    by (auto dest: release_by_id_row attempt_by_id_row simp: h_guard_def h_fail_def h_return_def split: if_splits)
  show "safe_at (fresh_id env) F (if u_operation u = ''upgrade''
         then h_then (require_latest_retry_candidate env u) (h_return None) else rollback_retry_artifact u) d6"
    by (simp add: safe_then safe_retry_checks)
  fix art d7
  assume "(if u_operation u = ''upgrade''
         then h_then (require_latest_retry_candidate env u) (h_return None) else rollback_retry_artifact u) d6 = (Inr art, d7)"
  then have d7: "d7 = db" using eq
    by (auto dest: retry_checks_frame simp: h_then_def h_bind_def h_return_def split: if_splits prod.splits sum.splits)
  have state: "update_safe (fresh_id env) F db (set_rollout_state (u_release_id u) ''rollback_active'' (now env) db)"
    if "r_rollout_state rel = ''rollback_partial''" "\<forall>r \<in> set (releases db). r_id r \<noteq> u_release_id u \<longrightarrow> \<not> controlled r"
    unfolding rel(2) [symmetric]
    by (rule safe_set_rollout_state [OF rel(1)], rule release_move_state [where st = "''rollback_active''"])
      (use that rel(2) in auto)
  show "safe_at (fresh_id env) F (if u_operation u = ''rollback'' \<and> r_rollout_state rel = ''rollback_partial''
       then h_then (ensure_no_other_controlled_release (u_release_id u))
         (h_modify (set_rollout_state (u_release_id u) ''rollback_active'' (now env)))
       else h_return ()) d7"
    unfolding d7 using state by (auto intro!: safe_then)
  fix y d8
  assume "(if u_operation u = ''rollback'' \<and> r_rollout_state rel = ''rollback_partial''
       then h_then (ensure_no_other_controlled_release (u_release_id u))
         (h_modify (set_rollout_state (u_release_id u) ''rollback_active'' (now env)))
       else h_return ()) d7 = (Inr y, d8)"
  then have d8: "update_attempts d8 = update_attempts db" using d7
    by (auto simp: h_then_def h_bind_def h_modify_def h_return_def set_rollout_state_rows split: if_splits prod.splits sum.splits)
  let ?idle = "\<lambda>db :: update_db. if list_ex (\<lambda>x. u_instance_id x = u_instance_id u \<and> u_id x \<noteq> u_id u \<and> attempt_active x) (update_attempts db)
         then (Inl (app_error_new 409 ''instance has an active attempt''), db) else (Inr (), db)"
  show "safe_at (fresh_id env) F ?idle d8" by (simp add: safe_at_def)
  fix z d9
  assume "?idle d8 = (Inr z, d9)"
  then have "d9 = d8" and idle: "\<not> list_ex (\<lambda>x. u_instance_id x = u_instance_id u \<and> u_id x \<noteq> u_id u \<and> attempt_active x) (update_attempts d8)"
    by (auto split: if_splits)
  then show "safe_at (fresh_id env) F (requeue_attempt env u art) d9"
    using u count by (intro safe_requeue_attempt) (auto simp: d8 list_ex_iff)
qed simp_all

lemma safe_retry_update [safe_rules]: "safe_at (fresh_id env) F (retry_agent_update env admin uid) db"
  unfolding retry_agent_update_def
  by (intro safe_bind safe_then safe_transaction safe_retry_tx) (simp_all add: safe_notify_retried)


subsection \<open>The machine\<close>

datatype update_request =
    CreateRelease admin_login string string
  | EditRelease admin_login string string string
  | UploadArtifact admin_login string received_artifact int
  | DeleteArtifact admin_login string string
  | DeleteRelease admin_login string
  | PublishRelease admin_login string "string list"
  | WidenRollout admin_login string "string list"
  | PauseRollout admin_login string bool
  | PromoteRollout admin_login string
  | RollbackRelease admin_login string
  | RollbackInstance admin_login string string
  | Reupgrade admin_login string string
  | RetryAttempt admin_login string
  | DisableInstance admin_login string
  | DeleteInstance admin_login string
  | FetchManifest "string option" "string option"
  | DownloadArtifact "string option" "string option" string
  | RegisterAgent string agent_profile
  | SocketOpens string string
  | SocketCloses string string
  | SocketMetrics string string agent_profile
  | UpdateReport string string "string option" string string string int string "string option"
  | RollbackReport string string string int string "string option"
  | TimeoutTick

text \<open>One request or tick at time \<open>t\<close>; \<open>sm\<close> is the comparison of agent secrets.\<close>

fun update_step :: "('v::linorder) update_env \<Rightarrow> (string \<Rightarrow> string \<Rightarrow> bool) \<Rightarrow> int \<times> update_request \<Rightarrow> update_db \<Rightarrow> update_db" where
  "update_step env sm (t, CreateRelease admin v notes) db = snd (create_agent_release (env\<lparr>now := t\<rparr>) admin v notes db)"
| "update_step env sm (t, EditRelease admin rid v notes) db = snd (update_agent_release (env\<lparr>now := t\<rparr>) admin rid v notes db)"
| "update_step env sm (t, UploadArtifact admin rid rc n) db = snd (upload_agent_artifact (env\<lparr>now := t\<rparr>) admin rid rc n db)"
| "update_step env sm (t, DeleteArtifact admin rid aid) db = snd (delete_agent_artifact admin rid aid db)"
| "update_step env sm (t, DeleteRelease admin rid) db = snd (admin_delete_agent_release admin rid db)"
| "update_step env sm (t, PublishRelease admin rid iids) db = snd (publish_agent_release (env\<lparr>now := t\<rparr>) admin rid iids db)"
| "update_step env sm (t, WidenRollout admin rid iids) db = snd (add_agent_rollout_targets (env\<lparr>now := t\<rparr>) admin rid iids db)"
| "update_step env sm (t, PauseRollout admin rid p) db = snd (set_rollout_paused (env\<lparr>now := t\<rparr>) admin rid p db)"
| "update_step env sm (t, PromoteRollout admin rid) db = snd (promote_agent_rollout (env\<lparr>now := t\<rparr>) admin rid db)"
| "update_step env sm (t, RollbackRelease admin rid) db = snd (rollback_agent_release (env\<lparr>now := t\<rparr>) admin rid db)"
| "update_step env sm (t, RollbackInstance admin rid iid) db = snd (rollback_agent_instance (env\<lparr>now := t\<rparr>) admin rid iid db)"
| "update_step env sm (t, Reupgrade admin rid iid) db = snd (reupgrade_agent_instance (env\<lparr>now := t\<rparr>) admin rid iid db)"
| "update_step env sm (t, RetryAttempt admin uid) db = snd (retry_agent_update (env\<lparr>now := t\<rparr>) admin uid db)"
| "update_step env sm (t, DisableInstance admin iid) db = snd (admin_disable_instance admin iid db)"
| "update_step env sm (t, DeleteInstance admin iid) db = snd (admin_delete_instance admin iid db)"
| "update_step env sm (t, FetchManifest i s) db = snd (agent_update_manifest (env\<lparr>now := t\<rparr>) sm i s db)"
| "update_step env sm (t, DownloadArtifact i s aid) db = snd (authorized_artifact_download sm i s aid db)"
| "update_step env sm (t, RegisterAgent iid g) db = snd (agent_register (env\<lparr>now := t\<rparr>) iid g db)"
| "update_step env sm (t, SocketOpens iid conn) db = open_agent_socket iid conn db"
| "update_step env sm (t, SocketCloses iid conn) db = remove_current_agent iid conn db"
| "update_step env sm (t, SocketMetrics iid conn g) db = snd (store_metrics (env\<lparr>now := t\<rparr>) iid conn g db)"
| "update_step env sm (t, UpdateReport iid conn i rid aid v n st m) db =
     snd (record_connection_update_status (env\<lparr>now := t\<rparr>) iid conn i rid aid v n st m db)"
| "update_step env sm (t, RollbackReport iid conn uid n st m) db =
     snd (record_connection_rollback_status (env\<lparr>now := t\<rparr>) iid conn uid n st m db)"
| "update_step env sm (t, TimeoutTick) db = update_timeout_tick (env\<lparr>now := t\<rparr>) db"

text \<open>The exclusions a request may lift.\<close>

fun lifted :: "update_request \<Rightarrow> (string \<times> string) set" where
  "lifted (Reupgrade _ rid iid) = {(rid, iid)}"
| "lifted (DeleteRelease _ rid) = {rid} \<times> UNIV"
| "lifted (DeleteInstance _ iid) = UNIV \<times> {iid}"
| "lifted _ = {}"

lemma update_step_safe: "update_safe (fresh_id env) (lifted req) db (update_step env sm (t, req) db)"
proof -
  have s: "safe_at (fresh_id (env\<lparr>now := t\<rparr>)) F m db \<Longrightarrow> update_safe (fresh_id env) F db (snd (m db))" for F and m :: "'x update_handler"
    by (simp add: safe_at_def)
  have p: "update_safe (fresh_id (env\<lparr>now := t\<rparr>)) F db d \<Longrightarrow> update_safe (fresh_id env) F db d" for F d by simp
  show ?thesis
    by (cases req; simp only: update_step.simps lifted.simps; ((rule s, rule safe_rules) | (rule p, rule safe_rules)); simp)
qed

theorem update_step_inv: "updates_inv (fresh_id env) db \<Longrightarrow> updates_inv (fresh_id env) (update_step env sm e db)"
  using update_step_safe [of env "snd e" db sm "fst e"] by (simp add: update_safe_def)

interpretation updates: invariant_machine "update_step env sm" "updates_inv (fresh_id env)" for env sm
  by unfold_locales (rule update_step_inv)

text \<open>Along a run the exclusions that no request lifts are kept, and the rows follow one another.\<close>

lemma update_run_safe:
  "update_safe (fresh_id env) (\<Union> (lifted ` snd ` set es)) db (fold (update_step env sm) es db)"
proof (induction es arbitrary: db)
  case (Cons e es)
  let ?F = "\<Union> (lifted ` snd ` set (e # es))"
  have "update_safe (fresh_id env) (lifted (snd e)) db (update_step env sm e db)"
    using update_step_safe [of env "snd e" db sm "fst e"] by simp
  then have "update_safe (fresh_id env) ?F db (update_step env sm e db)" by (rule update_safe_mono) auto
  moreover have "update_safe (fresh_id env) ?F (update_step env sm e db) (fold (update_step env sm) es (update_step env sm e db))"
    using Cons.IH by (rule update_safe_mono) auto
  ultimately show ?case by (simp del: UN_simps) (rule update_safe_trans)
qed simp

text \<open>The statuses an agent reports are ranked: each accepted change moves the attempt forward.\<close>

definition status_rank :: "string \<Rightarrow> nat" where
  "status_rank st = (if st \<in> set terminal_attempt_statuses then 8
     else case status_progress st of None \<Rightarrow> 0 | Some n \<Rightarrow> Suc n)"

lemma map_of_inj_values:
  assumes "distinct (map snd xs)" "map_of xs p = Some c" "map_of xs q = Some c"
  shows "p = q"
proof -
  have "inj_on snd (set xs)" using assms(1) by (simp add: distinct_map)
  from inj_onD [OF this, of "(p, c)" "(q, c)"] show ?thesis using assms(2,3) by (auto dest: map_of_SomeD)
qed

lemma status_progress_inj: "status_progress p = Some c \<Longrightarrow> status_progress q = Some c \<Longrightarrow> p = q"
  unfolding status_progress_def by (erule map_of_inj_values [rotated], assumption, simp)

lemma status_progress_le: "status_progress p = Some c \<Longrightarrow> c \<le> 6"
  unfolding status_progress_def by (drule map_of_SomeD) auto

lemma transition_rank:
  assumes "update_status_transition_allowed p q" "p \<noteq> q"
  shows "status_rank p < status_rank q"
proof (cases "p \<in> set terminal_attempt_statuses \<or> q \<in> set terminal_attempt_statuses")
  case True
  then show ?thesis using assms
    by (auto simp: update_status_transition_allowed_def status_rank_def less_Suc_eq_le
        split: option.split dest!: status_progress_le)
next
  case False
  then obtain c n where "status_progress p = Some c" "status_progress q = Some n" "c \<le> n"
    using assms by (auto simp: update_status_transition_allowed_def split: option.splits)
  moreover from this have "c \<noteq> n" using status_progress_inj assms(2) by blast
  ultimately show ?thesis using False by (simp add: status_rank_def)
qed

interpretation statuses: ranked_transitions update_status_transition_allowed status_rank
  by unfold_locales (rule transition_rank)

lemma status_rank_le: "status_rank p \<le> 8"
  by (auto simp: status_rank_def split: option.split dest!: status_progress_le)

end
