(* ===== verification/OfferSigning.thy ===== *)
theory OfferSigning
  imports UpdateSignature
begin

text \<open>
  What the signatures of update offers give: a payload determines every signed field of its offer, the
  three payload formats do not overlap, an offer signed by the server passes the agent's policy, and an
  offer an agent accepts was issued by the holder of the key.
\<close>

subsection \<open>Numbers are printed unambiguously\<close>

definition dec_value :: "string \<Rightarrow> nat" where
  "dec_value s = foldl (\<lambda>a c. 10 * a + (of_char c - 48)) 0 s"

lemma of_digit_char: "d < 10 \<Longrightarrow> of_char (digit_char d) = (48 + d :: nat)"
proof -
  have "\<forall>d \<in> set [0..<10]. of_char (digit_char d) = (48 + d :: nat)"
    by (simp add: digit_char_def ascii_digits_def upt_rec)
  then show "d < 10 \<Longrightarrow> of_char (digit_char d) = (48 + d :: nat)" by simp
qed

lemma dec_value_string: "dec_value (dec_string n) = n"
proof (induction n rule: dec_string.induct)
  case (1 n)
  show ?case
  proof (cases "n < 10")
    case True
    then show ?thesis by (subst dec_string.simps) (simp add: dec_value_def of_digit_char)
  next
    case False
    then show ?thesis using 1 by (subst dec_string.simps) (simp add: dec_value_def of_digit_char)
  qed
qed

lemma dec_string_inj: "dec_string m = dec_string n \<longleftrightarrow> m = n"
  using dec_value_string by metis

lemma minus_not_digit: "CHR ''-'' \<notin> set (dec_string n)"
proof -
  have "CHR ''-'' \<notin> set ascii_digits" by (simp add: ascii_digits_def)
  then show ?thesis using dec_string_digits [of n] by blast
qed

lemma int_string_inj: "int_string a = int_string b \<longleftrightarrow> a = b"
proof -
  have "dec_string m \<noteq> CHR ''-'' # t" "CHR ''-'' # t \<noteq> dec_string m" for m t
    using minus_not_digit [of m] by (metis list.set_intros(1))+
  then show ?thesis by (auto simp: int_string_def dec_string_inj)
qed

lemma int_string_plain: "plain_value (int_string i)"
proof -
  have "\<forall>c \<in> set ascii_digits. \<not> breaks_line c" by (simp add: ascii_digits_def breaks_line_def newline_def)
  then have "plain_value (dec_string n)" for n
    using dec_string_digits [of n] by (auto simp: plain_value_def list_ex_iff)
  moreover have "\<not> breaks_line (CHR ''-'')" by (simp add: breaks_line_def newline_def)
  ultimately show ?thesis by (simp add: int_string_def plain_value_def)
qed

lemma to_lower_breaks: "breaks_line (to_lower_char c) = breaks_line c"
proof -
  have "\<not> list_ex breaks_line (ascii_uppers @ ascii_lowers)"
    by (simp add: breaks_line_def newline_def ascii_uppers_def ascii_lowers_def)
  then have "\<forall>d \<in> set ascii_uppers \<union> set ascii_lowers. \<not> breaks_line d" by (auto simp: list_ex_iff)
  then show ?thesis using to_lower_char_cases [of c] by auto
qed

lemma lowercase_plain: "plain_value (to_ascii_lowercase s) = plain_value s"
  by (simp add: plain_value_def to_ascii_lowercase_def list_ex_iff to_lower_breaks)

subsection \<open>The text determines its fields\<close>

lemma split_at_separator:
  assumes "xs @ c # r = ys @ c # t" "c \<notin> set xs" "c \<notin> set ys"
  shows "xs = ys \<and> r = t"
  using assms
proof (induction xs arbitrary: ys)
  case Nil
  then show ?case by (cases ys) auto
next
  case (Cons x xs)
  then show ?case by (cases ys) auto
qed

lemma plain_no_newline: "plain_value v \<Longrightarrow> newline \<notin> set v"
  by (auto simp: plain_value_def list_ex_iff breaks_line_def)

lemma payload_lines_inj:
  assumes "map fst es = map fst fs" "\<forall>v \<in> set (map snd es @ map snd fs). plain_value v"
    and "concat (map (\<lambda>(n, v). payload_line n v) es) = concat (map (\<lambda>(n, v). payload_line n v) fs)"
  shows "map snd es = map snd fs"
  using assms
proof (induction es fs rule: list_induct2')
  case (4 e es f fs)
  obtain n v where e: "e = (n, v)" by (cases e)
  obtain w where f: "f = (n, w)" using 4(2) by (cases f) (simp add: e)
  let ?rest = "\<lambda>es. concat (map (\<lambda>(n, v). payload_line n v) es)"
  have "v @ newline # ?rest es = w @ newline # ?rest fs" using 4(4) by (simp add: e f payload_line_def)
  then have "v = w \<and> ?rest es = ?rest fs"
    by (rule split_at_separator) (use 4(3) in \<open>auto simp: e f dest: plain_no_newline\<close>)
  then show ?case using 4 by (simp add: e f)
qed simp_all

lemma payload_text_inj:
  assumes "payload_text d es = payload_text d' fs" "plain_value d" "plain_value d'"
  shows "d = d' \<and> (map fst es = map fst fs \<and> (\<forall>v \<in> set (map snd es @ map snd fs). plain_value v)
    \<longrightarrow> map snd es = map snd fs)"
proof -
  have "d = d' \<and> concat (map (\<lambda>(n, v). payload_line n v) es) = concat (map (\<lambda>(n, v). payload_line n v) fs)"
    using assms(1) unfolding payload_text_def
    by (rule split_at_separator) (use assms(2,3) in \<open>simp_all add: plain_no_newline\<close>)
  then show ?thesis using payload_lines_inj [of es fs] by blast
qed

lemma domains [simp]:
  "plain_value legacy_domain" "plain_value v2_domain" "plain_value rollback_domain"
  "legacy_domain \<noteq> v2_domain" "v2_domain \<noteq> legacy_domain" "rollback_domain \<noteq> v2_domain" "v2_domain \<noteq> rollback_domain"
  "rollback_domain \<noteq> legacy_domain" "legacy_domain \<noteq> rollback_domain"
  by (simp_all add: plain_value_def legacy_domain_def v2_domain_def rollback_domain_def breaks_line_def newline_def)

subsection \<open>Each format determines the fields it signs\<close>

definition offer_fields where
  "offer_fields off = (o_attempt_id off, o_instance_id off, o_release_id off, o_version off, o_retry_count off,
     o_artifact_id off, o_download_url off, o_target_os off, o_package_type off, o_native_arch off, o_size_bytes off,
     to_ascii_lowercase (o_sha256 off))"

definition legacy_fields where
  "legacy_fields off = (o_version off, o_target_os off, o_package_type off, o_native_arch off, o_size_bytes off,
     to_ascii_lowercase (o_sha256 off))"

definition rollback_fields where
  "rollback_fields off = (b_attempt_id off, b_release_id off, b_instance_id off, b_from_version off, b_target_version off,
     b_retry_count off, case rollback_package_fields off of (a, t, p, n, s, h) \<Rightarrow> (a, t, p, n, s, to_ascii_lowercase h))"

lemmas printed_values = signable_value_def int_string_plain lowercase_plain int_string_inj

lemma payload_unsigned [simp]:
  "legacy_update_signature_payload (off\<lparr>o_signature_key_id := k, o_signature := a, o_signature_v2 := b\<rparr>)
     = legacy_update_signature_payload off"
  "update_signature_payload_v2 (off\<lparr>o_signature_key_id := k, o_signature := a, o_signature_v2 := b\<rparr>)
     = update_signature_payload_v2 off"
  by (simp_all add: legacy_update_signature_payload_def update_signature_payload_v2_def split: option.split)

lemma v2_text:
  assumes "update_signature_payload_v2 off = Inr p"
  obtains a i t where "o_attempt_id off = Some a" "o_instance_id off = Some i" "o_target_os off = Some t"
    "list_all plain_value [a, i, o_release_id off, o_version off, o_artifact_id off, o_download_url off, t,
       o_package_type off, o_native_arch off, o_sha256 off]"
    "p = payload_text v2_domain
       [(''attempt_id'', a), (''instance_id'', i), (''release_id'', o_release_id off), (''version'', o_version off),
        (''retry_count'', int_string (o_retry_count off)), (''artifact_id'', o_artifact_id off),
        (''download_url'', o_download_url off), (''target_os'', t), (''package_type'', o_package_type off),
        (''native_arch'', o_native_arch off), (''size_bytes'', int_string (o_size_bytes off)),
        (''sha256'', to_ascii_lowercase (o_sha256 off))]"
  using assms unfolding update_signature_payload_v2_def
  by (auto simp: signable_value_def split: option.splits if_splits)

lemma legacy_text:
  assumes "legacy_update_signature_payload off = Inr p"
  obtains t where "o_target_os off = Some t"
    "list_all plain_value [o_version off, t, o_package_type off, o_native_arch off, o_sha256 off]"
    "p = payload_text legacy_domain [(''version'', o_version off), (''target_os'', t), (''package_type'', o_package_type off),
       (''native_arch'', o_native_arch off), (''size_bytes'', int_string (o_size_bytes off)),
       (''sha256'', to_ascii_lowercase (o_sha256 off))]"
  using assms unfolding legacy_update_signature_payload_def
  by (auto simp: signable_value_def split: option.splits if_splits)

lemma rollback_text:
  assumes "rollback_signature_payload off = Inr p"
  obtains a t k n s h where "rollback_package_fields off = (a, t, k, n, s, h)"
    "list_all plain_value [b_attempt_id off, b_release_id off, b_instance_id off, b_from_version off, b_target_version off,
       a, t, k, n, h]"
    "p = payload_text rollback_domain [(''attempt_id'', b_attempt_id off), (''release_id'', b_release_id off),
       (''instance_id'', b_instance_id off), (''from_version'', b_from_version off), (''target_version'', b_target_version off),
       (''retry_count'', int_string (b_retry_count off)), (''artifact_id'', a), (''target_os'', t), (''package_type'', k),
       (''native_arch'', n), (''size_bytes'', int_string s), (''sha256'', to_ascii_lowercase h)]"
  using assms unfolding rollback_signature_payload_def
  by (auto split: prod.splits if_splits)

lemma v2_injective:
  assumes "update_signature_payload_v2 off = Inr p" "update_signature_payload_v2 off' = Inr p"
  shows "offer_fields off = offer_fields off'"
proof -
  obtain a i t where f: "o_attempt_id off = Some a" "o_instance_id off = Some i" "o_target_os off = Some t"
    and v: "list_all plain_value [a, i, o_release_id off, o_version off, o_artifact_id off, o_download_url off, t,
       o_package_type off, o_native_arch off, o_sha256 off]" and p: "p = payload_text v2_domain
       [(''attempt_id'', a), (''instance_id'', i), (''release_id'', o_release_id off), (''version'', o_version off),
        (''retry_count'', int_string (o_retry_count off)), (''artifact_id'', o_artifact_id off),
        (''download_url'', o_download_url off), (''target_os'', t), (''package_type'', o_package_type off),
        (''native_arch'', o_native_arch off), (''size_bytes'', int_string (o_size_bytes off)),
        (''sha256'', to_ascii_lowercase (o_sha256 off))]" using assms(1) by (rule v2_text)
  obtain a' i' t' where f': "o_attempt_id off' = Some a'" "o_instance_id off' = Some i'" "o_target_os off' = Some t'"
    and v': "list_all plain_value [a', i', o_release_id off', o_version off', o_artifact_id off', o_download_url off', t',
       o_package_type off', o_native_arch off', o_sha256 off']" and p': "p = payload_text v2_domain
       [(''attempt_id'', a'), (''instance_id'', i'), (''release_id'', o_release_id off'), (''version'', o_version off'),
        (''retry_count'', int_string (o_retry_count off')), (''artifact_id'', o_artifact_id off'),
        (''download_url'', o_download_url off'), (''target_os'', t'), (''package_type'', o_package_type off'),
        (''native_arch'', o_native_arch off'), (''size_bytes'', int_string (o_size_bytes off')),
        (''sha256'', to_ascii_lowercase (o_sha256 off'))]" using assms(2) by (rule v2_text)
  from payload_text_inj [OF p [unfolded p'] domains(2) domains(2)] v v'
  show ?thesis by (simp add: f f' offer_fields_def printed_values)
qed

lemma legacy_injective:
  assumes "legacy_update_signature_payload off = Inr p" "legacy_update_signature_payload off' = Inr p"
  shows "legacy_fields off = legacy_fields off'"
  using assms(1)
proof (rule legacy_text)
  fix t assume f: "o_target_os off = Some t"
    and v: "list_all plain_value [o_version off, t, o_package_type off, o_native_arch off, o_sha256 off]"
    and p: "p = payload_text legacy_domain [(''version'', o_version off), (''target_os'', t), (''package_type'', o_package_type off),
       (''native_arch'', o_native_arch off), (''size_bytes'', int_string (o_size_bytes off)),
       (''sha256'', to_ascii_lowercase (o_sha256 off))]"
  from assms(2) show ?thesis
  proof (rule legacy_text)
    fix t' assume f': "o_target_os off' = Some t'"
      and v': "list_all plain_value [o_version off', t', o_package_type off', o_native_arch off', o_sha256 off']"
      and p': "p = payload_text legacy_domain [(''version'', o_version off'), (''target_os'', t'),
         (''package_type'', o_package_type off'), (''native_arch'', o_native_arch off'),
         (''size_bytes'', int_string (o_size_bytes off')), (''sha256'', to_ascii_lowercase (o_sha256 off'))]"
    from payload_text_inj [OF p [unfolded p'] domains(1) domains(1)] v v'
    show ?thesis by (simp add: f f' legacy_fields_def printed_values)
  qed
qed


lemma rollback_injective:
  assumes "rollback_signature_payload off = Inr p" "rollback_signature_payload off' = Inr p"
  shows "rollback_fields off = rollback_fields off'"
  using assms(1)
proof (rule rollback_text)
  fix a t k n s h assume f: "rollback_package_fields off = (a, t, k, n, s, h)"
    and v: "list_all plain_value [b_attempt_id off, b_release_id off, b_instance_id off, b_from_version off, b_target_version off,
       a, t, k, n, h]"
    and p: "p = payload_text rollback_domain [(''attempt_id'', b_attempt_id off), (''release_id'', b_release_id off),
       (''instance_id'', b_instance_id off), (''from_version'', b_from_version off), (''target_version'', b_target_version off),
       (''retry_count'', int_string (b_retry_count off)), (''artifact_id'', a), (''target_os'', t), (''package_type'', k),
       (''native_arch'', n), (''size_bytes'', int_string s), (''sha256'', to_ascii_lowercase h)]"
  from assms(2) show ?thesis
  proof (rule rollback_text)
    fix a' t' k' n' s' h' assume f': "rollback_package_fields off' = (a', t', k', n', s', h')"
      and v': "list_all plain_value [b_attempt_id off', b_release_id off', b_instance_id off', b_from_version off',
         b_target_version off', a', t', k', n', h']"
      and p': "p = payload_text rollback_domain [(''attempt_id'', b_attempt_id off'), (''release_id'', b_release_id off'),
         (''instance_id'', b_instance_id off'), (''from_version'', b_from_version off'),
         (''target_version'', b_target_version off'), (''retry_count'', int_string (b_retry_count off')), (''artifact_id'', a'),
         (''target_os'', t'), (''package_type'', k'), (''native_arch'', n'), (''size_bytes'', int_string s'),
         (''sha256'', to_ascii_lowercase h')]"
    from payload_text_inj [OF p [unfolded p'] domains(3) domains(3)] v v'
    show ?thesis by (simp add: f f' rollback_fields_def printed_values)
  qed
qed

lemma formats_disjoint:
  "update_signature_payload_v2 off = Inr p \<Longrightarrow> legacy_update_signature_payload off' \<noteq> Inr p"
  "update_signature_payload_v2 off = Inr p \<Longrightarrow> rollback_signature_payload r \<noteq> Inr p"
  "legacy_update_signature_payload off = Inr p \<Longrightarrow> rollback_signature_payload r \<noteq> Inr p"
  by (auto elim!: v2_text legacy_text rollback_text dest!: payload_text_inj)

subsection \<open>What the agent accepts\<close>

text \<open>
  The texts a server signs when it issues the offers \<open>offs\<close> and \<open>rollbacks\<close>, and the assumption on
  the signature scheme: the embedded key verifies only texts the server signed.
\<close>

definition signed_texts :: "update_offer set \<Rightarrow> rollback_offer set \<Rightarrow> string set" where
  "signed_texts offs rollbacks = {p. (\<exists>off \<in> offs. update_signature_payload_v2 off = Inr p
      \<or> legacy_update_signature_payload off = Inr p) \<or> (\<exists>r \<in> rollbacks. rollback_signature_payload r = Inr p)}"

definition unforged :: "'sig verifying_key \<Rightarrow> string set \<Rightarrow> bool" where
  "unforged vk texts \<longleftrightarrow> (\<forall>p sig. key_verify vk p sig \<longrightarrow> p \<in> texts)"

lemma check_signature_Inr:
  "check_signature vk key_id encoded payload = Inr () \<longleftrightarrow> (\<exists>e sig p. key_id = Some (v_key_id vk)
     \<and> valid_signature_key_id (v_key_id vk) \<and> encoded = Some e \<and> b64_decode vk e = Some sig \<and> payload = Inr p
     \<and> key_verify vk p sig)"
  by (cases payload) (auto simp: check_signature_def try_bind_def split: option.splits if_splits)

lemma verified_text:
  "unforged vk texts \<Longrightarrow> check_signature vk key_id encoded payload = Inr () \<Longrightarrow> \<exists>p \<in> texts. payload = Inr p"
  by (auto simp: check_signature_Inr unforged_def)

lemma verified_v2:
  assumes "unforged vk (signed_texts offs rollbacks)" "verify_update_signature_v2 vk off = Inr ()"
  shows "\<exists>issued \<in> offs. offer_fields off = offer_fields issued"
proof -
  obtain p where p: "update_signature_payload_v2 off = Inr p" "p \<in> signed_texts offs rollbacks"
    using verified_text [OF assms(1)] assms(2) unfolding verify_update_signature_v2_def by blast
  then show ?thesis using v2_injective [OF p(1)] formats_disjoint(1,2) [OF p(1)] unfolding signed_texts_def by blast
qed

lemma verified_legacy:
  assumes "unforged vk (signed_texts offs rollbacks)" "verify_legacy_update_signature vk off = Inr ()"
  shows "\<exists>issued \<in> offs. legacy_fields off = legacy_fields issued"
proof -
  obtain p where p: "legacy_update_signature_payload off = Inr p" "p \<in> signed_texts offs rollbacks"
    using verified_text [OF assms(1)] assms(2) unfolding verify_legacy_update_signature_def by blast
  then show ?thesis using legacy_injective [OF p(1)] formats_disjoint(3) [OF p(1)] formats_disjoint(1)
    unfolding signed_texts_def by blast
qed

lemma verified_rollback:
  assumes "unforged vk (signed_texts offs rollbacks)" "verify_rollback_signature vk off = Inr ()"
  shows "\<exists>issued \<in> rollbacks. rollback_fields off = rollback_fields issued"
proof -
  obtain p where p: "rollback_signature_payload off = Inr p" "p \<in> signed_texts offs rollbacks"
    using verified_text [OF assms(1)] assms(2) unfolding verify_rollback_signature_def by blast
  then show ?thesis using rollback_injective [OF p(1)] formats_disjoint(2,3) unfolding signed_texts_def by blast
qed


text \<open>
  C20: An automatic update that an agent with an embedded key accepts was issued by the server.  If the
  key verifies only texts the server signed, then an offer that passes the signature policy and the
  instance binding has the same attempt, instance, release, version, generation, artifact, address,
  target, size and digest as an issued offer, and that offer was for this instance.  Only over HTTPS may
  an offer carry the old signature alone; it then agrees in the fields that signature covers.
\<close>

theorem accepted_update_was_issued:
  assumes "unforged vk (signed_texts offs rollbacks)"
    and "verify_update_signature_policy_with_key off server_is_https (Some vk) = Inr ()"
    and "validate_update_instance_binding off iid = Inr ()"
  shows "\<exists>issued \<in> offs. if o_signature_v2 off \<noteq> None
    then offer_fields off = offer_fields issued \<and> o_instance_id issued = Some iid
    else server_is_https \<and> legacy_fields off = legacy_fields issued"
proof (cases "o_signature_v2 off = None")
  case True
  then have "server_is_https" "verify_legacy_update_signature vk off = Inr ()"
    using assms(2) by (auto simp: verify_update_signature_policy_with_key_def split: if_splits)
  then show ?thesis using verified_legacy [OF assms(1)] True by simp
next
  case False
  then have "verify_update_signature_v2 vk off = Inr ()"
    using assms(2) by (simp add: verify_update_signature_policy_with_key_def)
  from verified_v2 [OF assms(1) this] obtain issued where issued: "issued \<in> offs" "offer_fields off = offer_fields issued"
    by blast
  moreover have "o_instance_id off = Some iid"
    using assms(3) False by (auto simp: validate_update_instance_binding_def split: option.splits if_splits)
  moreover have "o_instance_id issued = o_instance_id off" using issued(2) by (simp add: offer_fields_def)
  ultimately show ?thesis using False by (intro bexI [of _ issued]) simp_all
qed

definition demo_offer :: update_offer where
  "demo_offer = \<lparr>o_attempt_id = Some ''a1'', o_instance_id = Some ''node-1'', o_release_id = ''r1'', o_version = ''1.2.0'',
     o_artifact_id = ''p1'', o_download_url = ''/d'', o_sha256 = ''AB'', o_size_bytes = 10, o_package_type = ''standalone'',
     o_native_arch = ''x86'', o_target_os = Some ''linux'', o_signature_key_id = None, o_signature = None,
     o_signature_v2 = None, o_retry_count = 0\<rparr>"


definition demo_payload :: string where
  "demo_payload = (case update_signature_payload_v2 demo_offer of Inr p \<Rightarrow> p | Inl _ \<Rightarrow> [])"

definition demo_key :: "string verifying_key" where
  "demo_key = \<lparr>v_key_id = ''key-1'', b64_decode = Some, key_verify = \<lambda>p sig. p = sig \<and> p = demo_payload\<rparr>"

definition demo_signed :: update_offer where
  "demo_signed = demo_offer\<lparr>o_signature_key_id := Some ''key-1'', o_signature_v2 := Some demo_payload\<rparr>"

lemma demo_payload_v2: "update_signature_payload_v2 demo_offer = Inr demo_payload"
  unfolding demo_payload_def by code_simp

theorem accepted_update_was_issued_witness:
  "offer_fields demo_signed = offer_fields demo_offer \<and> o_instance_id demo_offer = Some ''node-1''"
proof -
  have "unforged demo_key (signed_texts {demo_offer} {})"
    by (simp add: unforged_def demo_key_def signed_texts_def demo_payload_v2)
  moreover have "verify_update_signature_policy_with_key demo_signed False (Some demo_key) = Inr ()" by code_simp
  moreover have "validate_update_instance_binding demo_signed ''node-1'' = Inr ()" by code_simp
  ultimately have "\<exists>issued \<in> {demo_offer}. if o_signature_v2 demo_signed \<noteq> None
    then offer_fields demo_signed = offer_fields issued \<and> o_instance_id issued = Some ''node-1''
    else False \<and> legacy_fields demo_signed = legacy_fields issued" by (rule accepted_update_was_issued)
  then show ?thesis by (simp add: demo_signed_def)
qed

text \<open>
  The same for a rollback: an agent with an embedded key accepts only a rollback that was issued, and
  neither an update offer nor a text in another format can be passed off as one.
\<close>

theorem accepted_rollback_was_issued:
  assumes "unforged vk (signed_texts offs rollbacks)"
    and "verify_rollback_signature_policy_with_key off server_is_https (Some vk) = Inr ()"
  shows "\<exists>issued \<in> rollbacks. rollback_fields off = rollback_fields issued"
  using assms(2) by (intro verified_rollback [OF assms(1)]) (simp add: verify_rollback_signature_policy_with_key_def)

definition demo_rollback :: rollback_offer where
  "demo_rollback = \<lparr>b_attempt_id = ''a2'', b_release_id = ''r1'', b_instance_id = ''node-1'', b_from_version = ''1.2.0'',
     b_target_version = ''1.1.0'', b_retry_count = 0, b_package = None, b_signature_key_id = Some ''key-1'',
     b_signature = (case rollback_signature_payload \<lparr>b_attempt_id = ''a2'', b_release_id = ''r1'', b_instance_id = ''node-1'',
       b_from_version = ''1.2.0'', b_target_version = ''1.1.0'', b_retry_count = 0, b_package = None,
       b_signature_key_id = None, b_signature = None\<rparr> of Inr p \<Rightarrow> Some p | Inl _ \<Rightarrow> None)\<rparr>"

definition demo_rollback_key :: "string verifying_key" where
  "demo_rollback_key = \<lparr>v_key_id = ''key-1'', b64_decode = Some,
     key_verify = \<lambda>p sig. p = sig \<and> rollback_signature_payload demo_rollback = Inr p\<rparr>"

theorem accepted_rollback_was_issued_witness: "\<exists>r. rollback_fields demo_rollback = rollback_fields r \<and> r = demo_rollback"
proof -
  have "unforged demo_rollback_key (signed_texts {} {demo_rollback})"
    by (simp add: unforged_def demo_rollback_key_def signed_texts_def)
  moreover have "verify_rollback_signature_policy_with_key demo_rollback False (Some demo_rollback_key) = Inr ()" by code_simp
  ultimately have "\<exists>issued \<in> {demo_rollback}. rollback_fields demo_rollback = rollback_fields issued"
    by (rule accepted_rollback_was_issued)
  then show ?thesis by simp
qed



end
