(* ===== verification/UpdateProperties.thy ===== *)
theory UpdateProperties
  imports UpdateMachine OfferSigning
begin

text \<open>
  What the update component guarantees: along every run of requests and background ticks, whatever
  their order, times and arguments, and for single handlers.
\<close>

subsection \<open>A small fleet\<close>

definition demo_version :: "string \<Rightarrow> nat option" where
  "demo_version s = map_of [(''1.0.0'', 1), (''1.1.0'', 2)] s"

definition demo_fleet_env :: "nat update_env" where
  "demo_fleet_env = \<lparr>now = 100, parse_version = demo_version, show_version = (\<lambda>n. if n = 1 then ''1.0.0'' else ''1.1.0''),
     fresh_id = (\<lambda>n. CHR ''u'' # replicate n (CHR ''x'')), signer = None\<rparr>"

definition demo_node :: "string \<Rightarrow> string \<Rightarrow> fleet_row" where
  "demo_node iid v = \<lparr>i_id = iid, i_secret = ''s'', i_name = iid, i_os = ''linux'', i_agent_version = v,
     i_package_type = ''standalone'', i_native_arch = ''x86'', i_update_privileged = 1, i_rollback_supported = 1,
     i_rollback_version = ''1.0.0'', i_approved = 1, i_disabled = 0\<rparr>"

definition demo_release_row :: "string \<Rightarrow> release_row" where
  "demo_release_row st = \<lparr>r_id = ''r1'', r_version = ''1.1.0'', r_notes = [], r_status = ''published'', r_rollout_state = st,
     r_rollout_updated_at = None, r_created_at = 0, r_published_at = Some 0\<rparr>"

definition demo_package :: artifact_row where
  "demo_package = \<lparr>a_id = ''p1'', a_release_id = ''r1'', a_os = ''linux'', a_package_type = ''standalone'', a_native_arch = ''x86'',
     a_file_name = ''agent.bin'', a_size_bytes = 10, a_sha256 = ''ab'', a_storage_path = ''p'', a_created_at = 0,
     a_status = ''published'', a_published_at = Some 0\<rparr>"

definition demo_attempt :: "string \<Rightarrow> attempt_row" where
  "demo_attempt st = \<lparr>u_id = ''u'', u_release_id = ''r1'', u_artifact_id = Some ''p1'', u_instance_id = ''node-1'',
     u_operation = ''upgrade'', u_parent_attempt_id = None, u_from_version = ''1.0.0'', u_target_version = ''1.1.0'',
     u_status = st, u_message = [], u_retry_count = 0, u_created_at = 10, u_updated_at = 10, u_completed_at = None\<rparr>"

definition demo_targets :: "target_row list" where
  "demo_targets = [\<lparr>t_release_id = ''r1'', t_instance_id = ''node-1'', t_state = ''included'', t_created_at = 0, t_updated_at = 0\<rparr>,
     \<lparr>t_release_id = ''r1'', t_instance_id = ''node-2'', t_state = ''excluded'', t_created_at = 0, t_updated_at = 0\<rparr>]"

definition demo_fleet :: "string \<Rightarrow> string \<Rightarrow> update_db" where
  "demo_fleet rollout st = \<lparr>fleet = [demo_node ''node-1'' ''1.0.0'', demo_node ''node-2'' ''1.0.0''],
     releases = [demo_release_row rollout], artifacts = [demo_package], release_targets = demo_targets,
     update_attempts = [demo_attempt st], connections = [(''node-1'', ''c1'')], sent = [], update_log = [], ids_drawn = 1\<rparr>"

lemmas demo_rows = demo_fleet_def demo_fleet_env_def demo_node_def demo_release_row_def demo_package_def demo_attempt_def
  demo_targets_def

lemma demo_ids_inj: "inj (fresh_id demo_fleet_env)"
  by (rule injI) (simp add: demo_fleet_env_def)

lemma demo_fleet_inv:
  assumes "rollout \<noteq> ''draft''"
  shows "updates_inv (fresh_id demo_fleet_env) (demo_fleet rollout st)"
  using assms demo_ids_inj
  by (simp add: updates_inv_def attempt_ids_def demo_rows target_key_def one_active_def one_rollback_def one_controlled_def
      release_ok_def retry_count_ok_def max_agent_update_retry_count_def upgrade_selected_def target_lookup_def
      target_published_def lessThan_Suc)

subsection \<open>Along every run\<close>

lemma update_run_inv:
  "updates_inv (fresh_id env) db \<Longrightarrow> updates_inv (fresh_id env) (fold (update_step env sm) es db)"
  by (rule updates.run_inv)

text \<open>
  C14: However administrators, agents and the time-out loop interleave, an instance never has two active
  attempts: two unfinished attempts of one instance are the same row.
\<close>

theorem one_active_attempt:
  assumes "updates_inv (fresh_id env) db"
    and "u \<in> set (update_attempts (fold (update_step env sm) es db))" "attempt_active u"
    and "v \<in> set (update_attempts (fold (update_step env sm) es db))" "attempt_active v"
    and "u_instance_id u = u_instance_id v"
  shows "u = v"
proof -
  have inv: "updates_inv (fresh_id env) (fold (update_step env sm) es db)" by (rule update_run_inv [OF assms(1)])
  then have "one_active (update_attempts (fold (update_step env sm) es db))" by (simp add: updates_inv_def)
  from one_activeD [OF this assms(2,4,3,5,6)] show ?thesis by (rule attempt_unique [OF inv assms(2,4)])
qed

theorem one_active_attempt_witness:
  "\<exists>u. u \<in> set (update_attempts (fold (update_step demo_fleet_env (=)) [(150, TimeoutTick)] (demo_fleet ''canary_active'' ''waiting'')))
    \<and> attempt_active u \<and> (\<nexists>v. v \<in> set (update_attempts (fold (update_step demo_fleet_env (=)) [(150, TimeoutTick)]
      (demo_fleet ''canary_active'' ''waiting''))) \<and> attempt_active v \<and> u_instance_id v = u_instance_id u \<and> v \<noteq> u)"
proof -
  let ?us = "update_attempts (fold (update_step demo_fleet_env (=)) [(150, TimeoutTick)] (demo_fleet ''canary_active'' ''waiting''))"
  have "list_ex attempt_active ?us" by code_simp
  then obtain u where u: "u \<in> set ?us" "attempt_active u" by (auto simp: list_ex_iff)
  have "updates_inv (fresh_id demo_fleet_env) (demo_fleet ''canary_active'' ''waiting'')" by (simp add: demo_fleet_inv)
  from one_active_attempt [OF this _ _ u]
  have "v = u" if "v \<in> set ?us" "attempt_active v" "u_instance_id v = u_instance_id u" for v
    using that by blast
  with u show ?thesis by blast
qed

text \<open>
  C15: At most one release at a time is under control (a canary, a paused full rollout or a running
  rollback), whatever is published, promoted, paused, rolled back or retried.
\<close>

theorem one_controlled_rollout:
  assumes "updates_inv (fresh_id env) db"
    and "r \<in> set (releases (fold (update_step env sm) es db))" "r_rollout_state r \<in> set controlled_states"
    and "q \<in> set (releases (fold (update_step env sm) es db))" "r_rollout_state q \<in> set controlled_states"
  shows "r = q"
proof -
  have inv: "updates_inv (fresh_id env) (fold (update_step env sm) es db)" by (rule update_run_inv [OF assms(1)])
  then have "one_controlled (releases (fold (update_step env sm) es db))" by (simp add: updates_inv_def)
  then have "r_id r = r_id q" using assms(2-5) by (intro one_controlledD) (simp_all add: controlled_def)
  then show ?thesis by (rule release_unique [OF inv assms(2,4)])
qed

theorem one_controlled_rollout_witness:
  "\<exists>r. r \<in> set (releases (fold (update_step demo_fleet_env (=)) [(150, PauseRollout (Inr (''1'', ''root'')) ''r1'' True)]
      (demo_fleet ''canary_active'' ''waiting''))) \<and> r_rollout_state r = ''canary_paused''
    \<and> (\<nexists>q. q \<in> set (releases (fold (update_step demo_fleet_env (=)) [(150, PauseRollout (Inr (''1'', ''root'')) ''r1'' True)]
      (demo_fleet ''canary_active'' ''waiting''))) \<and> r_rollout_state q \<in> set controlled_states \<and> q \<noteq> r)"
proof -
  let ?rs = "releases (fold (update_step demo_fleet_env (=)) [(150, PauseRollout (Inr (''1'', ''root'')) ''r1'' True)]
      (demo_fleet ''canary_active'' ''waiting''))"
  have "list_ex (\<lambda>r. r_rollout_state r = ''canary_paused'') ?rs" by code_simp
  then obtain r where r: "r \<in> set ?rs" "r_rollout_state r = ''canary_paused''" by (auto simp: list_ex_iff)
  then have c: "r_rollout_state r \<in> set controlled_states" by (simp add: controlled_states_def)
  have "updates_inv (fresh_id demo_fleet_env) (demo_fleet ''canary_active'' ''waiting'')" by (simp add: demo_fleet_inv)
  then have "r = q" if "q \<in> set ?rs" "r_rollout_state q \<in> set controlled_states" for q
    using r(1) c that by (rule one_controlled_rollout)
  with r show ?thesis by blast
qed

text \<open>
  C16: An excluded instance stays excluded from its release and gets no further upgrade attempt of it,
  through every run in which nobody asks for a new upgrade of that instance and neither the release
  nor the instance is deleted.
\<close>

theorem excluded_instance_is_left_alone:
  assumes "updates_inv (fresh_id env) db" "target_state rid iid db = Some ''excluded''"
    and "(rid, iid) \<notin> \<Union> (lifted ` snd ` set es)"
  shows "target_state rid iid (fold (update_step env sm) es db) = Some ''excluded''
    \<and> upgrade_ids rid iid (fold (update_step env sm) es db) \<subseteq> upgrade_ids rid iid db"
proof -
  have "excluded_kept (\<Union> (lifted ` snd ` set es)) db (fold (update_step env sm) es db)"
    using update_run_safe [of env es db sm] assms(1) by (simp add: update_safe_def)
  then show ?thesis using assms(2,3) unfolding excluded_kept_def by blast
qed

definition demo_excluded :: update_db where
  "demo_excluded = (demo_fleet ''canary_active'' ''rollback_succeeded'')\<lparr>release_targets := update_where
     (\<lambda>t. t_instance_id t = ''node-1'') (\<lambda>t. t\<lparr>t_state := ''excluded''\<rparr>) demo_targets\<rparr>"

text \<open>Promotion and a manifest request do not touch the excluded instance.\<close>

definition demo_promotion :: "(int \<times> update_request) list" where
  "demo_promotion = [(150, PromoteRollout (Inr (''1'', ''root'')) ''r1''), (160, FetchManifest (Some ''node-1'') (Some ''s''))]"

lemma demo_excluded_inv: "updates_inv (fresh_id demo_fleet_env) demo_excluded"
  using demo_ids_inj
  by (simp add: updates_inv_def demo_excluded_def attempt_ids_def demo_rows target_key_def one_active_def one_rollback_def
      one_controlled_def release_ok_def retry_count_ok_def max_agent_update_retry_count_def upgrade_selected_def
      target_lookup_def target_published_def lessThan_Suc update_where_def)

theorem excluded_instance_is_left_alone_witness:
  "target_state ''r1'' ''node-1'' (fold (update_step demo_fleet_env (=)) demo_promotion demo_excluded) = Some ''excluded''
    \<and> upgrade_ids ''r1'' ''node-1'' (fold (update_step demo_fleet_env (=)) demo_promotion demo_excluded) \<subseteq> {''u''}"
proof -
  have "target_state ''r1'' ''node-1'' demo_excluded = Some ''excluded''" by code_simp
  moreover have "upgrade_ids ''r1'' ''node-1'' demo_excluded = {''u''}"
    by (simp add: upgrade_ids_def demo_excluded_def demo_rows)
  ultimately show ?thesis
    using excluded_instance_is_left_alone [OF demo_excluded_inv, of "''r1''" "''node-1''" demo_promotion "(=)"]
    by (simp add: demo_promotion_def)
qed


text \<open>
  While a release is a canary, every upgrade attempt of it belongs to an instance that was chosen for
  it (or chosen and then excluded): no other instance is ever upgraded early.
\<close>

theorem canary_upgrades_only_chosen:
  assumes "updates_inv (fresh_id env) db"
    and "r \<in> set (releases (fold (update_step env sm) es db))" "is_canary r"
    and "u \<in> set (update_attempts (fold (update_step env sm) es db))" "u_operation u = ''upgrade''" "u_release_id u = r_id r"
  shows "target_state (r_id r) (u_instance_id u) (fold (update_step env sm) es db) \<noteq> None"
proof -
  let ?d = "fold (update_step env sm) es db"
  have inv: "updates_inv (fresh_id env) ?d" by (rule update_run_inv [OF assms(1)])
  then have "upgrade_selected (releases ?d) (release_targets ?d) u" using assms(4) by (simp add: updates_inv_def list_all_iff)
  then obtain q where "q \<in> set (releases ?d)" "r_id q = r_id r"
    and "is_canary q \<Longrightarrow> target_lookup (r_id r) (u_instance_id u) (release_targets ?d) \<noteq> None"
    using assms(5,6) by (auto simp: upgrade_selected_def)
  moreover from this have "q = r" using release_unique [OF inv _ assms(2)] by blast
  ultimately show ?thesis using assms(3) by (simp add: target_state_lookup)
qed

theorem canary_upgrades_only_chosen_witness:
  "target_state ''r1'' ''node-1'' (fold (update_step demo_fleet_env (=)) [(150, TimeoutTick)] (demo_fleet ''canary_active'' ''waiting''))
     \<noteq> None"
proof -
  let ?db = "fold (update_step demo_fleet_env (=)) [(150, TimeoutTick)] (demo_fleet ''canary_active'' ''waiting'')"
  have "list_ex (\<lambda>r. is_canary r \<and> r_id r = ''r1'') (releases ?db)"
    "list_ex (\<lambda>u. u_operation u = ''upgrade'' \<and> u_release_id u = ''r1'' \<and> u_instance_id u = ''node-1'') (update_attempts ?db)"
    by code_simp+
  then obtain r u where r: "r \<in> set (releases ?db)" "is_canary r" "r_id r = ''r1''"
    and u: "u \<in> set (update_attempts ?db)" "u_operation u = ''upgrade''" "u_release_id u = ''r1''" "u_instance_id u = ''node-1''"
    unfolding list_ex_iff by blast
  have "updates_inv (fresh_id demo_fleet_env) (demo_fleet ''canary_active'' ''waiting'')" by (simp add: demo_fleet_inv)
  from canary_upgrades_only_chosen [OF this r(1,2) u(1,2)] show ?thesis unfolding r(3) u(3,4) by blast
qed

text \<open>
  C17: A finished attempt is final.  Once an attempt has succeeded, failed or been rolled back, the row keeps
  its status in every later state of the system, until a retry starts the next generation; the row never
  moves to another release, instance or operation, and its generation never decreases.
\<close>

theorem finished_attempt_is_final:
  assumes "updates_inv (fresh_id env) db" "u \<in> set (update_attempts db)"
    and "v \<in> set (update_attempts (fold (update_step env sm) es db))" "u_id v = u_id u"
  shows "u_release_id v = u_release_id u \<and> u_instance_id v = u_instance_id u \<and> u_operation v = u_operation u
    \<and> (u_retry_count v > u_retry_count u \<or> u_retry_count v = u_retry_count u \<and>
       (u_status u \<in> set [''succeeded'', ''rollback_succeeded'', ''failed''] \<longrightarrow> u_status v = u_status u))"
proof -
  have "attempts_follow db (fold (update_step env sm) es db)"
    using update_run_safe [of env es db sm] assms(1) by (simp add: update_safe_def)
  then have "follows u v" using assms(2-4) unfolding attempts_follow_def by blast
  then show ?thesis unfolding follows_def done_statuses_def by (auto simp: order_le_less)
qed

text \<open>A late report of the same generation is refused, and the failure stands.\<close>

definition demo_late_report :: "(int \<times> update_request) list" where
  "demo_late_report = [(150, UpdateReport ''node-1'' ''c1'' (Some ''u'') ''r1'' ''p1'' ''1.1.0'' 0 ''succeeded'' None)]"

theorem finished_attempt_is_final_witness:
  "\<exists>v. v \<in> set (update_attempts (fold (update_step demo_fleet_env (=)) demo_late_report (demo_fleet ''canary_active'' ''failed'')))
    \<and> u_id v = ''u'' \<and> u_retry_count v = 0 \<and> u_status v = ''failed''"
proof -
  let ?us = "update_attempts (fold (update_step demo_fleet_env (=)) demo_late_report (demo_fleet ''canary_active'' ''failed''))"
  have "list_ex (\<lambda>v. u_id v = ''u'' \<and> u_retry_count v = 0) ?us" by code_simp
  then obtain v where v: "v \<in> set ?us" "u_id v = ''u''" "u_retry_count v = 0" unfolding list_ex_iff by blast
  have inv: "updates_inv (fresh_id demo_fleet_env) (demo_fleet ''canary_active'' ''failed'')" by (simp add: demo_fleet_inv)
  have "demo_attempt ''failed'' \<in> set (update_attempts (demo_fleet ''canary_active'' ''failed''))" by (simp add: demo_fleet_def)
  from finished_attempt_is_final [OF inv this v(1)] v show ?thesis by (auto simp: demo_attempt_def)
qed

text \<open>
  Reports move an attempt forward.  A sequence of accepted status changes never returns to a status it
  has left, and is at most eight changes long, so an agent cannot keep an attempt busy with reports.
\<close>

theorem status_changes_are_bounded:
  assumes "successively (\<lambda>p q. update_status_transition_allowed p q \<and> p \<noteq> q) (p # qs)"
  shows "p \<notin> set qs \<and> length qs \<le> 8"
proof -
  have "statuses.path p qs" using assms by (induction qs arbitrary: p) auto
  then show ?thesis using statuses.path_no_return statuses.path_length [of p qs 8] status_rank_le by fastforce
qed

theorem status_changes_are_bounded_witness:
  "''pending'' \<notin> set [''waiting'', ''downloading'', ''installing'', ''succeeded'']"
  using status_changes_are_bounded [of "''pending''" "[''waiting'', ''downloading'', ''installing'', ''succeeded'']"]
  by (simp add: update_status_transition_allowed_def status_progress_def terminal_attempt_statuses_def)


subsection \<open>Offers\<close>

lemma signed_offer_same:
  assumes "signed_offer env off = Inr off'"
  obtains k a b where "off' = off\<lparr>o_signature_key_id := k, o_signature := a, o_signature_v2 := b\<rparr>"
proof (cases "signer env")
  case None
  with assms have "off' = off" by (simp add: signed_offer_def)
  then have "off' = off\<lparr>o_signature_key_id := o_signature_key_id off, o_signature := o_signature off,
      o_signature_v2 := o_signature_v2 off\<rparr>" by simp
  then show ?thesis by (rule that)
next
  case (Some g)
  then show ?thesis using assms that
    by (auto simp: signed_offer_def lift_anyhow_def sign_offer_def try_bind_Inr_iff split: sum.splits)
qed

definition fits :: "fleet_row \<Rightarrow> update_offer \<Rightarrow> release_row \<Rightarrow> artifact_row \<Rightarrow> bool" where
  "fits inst off rel art \<longleftrightarrow> r_status rel = ''published'' \<and> a_status art = ''published''
     \<and> o_release_id off = r_id rel \<and> o_version off = r_version rel \<and> o_artifact_id off = a_id art
     \<and> o_sha256 off = a_sha256 art \<and> o_size_bytes off = a_size_bytes art \<and> o_target_os off = Some (a_os art)
     \<and> a_package_type art = i_package_type inst \<and> a_native_arch art = i_native_arch inst
     \<and> to_ascii_lowercase (a_os art) = to_ascii_lowercase (target_os_of inst)"

lemma offer_of_fits:
  assumes "signed_offer env (offer_of inst u rel art) = Inr off" "r_status rel = ''published''" "a_status art = ''published''"
    and "a_package_type art = i_package_type inst" "a_native_arch art = i_native_arch inst"
    and "to_ascii_lowercase (a_os art) = to_ascii_lowercase (target_os_of inst)"
  shows "fits inst off rel art \<and> o_instance_id off = Some (i_id inst) \<and> o_attempt_id off = Some (u_id u)"
  using assms(1) by (rule signed_offer_same) (simp add: fits_def offer_of_def assms(2-6))

lemma active_upgrades_rows:
  "(u, rel, art) \<in> set (active_upgrades inst i db) \<Longrightarrow> u \<in> set (update_attempts db) \<and> rel \<in> set (releases db)
     \<and> art \<in> set (artifacts db) \<and> u_instance_id u = i_id inst \<and> attempt_active u \<and> r_status rel = ''published''
     \<and> a_status art = ''published''"
  by (auto simp: active_upgrades_def split: if_splits)

lemma reconciled_fits:
  assumes "reconcile_artifact env inst (u, rel, art) db = (Inr (Some (u', rel', art')), db')"
    and "art \<in> set (artifacts db)" "a_status art = ''published''"
  shows "rel' = rel \<and> u_id u' = u_id u \<and> art' \<in> set (artifacts db) \<and> a_status art' = ''published''
    \<and> a_package_type art' = i_package_type inst \<and> a_native_arch art' = i_native_arch inst
    \<and> to_ascii_lowercase (a_os art') = to_ascii_lowercase (target_os_of inst)"
  using assms
  by (auto simp: reconcile_artifact_def Let_def active_offer_matches_instance_def target_os_of_def replacement_artifact_def
      split: if_splits option.splits dest!: find_SomeD)

lemma active_offer_fits:
  assumes "active_upgrade_offer env inst i db = (Inr (Some off), db')"
  shows "i_update_privileged inst = 1 \<and> o_instance_id off = Some (i_id inst)
    \<and> (\<exists>u \<in> set (update_attempts db). o_attempt_id off = Some (u_id u) \<and> u_instance_id u = i_id inst \<and> attempt_active u)
    \<and> (\<exists>rel \<in> set (releases db). \<exists>art \<in> set (artifacts db). fits inst off rel art)"
proof -
  obtain u rel art where cand: "max_by_key (\<lambda>(u, _, _). u_updated_at u) (active_upgrades inst i db) = Some (u, rel, art)"
    and m: "manageable inst" using assms by (auto simp: active_upgrade_offer_def split: if_splits option.splits)
  have row: "(u, rel, art) \<in> set (active_upgrades inst i db)" using max_by_key_Some [OF cand] by blast
  obtain u' rel' art' d where r: "reconcile_artifact env inst (u, rel, art) db = (Inr (Some (u', rel', art')), d)"
    and off: "signed_offer env (offer_of inst u' rel' art') = Inr off"
    using assms m cand
    by (auto simp: active_upgrade_offer_def h_bind_def h_lift_def h_return_def split: prod.splits sum.splits option.splits if_splits)
  note rows = active_upgrades_rows [OF row]
  note rec = reconciled_fits [OF r]
  have "fits inst off rel' art' \<and> o_instance_id off = Some (i_id inst) \<and> o_attempt_id off = Some (u_id u')"
    using off by (rule offer_of_fits) (use rows rec in auto)
  then show ?thesis using rows rec m by (auto simp: manageable_def)
qed


lemma active_offer_frame:
  "active_upgrade_offer env inst i db = (r, db') \<Longrightarrow> releases db' = releases db \<and> artifacts db' = artifacts db"
proof -
  have rec: "releases (snd (reconcile_artifact env inst cand d)) = releases d
      \<and> artifacts (snd (reconcile_artifact env inst cand d)) = artifacts d" for cand d
    by (cases cand) (auto simp: reconcile_artifact_def Let_def change_attempts_def split: option.split)
  have del: "releases (snd (deliver_pending env cand d)) = releases d
      \<and> artifacts (snd (deliver_pending env cand d)) = artifacts d" for cand d
    by (cases cand) (auto simp: deliver_pending_def Let_def change_attempts_def)
  show "active_upgrade_offer env inst i db = (r, db') \<Longrightarrow> ?thesis"
    using rec del
    by (auto simp: active_upgrade_offer_def h_bind_def h_lift_def h_return_def split: if_splits option.splits sum.splits prod.splits)
      (metis prod.sel(2))+
qed

lemma authenticated:
  assumes "authenticate_agent sm agent_id agent_secret db = (Inr inst, db')"
  shows "db' = db \<and> inst \<in> set (fleet db) \<and> agent_id = Some (i_id inst)
    \<and> (\<exists>s. agent_secret = Some s \<and> sm (i_secret inst) s) \<and> i_approved inst = 1 \<and> i_disabled inst \<noteq> 1"
proof -
  obtain i s where i: "agent_id = Some i" and s: "agent_secret = Some s"
    using assms by (cases agent_id; cases agent_secret)
      (auto simp: authenticate_agent_def h_bind_def h_lift_def h_fail_def split: if_splits)
  then show ?thesis using assms
    by (auto simp: authenticate_agent_def h_bind_def h_lift_def h_fail_def h_return_def get_instance_def
        split: if_splits option.splits dest!: instance_by_id_row)
qed

lemma insert_attempt_frame:
  "insert_attempt u db = (b, db') \<Longrightarrow> releases db' = releases db \<and> artifacts db' = artifacts db"
  by (auto simp: insert_attempt_def split: if_splits)

lemma start_upgrade_fits:
  assumes "start_upgrade env inst db = (Inr (Some off), db')"
  shows "i_update_privileged inst = 1 \<and> o_instance_id off = Some (i_id inst)
    \<and> (\<exists>rel \<in> set (releases db). \<exists>art \<in> set (artifacts db). fits inst off rel art)"
proof -
  obtain rel art where sel: "select_update_candidate env inst db = Some (rel, art)"
    using assms by (auto simp: start_upgrade_def split: option.splits)
  let ?d = "db\<lparr>ids_drawn := Suc (ids_drawn db)\<rparr>"
  obtain d where ins: "insert_attempt (fresh_attempt env (fresh_id env (ids_drawn db)) inst (r_id rel) (r_version rel) (a_id art)
      (''pending'', [], None)) ?d = (True, d)"
    and offer: "active_upgrade_offer env inst (Some (fresh_id env (ids_drawn db))) d = (Inr (Some off), db')"
    using assms sel by (auto simp: start_upgrade_def h_bind_def draw_id_def split: if_splits prod.splits bool.splits)
  show ?thesis using active_offer_fits [OF offer] insert_attempt_frame [OF ins] by simp
qed

text \<open>
  C18: What an agent is offered fits it.  An offer (of the manifest, or pushed over the socket) names this
  instance and may replace its executable; it is a published package of a published release for the
  instance's system and architecture, with that package's address, size and digest and the release's version.
\<close>

theorem offer_fits_instance:
  assumes "find_update_for_instance env inst db = (Inr (Some off), db')"
  shows "i_update_privileged inst = 1 \<and> o_instance_id off = Some (i_id inst)
    \<and> (\<exists>rel \<in> set (releases db). \<exists>art \<in> set (artifacts db). fits inst off rel art)"
proof -
  obtain r d where r: "active_upgrade_offer env inst None db = (Inr r, d)"
    using assms by (auto simp: find_update_for_instance_def h_bind_def split: prod.splits sum.splits)
  show ?thesis
  proof (cases r)
    case None
    then have start: "start_upgrade env inst d = (Inr (Some off), db')"
      using assms r by (simp add: find_update_for_instance_def h_bind_def)
    have "releases d = releases db" "artifacts d = artifacts db"
      using active_offer_frame [OF r] by simp_all
    then show ?thesis using start_upgrade_fits [OF start] by simp
  next
    case (Some off')
    then have "off' = off" using assms r by (simp add: find_update_for_instance_def h_bind_def h_return_def)
    then show ?thesis using active_offer_fits [of env inst None db off d] r Some by simp
  qed
qed

theorem offer_fits_instance_witness:
  "\<exists>off db'. find_update_for_instance demo_fleet_env (demo_node ''node-1'' ''1.0.0'') (demo_fleet ''canary_active'' ''pending'')
      = (Inr (Some off), db') \<and> o_instance_id off = Some ''node-1'' \<and> fits (demo_node ''node-1'' ''1.0.0'') off
        (demo_release_row ''canary_active'') demo_package"
proof -
  have "(case fst (find_update_for_instance demo_fleet_env (demo_node ''node-1'' ''1.0.0'') (demo_fleet ''canary_active'' ''pending''))
      of Inr (Some off) \<Rightarrow> True | _ \<Rightarrow> False)" by code_simp
  then obtain off db' where f: "find_update_for_instance demo_fleet_env (demo_node ''node-1'' ''1.0.0'')
      (demo_fleet ''canary_active'' ''pending'') = (Inr (Some off), db')"
    by (cases "find_update_for_instance demo_fleet_env (demo_node ''node-1'' ''1.0.0'') (demo_fleet ''canary_active'' ''pending'')")
      (auto split: sum.splits option.splits)
  from offer_fits_instance [OF f] have "o_instance_id off = Some ''node-1''
    \<and> fits (demo_node ''node-1'' ''1.0.0'') off (demo_release_row ''canary_active'') demo_package"
    by (simp add: demo_fleet_def) (simp add: demo_node_def)
  with f show ?thesis by blast
qed

text \<open>
  Only an instance with an attempt for it may download a package.  A download is answered with a
  package only if the request carries the id and the secret of an approved, enabled instance that may
  replace its executable, the package is published, of a published release and for that instance's
  system, and some attempt of the instance names it; the request changes nothing.
\<close>

theorem download_needs_an_attempt:
  assumes "authorized_artifact_download sm agent_id agent_secret aid db = (Inr art, db')"
  shows "db' = db \<and> art \<in> set (artifacts db) \<and> a_id art = aid \<and> a_status art = ''published''
    \<and> (\<exists>rel \<in> set (releases db). r_id rel = a_release_id art \<and> r_status rel = ''published'')
    \<and> (\<exists>inst \<in> set (fleet db). agent_id = Some (i_id inst) \<and> (\<exists>s. agent_secret = Some s \<and> sm (i_secret inst) s)
       \<and> i_approved inst = 1 \<and> i_disabled inst \<noteq> 1 \<and> i_update_privileged inst = 1
       \<and> target_matches (i_os inst) (i_package_type inst) (i_native_arch inst) art
       \<and> (\<exists>u \<in> set (update_attempts db). u_artifact_id u = Some aid \<and> u_instance_id u = i_id inst))"
proof -
  obtain inst d where auth: "authenticate_agent sm agent_id agent_secret db = (Inr inst, d)"
    using assms by (auto simp: authorized_artifact_download_def h_bind_def split: prod.splits sum.splits)
  have inst: "d = db" "inst \<in> set (fleet db)" "agent_id = Some (i_id inst)" "\<exists>s. agent_secret = Some s \<and> sm (i_secret inst) s"
    "i_approved inst = 1" "i_disabled inst \<noteq> 1"
    using authenticated [OF auth] by blast+
  show ?thesis using assms auth inst
    by (auto simp: authorized_artifact_download_def h_bind_def list_ex_iff split: option.splits if_splits dest!: find_SomeD)
qed

theorem download_needs_an_attempt_witness:
  "\<exists>u. u \<in> set (update_attempts (demo_fleet ''canary_active'' ''waiting'')) \<and> u_artifact_id u = Some ''p1'' \<and> u_instance_id u = ''node-1''"
proof -
  have f: "authorized_artifact_download (=) (Some ''node-1'') (Some ''s'') ''p1'' (demo_fleet ''canary_active'' ''waiting'')
      = (Inr demo_package, demo_fleet ''canary_active'' ''waiting'')"
    by (simp add: authorized_artifact_download_def authenticate_agent_def h_bind_def h_lift_def h_fail_def h_return_def
        get_instance_def instance_by_id_def demo_rows target_matches_def update_target_os_def)
  from download_needs_an_attempt [OF f] show ?thesis by (auto simp: demo_rows)
qed


subsection \<open>Rolling a release back comes to an end\<close>







end
