(* ===== verification/AgentState.thy ===== *)
theory AgentState
  imports UpdateState
begin

text \<open>
  The persistent state of the agent's updater (\<open>instanceEnd/src/update.rs\<close>): the state file, the health
  marker, the updater lock and the files it works on.  A path is its list of components; a file is its
  bytes.  The hash, the SemVer parser, the embedded key and what the process knows of itself are
  parameters (\<open>agent_env\<close>).  Errors (\<open>anyhow\<close>) are short texts.  A state file that cannot be read or
  written, and one of another schema, are not modelled.
\<close>

datatype update_status = Waiting | Downloading | Verifying | WaitingIdle | Installing | AwaitingRestart
  | Succeeded | RollbackSucceeded | Failed

datatype package_type = Standalone

definition package_type_string :: "package_type \<Rightarrow> string" where
  "package_type_string t = (case t of Standalone \<Rightarrow> ''standalone'')"

definition parse_package_type :: "string \<Rightarrow> string + package_type" where
  "parse_package_type v = (if v = ''standalone'' then Inr Standalone else Inl ''unsupported package type'')"

datatype attempt_phase = Staging | TargetPhase | RollbackPhase | Completed

datatype attempt_operation = UpgradeOperation
  | RollbackOperation string string string string int

type_synonym path = "string list"

definition path_parent :: "path \<Rightarrow> path option" where
  "path_parent p = (if p = [] then None else Some (butlast p))"

record cached_package =
  p_artifact_id :: string
  p_version :: string
  p_package_type :: package_type
  p_native_arch :: string
  p_path :: path
  p_retry_count :: int
  p_size_bytes :: int
  p_sha256 :: string

record persisted_attempt =
  x_offer :: update_offer
  x_operation :: attempt_operation
  x_manual :: bool
  x_status :: update_status
  x_message :: "string option"
  x_package_path :: "path option"
  x_previous :: "cached_package option"
  x_phase :: attempt_phase
  x_updated_at :: int

record update_state =
  current_package :: "cached_package option"
  rollback_baseline :: "cached_package option"
  attempt :: "persisted_attempt option"

record health_marker =
  h_artifact_id :: string
  h_version :: string
  h_retry_count :: int
  h_connected_at :: int

datatype agent_inbound =
    UpdateStatusMessage "string option" string string string int update_status "string option"
  | RollbackStatusMessage string int update_status "string option"

record apply_plan =
  y_offer :: update_offer
  y_operation :: attempt_operation
  y_package_path :: path
  y_previous :: "cached_package option"
  y_lock_owner :: string
  y_installed :: "path option"

text \<open>
  The node as the updater sees it.  \<open>disk\<close> holds the cached packages and the installed executable;
  \<open>inbound\<close> are the messages sent to the server; \<open>plans\<close> are the updaters that were started;
  \<open>service_up\<close> tells whether the agent's service runs.
\<close>

record node =
  state_file :: update_state
  health_file :: "health_marker option"
  lock_owner :: "string option"
  disk :: "path \<Rightarrow> bytes option"
  draining :: bool
  inbound :: "agent_inbound list"
  plans :: "apply_plan list"
  service_up :: bool

record ('v, 'sig) agent_env =
  clock :: int
  instance_id :: string
  is_privileged :: bool
  own_package_type :: "string option"
  own_arch :: "string option"
  own_os :: string
  standalone_arch :: string
  own_version :: string
  server_https :: bool
  embedded_key :: "'sig verifying_key option"
  semver :: "string \<Rightarrow> 'v option"
  sha256_hex :: "bytes \<Rightarrow> string"
  packages_dir :: path
  installed_exe :: path
  exe_suffix :: string
  exe_version :: "bytes \<Rightarrow> string"
  delay_hash :: "string \<Rightarrow> string \<Rightarrow> nat"
  fresh_lock_owner :: string

type_synonym 'a node_action = "(string, node, 'a) action"

subsection \<open>Statuses and generations\<close>

definition finished_status :: "update_status \<Rightarrow> bool" where
  "finished_status st \<longleftrightarrow> st \<in> set [Succeeded, RollbackSucceeded, Failed]"

definition active_handoff :: "persisted_attempt \<Rightarrow> bool" where
  "active_handoff x \<longleftrightarrow> x_phase x \<in> set [TargetPhase, RollbackPhase] \<and> x_status x \<in> set [Installing, AwaitingRestart]"

definition same_offer_attempt :: "update_offer \<Rightarrow> update_offer \<Rightarrow> bool" where
  "same_offer_attempt l r = (case (o_attempt_id l, o_attempt_id r) of
       (Some a, Some b) \<Rightarrow> a = b
     | (None, None) \<Rightarrow> o_artifact_id l = o_artifact_id r
     | _ \<Rightarrow> False)"

definition offer_generation_matches :: "update_offer \<Rightarrow> update_offer \<Rightarrow> bool" where
  "offer_generation_matches l r \<longleftrightarrow> same_offer_attempt l r \<and> o_retry_count l = o_retry_count r"

definition target_success_status :: "attempt_operation \<Rightarrow> update_status" where
  "target_success_status q = (case q of UpgradeOperation \<Rightarrow> Succeeded | RollbackOperation _ _ _ _ _ \<Rightarrow> RollbackSucceeded)"

definition restored_previous_status :: "attempt_operation \<Rightarrow> update_status" where
  "restored_previous_status q = (case q of UpgradeOperation \<Rightarrow> RollbackSucceeded | RollbackOperation _ _ _ _ _ \<Rightarrow> Failed)"

definition update_status_message :: "update_offer \<Rightarrow> update_status \<Rightarrow> string option \<Rightarrow> agent_inbound" where
  "update_status_message off st m = UpdateStatusMessage (o_attempt_id off) (o_release_id off) (o_artifact_id off)
     (o_version off) (o_retry_count off) st m"

definition rollback_status_message :: "rollback_offer \<Rightarrow> update_status \<Rightarrow> string option \<Rightarrow> agent_inbound" where
  "rollback_status_message off st m = RollbackStatusMessage (b_attempt_id off) (b_retry_count off) st m"

definition attempt_status_message :: "persisted_attempt \<Rightarrow> update_status \<Rightarrow> string option \<Rightarrow> agent_inbound" where
  "attempt_status_message x st m = (case x_operation x of
       UpgradeOperation \<Rightarrow> update_status_message (x_offer x) st m
     | RollbackOperation i _ _ _ n \<Rightarrow> RollbackStatusMessage i n st m)"

subsection \<open>Packages\<close>

definition package_magic_ok :: "string \<Rightarrow> bytes \<Rightarrow> bool" where
  "package_magic_ok os bs = (if os = ''windows'' then starts_with_bytes [0x4d, 0x5a] bs
     else if os = ''macos'' then list_ex (\<lambda>p. starts_with_bytes p bs)
       [[0xcf, 0xfa, 0xed, 0xfe], [0xca, 0xfe, 0xba, 0xbe], [0xca, 0xfe, 0xba, 0xbf]]
     else starts_with_bytes [0x7f, 0x45, 0x4c, 0x46] bs)"

definition hex_digest :: "string \<Rightarrow> bool" where
  "hex_digest s \<longleftrightarrow> length s = 64 \<and> list_all is_ascii_hexdigit s"

definition verify_package_at_rest ::
  "('v, 'sig) agent_env \<Rightarrow> (path \<Rightarrow> bytes option) \<Rightarrow> path \<Rightarrow> int \<Rightarrow> string \<Rightarrow> string + unit" where
  "verify_package_at_rest env d p n digest =
     (if n = 0 \<or> \<not> hex_digest digest then Inl ''cached package integrity metadata is invalid''
      else case d p of None \<Rightarrow> Inl ''failed to open staged package''
      | Some bs \<Rightarrow>
        if int (length bs) \<noteq> n then Inl ''staged package size mismatch''
        else if \<not> eq_ignore_ascii_case (sha256_hex env bs) digest then Inl ''staged package SHA-256 mismatch''
        else if \<not> package_magic_ok (own_os env) bs then Inl ''executable signature does not match''
        else Inr ())"

definition parse_checksum_sidecar :: "string \<Rightarrow> string + string" where
  "parse_checksum_sidecar contents =
     (case split_whitespace contents of
        [] \<Rightarrow> Inl ''sidecar contains an invalid digest''
      | sha # rest \<Rightarrow>
        if \<not> hex_digest sha then Inl ''sidecar contains an invalid digest''
        else if length rest > 1 then Inl ''sidecar contains unexpected fields''
        else Inr (to_ascii_lowercase sha))"

definition max_checksum_file_bytes :: nat where "max_checksum_file_bytes = 4096"

text \<open>\<open>download_checksum\<close>: \<open>reply\<close> is the body, or an error of the request or of its UTF-8.\<close>

definition download_checksum :: "string + string \<Rightarrow> string + string" where
  "download_checksum reply = try_bind reply (\<lambda>contents.
     if contents = [] \<or> length contents > max_checksum_file_bytes then Inl ''sidecar size is invalid''
     else parse_checksum_sidecar contents)"

text \<open>\<open>u64::try_from\<close> of a size in an offer.\<close>

definition to_u64 :: "int \<Rightarrow> string + int" where
  "to_u64 n = (if n < 0 then Inl ''invalid package size'' else Inr n)"

text \<open>\<open>verify_download\<close>: the bytes received, their digest and the sidecar against the offer.\<close>

definition verify_download :: "('v, 'sig) agent_env \<Rightarrow> update_offer \<Rightarrow> bytes \<Rightarrow> string \<Rightarrow> string + unit" where
  "verify_download env off bs checksum = try_bind (to_u64 (o_size_bytes off)) (\<lambda>n.
     if int (length bs) \<noteq> n then Inl ''download size mismatch''
     else if \<not> eq_ignore_ascii_case checksum (o_sha256 off) then Inl ''SHA-256 sidecar mismatch''
     else if \<not> eq_ignore_ascii_case (sha256_hex env bs) checksum then Inl ''download SHA-256 mismatch''
     else if \<not> package_magic_ok (own_os env) bs then Inl ''executable signature does not match''
     else Inr ())"

definition safe_component :: "string \<Rightarrow> string" where
  "safe_component v = (let s = take 96 (map (\<lambda>c. if is_ascii_alphanumeric c \<or> c \<in> set ''-_'' then c else CHR ''_'') v)
     in if s = [] then ''artifact'' else s)"

definition offer_storage_component :: "update_offer \<Rightarrow> string" where
  "offer_storage_component off =
     (case o_attempt_id off of Some a \<Rightarrow> a | None \<Rightarrow> o_artifact_id off) @ ''-retry-'' @ int_string (o_retry_count off)"

definition cached_package_from_attempt :: "persisted_attempt \<Rightarrow> string + cached_package" where
  "cached_package_from_attempt x =
     try_bind (parse_package_type (o_package_type (x_offer x))) (\<lambda>t.
     case x_package_path x of None \<Rightarrow> Inl ''installed update package is missing from state''
     | Some p \<Rightarrow> try_bind (to_u64 (o_size_bytes (x_offer x))) (\<lambda>n.
         Inr \<lparr>p_artifact_id = o_artifact_id (x_offer x), p_version = o_version (x_offer x), p_package_type = t,
           p_native_arch = o_native_arch (x_offer x), p_path = p, p_retry_count = o_retry_count (x_offer x),
           p_size_bytes = n, p_sha256 = o_sha256 (x_offer x)\<rparr>))"

text \<open>Updaters before 0.1.23 delete the package they roll back to.\<close>

definition legacy_updater_removes_previous_package :: "('v::linorder, 'sig) agent_env \<Rightarrow> string \<Rightarrow> bool" where
  "legacy_updater_removes_previous_package env v =
     (case (semver env v, semver env ''0.1.23'') of (Some x, Some first_safe) \<Rightarrow> x < first_safe | _ \<Rightarrow> True)"

definition preserved_path :: "('v, 'sig) agent_env \<Rightarrow> cached_package \<Rightarrow> path \<Rightarrow> path" where
  "preserved_path env k parent = parent @ [''standalone-baseline-'' @ safe_component (p_artifact_id k @ ''-retry-''
     @ int_string (p_retry_count k) @ ''-'' @ p_sha256 k) @ exe_suffix env]"

definition preserve_baseline_for_legacy_updater ::
  "('v::linorder, 'sig) agent_env \<Rightarrow> persisted_attempt \<Rightarrow> cached_package option node_action" where
  "preserve_baseline_for_legacy_updater env x nd =
     (case x_previous x of None \<Rightarrow> (Inr None, nd)
      | Some k \<Rightarrow>
        if x_operation x \<noteq> UpgradeOperation \<or> \<not> legacy_updater_removes_previous_package env (p_version k)
        then (Inr (Some k), nd)
        else case path_parent (p_path k) of None \<Rightarrow> (Inl ''cached rollback package has no parent directory'', nd)
        | Some parent \<Rightarrow>
          let q = preserved_path env k parent in
          if q = p_path k then (Inr (Some k), nd)
          else if is_ok (verify_package_at_rest env (disk nd) q (p_size_bytes k) (p_sha256 k))
          then (Inr (Some (k\<lparr>p_path := q\<rparr>)), nd)
          else case disk nd (p_path k) of None \<Rightarrow> (Inl ''failed to preserve rollback package'', nd)
          | Some bs \<Rightarrow> (case verify_package_at_rest env (disk nd) (p_path k) (p_size_bytes k) (p_sha256 k) of
                Inl e \<Rightarrow> (Inl e, nd)
              | Inr _ \<Rightarrow> (Inr (Some (k\<lparr>p_path := q\<rparr>)), nd\<lparr>disk := (disk nd)(q := Some bs)\<rparr>)))"

text \<open>\<open>rotate_successful_package_state\<close> returns the package that is no longer needed.\<close>

definition stale_baseline :: "update_state \<Rightarrow> path \<Rightarrow> cached_package option \<Rightarrow> path option" where
  "stale_baseline s target next_baseline = (case rollback_baseline s of None \<Rightarrow> None
     | Some k \<Rightarrow> if p_path k \<noteq> target \<and> (case next_baseline of None \<Rightarrow> True | Some b \<Rightarrow> p_path k \<noteq> p_path b)
         then Some (p_path k) else None)"

definition rotate_successful_package_state ::
  "('v::linorder, 'sig) agent_env \<Rightarrow> update_state \<Rightarrow> persisted_attempt \<Rightarrow> (update_state \<times> path option) node_action" where
  "rotate_successful_package_state env s x =
     h_bind (h_lift (cached_package_from_attempt x)) (\<lambda>target.
     h_bind (preserve_baseline_for_legacy_updater env x) (\<lambda>next_baseline.
       h_return (s\<lparr>current_package := Some target, rollback_baseline := next_baseline\<rparr>,
         stale_baseline s (p_path target) next_baseline)))"

definition remove_file :: "path option \<Rightarrow> node \<Rightarrow> node" where
  "remove_file p nd = (case p of None \<Rightarrow> nd | Some q \<Rightarrow> nd\<lparr>disk := (disk nd)(q := None)\<rparr>)"

end
