(* ===== verification/AgentManager.thy ===== *)
theory AgentManager
  imports AgentState
begin

text \<open>
  The part of the updater that runs in the agent (\<open>UpdateManager\<close> of \<open>instanceEnd/src/update.rs\<close>): which
  offers it starts, how it prepares a package, how it hands over to the detached updater, and what it
  records when the restarted agent has connected.  A transfer's outcome is an argument (\<open>transfer\<close>);
  waits (the spread delay, the wait until the drain tracker is idle) have no effect of their own.
\<close>

subsection \<open>Queries of the state\<close>

definition rollback_baseline_version :: "('v, 'sig) agent_env \<Rightarrow> node \<Rightarrow> string option" where
  "rollback_baseline_version env nd = (case rollback_baseline (state_file nd) of None \<Rightarrow> None
     | Some k \<Rightarrow> if p_package_type k \<noteq> Standalone \<or> p_native_arch k \<noteq> standalone_arch env
         \<or> \<not> is_ok (verify_package_at_rest env (disk nd) (p_path k) (p_size_bytes k) (p_sha256 k))
         then None else Some (p_version k))"

definition update_handoff_pending :: "node \<Rightarrow> bool" where
  "update_handoff_pending nd = (case attempt (state_file nd) of None \<Rightarrow> False | Some x \<Rightarrow> active_handoff x)"

definition can_start_offer :: "('v::linorder, 'sig) agent_env \<Rightarrow> update_offer \<Rightarrow> node \<Rightarrow> string + bool" where
  "can_start_offer env off nd =
     (if lock_owner nd \<noteq> None then Inr False
      else case attempt (state_file nd) of None \<Rightarrow> Inr True
      | Some x \<Rightarrow>
        if active_handoff x
        then if same_offer_attempt (x_offer x) off then Inr (o_retry_count off > o_retry_count (x_offer x))
             else (case semver env (o_version (x_offer x)) of None \<Rightarrow> Inl ''invalid persisted version''
               | Some persisted \<Rightarrow> (case semver env (o_version off) of None \<Rightarrow> Inl ''invalid offered version''
                 | Some incoming \<Rightarrow> Inr (incoming > persisted)))
        else if \<not> same_offer_attempt (x_offer x) off then Inr True
        else if finished_status (x_status x) then Inr (o_retry_count off > o_retry_count (x_offer x))
        else Inr (o_retry_count off \<ge> o_retry_count (x_offer x)))"

definition can_start_rollback :: "rollback_offer \<Rightarrow> node \<Rightarrow> bool" where
  "can_start_rollback off nd =
     (if lock_owner nd \<noteq> None then False
      else case attempt (state_file nd) of None \<Rightarrow> True
      | Some x \<Rightarrow>
        if active_handoff x then False
        else case x_operation x of
          RollbackOperation i _ _ _ n \<Rightarrow>
            if i = b_attempt_id off
            then (if finished_status (x_status x) then b_retry_count off > n else b_retry_count off \<ge> n)
            else finished_status (x_status x)
        | UpgradeOperation \<Rightarrow> finished_status (x_status x))"

subsection \<open>Checks of an offer\<close>

definition require :: "bool \<Rightarrow> string \<Rightarrow> string + unit" where
  "require b e = (if b then Inr () else Inl e)"

definition plain_id :: "string \<Rightarrow> bool" where
  "plain_id v \<longleftrightarrow> v \<noteq> [] \<and> length v \<le> 128 \<and> list_all (\<lambda>c. is_ascii_alphanumeric c \<or> c \<in> set ''-_'') v"

definition artifact_download_url :: "string \<Rightarrow> string" where
  "artifact_download_url aid = ''/api/agent/update/artifacts/'' @ aid @ ''/download''"

definition validate_offer :: "('v, 'sig) agent_env \<Rightarrow> update_offer \<Rightarrow> string + package_type" where
  "validate_offer env off =
     try_bind (require (is_privileged env) ''agent lacks privileges'') (\<lambda>_.
     try_bind (validate_update_instance_binding off (instance_id env)) (\<lambda>_.
     case own_package_type env of None \<Rightarrow> Inl ''not a managed standalone installation'' | Some t \<Rightarrow>
     try_bind (require (o_package_type off = t) ''package type mismatch'') (\<lambda>_.
     case own_arch env of None \<Rightarrow> Inl ''unable to determine architecture'' | Some arch \<Rightarrow>
     try_bind (require (o_native_arch off = arch) ''native architecture mismatch'') (\<lambda>_.
     try_bind (require (case o_target_os off of None \<Rightarrow> True | Some s \<Rightarrow> s = own_os env) ''target operating system mismatch'') (\<lambda>_.
     try_bind (require (o_size_bytes off > 0) ''update package size must be positive'') (\<lambda>_.
     try_bind (require (0 \<le> o_retry_count off \<and> o_retry_count off \<le> max_agent_update_retry_count) ''update retry count'') (\<lambda>_.
     try_bind (require (hex_digest (o_sha256 off)) ''update package SHA-256 is invalid'') (\<lambda>_.
     try_bind (require (semver env (o_version off) \<noteq> None) ''invalid target version'') (\<lambda>_.
     try_bind (require (plain_id (o_artifact_id off)) ''update artifact ID is invalid'') (\<lambda>_.
     try_bind (require (o_download_url off = artifact_download_url (o_artifact_id off)) ''update download URL'') (\<lambda>_.
     try_bind (verify_update_signature_policy_with_key off (server_https env) (embedded_key env)) (\<lambda>_.
     parse_package_type (o_package_type off)))))))))))))"

definition validate_rollback_package :: "('v, 'sig) agent_env \<Rightarrow> rollback_package \<Rightarrow> string + unit" where
  "validate_rollback_package env k =
     (case own_package_type env of None \<Rightarrow> Inl ''local update package type is unavailable'' | Some t \<Rightarrow>
     try_bind (require (k_package_type k = t) ''rollback package type mismatch'') (\<lambda>_.
     case own_arch env of None \<Rightarrow> Inl ''local native architecture is unavailable'' | Some arch \<Rightarrow>
     try_bind (require (k_native_arch k = arch) ''rollback native architecture mismatch'') (\<lambda>_.
     try_bind (require (k_target_os k = own_os env) ''rollback target operating system mismatch'') (\<lambda>_.
     try_bind (require (k_size_bytes k > 0 \<and> hex_digest (k_sha256 k)) ''rollback package integrity metadata'') (\<lambda>_.
     require (k_download_url k = artifact_download_url (k_artifact_id k)) ''rollback download URL'')))))"

definition validate_rollback_offer :: "('v, 'sig) agent_env \<Rightarrow> rollback_offer \<Rightarrow> string + unit" where
  "validate_rollback_offer env off =
     try_bind (require (is_privileged env) ''agent lacks privileges'') (\<lambda>_.
     try_bind (require (own_package_type env = Some (package_type_string Standalone)) ''not a managed installation'') (\<lambda>_.
     try_bind (require (b_instance_id off = instance_id env) ''rollback targets a different agent instance'') (\<lambda>_.
     try_bind (require (plain_id (b_attempt_id off)) ''rollback attempt_id is invalid'') (\<lambda>_.
     try_bind (require (plain_id (b_release_id off)) ''rollback release_id is invalid'') (\<lambda>_.
     try_bind (require (0 \<le> b_retry_count off \<and> b_retry_count off \<le> max_agent_update_retry_count) ''rollback retry count'') (\<lambda>_.
     try_bind (require (semver env (b_from_version off) \<noteq> None) ''invalid rollback source version'') (\<lambda>_.
     try_bind (require (semver env (b_target_version off) \<noteq> None) ''invalid rollback target version'') (\<lambda>_.
     try_bind (case b_package off of None \<Rightarrow> Inr () | Some k \<Rightarrow> validate_rollback_package env k) (\<lambda>_.
     verify_rollback_signature_policy_with_key off (server_https env) (embedded_key env))))))))))"

definition local_rollback_package :: "('v, 'sig) agent_env \<Rightarrow> string \<Rightarrow> node \<Rightarrow> cached_package option" where
  "local_rollback_package env v nd = (case rollback_baseline (state_file nd) of None \<Rightarrow> None
     | Some k \<Rightarrow> if p_version k = v \<and> p_package_type k = Standalone \<and> own_arch env = Some (p_native_arch k)
         \<and> disk nd (p_path k) \<noteq> None then Some k else None)"

definition display_path :: "path \<Rightarrow> string" where
  "display_path p = concat (map (\<lambda>c. CHR ''/'' # c) p)"

definition effective_from_server :: "rollback_offer \<Rightarrow> rollback_package \<Rightarrow> update_offer" where
  "effective_from_server off k =
     \<lparr>o_attempt_id = Some (b_attempt_id off), o_instance_id = None, o_release_id = b_release_id off,
      o_version = b_target_version off, o_artifact_id = k_artifact_id k, o_download_url = k_download_url k,
      o_sha256 = k_sha256 k, o_size_bytes = k_size_bytes k, o_package_type = k_package_type k,
      o_native_arch = k_native_arch k, o_target_os = Some (k_target_os k), o_signature_key_id = None,
      o_signature = None, o_signature_v2 = None, o_retry_count = b_retry_count off\<rparr>"

definition effective_from_local :: "('v, 'sig) agent_env \<Rightarrow> rollback_offer \<Rightarrow> cached_package \<Rightarrow> string + update_offer" where
  "effective_from_local env off k =
     (if p_size_bytes k \<ge> 2 ^ 63 then Inl ''local rollback package is too large''
      else Inr \<lparr>o_attempt_id = Some (b_attempt_id off), o_instance_id = None, o_release_id = b_release_id off,
        o_version = b_target_version off, o_artifact_id = p_artifact_id k,
        o_download_url = ''local://'' @ display_path (p_path k),
        o_sha256 = p_sha256 k, o_size_bytes = p_size_bytes k, o_package_type = package_type_string (p_package_type k),
        o_native_arch = p_native_arch k, o_target_os = Some (own_os env), o_signature_key_id = None,
        o_signature = None, o_signature_v2 = None, o_retry_count = b_retry_count off\<rparr>)"

definition rollback_effective_offer ::
  "('v, 'sig) agent_env \<Rightarrow> rollback_offer \<Rightarrow> rollback_package option \<Rightarrow> cached_package option \<Rightarrow> string + update_offer" where
  "rollback_effective_offer env off server_package local_package =
     (case server_package of Some k \<Rightarrow> Inr (effective_from_server off k)
      | None \<Rightarrow> (case local_package of None \<Rightarrow> Inl ''local rollback package is unavailable''
        | Some k \<Rightarrow> effective_from_local env off k))"

subsection \<open>The attempt on disk\<close>

text \<open>\<open>mutate_attempt\<close>: a change of the attempt that is still of the expected generation.\<close>

definition mutate_attempt ::
  "('v, 'sig) agent_env \<Rightarrow> (update_offer \<Rightarrow> bool) \<Rightarrow> string \<Rightarrow> (persisted_attempt \<Rightarrow> persisted_attempt) \<Rightarrow>
   persisted_attempt node_action" where
  "mutate_attempt env expected e f nd = (case attempt (state_file nd) of None \<Rightarrow> (Inl e, nd)
     | Some x \<Rightarrow> if \<not> expected (x_offer x) then (Inl e, nd)
       else let x' = (f x)\<lparr>x_updated_at := clock env\<rparr>
         in (Inr x', nd\<lparr>state_file := (state_file nd)\<lparr>attempt := Some x'\<rparr>\<rparr>))"

definition send_message :: "agent_inbound \<Rightarrow> unit node_action" where
  "send_message m = h_modify (\<lambda>nd. nd\<lparr>inbound := inbound nd @ [m]\<rparr>)"

definition begin_attempt :: "('v, 'sig) agent_env \<Rightarrow> update_offer \<Rightarrow> attempt_operation \<Rightarrow> unit node_action" where
  "begin_attempt env off q = h_modify (\<lambda>nd. nd\<lparr>state_file := (state_file nd)\<lparr>attempt := Some
     \<lparr>x_offer = off, x_operation = q, x_manual = False, x_status = Waiting, x_message = None,
      x_package_path = None, x_previous = current_package (state_file nd), x_phase = Staging,
      x_updated_at = clock env\<rparr>\<rparr>\<rparr>)"

definition send_status_for_attempt ::
  "('v, 'sig) agent_env \<Rightarrow> update_offer option \<Rightarrow> update_status \<Rightarrow> string option \<Rightarrow> unit node_action" where
  "send_status_for_attempt env expected st m =
     h_bind (mutate_attempt env (\<lambda>off. case expected of None \<Rightarrow> True | Some e \<Rightarrow> offer_generation_matches off e)
       ''update attempt is no longer current''
       (\<lambda>x. x\<lparr>x_status := st, x_message := m, x_phase := (if finished_status st then Completed else x_phase x)\<rparr>))
     (\<lambda>x. send_message (attempt_status_message x st m))"

abbreviation send_status ::
  "('v, 'sig) agent_env \<Rightarrow> update_offer \<Rightarrow> update_status \<Rightarrow> string option \<Rightarrow> unit node_action" where
  "send_status env off \<equiv> send_status_for_attempt env (Some off)"

definition set_package_path :: "('v, 'sig) agent_env \<Rightarrow> update_offer \<Rightarrow> path \<Rightarrow> persisted_attempt node_action" where
  "set_package_path env off p = mutate_attempt env (\<lambda>o'. offer_generation_matches o' off)
     ''update attempt is no longer current'' (\<lambda>x. x\<lparr>x_package_path := Some p\<rparr>)"

definition replace_current_attempt_offer ::
  "('v, 'sig) agent_env \<Rightarrow> update_offer \<Rightarrow> update_offer \<Rightarrow> persisted_attempt node_action" where
  "replace_current_attempt_offer env previous replacement =
     mutate_attempt env (\<lambda>o'. offer_generation_matches o' previous) ''rollback attempt is no longer current''
       (\<lambda>x. x\<lparr>x_offer := replacement\<rparr>)"

definition mark_handoff_started ::
  "('v, 'sig) agent_env \<Rightarrow> update_offer \<Rightarrow> string option \<Rightarrow> unit node_action" where
  "mark_handoff_started env off m =
     h_bind (mutate_attempt env (\<lambda>o'. offer_generation_matches o' off) ''prepared update attempt is missing''
       (\<lambda>x. x\<lparr>x_status := AwaitingRestart, x_message := m, x_phase := TargetPhase\<rparr>))
     (\<lambda>x. send_message (attempt_status_message x AwaitingRestart m))"

definition stop_draining :: "unit node_action" where
  "stop_draining = h_modify (\<lambda>nd. nd\<lparr>draining := False\<rparr>)"

definition start_draining :: "unit node_action" where
  "start_draining = h_modify (\<lambda>nd. nd\<lparr>draining := True\<rparr>)"

subsection \<open>Downloading\<close>

text \<open>
  A transfer: the free space (or an error), the checksum reply, the announced length, the chunks of
  the body, each of which may fail, and the tasks that are active when the package is ready.
\<close>

record transfer =
  t_space :: "string + int"
  t_checksum :: "string + string"
  t_reply :: "string + unit"
  t_length :: "int option"
  t_chunks :: "(string + bytes) list"
  t_active :: nat

definition disk_reserve_bytes :: int where "disk_reserve_bytes = 16 * 1024 * 1024"

definition u64_saturating_add :: "int \<Rightarrow> int \<Rightarrow> int" where
  "u64_saturating_add a b = min (a + b) (2 ^ 64 - 1)"

definition has_suffix :: "string \<Rightarrow> string \<Rightarrow> bool" where
  "has_suffix suf s \<longleftrightarrow> length suf \<le> length s \<and> drop (length s - length suf) s = suf"

fun receive_chunks :: "int \<Rightarrow> bytes \<Rightarrow> (string + bytes) list \<Rightarrow> (string + unit) \<times> bytes option" where
  "receive_chunks expected acc [] = (Inr (), Some acc)"
| "receive_chunks expected acc (Inl e # cs) = (Inl e, Some acc)"
| "receive_chunks expected acc (Inr c # cs) =
     (if int (length acc + length c) > expected then (Inl ''download exceeded declared package size'', None)
      else receive_chunks expected (acc @ c) cs)"

definition set_file :: "path \<Rightarrow> bytes option \<Rightarrow> unit node_action" where
  "set_file p c = h_modify (\<lambda>nd. nd\<lparr>disk := (disk nd)(p := c)\<rparr>)"

definition package_file :: "('v, 'sig) agent_env \<Rightarrow> string \<Rightarrow> string \<Rightarrow> path" where
  "package_file env component extension = packages_dir env @ [safe_component component @ extension]"

definition download_to_temporary :: "('v, 'sig) agent_env \<Rightarrow> transfer \<Rightarrow> update_offer \<Rightarrow> string \<Rightarrow> path node_action" where
  "download_to_temporary env t off component =
     h_bind (h_lift (to_u64 (o_size_bytes off))) (\<lambda>expected.
     h_bind (h_lift (t_space t)) (\<lambda>available.
     h_then (h_guard (\<not> available < u64_saturating_add expected disk_reserve_bytes) ''insufficient disk space'')
     (let tmp = package_file env component ''.part'' in
     h_then (set_file tmp None)
     (h_then (h_lift (t_reply t))
     (h_then (h_guard (case t_length t of None \<Rightarrow> True | Some n \<Rightarrow> n = expected) ''Content-Length mismatch'')
     (case receive_chunks expected [] (t_chunks t) of (r, contents) \<Rightarrow>
       h_then (set_file tmp contents) (h_then (h_lift r) (h_return tmp))))))))"

definition download_checksum_of :: "transfer \<Rightarrow> update_offer \<Rightarrow> string + string" where
  "download_checksum_of t off =
     (if \<not> has_suffix ''/download'' (o_download_url off) then Inl ''update download URL has no download suffix''
      else download_checksum (t_checksum t))"

text \<open>\<open>replace_file\<close>: the verified download becomes the package.\<close>

definition replace_file :: "path \<Rightarrow> path \<Rightarrow> unit node_action" where
  "replace_file src target = h_modify (\<lambda>nd. nd\<lparr>disk := (disk nd)(target := disk nd src, src := None)\<rparr>)"

definition read_file :: "path \<Rightarrow> bytes node_action" where
  "read_file p nd = (case disk nd p of None \<Rightarrow> (Inl ''no such file'', nd) | Some bs \<Rightarrow> (Inr bs, nd))"

text \<open>Download, verify and move into place, as both preparations do.\<close>

definition fetch_package ::
  "('v, 'sig) agent_env \<Rightarrow> transfer \<Rightarrow> update_offer \<Rightarrow> string \<Rightarrow> path node_action" where
  "fetch_package env t off component =
     h_bind (h_lift (download_checksum_of t off)) (\<lambda>checksum.
     h_bind (download_to_temporary env t off component) (\<lambda>tmp.
     h_then (send_status env off Verifying None)
     (h_bind (read_file tmp) (\<lambda>bs.
      h_then (h_lift (verify_download env off bs checksum))
     (let final_path = package_file env component ''.bin'' in
      h_then (replace_file tmp final_path) (h_return final_path))))))"

subsection \<open>Preparation\<close>

definition update_delay_seconds :: "('v, 'sig) agent_env \<Rightarrow> string \<Rightarrow> string \<Rightarrow> nat" where
  "update_delay_seconds env iid aid = delay_hash env iid aid mod 61"

datatype prepare_result = ReadyToApply update_offer | Finished

text \<open>The end of both preparations: stop new work and wait for the running tasks.\<close>

definition drain_and_wait :: "('v, 'sig) agent_env \<Rightarrow> transfer \<Rightarrow> update_offer \<Rightarrow> prepare_result node_action" where
  "drain_and_wait env t off =
     h_then start_draining
     (h_then (if t_active t > 0 then send_status env off WaitingIdle (Some (''waiting for active tasks: '' @ dec_string (t_active t)))
       else h_return ())
     (h_return (ReadyToApply off)))"

definition prepare_inner :: "('v::linorder, 'sig) agent_env \<Rightarrow> transfer \<Rightarrow> update_offer \<Rightarrow> prepare_result node_action" where
  "prepare_inner env t off =
     h_then (begin_attempt env off UpgradeOperation)
     (case semver env (own_version env) of None \<Rightarrow> h_fail ''invalid own version'' | Some current \<Rightarrow>
      (case semver env (o_version off) of None \<Rightarrow> h_fail ''invalid target version'' | Some target \<Rightarrow>
        if target = current
        then h_then (send_status env off Succeeded (Some ''target version is already running'')) (h_return Finished)
        else if target < current then h_fail ''refusing automatic downgrade''
        else
          h_then (send_status env off Waiting (Some (''spread delay '' @ dec_string (update_delay_seconds env (instance_id env) (o_artifact_id off)))))
          (h_then (send_status env off Downloading None)
          (h_bind (fetch_package env t off (offer_storage_component off)) (\<lambda>final_path.
           h_then (set_package_path env off final_path)
           (drain_and_wait env t off))))))"

text \<open>A failed preparation stops the drain and reports; errors of the report itself are only logged.\<close>

definition report_failure :: "unit node_action \<Rightarrow> prepare_result node_action" where
  "report_failure act nd = (Inr Finished, snd (h_then stop_draining act nd))"

definition prepare :: "('v::linorder, 'sig) agent_env \<Rightarrow> transfer \<Rightarrow> update_offer \<Rightarrow> prepare_result node_action" where
  "prepare env t off nd = (case validate_offer env off of
       Inl e \<Rightarrow> report_failure (send_message (update_status_message off Failed (Some e))) nd
     | Inr _ \<Rightarrow> (case prepare_inner env t off nd of
         (Inl e, nd') \<Rightarrow> report_failure (send_status env off Failed (Some e)) nd'
       | (Inr r, nd') \<Rightarrow> (Inr r, nd')))"

definition rollback_operation :: "rollback_offer \<Rightarrow> attempt_operation" where
  "rollback_operation off = RollbackOperation (b_attempt_id off) (b_release_id off) (b_from_version off)
     (b_target_version off) (b_retry_count off)"

text \<open>
  The package of a rollback: the server's when it names one, otherwise (or when that fails) the local
  baseline.  The result is the offer that is in force and the package's path.
\<close>

definition use_local_baseline ::
  "('v, 'sig) agent_env \<Rightarrow> rollback_offer \<Rightarrow> update_offer \<Rightarrow> cached_package \<Rightarrow> string \<Rightarrow> (update_offer \<times> path) node_action" where
  "use_local_baseline env off effective k server_error nd =
     (h_then (h_lift (verify_package_at_rest env (disk nd) (p_path k) (p_size_bytes k) (p_sha256 k)))
     (h_bind (h_lift (rollback_effective_offer env off None (Some k))) (\<lambda>local_effective.
      h_then (replace_current_attempt_offer env effective local_effective)
      (h_then (send_status env local_effective Verifying (Some (''server rollback package failed; using local baseline: '' @ server_error)))
      (h_return (local_effective, p_path k)))))) nd"

definition rollback_package_path ::
  "('v, 'sig) agent_env \<Rightarrow> transfer \<Rightarrow> rollback_offer \<Rightarrow> update_offer \<Rightarrow> cached_package option \<Rightarrow> (update_offer \<times> path) node_action" where
  "rollback_package_path env t off effective local_baseline nd =
     (if b_package off \<noteq> None
      then h_then (send_status env effective Downloading None) (\<lambda>nd.
        case fetch_package env t effective (''rollback-'' @ b_attempt_id off) nd of
          (Inr p, nd') \<Rightarrow> (Inr (effective, p), nd')
        | (Inl e, nd') \<Rightarrow> (case local_baseline of None \<Rightarrow> (Inl e, nd')
          | Some k \<Rightarrow> use_local_baseline env off effective k e nd')) nd
      else case local_baseline of None \<Rightarrow> (Inl ''local rollback baseline disappeared'', nd)
        | Some k \<Rightarrow>
          h_then (send_status env effective Verifying (Some ''using locally cached rollback baseline'')) (\<lambda>nd.
          h_then (h_lift (verify_package_at_rest env (disk nd) (p_path k) (p_size_bytes k) (p_sha256 k)))
            (h_return (effective, p_path k)) nd) nd)"

definition prepare_rollback_inner ::
  "('v::linorder, 'sig) agent_env \<Rightarrow> transfer \<Rightarrow> rollback_offer \<Rightarrow> prepare_result node_action" where
  "prepare_rollback_inner env t off nd =
     (h_then (h_lift (validate_rollback_offer env off))
     (case (semver env (own_version env), semver env (b_from_version off), semver env (b_target_version off)) of
        (Some current, Some source, Some target) \<Rightarrow>
        if current = target
        then h_then (send_message (rollback_status_message off RollbackSucceeded (Some ''rollback target version is already running'')))
          (h_return Finished)
        else h_then (h_guard (current = source) ''rollback source mismatch'')
        (h_then (h_guard (target < source) ''rollback target must be lower than source'')
        (let local_baseline = local_rollback_package env (b_target_version off) nd in
         h_then (h_guard (\<not> (b_package off = None \<and> local_baseline = None)) ''no rollback package is available'')
         (h_bind (h_lift (rollback_effective_offer env off (b_package off) local_baseline)) (\<lambda>effective.
          h_then (begin_attempt env effective (rollback_operation off))
          (h_then (send_status env effective Waiting (Some (''spread delay '' @ dec_string (update_delay_seconds env (instance_id env) (b_attempt_id off)))))
          (h_bind (rollback_package_path env t off effective local_baseline) (\<lambda>(effective', p).
           h_then (set_package_path env effective' p)
           (drain_and_wait env t effective'))))))))
      | _ \<Rightarrow> h_fail ''invalid version'')) nd"

definition is_current_rollback :: "rollback_offer \<Rightarrow> node \<Rightarrow> bool" where
  "is_current_rollback off nd = (case attempt (state_file nd) of None \<Rightarrow> False
     | Some x \<Rightarrow> (case x_operation x of UpgradeOperation \<Rightarrow> False
       | RollbackOperation i _ _ _ n \<Rightarrow> i = b_attempt_id off \<and> n = b_retry_count off))"

definition prepare_rollback ::
  "('v::linorder, 'sig) agent_env \<Rightarrow> transfer \<Rightarrow> rollback_offer \<Rightarrow> prepare_result node_action" where
  "prepare_rollback env t off nd = (case prepare_rollback_inner env t off nd of
       (Inl e, nd') \<Rightarrow> report_failure (\<lambda>n.
         if is_current_rollback off n then send_status_for_attempt env None Failed (Some e) n
         else send_message (rollback_status_message off Failed (Some e)) n) nd'
     | (Inr r, nd') \<Rightarrow> (Inr r, nd'))"

subsection \<open>The hand-over\<close>

text \<open>
  \<open>spawn_updater\<close>: the plan of the detached updater.  \<open>spawn_ok\<close> tells whether the process starts and
  takes the lock in time; the new lock owner is written by that process (\<open>acquire_worker_ownership\<close>).
\<close>

definition installed_package :: "('v, 'sig) agent_env \<Rightarrow> bytes \<Rightarrow> cached_package" where
  "installed_package env bs =
     \<lparr>p_artifact_id = ''standalone-installed-'' @ own_version env, p_version = own_version env,
      p_package_type = Standalone, p_native_arch = standalone_arch env,
      p_path = packages_dir env @ [''standalone-rollback-'' @ own_version env @ exe_suffix env], p_retry_count = 0,
      p_size_bytes = int (length bs), p_sha256 = sha256_hex env bs\<rparr>"

definition keep_installed ::
  "('v, 'sig) agent_env \<Rightarrow> update_offer \<Rightarrow> persisted_attempt \<Rightarrow> node \<Rightarrow> cached_package option \<times> node" where
  "keep_installed env off x nd =
     (if x_previous x = None \<and> o_package_type off = package_type_string Standalone
      then (case disk nd (installed_exe env) of None \<Rightarrow> (None, nd)
        | Some bs \<Rightarrow> (Some (installed_package env bs),
            nd\<lparr>disk := (disk nd)(p_path (installed_package env bs) := Some bs)\<rparr>))
      else (x_previous x, nd))"

definition spawn_updater ::
  "('v, 'sig) agent_env \<Rightarrow> string + unit \<Rightarrow> update_offer \<Rightarrow> path \<Rightarrow> unit node_action" where
  "spawn_updater env spawn_result off package nd =
     (if lock_owner nd \<noteq> None then (Inl ''another updater is already running'', nd)
      else case attempt (state_file nd) of
        None \<Rightarrow> (Inl ''prepared update attempt is missing from update state'', nd)
      | Some x \<Rightarrow>
        if \<not> offer_generation_matches (x_offer x) off
        then (Inl ''prepared update attempt is missing from update state'', nd)
        else (case keep_installed env off x nd of (previous, nd1) \<Rightarrow>
          let nd2 = nd1\<lparr>state_file := (state_file nd1)\<lparr>attempt := Some (x\<lparr>x_previous := previous\<rparr>)\<rparr>\<rparr>
          in (case spawn_result of Inl e \<Rightarrow> (Inl e, nd2)
            | Inr _ \<Rightarrow> (Inr (), nd2\<lparr>lock_owner := Some (fresh_lock_owner env),
                plans := plans nd2 @ [\<lparr>y_offer = off, y_operation = x_operation x, y_package_path = package,
                  y_previous = previous, y_lock_owner = fresh_lock_owner env, y_installed = Some (installed_exe env)\<rparr>]\<rparr>))))"

definition launch_prepared_update ::
  "('v, 'sig) agent_env \<Rightarrow> string + unit \<Rightarrow> update_offer \<Rightarrow> node \<Rightarrow> bool \<times> node" where
  "launch_prepared_update env spawn_result off nd =
     (let (r, nd1) = (case attempt (state_file nd) of
           None \<Rightarrow> (Inl ''prepared update package is missing'', nd)
         | Some x \<Rightarrow> if \<not> offer_generation_matches (x_offer x) off then (Inl ''prepared update package is missing'', nd)
           else (case x_package_path x of None \<Rightarrow> (Inl ''prepared update package is missing'', nd)
             | Some p \<Rightarrow> spawn_updater env spawn_result off p nd))
      in case r of
        Inl e \<Rightarrow> (False, snd (h_then stop_draining (send_status env off Failed (Some (''failed to launch detached updater: '' @ e))) nd1))
      | Inr _ \<Rightarrow> (True, snd (mark_handoff_started env off (Some ''detached updater started; agent is exiting'') nd1)))"

subsection \<open>After the agent has connected\<close>

definition offer_marker :: "update_offer \<Rightarrow> string \<times> string \<times> int" where
  "offer_marker off = (o_artifact_id off, o_version off, o_retry_count off)"

definition package_marker :: "cached_package \<Rightarrow> string \<times> string \<times> int" where
  "package_marker k = (p_artifact_id k, p_version k, p_retry_count k)"

text \<open>The status to report, the health marker to write, the message, and whether the attempt is finished now.\<close>

definition connection_outcome ::
  "('v, 'sig) agent_env \<Rightarrow> persisted_attempt \<Rightarrow> update_status \<times> (string \<times> string \<times> int) option \<times> string option \<times> bool" where
  "connection_outcome env x =
     (let unchanged = (x_status x, None, x_message x, False); on_target = (own_version env = o_version (x_offer x)) in
      case x_phase x of
        TargetPhase \<Rightarrow> if on_target
          then (target_success_status (x_operation x), Some (offer_marker (x_offer x)),
            (if x_operation x \<noteq> UpgradeOperation then x_message x else None), True)
          else unchanged
      | RollbackPhase \<Rightarrow> (case x_previous x of None \<Rightarrow> unchanged
          | Some k \<Rightarrow> if own_version env = p_version k
            then (restored_previous_status (x_operation x), Some (package_marker k), x_message x, True) else unchanged)
      | Completed \<Rightarrow>
          if x_status x = Succeeded \<and> on_target
          then (x_status x, Some (offer_marker (x_offer x)), x_message x, False)
          else if x_status x = RollbackSucceeded \<and> x_operation x \<noteq> UpgradeOperation \<and> on_target
          then (x_status x, Some (offer_marker (x_offer x)), x_message x, False)
          else if x_status x = RollbackSucceeded \<and> x_operation x = UpgradeOperation
          then (case x_previous x of None \<Rightarrow> unchanged
            | Some k \<Rightarrow> if own_version env = p_version k
              then (RollbackSucceeded, Some (package_marker k), x_message x, False) else unchanged)
          else unchanged
      | Staging \<Rightarrow> unchanged)"

definition write_health :: "('v, 'sig) agent_env \<Rightarrow> (string \<times> string \<times> int) option \<Rightarrow> node \<Rightarrow> node" where
  "write_health env health nd = (case health of None \<Rightarrow> nd
     | Some (a, v, n) \<Rightarrow> nd\<lparr>health_file := Some \<lparr>h_artifact_id = a, h_version = v, h_retry_count = n, h_connected_at = clock env\<rparr>\<rparr>)"

text \<open>\<open>s\<close> is the state that was read at the beginning: it is written back as a whole.\<close>

definition finish_connection ::
  "('v::linorder, 'sig) agent_env \<Rightarrow> update_state \<Rightarrow> persisted_attempt \<Rightarrow> update_status \<Rightarrow> string option \<Rightarrow> unit node_action" where
  "finish_connection env s x st m nd =
     (case (if st = target_success_status (x_operation x) then rotate_successful_package_state env s x nd
            else (Inr (s, None), nd)) of
        (Inl e, nd1) \<Rightarrow> (Inl e, nd1)
      | (Inr (s', stale), nd1) \<Rightarrow>
        let s'' = (case attempt s' of None \<Rightarrow> s' | Some c \<Rightarrow>
              if offer_generation_matches (x_offer c) (x_offer x)
              then s'\<lparr>attempt := Some (c\<lparr>x_status := st, x_message := m, x_phase := Completed, x_updated_at := clock env\<rparr>)\<rparr>
              else s')
        in (Inr (), remove_file stale (nd1\<lparr>state_file := s''\<rparr>)))"

definition connected_status :: "('v::linorder, 'sig) agent_env \<Rightarrow> agent_inbound option node_action" where
  "connected_status env nd = (case attempt (state_file nd) of None \<Rightarrow> (Inr None, nd)
     | Some x \<Rightarrow> (case connection_outcome env x of (st, health, m, finalize) \<Rightarrow>
         let nd1 = write_health env health nd;
             reply = (if x_manual x then None else Some (attempt_status_message x st m))
         in if \<not> finalize then (Inr reply, nd1)
            else (case finish_connection env (state_file nd) x st m nd1 of
                (Inl e, nd2) \<Rightarrow> (Inl e, nd2)
              | (Inr _, nd2) \<Rightarrow> (Inr reply, nd2))))"

end
