(* ===== verification/AgentWorker.thy ===== *)
theory AgentWorker
  imports AgentManager
begin

text \<open>
  The detached updater (\<open>apply_update\<close> of \<open>instanceEnd/src/update.rs\<close>).  It runs in its own process
  while the agent is stopped, replaces the executable, restarts the service and waits for the new
  agent to connect; when that fails it restores the previous package.  What the operating system
  answers is an argument (\<open>apply_world\<close>), and so is how often the restarted agent connects: its
  connections are calls of \<open>connected_status\<close> with the version of the installed bytes.
\<close>

text \<open>
  One half of the work, installing the target or restoring the previous package.  \<open>w_stop\<close> is an
  error or whether the service really stopped (the exit code is ignored), \<open>w_connects\<close> counts the
  connections before the time-out, \<open>w_late\<close> those after it and before the updater goes on.
\<close>

record install_world =
  w_stop :: "string + bool"
  w_install :: "string + unit"
  w_restart :: "string + unit"
  w_connects :: nat
  w_late :: nat

record apply_world =
  w_exits :: bool
  w_target :: install_world
  w_restore :: install_world

subsection \<open>Effects\<close>

definition check :: "(node \<Rightarrow> bool) \<Rightarrow> string \<Rightarrow> unit node_action" where
  "check p e nd = (if p nd then (Inr (), nd) else (Inl e, nd))"

definition stop_standalone_service :: "install_world \<Rightarrow> unit node_action" where
  "stop_standalone_service w nd = (case w_stop w of Inl e \<Rightarrow> (Inl e, nd)
     | Inr stopped \<Rightarrow> (Inr (), nd\<lparr>service_up := (service_up nd \<and> \<not> stopped)\<rparr>))"

definition restart_agent_service :: "install_world \<Rightarrow> unit node_action" where
  "restart_agent_service w nd = (case w_restart w of Inl e \<Rightarrow> (Inl e, nd)
     | Inr _ \<Rightarrow> (Inr (), nd\<lparr>service_up := True\<rparr>))"

definition install_standalone :: "install_world \<Rightarrow> apply_plan \<Rightarrow> path \<Rightarrow> unit node_action" where
  "install_standalone w y src nd = (case y_installed y of
       None \<Rightarrow> (Inl ''standalone update plan has no installed executable'', nd)
     | Some target \<Rightarrow> (case disk nd src of None \<Rightarrow> (Inl ''failed to stage standalone executable'', nd)
       | Some bs \<Rightarrow> (case w_install w of Inl e \<Rightarrow> (Inl e, nd)
         | Inr _ \<Rightarrow> (Inr (), nd\<lparr>disk := (disk nd)(target := Some bs)\<rparr>))))"

definition installed_bytes :: "apply_plan \<Rightarrow> node \<Rightarrow> bytes option" where
  "installed_bytes y nd = (case y_installed y of None \<Rightarrow> None | Some p \<Rightarrow> disk nd p)"

text \<open>\<open>n\<close> connections of the agent that is installed, while its service runs.\<close>

definition agent_connects :: "('v::linorder, 'sig) agent_env \<Rightarrow> apply_plan \<Rightarrow> nat \<Rightarrow> node \<Rightarrow> node" where
  "agent_connects env y n nd = (case installed_bytes y nd of None \<Rightarrow> nd
     | Some bs \<Rightarrow> if service_up nd
         then ((\<lambda>nd. snd (connected_status (env\<lparr>own_version := exe_version env bs\<rparr>) nd)) ^^ n) nd
         else nd)"

definition health_matches :: "string \<times> string \<times> int \<Rightarrow> node \<Rightarrow> bool" where
  "health_matches marker nd = (case health_file nd of None \<Rightarrow> False
     | Some h \<Rightarrow> (h_artifact_id h, h_version h, h_retry_count h) = marker)"

definition wait_for_health ::
  "('v::linorder, 'sig) agent_env \<Rightarrow> install_world \<Rightarrow> apply_plan \<Rightarrow> string \<times> string \<times> int \<Rightarrow> node \<Rightarrow> bool \<times> node" where
  "wait_for_health env w y marker nd =
     (let nd1 = agent_connects env y (w_connects w) nd in (health_matches marker nd1, nd1))"

definition remove_health :: "unit node_action" where
  "remove_health = h_modify (\<lambda>nd. nd\<lparr>health_file := None\<rparr>)"

subsection \<open>The plan and the state file\<close>

definition plan_is_current :: "apply_plan \<Rightarrow> node \<Rightarrow> bool" where
  "plan_is_current y nd = (case attempt (state_file nd) of None \<Rightarrow> False
     | Some x \<Rightarrow> offer_generation_matches (x_offer x) (y_offer y))"

definition plan_handoff_is_active :: "apply_plan \<Rightarrow> node \<Rightarrow> bool" where
  "plan_handoff_is_active y nd = (case attempt (state_file nd) of None \<Rightarrow> False
     | Some x \<Rightarrow> offer_generation_matches (x_offer x) (y_offer y) \<and> x_phase x = TargetPhase
         \<and> x_status x \<in> set [Installing, AwaitingRestart])"

definition finalized_for_same_phase :: "persisted_attempt \<Rightarrow> attempt_phase \<Rightarrow> bool" where
  "finalized_for_same_phase x ph \<longleftrightarrow> x_phase x = Completed \<and>
     (x_status x, ph) \<in> set [(Succeeded, TargetPhase), (RollbackSucceeded, TargetPhase),
       (RollbackSucceeded, RollbackPhase), (Failed, RollbackPhase)]"

definition persist_apply_status ::
  "('v, 'sig) agent_env \<Rightarrow> apply_plan \<Rightarrow> update_status \<Rightarrow> attempt_phase \<Rightarrow> string option \<Rightarrow> unit node_action" where
  "persist_apply_status env y st ph m = h_modify (\<lambda>nd. case attempt (state_file nd) of None \<Rightarrow> nd
     | Some x \<Rightarrow>
       if \<not> offer_generation_matches (x_offer x) (y_offer y) then nd
       else if x_phase x = Completed \<and> finished_status (x_status x) \<and> x_status x = st then nd
       else if finalized_for_same_phase x ph \<and> \<not> finished_status st then nd
       else if x_status x = st \<and> x_phase x = ph \<and> x_message x = m then nd
       else nd\<lparr>state_file := (state_file nd)\<lparr>attempt := Some (x\<lparr>x_status := st, x_phase := ph, x_message := m,
         x_updated_at := clock env\<rparr>)\<rparr>\<rparr>)"

text \<open>\<open>complete_target_update\<close>: what the agent's connection does, for an agent that does not do it.\<close>

definition stale_previous :: "apply_plan \<Rightarrow> update_state \<Rightarrow> path option" where
  "stale_previous y s = (case (y_previous y, rollback_baseline s) of
       (Some k, Some b) \<Rightarrow> if p_path k \<noteq> y_package_path y \<and> p_path k \<noteq> p_path b
           \<and> (case current_package s of None \<Rightarrow> True | Some c \<Rightarrow> p_path k \<noteq> p_path c)
         then Some (p_path k) else None
     | _ \<Rightarrow> None)"

definition target_already_cached :: "apply_plan \<Rightarrow> update_state \<Rightarrow> bool" where
  "target_already_cached y s = (case current_package s of None \<Rightarrow> False
     | Some c \<Rightarrow> p_artifact_id c = o_artifact_id (y_offer y) \<and> p_retry_count c = o_retry_count (y_offer y))"

definition completed_target ::
  "('v, 'sig) agent_env \<Rightarrow> apply_plan \<Rightarrow> package_type \<Rightarrow> persisted_attempt \<Rightarrow> cached_package \<Rightarrow> update_state \<Rightarrow> update_state" where
  "completed_target env y t x target s =
     s\<lparr>current_package := Some (target\<lparr>p_package_type := t\<rparr>), rollback_baseline := y_previous y,
       attempt := Some (x\<lparr>x_status := target_success_status (y_operation y),
         x_message := (if y_operation y = UpgradeOperation then None else x_message x),
         x_phase := Completed, x_updated_at := clock env\<rparr>)\<rparr>"

definition complete_target_update ::
  "('v, 'sig) agent_env \<Rightarrow> apply_plan \<Rightarrow> package_type \<Rightarrow> unit node_action" where
  "complete_target_update env y t nd =
     (let s = state_file nd in
      if target_already_cached y s then (Inr (), remove_file (stale_previous y s) nd)
      else case attempt s of None \<Rightarrow> (Inr (), nd)
      | Some x \<Rightarrow>
        if \<not> offer_generation_matches (x_offer x) (y_offer y) then (Inr (), nd)
        else case cached_package_from_attempt x of Inl e \<Rightarrow> (Inl e, nd)
        | Inr target \<Rightarrow> (Inr (), remove_file (stale_baseline s (p_path target) (y_previous y))
            (nd\<lparr>state_file := completed_target env y t x target s\<rparr>)))"

subsection \<open>Restoring the previous package\<close>

definition restored_message :: "attempt_operation \<Rightarrow> string \<Rightarrow> string" where
  "restored_message q reason = (case q of UpgradeOperation \<Rightarrow> reason
     | RollbackOperation _ _ _ _ _ \<Rightarrow> ''rollback target failed; restored the previous agent: '' @ reason)"

definition attempt_rollback ::
  "('v::linorder, 'sig) agent_env \<Rightarrow> install_world \<Rightarrow> apply_plan \<Rightarrow> string \<Rightarrow> unit node_action" where
  "attempt_rollback env w y reason nd = (case y_previous y of
       None \<Rightarrow> (case parse_package_type (o_package_type (y_offer y)) of Inl e \<Rightarrow> (Inl e, nd)
         | Inr _ \<Rightarrow>
           h_then (persist_apply_status env y Failed Completed (Some (reason @ ''; no cached rollback package is available'')))
             (h_fail (reason @ ''; no cached rollback package is available''))
             (snd (restart_agent_service w nd)))
     | Some k \<Rightarrow>
       h_then remove_health
       (h_then (persist_apply_status env y Installing RollbackPhase (Some reason))
       (h_then (\<lambda>nd. h_lift (verify_package_at_rest env (disk nd) (p_path k) (p_size_bytes k) (p_sha256 k)) nd)
       (h_then (stop_standalone_service w)
       (h_then (install_standalone w y (p_path k))
       (h_then (persist_apply_status env y AwaitingRestart RollbackPhase (Some reason))
       (\<lambda>nd. case restart_agent_service w nd of
          (Inl e, nd1) \<Rightarrow>
            h_then (persist_apply_status env y Failed Completed (Some (reason @ ''; failed to restart restored agent: '' @ e)))
              (h_fail (reason @ ''; failed to restart restored agent: '' @ e)) nd1
        | (Inr _, nd1) \<Rightarrow> (case wait_for_health env w y (package_marker k) nd1 of
            (False, nd2) \<Rightarrow>
              h_then (persist_apply_status env y Failed Completed (Some (reason @ ''; rollback version did not reconnect'')))
                (h_fail ''rollback version did not reconnect'') (agent_connects env y (w_late w) nd2)
          | (True, nd2) \<Rightarrow>
              h_then (h_modify (remove_file (Some (y_package_path y))))
              (h_then (persist_apply_status env y (restored_previous_status (y_operation y)) Completed
                 (Some (restored_message (y_operation y) reason)))
              (if y_operation y = UpgradeOperation then h_return ()
               else h_fail ''rollback target failed and the previous agent was restored'')) nd2))))))) nd)"

subsection \<open>The updater\<close>

definition target_installation ::
  "('v, 'sig) agent_env \<Rightarrow> install_world \<Rightarrow> apply_plan \<Rightarrow> unit node_action" where
  "target_installation env w y nd =
     h_then (h_lift (try_bind (to_u64 (o_size_bytes (y_offer y))) (\<lambda>n.
       verify_package_at_rest env (disk nd) (y_package_path y) n (o_sha256 (y_offer y)))))
     (install_standalone w y (y_package_path y)) nd"

definition await_target ::
  "('v::linorder, 'sig) agent_env \<Rightarrow> apply_world \<Rightarrow> apply_plan \<Rightarrow> package_type \<Rightarrow> unit node_action" where
  "await_target env w y t nd = (case wait_for_health env (w_target w) y (offer_marker (y_offer y)) nd of
       (True, nd1) \<Rightarrow> complete_target_update env y t nd1
     | (False, nd1) \<Rightarrow> attempt_rollback env (w_restore w) y ''agent did not reconnect''
         (agent_connects env y (w_late (w_target w)) nd1))"

definition installation_phase ::
  "('v::linorder, 'sig) agent_env \<Rightarrow> apply_world \<Rightarrow> apply_plan \<Rightarrow> package_type \<Rightarrow> unit node_action" where
  "installation_phase env w y t = (\<lambda>nd. case target_installation env (w_target w) y nd of
        (Inl e, nd1) \<Rightarrow> attempt_rollback env (w_restore w) y (''target package installation failed: '' @ e) nd1
      | (Inr _, nd1) \<Rightarrow> (case h_then (persist_apply_status env y AwaitingRestart TargetPhase None)
            (restart_agent_service (w_target w)) nd1 of
          (Inl e, nd2) \<Rightarrow> attempt_rollback env (w_restore w) y (''agent service restart failed: '' @ e) nd2
        | (Inr _, nd2) \<Rightarrow> await_target env w y t nd2))"

definition apply_update_inner ::
  "('v::linorder, 'sig) agent_env \<Rightarrow> apply_world \<Rightarrow> apply_plan \<Rightarrow> unit node_action" where
  "apply_update_inner env w y =
     h_then (check (plan_is_current y) ''update plan is stale'')
     (h_then (check (plan_handoff_is_active y) ''update plan has no active parent handoff'')
     (h_bind (h_lift (parse_package_type (o_package_type (y_offer y)))) (\<lambda>t.
      h_then (stop_standalone_service (w_target w))
     (h_then (h_guard (w_exits w) ''agent process did not exit before update timeout'')
     (h_then (check (plan_handoff_is_active y) ''update plan has no active parent handoff'')
     (h_then remove_health
     (h_then (persist_apply_status env y Installing TargetPhase None)
       (installation_phase env w y t))))))))"

text \<open>The updater gives its lock back when it ends, however it ends.\<close>

definition apply_update ::
  "('v::linorder, 'sig) agent_env \<Rightarrow> apply_world \<Rightarrow> apply_plan \<Rightarrow> unit node_action" where
  "apply_update env w y nd =
     (let (r, nd1) = h_then (check (plan_handoff_is_active y) ''parent did not activate the updater handoff'')
            (apply_update_inner env w y) (nd\<lparr>lock_owner := Some (y_lock_owner y)\<rparr>);
          nd2 = (case r of Inr _ \<Rightarrow> nd1
            | Inl e \<Rightarrow> snd (persist_apply_status env y Failed Completed (Some (''updater failed: '' @ e)) nd1))
      in (r, nd2\<lparr>lock_owner := None\<rparr>))"

end
