(* ===== verification/AgentSession.thy ===== *)
theory AgentSession
  imports AgentWorker OfferSigning
begin

text \<open>
  The life of an agent: what its session does with an offer (\<open>agent_ws_loop\<close> of
  \<open>instanceEnd/src/ws.rs\<close>), reconnections, interrupted preparations and the runs of the detached
  updater, as the events of one machine.  The proofs show that every event keeps \<open>trusted_node\<close>: the
  installed executable, the cached packages and the plans have digests from a given set.
\<close>

subsection \<open>Events\<close>

text \<open>The version an agent process reports is that of the executable that is installed.\<close>

definition running :: "('v, 'sig) agent_env \<Rightarrow> int \<Rightarrow> node \<Rightarrow> ('v, 'sig) agent_env" where
  "running env t nd = env\<lparr>clock := t, own_version := (case disk nd (installed_exe env) of None \<Rightarrow> own_version env
     | Some bs \<Rightarrow> exe_version env bs)\<rparr>"

definition launch_when_ready ::
  "('v, 'sig) agent_env \<Rightarrow> string + unit \<Rightarrow> (string + prepare_result) \<times> node \<Rightarrow> node" where
  "launch_when_ready env spawn_result prepared = (case prepared of
       (Inr (ReadyToApply off), nd) \<Rightarrow> snd (launch_prepared_update env spawn_result off nd)
     | (_, nd) \<Rightarrow> snd (stop_draining nd))"

definition handle_offer ::
  "('v::linorder, 'sig) agent_env \<Rightarrow> transfer \<Rightarrow> string + unit \<Rightarrow> update_offer \<Rightarrow> node \<Rightarrow> node" where
  "handle_offer env t spawn_result off nd =
     (if can_start_offer env off nd = Inr True then launch_when_ready env spawn_result (prepare env t off nd) else nd)"

definition handle_rollback_offer ::
  "('v::linorder, 'sig) agent_env \<Rightarrow> transfer \<Rightarrow> string + unit \<Rightarrow> rollback_offer \<Rightarrow> node \<Rightarrow> node" where
  "handle_rollback_offer env t spawn_result off nd =
     (if can_start_rollback off nd then launch_when_ready env spawn_result (prepare_rollback env t off nd) else nd)"

text \<open>
  A lost connection drops the running task: what it has written stays, the drain ends.  Where it was
  cut off is given by the transfer, which fails there.
\<close>

definition interrupt_offer :: "('v::linorder, 'sig) agent_env \<Rightarrow> transfer \<Rightarrow> update_offer \<Rightarrow> node \<Rightarrow> node" where
  "interrupt_offer env t off nd =
     (if can_start_offer env off nd = Inr True \<and> is_ok (validate_offer env off)
      then snd (stop_draining (snd (prepare_inner env t off nd))) else nd)"

definition interrupt_rollback :: "('v::linorder, 'sig) agent_env \<Rightarrow> transfer \<Rightarrow> rollback_offer \<Rightarrow> node \<Rightarrow> node" where
  "interrupt_rollback env t off nd =
     (if can_start_rollback off nd then snd (stop_draining (snd (prepare_rollback_inner env t off nd))) else nd)"

datatype agent_event =
    AgentConnects int
  | OfferArrives int transfer "string + unit" update_offer
  | RollbackArrives int transfer "string + unit" rollback_offer
  | OfferInterrupted int transfer update_offer
  | RollbackInterrupted int transfer rollback_offer
  | UpdaterRuns int apply_world nat

definition agent_step :: "('v::linorder, 'sig) agent_env \<Rightarrow> agent_event \<Rightarrow> node \<Rightarrow> node" where
  "agent_step env e nd = (case e of
       AgentConnects t \<Rightarrow> if service_up nd then snd (connected_status (running env t nd) nd) else nd
     | OfferArrives t tr r off \<Rightarrow> if service_up nd then handle_offer (running env t nd) tr r off nd else nd
     | RollbackArrives t tr r off \<Rightarrow> if service_up nd then handle_rollback_offer (running env t nd) tr r off nd else nd
     | OfferInterrupted t tr off \<Rightarrow> if service_up nd then interrupt_offer (running env t nd) tr off nd else nd
     | RollbackInterrupted t tr off \<Rightarrow> if service_up nd then interrupt_rollback (running env t nd) tr off nd else nd
     | UpdaterRuns t w i \<Rightarrow>
         if i < length (plans nd) \<and> lock_owner nd \<in> {None, Some (y_lock_owner (plans nd ! i))}
         then snd (apply_update (env\<lparr>clock := t\<rparr>) w (plans nd ! i) nd) else nd)"

subsection \<open>Trusted digests\<close>

type_synonym digest = "int \<times> string"

definition offer_digest :: "update_offer \<Rightarrow> digest" where
  "offer_digest off = (o_size_bytes off, to_ascii_lowercase (o_sha256 off))"

definition package_digest :: "cached_package \<Rightarrow> digest" where
  "package_digest k = (p_size_bytes k, to_ascii_lowercase (p_sha256 k))"

definition bytes_digest :: "('v, 'sig) agent_env \<Rightarrow> bytes \<Rightarrow> digest" where
  "bytes_digest env bs = (int (length bs), to_ascii_lowercase (sha256_hex env bs))"

definition trusted_package :: "digest set \<Rightarrow> cached_package option \<Rightarrow> bool" where
  "trusted_package D k = (case k of None \<Rightarrow> True | Some k \<Rightarrow> package_digest k \<in> D)"

definition trusted_attempt :: "digest set \<Rightarrow> persisted_attempt \<Rightarrow> bool" where
  "trusted_attempt D x \<longleftrightarrow> offer_digest (x_offer x) \<in> D \<and> trusted_package D (x_previous x)"

definition trusted_state :: "digest set \<Rightarrow> update_state \<Rightarrow> bool" where
  "trusted_state D s \<longleftrightarrow> trusted_package D (current_package s) \<and> trusted_package D (rollback_baseline s)
     \<and> (case attempt s of None \<Rightarrow> True | Some x \<Rightarrow> trusted_attempt D x)"

definition trusted_plan :: "('v, 'sig) agent_env \<Rightarrow> digest set \<Rightarrow> apply_plan \<Rightarrow> bool" where
  "trusted_plan env D y \<longleftrightarrow> offer_digest (y_offer y) \<in> D \<and> trusted_package D (y_previous y)
     \<and> y_installed y = Some (installed_exe env)"

definition trusted_node :: "('v, 'sig) agent_env \<Rightarrow> digest set \<Rightarrow> node \<Rightarrow> bool" where
  "trusted_node env D nd \<longleftrightarrow> trusted_state D (state_file nd) \<and> list_all (trusted_plan env D) (plans nd)
     \<and> (case disk nd (installed_exe env) of None \<Rightarrow> True | Some bs \<Rightarrow> bytes_digest env bs \<in> D)"

text \<open>The executable does not lie among the packages.\<close>

definition env_ok :: "('v, 'sig) agent_env \<Rightarrow> bool" where
  "env_ok env \<longleftrightarrow> installed_exe env \<noteq> [] \<and> butlast (installed_exe env) \<noteq> packages_dir env"

lemmas trusted_defs = trusted_node_def trusted_state_def trusted_attempt_def trusted_package_def trusted_plan_def

lemma trusted_env [simp]:
  "trusted_node (env\<lparr>clock := t\<rparr>) D = trusted_node env D"
  "trusted_node (env\<lparr>own_version := v\<rparr>) D = trusted_node env D"
  "env_ok (env\<lparr>clock := t\<rparr>) = env_ok env"
  "env_ok (env\<lparr>own_version := v\<rparr>) = env_ok env"
  by (auto simp: trusted_node_def trusted_plan_def bytes_digest_def env_ok_def fun_eq_iff list_all_iff cong: option.case_cong)

lemma verified_digest:
  assumes "verify_package_at_rest env d p n h = Inr ()"
  obtains bs where "d p = Some bs" "bytes_digest env bs = (n, to_ascii_lowercase h)"
  using assms by (auto simp: verify_package_at_rest_def bytes_digest_def eq_ignore_ascii_case_def
      split: if_splits option.splits)

lemma package_file_not_exe: "env_ok env \<Longrightarrow> package_file env c e \<noteq> installed_exe env"
  unfolding env_ok_def package_file_def by (metis butlast_snoc)

subsection \<open>Primitive steps\<close>

abbreviation keeps_trust :: "('v, 'sig) agent_env \<Rightarrow> digest set \<Rightarrow> 'a node_action \<Rightarrow> bool" where
  "keeps_trust env D \<equiv> keeps (trusted_node env D)"

lemma keeps_mutate:
  assumes "\<And>x. trusted_attempt D x \<Longrightarrow> trusted_attempt D (f x)"
  shows "keeps_trust env D (mutate_attempt env' expected e f)"
  using assms unfolding keeps_def mutate_attempt_def
  by (auto simp: trusted_node_def trusted_state_def trusted_attempt_def Let_def split: option.splits)

lemma keeps_send_message [keeps_intros]: "keeps_trust env D (send_message m)"
  unfolding send_message_def by (rule keeps_modify) (simp add: trusted_node_def)

lemma keeps_send_status [keeps_intros]: "keeps_trust env D (send_status_for_attempt env' expected st m)"
  unfolding send_status_for_attempt_def
  by (intro keeps_intros keeps_mutate) (simp_all add: trusted_attempt_def)

lemma keeps_set_package_path [keeps_intros]: "keeps_trust env D (set_package_path env' off p)"
  unfolding set_package_path_def by (intro keeps_mutate) (simp add: trusted_attempt_def)

lemma keeps_mark_handoff [keeps_intros]: "keeps_trust env D (mark_handoff_started env' off m)"
  unfolding mark_handoff_started_def
  by (intro keeps_intros keeps_mutate) (simp_all add: trusted_attempt_def)

lemma keeps_replace_offer: "offer_digest off' \<in> D \<Longrightarrow> keeps_trust env D (replace_current_attempt_offer env' off off')"
  unfolding replace_current_attempt_offer_def by (intro keeps_mutate) (simp add: trusted_attempt_def)

lemma keeps_begin: "offer_digest off \<in> D \<Longrightarrow> keeps_trust env D (begin_attempt env' off q)"
  unfolding begin_attempt_def by (rule keeps_modify) (simp add: trusted_defs)

lemma keeps_draining [keeps_intros]: "keeps_trust env D start_draining" "keeps_trust env D stop_draining"
  unfolding start_draining_def stop_draining_def by (auto intro!: keeps_modify simp: trusted_node_def)

lemma keeps_set_file [keeps_intros]:
  "p \<noteq> installed_exe env \<or> c = None \<Longrightarrow> keeps_trust env D (set_file p c)"
  unfolding set_file_def by (rule keeps_modify) (auto simp: trusted_node_def)

lemma keeps_replace_file [keeps_intros]: "p \<noteq> installed_exe env \<Longrightarrow> keeps_trust env D (replace_file src p)"
  unfolding replace_file_def by (rule keeps_modify) (auto simp: trusted_node_def)

lemma keeps_read_file [keeps_intros]: "keeps_trust env D (read_file p)"
  by (auto simp: keeps_def read_file_def split: option.splits)

lemma keeps_remove_file [keeps_intros]: "keeps_trust env D (h_modify (remove_file p))"
  by (rule keeps_modify) (auto simp: remove_file_def trusted_node_def split: option.splits)

subsection \<open>Preparation\<close>

lemma keeps_download [keeps_intros]:
  assumes "env_ok env"
  shows "keeps_trust env D (download_to_temporary env t off component)"
  unfolding download_to_temporary_def Let_def
  by (intro keeps_intros) (simp_all add: package_file_not_exe [OF assms])

lemma keeps_fetch_package [keeps_intros]:
  "env_ok env \<Longrightarrow> keeps_trust env D (fetch_package env t off component)"
  unfolding fetch_package_def Let_def by (intro keeps_intros) (simp_all add: package_file_not_exe)

lemma keeps_drain_and_wait [keeps_intros]: "keeps_trust env D (drain_and_wait env' t off)"
  unfolding drain_and_wait_def by (intro keeps_intros)

lemma keeps_report_failure:
  assumes "keeps_trust env D act"
  shows "keeps_trust env D (report_failure act)"
proof -
  have "keeps_trust env D (h_then stop_draining act)" by (intro keeps_intros assms)
  then show ?thesis by (simp add: keeps_def report_failure_def)
qed

lemma keeps_if_state: "keeps P m \<Longrightarrow> keeps P k \<Longrightarrow> keeps P (\<lambda>s. if b s then m s else k s)"
  by (simp add: keeps_def)

lemma keeps_prepare_inner: "env_ok env \<Longrightarrow> offer_digest off \<in> D \<Longrightarrow> keeps_trust env D (prepare_inner env t off)"
  unfolding prepare_inner_def by (intro keeps_intros keeps_begin)

lemma keeps_prepare:
  assumes "env_ok env" "\<And>t. validate_offer env off = Inr t \<Longrightarrow> offer_digest off \<in> D"
  shows "keeps_trust env D (prepare env t off)"
proof (cases "validate_offer env off")
  case (Inl e)
  then show ?thesis unfolding prepare_def
    using keeps_report_failure [OF keeps_send_message] by (simp add: keeps_def)
next
  case (Inr u)
  then have inner: "keeps_trust env D (prepare_inner env t off)" using assms keeps_prepare_inner by blast
  have "keeps_trust env D (report_failure (send_status env off Failed (Some e)))" for e
    by (intro keeps_report_failure keeps_intros)
  then show ?thesis using inner Inr unfolding prepare_def keeps_def by (auto split: prod.split sum.split)
qed

lemma effective_digest:
  assumes "rollback_effective_offer env off p k = Inr eff"
    and "\<And>q. p = Some q \<Longrightarrow> (k_size_bytes q, to_ascii_lowercase (k_sha256 q)) \<in> D" "trusted_package D k"
  shows "offer_digest eff \<in> D"
  using assms by (auto simp: rollback_effective_offer_def effective_from_server_def effective_from_local_def
      offer_digest_def trusted_package_def package_digest_def split: option.splits if_splits)

lemma local_package_trusted: "trusted_node env D nd \<Longrightarrow> trusted_package D (local_rollback_package env' v nd)"
  by (auto simp: local_rollback_package_def trusted_defs split: option.splits)

lemma keeps_use_local:
  assumes "trusted_package D (Some k)"
  shows "keeps_trust env D (use_local_baseline env off eff k e)"
proof -
  have "keeps_trust env D (h_bind (h_lift (rollback_effective_offer env off None (Some k))) (\<lambda>local_effective.
      h_then (replace_current_attempt_offer env eff local_effective)
      (h_then (send_status env local_effective Verifying m) (h_return (local_effective, p_path k)))))" for m
  proof (cases "rollback_effective_offer env off None (Some k)")
    case (Inl a)
    then show ?thesis by (simp add: keeps_def h_bind_def h_lift_def)
  next
    case (Inr eff')
    then have "offer_digest eff' \<in> D" using effective_digest [OF Inr _ assms] by simp
    then have "keeps_trust env D (h_then (replace_current_attempt_offer env eff eff')
      (h_then (send_status env eff' Verifying m) (h_return (eff', p_path k))))"
      by (intro keeps_intros keeps_replace_offer)
    then show ?thesis using Inr by (simp add: keeps_def h_bind_def h_lift_def)
  qed
  then show ?thesis unfolding keeps_def use_local_baseline_def
    by (auto simp: h_then_def h_bind_def [of "h_lift (verify_package_at_rest _ _ _ _ _)"] h_lift_def
        split: sum.split)
qed

lemma keeps_rollback_path:
  assumes "env_ok env" "trusted_package D k"
  shows "keeps_trust env D (rollback_package_path env t off eff k)"
proof -
  let ?server = "\<lambda>nd. case fetch_package env t eff (''rollback-'' @ b_attempt_id off) nd of
          (Inr p, nd') \<Rightarrow> (Inr (eff, p), nd')
        | (Inl e, nd') \<Rightarrow> (case k of None \<Rightarrow> (Inl e, nd') | Some k \<Rightarrow> use_local_baseline env off eff k e nd')"
  have server: "keeps_trust env D ?server"
  proof (unfold keeps_def, intro allI impI)
    fix nd assume nd: "trusted_node env D nd"
    obtain r nd' where f: "fetch_package env t eff (''rollback-'' @ b_attempt_id off) nd = (r, nd')" by fastforce
    have nd': "trusted_node env D nd'" by (rule keepsD [OF keeps_fetch_package [OF assms(1)] nd f])
    show "trusted_node env D (snd (?server nd))"
    proof (cases k)
      case None
      then show ?thesis using f nd' by (simp split: sum.split)
    next
      case (Some q)
      then have "keeps_trust env D (use_local_baseline env off eff q e)" for e using keeps_use_local assms(2) by blast
      then show ?thesis using f nd' Some by (simp add: keeps_def split: sum.split)
    qed
  qed
  have verify: "keeps_trust env D (\<lambda>nd. h_then (h_lift (verify_package_at_rest env (disk nd) (p_path q) (p_size_bytes q) (p_sha256 q)))
            (h_return (eff, p_path q)) nd)" for q
    by (auto simp: keeps_def handler_simps split: sum.split)
  have *: "keeps_trust env D (if b_package off \<noteq> None then h_then (send_status env eff Downloading None) ?server
      else case k of None \<Rightarrow> h_fail ''local rollback baseline disappeared''
        | Some q \<Rightarrow> h_then (send_status env eff Verifying (Some ''using locally cached rollback baseline'')) (\<lambda>nd.
          h_then (h_lift (verify_package_at_rest env (disk nd) (p_path q) (p_size_bytes q) (p_sha256 q)))
            (h_return (eff, p_path q)) nd))"
    by (intro keeps_intros server verify)
  show ?thesis using * unfolding rollback_package_path_def
    by (cases "b_package off = None"; cases k) (simp_all add: keeps_def h_fail_def)
qed

lemma keeps_prepare_rollback_inner:
  assumes ok: "env_ok env" and trusted: "\<And>q. validate_rollback_offer env off = Inr () \<Longrightarrow> b_package off = Some q \<Longrightarrow>
    (k_size_bytes q, to_ascii_lowercase (k_sha256 q)) \<in> D"
  shows "keeps_trust env D (prepare_rollback_inner env t off)"
proof (cases "validate_rollback_offer env off")
  case (Inl e)
  then show ?thesis by (simp add: keeps_def prepare_rollback_inner_def handler_simps)
next
  case (Inr u)
  have tail: "keeps_trust env D (h_bind (h_lift (rollback_effective_offer env off (b_package off) k)) (\<lambda>eff.
          h_then (begin_attempt env eff q)
          (h_then (send_status env eff Waiting m)
          (h_bind (rollback_package_path env t off eff k) (\<lambda>(eff', p).
           h_then (set_package_path env eff' p) (drain_and_wait env t eff'))))))"
    if "trusted_package D k" for k q m
  proof (cases "rollback_effective_offer env off (b_package off) k")
    case (Inl a)
    then show ?thesis by (simp add: keeps_def h_bind_def h_lift_def)
  next
    case eff: (Inr eff)
    have "offer_digest eff \<in> D" by (rule effective_digest [OF eff _ that]) (use trusted Inr in auto)
    then have "keeps_trust env D (h_then (begin_attempt env eff q)
          (h_then (send_status env eff Waiting m)
          (h_bind (rollback_package_path env t off eff k) (\<lambda>(eff', p).
           h_then (set_package_path env eff' p) (drain_and_wait env t eff')))))"
      by (intro keeps_intros keeps_begin keeps_rollback_path ok that)
    then show ?thesis using eff by (simp add: keeps_def h_bind_def h_lift_def)
  qed
  show ?thesis
  proof (unfold keeps_def, intro allI impI)
    fix nd assume nd: "trusted_node env D nd"
    let ?k = "local_rollback_package env (b_target_version off) nd"
    have k: "trusted_package D ?k" by (rule local_package_trusted [OF nd])
    show "trusted_node env D (snd (prepare_rollback_inner env t off nd))"
      unfolding prepare_rollback_inner_def Let_def
      by (rule keeps_snd [where P = "trusted_node env D", OF _ nd]) (intro keeps_intros tail k)
  qed
qed

lemma keeps_prepare_rollback:
  assumes "env_ok env" "\<And>q. validate_rollback_offer env off = Inr () \<Longrightarrow> b_package off = Some q \<Longrightarrow>
    (k_size_bytes q, to_ascii_lowercase (k_sha256 q)) \<in> D"
  shows "keeps_trust env D (prepare_rollback env t off)"
proof -
  have inner: "keeps_trust env D (prepare_rollback_inner env t off)"
    by (rule keeps_prepare_rollback_inner) (use assms in auto)
  have "keeps_trust env D (\<lambda>n. if is_current_rollback off n then send_status_for_attempt env None Failed (Some e) n
         else send_message (rollback_status_message off Failed (Some e)) n)" for e
    by (intro keeps_if_state keeps_intros)
  then have "keeps_trust env D (report_failure (\<lambda>n. if is_current_rollback off n
      then send_status_for_attempt env None Failed (Some e) n
      else send_message (rollback_status_message off Failed (Some e)) n))" for e
    by (rule keeps_report_failure)
  then show ?thesis using inner unfolding prepare_rollback_def keeps_def by (auto split: prod.split sum.split)
qed

subsection \<open>The hand-over and the connection\<close>

lemma trusted_install:
  "trusted_node env D nd \<Longrightarrow> disk nd (installed_exe env) = Some bs \<Longrightarrow>
     package_digest (installed_package env bs) \<in> D"
  by (simp add: trusted_node_def installed_package_def package_digest_def bytes_digest_def)

lemma trusted_copy:
  "trusted_node env D nd \<Longrightarrow> bytes_digest env bs \<in> D \<Longrightarrow> trusted_node env D (nd\<lparr>disk := (disk nd)(p := Some bs)\<rparr>)"
  by (simp add: trusted_node_def)

lemma trusted_previous:
  "trusted_node env D nd \<Longrightarrow> attempt (state_file nd) = Some x \<Longrightarrow> trusted_package D k \<Longrightarrow>
     trusted_node env D (nd\<lparr>state_file := (state_file nd)\<lparr>attempt := Some (x\<lparr>x_previous := k\<rparr>)\<rparr>\<rparr>)"
  by (simp add: trusted_node_def trusted_state_def trusted_attempt_def)

lemma trusted_add_plan:
  "trusted_node env D nd \<Longrightarrow> trusted_plan env D y \<Longrightarrow> trusted_node env D (nd\<lparr>lock_owner := c, plans := plans nd @ [y]\<rparr>)"
  by (simp add: trusted_node_def)

lemma generation_matches_digest:
  "trusted_node env D nd \<Longrightarrow> attempt (state_file nd) = Some x \<Longrightarrow>
     offer_digest (x_offer x) \<in> D \<and> trusted_package D (x_previous x)"
  by (simp add: trusted_node_def trusted_state_def trusted_attempt_def)

lemma keeps_spawn_updater:
  assumes "offer_digest off \<in> D"
  shows "keeps_trust env D (spawn_updater env r off p)"
proof (unfold keeps_def, intro allI impI)
  fix nd assume nd: "trusted_node env D nd"
  show "trusted_node env D (snd (spawn_updater env r off p nd))"
  proof (cases "attempt (state_file nd)")
    case None
    then show ?thesis using nd by (simp add: spawn_updater_def)
  next
    case (Some x)
    obtain previous nd1 where k: "keep_installed env off x nd = (previous, nd1)" by fastforce
    have nd1: "trusted_node env D nd1" "attempt (state_file nd1) = Some x" and previous: "trusted_package D previous"
      using k nd trusted_copy [OF nd] trusted_install [OF nd] Some generation_matches_digest [OF nd Some]
      by (auto simp: keep_installed_def trusted_package_def trusted_node_def split: option.splits if_splits)
    have nd2: "trusted_node env D (nd1\<lparr>state_file := (state_file nd1)\<lparr>attempt := Some (x\<lparr>x_previous := previous\<rparr>)\<rparr>\<rparr>)"
      by (rule trusted_previous [OF nd1 previous])
    have plan: "trusted_plan env D \<lparr>y_offer = off, y_operation = x_operation x, y_package_path = p,
        y_previous = previous, y_lock_owner = fresh_lock_owner env, y_installed = Some (installed_exe env)\<rparr>"
      using assms previous by (simp add: trusted_plan_def)
    show ?thesis
    proof (cases "lock_owner nd \<noteq> None \<or> \<not> offer_generation_matches (x_offer x) off")
      case True
      then show ?thesis using nd Some by (auto simp: spawn_updater_def)
    next
      case False
      then show ?thesis using Some nd2 trusted_add_plan [OF nd2 plan] k
        by (simp add: spawn_updater_def Let_def split: sum.split)
    qed
  qed
qed

text \<open>What a preparation hands over has a trusted digest.\<close>

lemma drain_ready: "drain_and_wait env t off nd = (Inr (ReadyToApply off'), nd') \<Longrightarrow> off' = off"
  unfolding drain_and_wait_def by (auto elim!: h_then_InrE split: if_splits)

lemma prepare_ready:
  assumes "prepare env t off nd = (Inr (ReadyToApply off'), nd')"
  shows "off' = off \<and> is_ok (validate_offer env off)"
proof (cases "validate_offer env off")
  case (Inl e)
  then show ?thesis using assms by (simp add: prepare_def report_failure_def)
next
  case (Inr u)
  then have "prepare_inner env t off nd = (Inr (ReadyToApply off'), nd')"
    using assms by (auto simp: prepare_def report_failure_def split: prod.splits sum.splits)
  then have "off' = off" unfolding prepare_inner_def Let_def
    by (auto elim!: h_then_InrE h_bind_InrE dest: drain_ready split: option.splits if_splits)
  then show ?thesis using Inr by simp
qed

lemma use_local_ready:
  assumes "use_local_baseline env off eff k e nd = (Inr (eff', p), nd')" "trusted_package D (Some k)"
  shows "offer_digest eff' \<in> D"
proof -
  obtain l where l: "rollback_effective_offer env off None (Some k) = Inr l" "eff' = l"
    using assms(1) unfolding use_local_baseline_def by (auto elim!: h_then_InrE h_bind_InrE)
  then show ?thesis using effective_digest [OF l(1) _ assms(2)] by simp
qed

lemma rollback_path_ready:
  assumes "rollback_package_path env t off eff k nd = (Inr (eff', p), nd')" "trusted_package D k" "offer_digest eff \<in> D"
  shows "offer_digest eff' \<in> D"
proof (cases "b_package off = None")
  case True
  then show ?thesis using assms unfolding rollback_package_path_def
    by (auto elim!: h_then_InrE split: option.splits)
next
  case False
  then obtain nd1 where "(case fetch_package env t eff (''rollback-'' @ b_attempt_id off) nd1 of
          (Inr p, nd') \<Rightarrow> (Inr (eff, p), nd')
        | (Inl e, nd') \<Rightarrow> (case k of None \<Rightarrow> (Inl e, nd') | Some q \<Rightarrow> use_local_baseline env off eff q e nd')) = (Inr (eff', p), nd')"
    using assms(1) unfolding rollback_package_path_def by (auto elim!: h_then_InrE)
  then show ?thesis using assms(2,3) use_local_ready
    by (auto split: prod.splits sum.splits option.splits)
qed

lemma prepare_rollback_ready:
  assumes "prepare_rollback env t off nd = (Inr (ReadyToApply off'), nd')" "trusted_node env D nd"
    and "\<And>q. validate_rollback_offer env off = Inr () \<Longrightarrow> b_package off = Some q \<Longrightarrow>
      (k_size_bytes q, to_ascii_lowercase (k_sha256 q)) \<in> D"
  shows "offer_digest off' \<in> D"
proof -
  let ?k = "local_rollback_package env (b_target_version off) nd"
  have "prepare_rollback_inner env t off nd = (Inr (ReadyToApply off'), nd')"
    using assms(1) by (auto simp: prepare_rollback_def report_failure_def split: prod.splits sum.splits)
  then obtain eff eff' p nd1 nd2 nd3 where *: "validate_rollback_offer env off = Inr ()"
      "rollback_effective_offer env off (b_package off) ?k = Inr eff"
      "rollback_package_path env t off eff ?k nd1 = (Inr (eff', p), nd2)"
      "drain_and_wait env t eff' nd3 = (Inr (ReadyToApply off'), nd')"
    unfolding prepare_rollback_inner_def Let_def
    by (auto elim!: h_then_InrE h_bind_InrE split: option.splits if_splits prod.splits)
  have k: "trusted_package D ?k" by (rule local_package_trusted [OF assms(2)])
  have "offer_digest eff \<in> D" by (rule effective_digest [OF *(2) _ k]) (use assms(3) *(1) in auto)
  then show ?thesis using rollback_path_ready [OF *(3) k] drain_ready [OF *(4)] by simp
qed

lemma launch_trusted:
  assumes "trusted_node env D nd" "offer_digest off \<in> D"
  shows "trusted_node env D (snd (launch_prepared_update env r off nd))"
proof -
  let ?spawn = "case attempt (state_file nd) of
           None \<Rightarrow> (Inl ''prepared update package is missing'', nd)
         | Some x \<Rightarrow> if \<not> offer_generation_matches (x_offer x) off then (Inl ''prepared update package is missing'', nd)
           else (case x_package_path x of None \<Rightarrow> (Inl ''prepared update package is missing'', nd)
             | Some p \<Rightarrow> spawn_updater env r off p nd)"
  have spawned: "trusted_node env D (snd ?spawn)"
    using assms(1) keeps_snd [OF keeps_spawn_updater [OF assms(2)] assms(1)]
    by (simp split: option.split)
  have failed: "keeps_trust env D (h_then stop_draining (send_status env off Failed (Some m)))" for m
    by (intro keeps_intros)
  obtain q nd1 where q: "?spawn = (q, nd1)" by fastforce
  then have nd1: "trusted_node env D nd1" using spawned by simp
  show ?thesis unfolding launch_prepared_update_def q prod.case Let_def
    using keeps_snd [OF failed nd1] keeps_snd [OF keeps_mark_handoff nd1] by (cases q) simp_all
qed

lemma trusted_from_attempt:
  "cached_package_from_attempt x = Inr k \<Longrightarrow> offer_digest (x_offer x) \<in> D \<Longrightarrow> package_digest k \<in> D"
  by (auto simp: cached_package_from_attempt_def try_bind_Inr_iff to_u64_def package_digest_def offer_digest_def
      split: option.splits if_splits)

lemma preserve_trusted:
  assumes "preserve_baseline_for_legacy_updater env x nd = (r, nd')" "trusted_node env D nd" "trusted_package D (x_previous x)"
  shows "trusted_node env D nd' \<and> state_file nd' = state_file nd \<and> (\<forall>k. r = Inr k \<longrightarrow> trusted_package D k)"
  using assms unfolding preserve_baseline_for_legacy_updater_def Let_def
  by (auto simp: trusted_package_def package_digest_def trusted_copy elim!: verified_digest
      split: option.splits if_splits sum.splits)

lemma rotate_trusted:
  assumes "rotate_successful_package_state env s x nd = (q, nd1)" "trusted_node env D nd"
    and "trusted_state D s" "attempt s = Some x"
  shows "trusted_node env D nd1 \<and> (\<forall>s' stale. q = Inr (s', stale) \<longrightarrow> trusted_state D s' \<and> attempt s' = Some x)"
proof -
  have x: "offer_digest (x_offer x) \<in> D" "trusted_package D (x_previous x)"
    using assms(3,4) by (auto simp: trusted_state_def trusted_attempt_def)
  obtain r nd2 where p: "preserve_baseline_for_legacy_updater env x nd = (r, nd2)" by fastforce
  show ?thesis
  proof (cases "cached_package_from_attempt x")
    case (Inl e)
    then show ?thesis using assms by (auto simp: rotate_successful_package_state_def h_bind_def h_lift_def)
  next
    case (Inr k)
    have "package_digest k \<in> D" by (rule trusted_from_attempt [OF Inr x(1)])
    then show ?thesis using assms(1,3,4) Inr p preserve_trusted [OF p assms(2) x(2)]
      by (cases r) (auto simp: rotate_successful_package_state_def h_bind_def h_lift_def h_return_def
          trusted_state_def trusted_package_def)
  qed
qed

lemma trusted_new_state:
  "trusted_node env D nd \<Longrightarrow> trusted_state D s \<Longrightarrow> trusted_node env D (remove_file p (nd\<lparr>state_file := s\<rparr>))"
  by (auto simp: remove_file_def trusted_node_def split: option.split)

lemma trusted_completed:
  "trusted_state D s \<Longrightarrow> attempt s = Some x \<Longrightarrow>
     trusted_state D (s\<lparr>attempt := Some (x\<lparr>x_status := st, x_message := m, x_phase := ph, x_updated_at := t\<rparr>)\<rparr>)"
  by (simp add: trusted_state_def trusted_attempt_def)

lemma finish_trusted:
  assumes "finish_connection env s x st m nd = (r, nd')" "trusted_node env D nd"
    and "trusted_state D s" "attempt s = Some x"
  shows "trusted_node env D nd'"
proof -
  let ?rot = "if st = target_success_status (x_operation x) then rotate_successful_package_state env s x nd
            else (Inr (s, None), nd)"
  obtain q nd1 where rot: "?rot = (q, nd1)" by fastforce
  have nd1: "trusted_node env D nd1 \<and> (\<forall>s' stale. q = Inr (s', stale) \<longrightarrow> trusted_state D s' \<and> attempt s' = Some x)"
  proof (cases "st = target_success_status (x_operation x)")
    case True
    then show ?thesis using rot rotate_trusted assms(2-4) by simp
  next
    case False
    then show ?thesis using rot assms(2-4) by auto
  qed
  show ?thesis
  proof (cases q)
    case (Inl e)
    then show ?thesis using assms(1) rot nd1 by (simp add: finish_connection_def)
  next
    case (Inr a)
    obtain s' stale where a: "a = (s', stale)" by fastforce
    then have "trusted_state D s'" "attempt s' = Some x" "trusted_node env D nd1" using nd1 Inr by auto
    then show ?thesis using assms(1) unfolding finish_connection_def rot Inr a prod.case sum.case Let_def
      by (auto simp: trusted_new_state trusted_completed split: if_splits)
  qed
qed

lemma keeps_connected: "keeps_trust env D (connected_status env)"
proof (unfold keeps_def, intro allI impI)
  fix nd assume nd: "trusted_node env D nd"
  show "trusted_node env D (snd (connected_status env nd))"
  proof (cases "attempt (state_file nd)")
    case None
    then show ?thesis using nd by (simp add: connected_status_def)
  next
    case (Some x)
    obtain st health m fin where o: "connection_outcome env x = (st, health, m, fin)" by (metis prod_cases4)
    have nd1: "trusted_node env D (write_health env health nd)"
      using nd by (auto simp: write_health_def trusted_node_def split: option.split)
    have s: "trusted_state D (state_file nd)" using nd by (simp add: trusted_node_def)
    obtain r nd2 where f: "finish_connection env (state_file nd) x st m (write_health env health nd) = (r, nd2)" by fastforce
    show ?thesis using o nd1 f finish_trusted [OF f nd1 s Some] Some
      by (simp add: connected_status_def Let_def split: sum.split)
  qed
qed

subsection \<open>The detached updater\<close>

lemma keeps_check [keeps_intros]: "keeps P (check p e)"
  by (simp add: keeps_def check_def)

lemma keeps_service [keeps_intros]:
  "keeps_trust env D (stop_standalone_service w)" "keeps_trust env D (restart_agent_service w)"
  by (auto simp: keeps_def stop_standalone_service_def restart_agent_service_def trusted_node_def split: sum.split)

lemma keeps_remove_health [keeps_intros]: "keeps_trust env D remove_health"
  unfolding remove_health_def by (rule keeps_modify) (simp add: trusted_node_def)

lemma keeps_persist [keeps_intros]: "keeps_trust env D (persist_apply_status env' y st ph m)"
  unfolding persist_apply_status_def
  by (rule keeps_modify) (auto simp: trusted_node_def trusted_state_def trusted_attempt_def split: option.split)

lemma keeps_running: "keeps_trust env D (connected_status (env\<lparr>own_version := v\<rparr>))"
  using keeps_connected [of "env\<lparr>own_version := v\<rparr>" D] by simp

lemma trusted_connects: "trusted_node env D nd \<Longrightarrow> trusted_node env D (agent_connects env y n nd)"
proof -
  assume nd: "trusted_node env D nd"
  have "trusted_node env D (((\<lambda>nd. snd (connected_status (env\<lparr>own_version := v\<rparr>) nd)) ^^ n) nd)" for v
    by (induction n) (use nd keeps_snd [OF keeps_running] in auto)
  then show ?thesis using nd by (simp add: agent_connects_def split: option.split)
qed

lemma trusted_wait: "wait_for_health env w y m nd = (b, nd') \<Longrightarrow> trusted_node env D nd \<Longrightarrow> trusted_node env D nd'"
  by (auto simp: wait_for_health_def Let_def trusted_connects)

lemma keeps_complete:
  assumes "trusted_plan env D y"
  shows "keeps_trust env D (complete_target_update env y t)"
proof (unfold keeps_def, intro allI impI)
  fix nd assume nd: "trusted_node env D nd"
  have removed: "trusted_node env D (remove_file p nd)" for p
    using keeps_snd [OF keeps_remove_file nd] by (simp add: h_modify_def)
  show "trusted_node env D (snd (complete_target_update env y t nd))"
  proof (cases "attempt (state_file nd)")
    case None
    then show ?thesis using nd removed by (simp add: complete_target_update_def Let_def split: option.split)
  next
    case (Some x)
    have x: "offer_digest (x_offer x) \<in> D" "trusted_package D (x_previous x)"
      using generation_matches_digest [OF nd Some] by auto
    have new: "trusted_state D (completed_target env y t x k (state_file nd))" if "cached_package_from_attempt x = Inr k" for k
      using assms x trusted_from_attempt [OF that x(1)]
      by (simp add: trusted_state_def trusted_plan_def trusted_attempt_def trusted_package_def package_digest_def
          completed_target_def)
    show ?thesis using nd removed trusted_new_state [OF nd new] Some
      by (simp add: complete_target_update_def Let_def split: option.split sum.split)
  qed
qed

text \<open>A package is installed only after the check of its digest, on the same bytes.\<close>

lemma trusted_install_step:
  assumes "trusted_node env D nd" "disk nd p = Some bs" "bytes_digest env bs \<in> D"
  shows "trusted_node env D (snd (install_standalone w y p nd))"
  using assms trusted_copy [OF assms(1,3)] by (simp add: install_standalone_def split: option.split sum.split)

lemma keeps_verified_install:
  assumes "(n, to_ascii_lowercase h) \<in> D" "keeps_trust env D k"
  shows "keeps_trust env D (h_then (\<lambda>nd. h_lift (verify_package_at_rest env (disk nd) p n h) nd)
    (h_then (stop_standalone_service w) (h_then (install_standalone w y p) k)))"
proof (unfold keeps_def, intro allI impI)
  fix nd assume nd: "trusted_node env D nd"
  let ?act = "h_then (stop_standalone_service w) (h_then (install_standalone w y p) k)"
  show "trusted_node env D (snd (h_then (\<lambda>nd. h_lift (verify_package_at_rest env (disk nd) p n h) nd) ?act nd))"
  proof (cases "verify_package_at_rest env (disk nd) p n h")
    case (Inl e)
    then show ?thesis using nd by (simp add: handler_simps)
  next
    case (Inr u)
    then obtain bs where bs: "disk nd p = Some bs" "bytes_digest env bs \<in> D"
      using verified_digest assms(1) by (metis old.unit.exhaust)
    obtain r nd1 where stop: "stop_standalone_service w nd = (r, nd1)" by fastforce
    have nd1: "trusted_node env D nd1" "disk nd1 p = Some bs"
      using keepsD [OF keeps_service(1) nd stop] stop bs by (auto simp: stop_standalone_service_def split: sum.splits)
    obtain q nd2 where install: "install_standalone w y p nd1 = (q, nd2)" by fastforce
    have "trusted_node env D nd2" using trusted_install_step [OF nd1 bs(2), of w y] install by simp
    then have "trusted_node env D (snd (k nd2))" by (rule keeps_snd [OF assms(2)])
    then show ?thesis using Inr stop install nd1 \<open>trusted_node env D nd2\<close>
      by (simp add: h_then_def h_bind_def h_lift_def split: sum.split)
  qed
qed

lemma keeps_restored:
  "keeps_trust env D (\<lambda>nd. case restart_agent_service w nd of
          (Inl e, nd1) \<Rightarrow> h_then (persist_apply_status env y Failed Completed (m1 e)) (h_fail (m2 e)) nd1
        | (Inr _, nd1) \<Rightarrow> (case wait_for_health env w y k nd1 of
            (False, nd2) \<Rightarrow> h_then (persist_apply_status env y Failed Completed m3) (h_fail m4) (agent_connects env y n nd2)
          | (True, nd2) \<Rightarrow> h_then (h_modify (remove_file p)) (h_then (persist_apply_status env y st Completed m5)
              (if b then h_return () else h_fail m6)) nd2))"
proof (unfold keeps_def, intro allI impI)
  fix nd assume nd: "trusted_node env D nd"
  obtain r nd1 where r: "restart_agent_service w nd = (r, nd1)" by fastforce
  have nd1: "trusted_node env D nd1" by (rule keepsD [OF keeps_service(2) nd r])
  obtain b' nd2 where h: "wait_for_health env w y k nd1 = (b', nd2)" by fastforce
  have nd2: "trusted_node env D nd2" "trusted_node env D (agent_connects env y n nd2)"
    using trusted_wait [OF h nd1] trusted_connects by auto
  have *: "keeps_trust env D (h_then (persist_apply_status env y Failed Completed a) (h_fail c))"
    "keeps_trust env D (h_then (h_modify (remove_file p)) (h_then (persist_apply_status env y st Completed m5)
              (if b then h_return () else h_fail m6)))" for a c
    by (intro keeps_intros)+
  let ?after = "case restart_agent_service w nd of
          (Inl e, nd1) \<Rightarrow> h_then (persist_apply_status env y Failed Completed (m1 e)) (h_fail (m2 e)) nd1
        | (Inr _, nd1) \<Rightarrow> (case wait_for_health env w y k nd1 of
            (False, nd2) \<Rightarrow> h_then (persist_apply_status env y Failed Completed m3) (h_fail m4) (agent_connects env y n nd2)
          | (True, nd2) \<Rightarrow> h_then (h_modify (remove_file p)) (h_then (persist_apply_status env y st Completed m5)
              (if b then h_return () else h_fail m6)) nd2)"
  show "trusted_node env D (snd ?after)"
    unfolding r prod.case h
    using keeps_snd [OF *(1) nd1] keeps_snd [OF *(1) nd2(2)] keeps_snd [OF *(2) nd2(1)]
    by (cases r; cases b') simp_all
qed

lemma keeps_attempt_rollback:
  assumes "trusted_plan env D y"
  shows "keeps_trust env D (attempt_rollback env w y reason)"
proof (cases "y_previous y")
  case None
  have *: "keeps_trust env D (h_then (persist_apply_status env y Failed Completed m) (h_fail e :: unit node_action))" for m e
    by (intro keeps_intros)
  show ?thesis unfolding attempt_rollback_def None option.case keeps_def
    using keeps_snd [OF * keeps_snd [OF keeps_service(2)]] by (simp split: sum.split)
next
  case (Some k)
  then have "package_digest k \<in> D" using assms by (simp add: trusted_plan_def trusted_package_def)
  then have "(p_size_bytes k, to_ascii_lowercase (p_sha256 k)) \<in> D" by (simp add: package_digest_def)
  then show ?thesis unfolding attempt_rollback_def Some option.case eta_contract_eq
    by (intro keeps_intros keeps_verified_install keeps_restored)
qed

lemma keeps_target_installation:
  assumes "trusted_plan env D y"
  shows "keeps_trust env D (target_installation env w y)"
proof (unfold keeps_def, intro allI impI)
  fix nd assume nd: "trusted_node env D nd"
  let ?check = "try_bind (to_u64 (o_size_bytes (y_offer y))) (\<lambda>n.
       verify_package_at_rest env (disk nd) (y_package_path y) n (o_sha256 (y_offer y)))"
  show "trusted_node env D (snd (target_installation env w y nd))"
  proof (cases ?check)
    case (Inl e)
    then show ?thesis using nd by (simp add: target_installation_def handler_simps)
  next
    case (Inr u)
    then have "verify_package_at_rest env (disk nd) (y_package_path y) (o_size_bytes (y_offer y)) (o_sha256 (y_offer y)) = Inr ()"
      by (auto simp: try_bind_Inr_iff to_u64_def split: if_splits)
    from verified_digest [OF this] obtain bs where bs: "disk nd (y_package_path y) = Some bs"
        "bytes_digest env bs = offer_digest (y_offer y)" by (metis offer_digest_def)
    then have "bytes_digest env bs \<in> D" using assms by (simp add: trusted_plan_def)
    then show ?thesis using trusted_install_step [OF nd bs(1)] Inr
      by (simp add: target_installation_def h_then_def h_bind_def h_lift_def)
  qed
qed

lemma keeps_await_target:
  assumes "trusted_plan env D y"
  shows "keeps_trust env D (await_target env w y t)"
proof (unfold keeps_def, intro allI impI)
  fix nd assume nd: "trusted_node env D nd"
  obtain b nd1 where h: "wait_for_health env (w_target w) y (offer_marker (y_offer y)) nd = (b, nd1)" by fastforce
  have nd1: "trusted_node env D nd1" by (rule trusted_wait [OF h nd])
  show "trusted_node env D (snd (await_target env w y t nd))" unfolding await_target_def h
    using keeps_snd [OF keeps_complete [OF assms] nd1]
      keeps_snd [OF keeps_attempt_rollback [OF assms] trusted_connects [OF nd1]]
    by (cases b) simp_all
qed

lemma keeps_installation_phase:
  assumes "trusted_plan env D y"
  shows "keeps_trust env D (installation_phase env w y t)"
proof (unfold keeps_def, intro allI impI)
  fix nd assume nd: "trusted_node env D nd"
  obtain r nd1 where r: "target_installation env (w_target w) y nd = (r, nd1)" by fastforce
  have nd1: "trusted_node env D nd1" by (rule keepsD [OF keeps_target_installation [OF assms] nd r])
  have *: "keeps_trust env D (h_then (persist_apply_status env y AwaitingRestart TargetPhase None)
            (restart_agent_service (w_target w)))" by (intro keeps_intros)
  obtain q nd2 where q: "h_then (persist_apply_status env y AwaitingRestart TargetPhase None)
            (restart_agent_service (w_target w)) nd1 = (q, nd2)" by fastforce
  have nd2: "trusted_node env D nd2" by (rule keepsD [OF * nd1 q])
  show "trusted_node env D (snd (installation_phase env w y t nd))" unfolding installation_phase_def r prod.case q
    using keeps_snd [OF keeps_attempt_rollback [OF assms] nd1] keeps_snd [OF keeps_attempt_rollback [OF assms] nd2]
      keeps_snd [OF keeps_await_target [OF assms] nd2]
    by (cases r; cases q) simp_all
qed

lemma trusted_apply_update:
  assumes "trusted_plan env D y" "trusted_node env D nd"
  shows "trusted_node env D (snd (apply_update env w y nd))"
proof -
  have locked: "trusted_node env D (nd\<lparr>lock_owner := c\<rparr>)" for c using assms(2) by (simp add: trusted_node_def)
  have inner: "keeps_trust env D (h_then (check (plan_handoff_is_active y) ''parent did not activate the updater handoff'')
            (apply_update_inner env w y))"
    unfolding apply_update_inner_def by (intro keeps_intros keeps_installation_phase assms)
  obtain r nd1 where r: "h_then (check (plan_handoff_is_active y) ''parent did not activate the updater handoff'')
            (apply_update_inner env w y) (nd\<lparr>lock_owner := Some (y_lock_owner y)\<rparr>) = (r, nd1)" by fastforce
  have nd1: "trusted_node env D nd1" by (rule keepsD [OF inner locked r])
  have "trusted_node env D (snd (persist_apply_status env y Failed Completed m nd1))" for m
    by (rule keeps_snd [OF keeps_persist nd1])
  then show ?thesis unfolding apply_update_def r Let_def prod.case using nd1
    by (cases r) (simp_all add: trusted_node_def)
qed

subsection \<open>Every event keeps the trust\<close>

text \<open>The offers an agent takes are those that pass its checks; their digests are in \<open>D\<close>.\<close>

definition offers_vouched :: "('v, 'sig) agent_env \<Rightarrow> digest set \<Rightarrow> bool" where
  "offers_vouched env D \<longleftrightarrow>
     (\<forall>off t v. validate_offer (env\<lparr>clock := t, own_version := v\<rparr>) off \<noteq> Inr Standalone \<or> offer_digest off \<in> D) \<and>
     (\<forall>off t v q. validate_rollback_offer (env\<lparr>clock := t, own_version := v\<rparr>) off = Inr () \<longrightarrow> b_package off = Some q \<longrightarrow>
        (k_size_bytes q, to_ascii_lowercase (k_sha256 q)) \<in> D)"

lemma package_type_all: "(t :: package_type) = Standalone"
  by (cases t)

lemma trusted_running [simp]:
  "trusted_node (running env t nd) D = trusted_node env D" "env_ok (running env t nd) = env_ok env"
  by (simp_all add: running_def)

lemma vouched:
  assumes "offers_vouched env D"
  shows "validate_offer (running env t nd) off = Inr u \<Longrightarrow> offer_digest off \<in> D"
    "validate_rollback_offer (running env t nd) roff = Inr () \<Longrightarrow> b_package roff = Some q \<Longrightarrow>
       (k_size_bytes q, to_ascii_lowercase (k_sha256 q)) \<in> D"
  using assms unfolding offers_vouched_def running_def by (metis package_type_all)+

lemma trusted_launch:
  assumes "trusted_node env D (snd prepared)"
    and "\<And>off nd. prepared = (Inr (ReadyToApply off), nd) \<Longrightarrow> offer_digest off \<in> D"
  shows "trusted_node env D (launch_when_ready env r prepared)"
  using assms launch_trusted keeps_snd [OF keeps_draining(2) assms(1)]
  by (cases prepared) (auto simp: launch_when_ready_def split: sum.split prepare_result.split)

lemma trusted_step:
  assumes ok: "env_ok env" and v: "offers_vouched env D" and nd: "trusted_node env D nd"
  shows "trusted_node env D (agent_step env e nd)"
proof (cases e)
  case (AgentConnects t)
  then show ?thesis using nd keeps_snd [OF keeps_connected [of "running env t nd" D], of nd] by (simp add: agent_step_def)
next
  case (OfferArrives t tr r off)
  let ?env = "running env t nd"
  have p: "trusted_node ?env D (snd (prepare ?env tr off nd))"
    using keeps_snd [OF keeps_prepare [of ?env off D tr], of nd] ok nd vouched(1) [OF v] by simp
  have "offer_digest off' \<in> D" if "prepare ?env tr off nd = (Inr (ReadyToApply off'), nd')" for off' nd'
    using prepare_ready [OF that] vouched(1) [OF v] by (metis is_ok.elims(2))
  then have "trusted_node ?env D (launch_when_ready ?env r (prepare ?env tr off nd))" by (rule trusted_launch [OF p])
  then show ?thesis using nd OfferArrives by (simp add: agent_step_def handle_offer_def)
next
  case (RollbackArrives t tr r off)
  let ?env = "running env t nd"
  have p: "trusted_node ?env D (snd (prepare_rollback ?env tr off nd))"
    using keeps_snd [OF keeps_prepare_rollback [of ?env off D tr], of nd] ok nd vouched(2) [OF v] by simp
  have "offer_digest off' \<in> D" if "prepare_rollback ?env tr off nd = (Inr (ReadyToApply off'), nd')" for off' nd'
    by (rule prepare_rollback_ready [OF that]) (use nd vouched(2) [OF v] in auto)
  then have "trusted_node ?env D (launch_when_ready ?env r (prepare_rollback ?env tr off nd))" by (rule trusted_launch [OF p])
  then show ?thesis using nd RollbackArrives by (simp add: agent_step_def handle_rollback_offer_def)
next
  case (OfferInterrupted t tr off)
  let ?env = "running env t nd"
  have "trusted_node ?env D (snd (prepare_inner ?env tr off nd))" if "validate_offer ?env off = Inr u" for u
    using keeps_snd [OF keeps_prepare_inner [of ?env off D tr], of nd] ok nd vouched(1) [OF v that] by simp
  then show ?thesis using nd OfferInterrupted keeps_snd [OF keeps_draining(2)]
    by (auto simp: agent_step_def interrupt_offer_def elim!: is_ok.elims)
next
  case (RollbackInterrupted t tr off)
  let ?env = "running env t nd"
  have "trusted_node ?env D (snd (prepare_rollback_inner ?env tr off nd))"
    using keeps_snd [OF keeps_prepare_rollback_inner [of ?env off D tr], of nd] ok nd vouched(2) [OF v] by simp
  from keeps_snd [OF keeps_draining(2) this] show ?thesis using nd RollbackInterrupted
    by (simp add: agent_step_def interrupt_rollback_def)
next
  case (UpdaterRuns t w i)
  then show ?thesis using nd trusted_apply_update [of "env\<lparr>clock := t\<rparr>" D "plans nd ! i" nd w]
    by (auto simp: agent_step_def trusted_node_def trusted_plan_def list_all_length)
qed

end
