(* ===== verification/AgentOutcome.thy ===== *)
theory AgentOutcome
  imports AgentSession
begin

text \<open>
  What a run of the detached updater does to the attempt it was started for.  \<open>current_generation\<close> is
  kept by every step; \<open>settled\<close> says that the attempt is finished.
\<close>

subsection \<open>The attempt of a plan\<close>

lemma matches_refl [simp]: "offer_generation_matches off off"
  by (simp add: offer_generation_matches_def same_offer_attempt_def split: option.split)

definition settled_attempt :: "persisted_attempt \<Rightarrow> bool" where
  "settled_attempt x \<longleftrightarrow> x_phase x = Completed \<and> finished_status (x_status x)"

definition settled :: "apply_plan \<Rightarrow> node \<Rightarrow> bool" where
  "settled y nd \<longleftrightarrow> plan_is_current y nd \<and> (case attempt (state_file nd) of None \<Rightarrow> False | Some x \<Rightarrow> settled_attempt x)"

lemma final_statuses [simp]: "finished_status Succeeded" "finished_status RollbackSucceeded" "finished_status Failed"
  "finished_status (target_success_status q)" "finished_status (restored_previous_status q)"
  "\<not> finished_status Installing" "\<not> finished_status AwaitingRestart"
  by (simp_all add: finished_status_def target_success_status_def restored_previous_status_def split: attempt_operation.split)

lemma plan_is_current_state:
  "state_file nd' = state_file nd \<Longrightarrow> plan_is_current y nd' = plan_is_current y nd"
  "state_file nd' = state_file nd \<Longrightarrow> settled y nd' = settled y nd"
  by (simp_all add: plan_is_current_def settled_def)

text \<open>The offer of the attempt and the cached packages are not changed by a status.\<close>

lemma persist_state:
  assumes "persist_apply_status env y st ph m nd = (r, nd')"
  shows "r = Inr ()" "nd' = nd\<lparr>state_file := state_file nd'\<rparr>"
    "current_package (state_file nd') = current_package (state_file nd)"
    "rollback_baseline (state_file nd') = rollback_baseline (state_file nd)"
    "plan_is_current y' nd' = plan_is_current y' nd"
  using assms unfolding persist_apply_status_def h_modify_def plan_is_current_def
  by (auto split: option.splits if_splits)

lemma persist_settles:
  assumes "persist_apply_status env y st Completed m nd = (r, nd')" "plan_is_current y nd" "finished_status st"
  shows "settled y nd'"
  using assms unfolding persist_apply_status_def h_modify_def plan_is_current_def settled_def settled_attempt_def
  by (auto split: option.splits if_splits)

lemma remove_file_state [simp]:
  "state_file (remove_file p nd) = state_file nd" "service_up (remove_file p nd) = service_up nd"
  "health_file (remove_file p nd) = health_file nd" "plans (remove_file p nd) = plans nd"
  by (simp_all add: remove_file_def split: option.split)

lemma preserve_state:
  "preserve_baseline_for_legacy_updater env x nd = (r, nd') \<Longrightarrow> nd' = nd\<lparr>disk := disk nd'\<rparr>"
  unfolding preserve_baseline_for_legacy_updater_def Let_def
  by (auto split: option.splits if_splits sum.splits)

lemma rotate_result:
  assumes "rotate_successful_package_state env s x nd = (r, nd')"
  shows "nd' = nd\<lparr>disk := disk nd'\<rparr>" "r = Inr (s', stale) \<Longrightarrow>
    (\<exists>k b. cached_package_from_attempt x = Inr k \<and> s' = s\<lparr>current_package := Some k, rollback_baseline := b\<rparr>)"
  using assms preserve_state unfolding rotate_successful_package_state_def
  by (auto simp: h_bind_def h_lift_def h_return_def split: sum.splits prod.splits)

text \<open>A connection: nothing but the health marker, or the attempt is finished.\<close>

lemma connected_cases:
  assumes "connected_status env nd = (r, nd')"
  obtains (unchanged) "state_file nd' = state_file nd"
  | (finished) x x' where "attempt (state_file nd) = Some x" "x_phase x \<in> {TargetPhase, RollbackPhase}"
      "attempt (state_file nd') = Some x'" "x_offer x' = x_offer x" "settled_attempt x'"
      "x_status x' \<in> {target_success_status (x_operation x), restored_previous_status (x_operation x)}"
proof (cases "attempt (state_file nd)")
  case None
  then show ?thesis using assms unchanged by (simp add: connected_status_def)
next
  case (Some x)
  obtain st health m fin where o: "connection_outcome env x = (st, health, m, fin)" by (metis prod_cases4)
  have wh: "state_file (write_health env health nd) = state_file nd" by (simp add: write_health_def split: option.split)
  show ?thesis
  proof (cases fin)
    case False
    then show ?thesis using assms Some o wh unchanged by (simp add: connected_status_def)
  next
    case True
    have st: "(x_phase x = TargetPhase \<and> st = target_success_status (x_operation x))
        \<or> (x_phase x = RollbackPhase \<and> st = restored_previous_status (x_operation x))"
      using o True by (auto simp: connection_outcome_def Let_def split: attempt_phase.splits option.splits if_splits)
    obtain q nd2 where f: "finish_connection env (state_file nd) x st m (write_health env health nd) = (q, nd2)" by fastforce
    then have nd': "nd' = nd2" using assms Some o True by (auto simp: connected_status_def Let_def split: sum.splits)
    let ?rot = "if st = target_success_status (x_operation x) then rotate_successful_package_state env (state_file nd) x (write_health env health nd)
            else (Inr (state_file nd, None), write_health env health nd)"
    obtain p nd1 where rot: "?rot = (p, nd1)" by fastforce
    show ?thesis
    proof (cases p)
      case (Inl e)
      then have "nd1 = (write_health env health nd)\<lparr>disk := disk nd1\<rparr>"
        using rot rotate_result(1) by (auto split: if_splits)
      then have "state_file nd1 = state_file nd" using wh by (metis node.select_convs(1) node.surjective node.update_convs(4))
      then show ?thesis using f rot Inl nd' unchanged by (simp add: finish_connection_def)
    next
      case (Inr a)
      obtain s' stale where a: "a = (s', stale)" by fastforce
      have "attempt s' = Some x" using rot Inr a Some rotate_result(2) by (fastforce split: if_splits)
      then have "attempt (state_file nd') = Some (x\<lparr>x_status := st, x_message := m, x_phase := Completed, x_updated_at := clock env\<rparr>)"
        using f rot Inr a nd' by (auto simp: finish_connection_def Let_def)
      from finished [OF Some _ this] show ?thesis using st by (auto simp: settled_attempt_def)
    qed
  qed
qed

lemma connected_keeps_current:
  assumes "connected_status env nd = (r, nd')"
  shows "plan_is_current y nd' = plan_is_current y nd"
  using assms by (cases rule: connected_cases) (auto simp: plan_is_current_def)

text \<open>A connection that leaves the target in the cache has finished the attempt.\<close>

definition cached_only_when_settled :: "apply_plan \<Rightarrow> node \<Rightarrow> bool" where
  "cached_only_when_settled y nd \<longleftrightarrow> (target_already_cached y (state_file nd) \<longrightarrow> settled y nd)"

lemma settled_connection:
  assumes "connected_status env nd = (r, nd')" "settled y nd"
  shows "state_file nd' = state_file nd"
  using assms by (cases rule: connected_cases) (auto simp: settled_def settled_attempt_def)

lemma connected_keeps_cached:
  assumes "connected_status env nd = (r, nd')" "plan_is_current y nd" "cached_only_when_settled y nd"
  shows "cached_only_when_settled y nd'"
  using assms(1)
proof (cases rule: connected_cases)
  case unchanged
  then show ?thesis using assms(3) plan_is_current_state(2) [OF unchanged] by (simp add: cached_only_when_settled_def)
next
  case finished
  then have "settled y nd'" using connected_keeps_current [OF assms(1), of y] assms(2) by (simp add: settled_def)
  then show ?thesis by (simp add: cached_only_when_settled_def)
qed

lemma connects_induct:
  assumes "\<And>v nd r nd'. P nd \<Longrightarrow> connected_status (env\<lparr>own_version := v\<rparr>) nd = (r, nd') \<Longrightarrow> P nd'" "P nd"
  shows "P (agent_connects env y n nd)"
proof -
  have step: "P (snd (connected_status (env\<lparr>own_version := v\<rparr>) nd))" if "P nd" for v nd
    using assms(1) [OF that, of v] by (cases "connected_status (env\<lparr>own_version := v\<rparr>) nd") simp
  have "P (((\<lambda>nd. snd (connected_status (env\<lparr>own_version := v\<rparr>) nd)) ^^ n) nd)" for v
    by (induction n) (use assms(2) step in auto)
  then show ?thesis using assms(2) by (simp add: agent_connects_def split: option.split)
qed

lemma connects_keep_current:
  assumes "plan_is_current y nd"
  shows "plan_is_current y (agent_connects env y' n nd)"
  by (rule connects_induct [where P = "plan_is_current y"]) (use assms connected_keeps_current in blast)+

lemma connects_keep_cached:
  assumes "plan_is_current y nd" "cached_only_when_settled y nd"
  shows "cached_only_when_settled y (agent_connects env y' n nd)"
proof -
  have "plan_is_current y (agent_connects env y' n nd) \<and> cached_only_when_settled y (agent_connects env y' n nd)"
    by (rule connects_induct [where P = "\<lambda>nd. plan_is_current y nd \<and> cached_only_when_settled y nd"])
      (use assms connected_keeps_current connected_keeps_cached in blast)+
  then show ?thesis ..
qed

subsection \<open>An updater settles its attempt\<close>

lemma keeps_current_state:
  assumes "\<And>nd. state_file (snd (m nd)) = state_file nd"
  shows "keeps (plan_is_current y) m"
  using assms by (simp add: keeps_def plan_is_current_def)

lemma service_state [simp]:
  "state_file (snd (stop_standalone_service w nd)) = state_file nd"
  "state_file (snd (restart_agent_service w nd)) = state_file nd"
  "state_file (snd (install_standalone w y p nd)) = state_file nd"
  "state_file (snd (remove_health nd)) = state_file nd"
  "state_file (snd (check q e nd)) = state_file nd"
  by (simp_all add: stop_standalone_service_def restart_agent_service_def install_standalone_def remove_health_def
      check_def h_modify_def split: sum.split option.split)

lemma keeps_persist_current [keeps_intros]: "keeps (plan_is_current y) (persist_apply_status env y' st ph m)"
  unfolding keeps_def
proof (intro allI impI)
  fix nd assume "plan_is_current y nd"
  then show "plan_is_current y (snd (persist_apply_status env y' st ph m nd))"
    using persist_state(5) [of env y' st ph m nd] by (metis prod.collapse)
qed

lemma keeps_current [keeps_intros]:
  "keeps (plan_is_current y) (stop_standalone_service w)" "keeps (plan_is_current y) (restart_agent_service w)"
  "keeps (plan_is_current y) (install_standalone w y' p)" "keeps (plan_is_current y) remove_health"
  "keeps (plan_is_current y) (h_modify (remove_file q))"
  by (rule keeps_current_state, simp add: h_modify_def)+

lemma keeps_current_lift [keeps_intros]: "keeps P (\<lambda>nd. h_lift (r nd) nd)"
  by (simp add: keeps_def h_lift_def)

lemma keeps_current_installation: "keeps (plan_is_current y) (target_installation env w y')"
  unfolding target_installation_def keeps_def
  by (auto simp: h_then_def h_bind_def h_lift_def plan_is_current_def split: sum.split)

lemma wait_keeps_current:
  "wait_for_health env w y m nd = (b, nd') \<Longrightarrow> plan_is_current y nd \<Longrightarrow> plan_is_current y nd'"
  "wait_for_health env w y m nd = (b, nd') \<Longrightarrow> plan_is_current y nd \<Longrightarrow> cached_only_when_settled y nd \<Longrightarrow>
     cached_only_when_settled y nd'"
  by (auto simp: wait_for_health_def Let_def connects_keep_current connects_keep_cached)

lemma complete_settles:
  assumes "complete_target_update env y t nd = (r, nd')" "plan_is_current y nd" "cached_only_when_settled y nd"
  shows "plan_is_current y nd'" "r = Inr () \<Longrightarrow> settled y nd'"
  using assms unfolding complete_target_update_def Let_def cached_only_when_settled_def plan_is_current_def settled_def
    settled_attempt_def completed_target_def
  by (auto split: if_splits option.splits sum.splits)

text \<open>\<open>ends_settled\<close>: an action that returns normally has finished the attempt; on errors it stays current.\<close>

definition ends_settled :: "apply_plan \<Rightarrow> unit node_action \<Rightarrow> bool" where
  "ends_settled y m \<longleftrightarrow> (\<forall>nd. plan_is_current y nd \<longrightarrow>
     plan_is_current y (snd (m nd)) \<and> (fst (m nd) = Inr () \<longrightarrow> settled y (snd (m nd))))"

lemma endsD:
  assumes "ends_settled y m" "plan_is_current y nd"
  shows "plan_is_current y (snd (m nd)) \<and> (fst (m nd) = Inr () \<longrightarrow> settled y (snd (m nd)))"
  using assms unfolding ends_settled_def by blast

lemma ends_then:
  assumes "keeps (plan_is_current y) m" "ends_settled y k"
  shows "ends_settled y (h_then m k)"
  unfolding ends_settled_def
proof (intro allI impI)
  fix nd assume cur: "plan_is_current y nd"
  obtain r nd1 where m: "m nd = (r, nd1)" by fastforce
  have nd1: "plan_is_current y nd1" by (rule keepsD [OF assms(1) cur m])
  show "plan_is_current y (snd (h_then m k nd)) \<and> (fst (h_then m k nd) = Inr () \<longrightarrow> settled y (snd (h_then m k nd)))"
    using endsD [OF assms(2) nd1] m nd1 by (cases r) (simp_all add: h_then_def h_bind_def)
qed

lemma ends_fail: "keeps (plan_is_current y) m \<Longrightarrow> ends_settled y (h_then m (h_fail e))"
  by (rule ends_then) (simp_all add: ends_settled_def h_fail_def)

lemma ends_persist:
  assumes "finished_status st"
  shows "ends_settled y (h_then (persist_apply_status env y st Completed m) (if b then h_return () else h_fail e))"
  unfolding ends_settled_def
proof (intro allI impI)
  fix nd assume cur: "plan_is_current y nd"
  let ?m = "h_then (persist_apply_status env y st Completed m) (if b then h_return () else h_fail e)"
  obtain q nd1 where p: "persist_apply_status env y st Completed m nd = (q, nd1)" by fastforce
  have "settled y nd1" by (rule persist_settles [OF p cur assms])
  moreover have "snd (?m nd) = nd1" using p persist_state(1) [OF p]
    by (simp add: h_then_def h_bind_def h_return_def h_fail_def)
  ultimately show "plan_is_current y (snd (?m nd)) \<and> (fst (?m nd) = Inr () \<longrightarrow> settled y (snd (?m nd)))"
    by (simp add: settled_def)
qed

lemma ends_restored:
  "ends_settled y (\<lambda>nd. case restart_agent_service w nd of
          (Inl e, nd1) \<Rightarrow> h_then (persist_apply_status env y Failed Completed (m1 e)) (h_fail (m2 e)) nd1
        | (Inr _, nd1) \<Rightarrow> (case wait_for_health env w y k nd1 of
            (False, nd2) \<Rightarrow> h_then (persist_apply_status env y Failed Completed m3) (h_fail m4) (agent_connects env y n nd2)
          | (True, nd2) \<Rightarrow> h_then (h_modify (remove_file p)) (h_then (persist_apply_status env y (restored_previous_status q) Completed m5)
              (if b then h_return () else h_fail m6)) nd2))" (is "ends_settled y ?m")
  unfolding ends_settled_def
proof (intro allI impI)
  fix nd assume cur: "plan_is_current y nd"
  obtain r1 nd1 where r: "restart_agent_service w nd = (r1, nd1)" by fastforce
  have nd1: "plan_is_current y nd1" by (rule keepsD [OF keeps_current(2) cur r])
  obtain b' nd2 where h: "wait_for_health env w y k nd1 = (b', nd2)" by fastforce
  have nd2: "plan_is_current y nd2" "plan_is_current y (agent_connects env y n nd2)"
    using wait_keeps_current(1) [OF h nd1] connects_keep_current by auto
  have failing: "ends_settled y (h_then (persist_apply_status env y Failed Completed a) (h_fail c))" for a c
    by (intro ends_fail keeps_intros)
  have ending: "ends_settled y (h_then (h_modify (remove_file p)) (h_then (persist_apply_status env y (restored_previous_status q) Completed m5)
              (if b then h_return () else h_fail m6)))"
    by (intro ends_then ends_persist keeps_intros) simp
  show "plan_is_current y (snd (?m nd)) \<and> (fst (?m nd) = Inr () \<longrightarrow> settled y (snd (?m nd)))"
  proof (cases r1)
    case (Inl e)
    then show ?thesis using endsD [OF failing nd1] unfolding r by simp
  next
    case (Inr u)
    then show ?thesis using endsD [OF failing nd2(2)] endsD [OF ending nd2(1)] unfolding r prod.case h
      by (cases b') simp_all
  qed
qed

lemma ends_attempt_rollback: "ends_settled y (attempt_rollback env w y reason)"
proof (cases "y_previous y")
  case None
  have failing: "ends_settled y (h_then (persist_apply_status env y Failed Completed a) (h_fail c))" for a c
    by (intro ends_fail keeps_intros)
  have "plan_is_current y (snd (restart_agent_service w nd))" if "plan_is_current y nd" for nd
    by (rule keeps_snd [OF keeps_current(2) that])
  from endsD [OF failing this] show ?thesis unfolding attempt_rollback_def None option.case ends_settled_def
    by (simp split: sum.splits)
next
  case (Some k)
  then show ?thesis unfolding attempt_rollback_def Some option.case eta_contract_eq
    by (intro ends_then ends_restored keeps_intros)
qed

text \<open>Until the target runs, it is not in the cache; from then on it is only when the attempt is finished.\<close>

definition uncached :: "apply_plan \<Rightarrow> node \<Rightarrow> bool" where
  "uncached y nd \<longleftrightarrow> plan_is_current y nd \<and> \<not> target_already_cached y (state_file nd)"

lemma uncached_current: "uncached y nd \<Longrightarrow> plan_is_current y nd \<and> cached_only_when_settled y nd"
  by (simp add: uncached_def cached_only_when_settled_def)

lemma keeps_uncached_state: "(\<And>nd. state_file (snd (m nd)) = state_file nd) \<Longrightarrow> keeps (uncached y) m"
  by (simp add: keeps_def uncached_def plan_is_current_def)

lemma keeps_uncached [keeps_intros]:
  "keeps (uncached y) (stop_standalone_service w)" "keeps (uncached y) (restart_agent_service w)"
  "keeps (uncached y) remove_health" "keeps (uncached y) (h_guard b e)"
  by (rule keeps_uncached_state, simp add: h_guard_def h_return_def h_fail_def)+

lemma keeps_uncached_persist [keeps_intros]: "keeps (uncached y) (persist_apply_status env y' st ph m)"
  unfolding keeps_def
proof (intro allI impI)
  fix nd assume "uncached y nd"
  then show "uncached y (snd (persist_apply_status env y' st ph m nd))"
    using persist_state(3,5) [of env y' st ph m nd] unfolding uncached_def target_already_cached_def
    by (metis prod.collapse)
qed

definition ends_from_uncached :: "apply_plan \<Rightarrow> unit node_action \<Rightarrow> bool" where
  "ends_from_uncached y m \<longleftrightarrow> (\<forall>nd. uncached y nd \<longrightarrow>
     plan_is_current y (snd (m nd)) \<and> (fst (m nd) = Inr () \<longrightarrow> settled y (snd (m nd))))"

lemma ends_uncachedD:
  assumes "ends_from_uncached y m" "uncached y nd"
  shows "plan_is_current y (snd (m nd)) \<and> (fst (m nd) = Inr () \<longrightarrow> settled y (snd (m nd)))"
  using assms unfolding ends_from_uncached_def by blast

lemma ends_uncached_bind:
  assumes "keeps (uncached y) m" "\<And>x. ends_from_uncached y (k x)"
  shows "ends_from_uncached y (h_bind m k)"
  unfolding ends_from_uncached_def
proof (intro allI impI)
  fix nd assume un: "uncached y nd"
  obtain r nd1 where m: "m nd = (r, nd1)" by fastforce
  have nd1: "uncached y nd1" by (rule keepsD [OF assms(1) un m])
  show "plan_is_current y (snd (h_bind m k nd)) \<and> (fst (h_bind m k nd) = Inr () \<longrightarrow> settled y (snd (h_bind m k nd)))"
    using ends_uncachedD [OF assms(2) nd1] m uncached_current [OF nd1] by (cases r) (simp_all add: h_bind_def)
qed

lemma ends_uncached_then:
  "keeps (uncached y) m \<Longrightarrow> ends_from_uncached y k \<Longrightarrow> ends_from_uncached y (h_then m k)"
  unfolding h_then_def by (rule ends_uncached_bind)

lemma ends_await_target: "ends_from_uncached y (await_target env w y t)"
  unfolding ends_from_uncached_def
proof (intro allI impI)
  fix nd assume un: "uncached y nd"
  obtain b nd1 where h: "wait_for_health env (w_target w) y (offer_marker (y_offer y)) nd = (b, nd1)" by fastforce
  have nd1: "plan_is_current y nd1" "cached_only_when_settled y nd1"
    using wait_keeps_current [OF h] uncached_current [OF un] by auto
  have late: "plan_is_current y (agent_connects env y (w_late (w_target w)) nd1)" by (rule connects_keep_current [OF nd1(1)])
  show "plan_is_current y (snd (await_target env w y t nd))
      \<and> (fst (await_target env w y t nd) = Inr () \<longrightarrow> settled y (snd (await_target env w y t nd)))"
  proof (cases b)
    case True
    obtain r nd2 where c: "complete_target_update env y t nd1 = (r, nd2)" by fastforce
    show ?thesis using complete_settles [OF c nd1] True h c by (simp add: await_target_def)
  next
    case False
    then show ?thesis using endsD [OF ends_attempt_rollback late] h by (simp add: await_target_def)
  qed
qed

lemma target_installation_state: "state_file (snd (target_installation env w y nd)) = state_file nd"
  by (simp add: target_installation_def h_then_def h_bind_def h_lift_def split: sum.split)

lemma ends_installation_phase: "ends_from_uncached y (installation_phase env w y t)"
  unfolding ends_from_uncached_def
proof (intro allI impI)
  fix nd assume un: "uncached y nd"
  obtain r nd1 where r: "target_installation env (w_target w) y nd = (r, nd1)" by fastforce
  have nd1: "uncached y nd1" using un target_installation_state [of env "w_target w" y nd] r
    by (simp add: uncached_def plan_is_current_def)
  let ?restart = "h_then (persist_apply_status env y AwaitingRestart TargetPhase None) (restart_agent_service (w_target w))"
  have *: "keeps (uncached y) ?restart" by (intro keeps_intros)
  obtain q nd2 where q: "?restart nd1 = (q, nd2)" by fastforce
  have nd2: "uncached y nd2" by (rule keepsD [OF * nd1 q])
  show "plan_is_current y (snd (installation_phase env w y t nd))
      \<and> (fst (installation_phase env w y t nd) = Inr () \<longrightarrow> settled y (snd (installation_phase env w y t nd)))"
  proof (cases r)
    case (Inl e)
    show ?thesis unfolding installation_phase_def r prod.case Inl sum.case
      by (rule endsD [OF ends_attempt_rollback]) (use uncached_current [OF nd1] in blast)
  next
    case Inr1: (Inr u)
    show ?thesis
    proof (cases q)
      case (Inl e)
      show ?thesis unfolding installation_phase_def r prod.case Inr1 sum.case q Inl
        by (rule endsD [OF ends_attempt_rollback]) (use uncached_current [OF nd2] in blast)
    next
      case (Inr v)
      show ?thesis unfolding installation_phase_def r prod.case Inr1 sum.case q Inr
        by (rule ends_uncachedD [OF ends_await_target nd2])
    qed
  qed
qed

lemma ends_apply_inner: "ends_from_uncached y (apply_update_inner env w y)"
  unfolding apply_update_inner_def
  by (intro ends_uncached_then ends_uncached_bind ends_installation_phase keeps_intros)

lemma handoff_current: "plan_handoff_is_active y nd \<Longrightarrow> plan_is_current y nd"
  by (auto simp: plan_handoff_is_active_def plan_is_current_def split: option.splits)

lemma lock_irrelevant [simp]:
  "settled y (nd\<lparr>lock_owner := c\<rparr>) = settled y nd" "plan_is_current y (nd\<lparr>lock_owner := c\<rparr>) = plan_is_current y nd"
  by (simp_all add: settled_def plan_is_current_def)

lemma update_settles:
  assumes "plan_handoff_is_active y nd" "\<not> target_already_cached y (state_file nd)"
  shows "settled y (snd (apply_update env w y nd)) \<and> lock_owner (snd (apply_update env w y nd)) = None"
proof -
  let ?m = "h_then (check (plan_handoff_is_active y) ''parent did not activate the updater handoff'') (apply_update_inner env w y)"
  let ?nd = "nd\<lparr>lock_owner := Some (y_lock_owner y)\<rparr>"
  have un: "uncached y ?nd" using assms handoff_current [OF assms(1)] by (simp add: uncached_def plan_is_current_def)
  have "ends_from_uncached y ?m" by (intro ends_uncached_then ends_apply_inner keeps_intros)
  then have *: "plan_is_current y (snd (?m ?nd)) \<and> (fst (?m ?nd) = Inr () \<longrightarrow> settled y (snd (?m ?nd)))"
    using un by (rule ends_uncachedD)
  obtain r nd1 where r: "?m ?nd = (r, nd1)" by fastforce
  have nd1: "plan_is_current y nd1" "fst (r, nd1) = Inr () \<longrightarrow> settled y nd1" using * unfolding r by simp_all
  show ?thesis
  proof (cases r)
    case (Inl e)
    let ?p = "persist_apply_status env y Failed Completed (Some (''updater failed: '' @ e)) nd1"
    have "settled y (snd ?p)" by (rule persist_settles [OF prod.collapse [symmetric] nd1(1) final_statuses(3)])
    then show ?thesis unfolding apply_update_def r Let_def prod.case Inl sum.case by simp
  next
    case (Inr u)
    then show ?thesis using nd1(2) unfolding apply_update_def r Let_def prod.case Inr by simp
  qed
qed

text \<open>A plan that is no longer the node's attempt does nothing.\<close>

lemma stale_plan_is_inert:
  assumes "\<not> plan_is_current y nd" "lock_owner nd = None"
  shows "apply_update env w y nd = (Inl ''parent did not activate the updater handoff'', nd)"
proof -
  have "\<not> plan_handoff_is_active y nd" using assms(1) handoff_current by blast
  then show ?thesis using assms
    by (auto simp: apply_update_def h_then_def h_bind_def check_def plan_handoff_is_active_def plan_is_current_def
        persist_apply_status_def h_modify_def split: option.splits)
qed

subsection \<open>Following a run\<close>

text \<open>
  \<open>progress\<close>: the attempt \<open>x\<close> has reached a status and a phase; current package \<open>c\<close>, disk \<open>d\<close>, service \<open>u\<close>.
\<close>

definition same_work :: "persisted_attempt \<Rightarrow> persisted_attempt \<Rightarrow> bool" where
  "same_work x z \<longleftrightarrow> x_offer z = x_offer x \<and> x_operation z = x_operation x \<and> x_previous z = x_previous x
     \<and> x_package_path z = x_package_path x \<and> x_manual z = x_manual x"

definition progress ::
  "persisted_attempt \<Rightarrow> update_status \<Rightarrow> attempt_phase \<Rightarrow> cached_package option \<Rightarrow> (path \<Rightarrow> bytes option) \<Rightarrow> bool \<Rightarrow> node \<Rightarrow> bool"
where
  "progress x st ph c d u nd \<longleftrightarrow> (\<exists>z. attempt (state_file nd) = Some z \<and> same_work x z \<and> x_status z = st \<and> x_phase z = ph)
     \<and> current_package (state_file nd) = c \<and> disk nd = d \<and> service_up nd = u"

lemma progress_start:
  "attempt (state_file nd) = Some x \<Longrightarrow> progress x (x_status x) (x_phase x) (current_package (state_file nd)) (disk nd) (service_up nd) nd"
  by (simp add: progress_def same_work_def)

lemma progress_persist:
  assumes "progress x st0 ph0 c d u nd" "offer_generation_matches (x_offer x) (y_offer y)" "ph0 \<noteq> Completed"
  shows "\<exists>nd'. persist_apply_status env y st ph m nd = (Inr (), nd') \<and> progress x st ph c d u nd' \<and> health_file nd' = health_file nd"
  using assms unfolding progress_def persist_apply_status_def h_modify_def finalized_for_same_phase_def same_work_def
  by (auto split: if_splits)

lemma progress_persist_same:
  assumes "progress x st Completed c d u nd" "finished_status st"
  shows "persist_apply_status env y st Completed m nd = (Inr (), nd)"
  using assms unfolding progress_def persist_apply_status_def h_modify_def by auto

lemma progress_state:
  "progress x st ph c d u nd \<Longrightarrow> disk nd = d \<and> service_up nd = u \<and> current_package (state_file nd) = c"
  by (simp add: progress_def)

lemma progress_update:
  "progress x st ph c d u nd \<Longrightarrow> progress x st ph c d u (nd\<lparr>health_file := h\<rparr>)"
  "progress x st ph c d u nd \<Longrightarrow> progress x st ph c d' u (nd\<lparr>disk := d'\<rparr>)"
  "progress x st ph c d u nd \<Longrightarrow> progress x st ph c d u' (nd\<lparr>service_up := u'\<rparr>)"
  "progress x st ph c d u nd \<Longrightarrow> progress x st ph c d u (nd\<lparr>lock_owner := l\<rparr>)"
  by (simp_all add: progress_def)

lemma restored_not_target: "restored_previous_status q \<noteq> target_success_status q"
  by (simp add: restored_previous_status_def target_success_status_def split: attempt_operation.split)

text \<open>The restored agent connects: it finishes the attempt and writes the marker the updater waits for.\<close>

lemma restored_connects:
  assumes p: "progress x AwaitingRestart RollbackPhase c d u nd" and k: "x_previous x = Some k" "own_version env = p_version k"
  shows "progress x (restored_previous_status (x_operation x)) Completed c d u (snd (connected_status env nd))
    \<and> health_matches (package_marker k) (snd (connected_status env nd))"
proof -
  obtain z where z: "attempt (state_file nd) = Some z" "same_work x z" "x_status z = AwaitingRestart" "x_phase z = RollbackPhase"
    using p by (auto simp: progress_def)
  show ?thesis using p k z restored_not_target
    by (simp add: connected_status_def connection_outcome_def finish_connection_def write_health_def package_marker_def
        health_matches_def remove_file_def progress_def same_work_def Let_def)
qed

lemma restored_stays:
  assumes p: "progress x (restored_previous_status (x_operation x)) Completed c d u nd"
    and k: "x_previous x = Some k" "own_version env = p_version k" and h: "health_matches (package_marker k) nd"
  shows "progress x (restored_previous_status (x_operation x)) Completed c d u (snd (connected_status env nd))
    \<and> health_matches (package_marker k) (snd (connected_status env nd))"
proof -
  obtain z where z: "attempt (state_file nd) = Some z" "same_work x z" "x_status z = restored_previous_status (x_operation x)"
      "x_phase z = Completed" using p by (auto simp: progress_def)
  show ?thesis using p k z h
    by (cases "x_operation x") (simp_all add: connected_status_def connection_outcome_def write_health_def package_marker_def
        health_matches_def progress_def same_work_def Let_def restored_previous_status_def)
qed

lemma restored_agent_connects:
  assumes p: "progress x AwaitingRestart RollbackPhase c d True nd" and k: "x_previous x = Some k"
    and bs: "y_installed y = Some e" "d e = Some bs" "exe_version env bs = p_version k" and n: "n > 0"
  shows "progress x (restored_previous_status (x_operation x)) Completed c d True (agent_connects env y n nd)
    \<and> health_matches (package_marker k) (agent_connects env y n nd)"
proof -
  let ?env = "env\<lparr>own_version := exe_version env bs\<rparr>"
  let ?f = "\<lambda>nd. snd (connected_status ?env nd)"
  have v: "own_version ?env = p_version k" using bs(3) by simp
  have "progress x (restored_previous_status (x_operation x)) Completed c d True ((?f ^^ Suc n) nd)
    \<and> health_matches (package_marker k) ((?f ^^ Suc n) nd)" for n
  proof (induction n)
    case 0
    then show ?case using restored_connects [OF p k v] by simp
  next
    case (Suc n)
    have "(?f ^^ Suc (Suc n)) nd = ?f ((?f ^^ Suc n) nd)" by simp
    then show ?case using restored_stays [OF conjunct1 [OF Suc] k v conjunct2 [OF Suc]] by metis
  qed
  moreover obtain n' where "n = Suc n'" using n by (cases n) auto
  moreover have "agent_connects env y n nd = (?f ^^ n) nd"
    using p bs by (simp add: agent_connects_def installed_bytes_def progress_def)
  ultimately show ?thesis by metis
qed

text \<open>Restoring the previous package, when the operating system does what it is asked.\<close>

lemma restore_succeeds:
  assumes p: "progress x st TargetPhase c d u nd" and m: "offer_generation_matches (x_offer x) (y_offer y)"
    and k: "y_previous y = Some k" "x_previous x = Some k" "y_operation y = x_operation x"
    and e: "y_installed y = Some e" "y_package_path y \<noteq> e"
    and v: "verify_package_at_rest env d (p_path k) (p_size_bytes k) (p_sha256 k) = Inr ()"
    and bs: "d (p_path k) = Some bs" "exe_version env bs = p_version k"
    and w: "w_stop w = Inr b" "w_install w = Inr ()" "w_restart w = Inr ()" "w_connects w > 0"
    and run: "attempt_rollback env w y reason nd = (r, nd')"
  shows "(r = Inr () \<longleftrightarrow> x_operation x = UpgradeOperation) \<and> progress x (restored_previous_status (x_operation x)) Completed c
      (d(e := Some bs, y_package_path y := None)) True nd'"
proof -
  let ?st = "restored_previous_status (x_operation x)"
  obtain nd1 where p1: "persist_apply_status env y Installing RollbackPhase (Some reason) (nd\<lparr>health_file := None\<rparr>) = (Inr (), nd1)"
      "progress x Installing RollbackPhase c d u nd1"
    using progress_persist [OF progress_update(1) [OF p] m] by blast
  let ?nd2 = "nd1\<lparr>service_up := (service_up nd1 \<and> \<not> b)\<rparr>"
  let ?nd3 = "?nd2\<lparr>disk := d(e := Some bs)\<rparr>"
  have p3: "progress x Installing RollbackPhase c (d(e := Some bs)) (service_up nd1 \<and> \<not> b) ?nd3"
    by (rule progress_update(2) [OF progress_update(3) [OF p1(2)]])
  obtain nd4 where p4: "persist_apply_status env y AwaitingRestart RollbackPhase (Some reason) ?nd3 = (Inr (), nd4)"
      "progress x AwaitingRestart RollbackPhase c (d(e := Some bs)) (service_up nd1 \<and> \<not> b) nd4"
    using progress_persist [OF p3 m] by blast
  let ?nd5 = "nd4\<lparr>service_up := True\<rparr>"
  let ?nd6 = "agent_connects env y (w_connects w) ?nd5"
  have p6: "progress x ?st Completed c (d(e := Some bs)) True ?nd6" "health_matches (package_marker k) ?nd6"
    using restored_agent_connects [OF progress_update(3) [OF p4(2)] k(2) e(1) _ bs(2) w(4)] by auto
  let ?nd7 = "?nd6\<lparr>disk := d(e := Some bs, y_package_path y := None)\<rparr>"
  have p7: "progress x ?st Completed c (d(e := Some bs, y_package_path y := None)) True ?nd7"
    by (rule progress_update(2) [OF p6(1)])
  have nd7: "remove_file (Some (y_package_path y)) ?nd6 = ?nd7"
    using progress_state [OF p6(1)] by (simp add: remove_file_def)
  have same: "persist_apply_status env y ?st Completed m' ?nd7 = (Inr (), ?nd7)" for m'
    by (rule progress_persist_same [OF p7]) simp
  have "attempt_rollback env w y reason nd =
      (if x_operation x = UpgradeOperation then h_return () else h_fail ''rollback target failed and the previous agent was restored'') ?nd7"
    using k e v bs w p1(1) p4(1) p6(2) progress_state [OF p1(2)] nd7 same
    by (simp add: attempt_rollback_def h_then_def h_bind_def remove_health_def h_modify_def h_lift_def
        stop_standalone_service_def install_standalone_def restart_agent_service_def wait_for_health_def Let_def)
  then show ?thesis using run p7 by (auto simp: h_return_def h_fail_def split: if_splits)
qed

text \<open>The way to a restoration: the target is installed or not, but never connects.\<close>

definition restorable ::
  "('v, 'sig) agent_env \<Rightarrow> apply_plan \<Rightarrow> persisted_attempt \<Rightarrow> cached_package \<Rightarrow> path \<Rightarrow> bytes \<Rightarrow> node \<Rightarrow> bool" where
  "restorable env y x k e bs nd \<longleftrightarrow> attempt (state_file nd) = Some x \<and> plan_handoff_is_active y nd
     \<and> y_previous y = Some k \<and> x_previous x = Some k \<and> y_operation y = x_operation x
     \<and> y_installed y = Some e \<and> y_package_path y \<noteq> e \<and> p_path k \<noteq> e
     \<and> verify_package_at_rest env (disk nd) (p_path k) (p_size_bytes k) (p_sha256 k) = Inr ()
     \<and> disk nd (p_path k) = Some bs \<and> exe_version env bs = p_version k"

lemma verify_same_file: "d p = d' p \<Longrightarrow> verify_package_at_rest env d p n h = verify_package_at_rest env d' p n h"
  by (simp add: verify_package_at_rest_def)

lemma no_connection [simp]: "agent_connects env y 0 nd = nd"
  by (simp add: agent_connects_def split: option.split)

lemma failing_target_reaches_restore:
  assumes r: "restorable env y x k e bs nd" and t: "parse_package_type (o_package_type (y_offer y)) = Inr t"
    and w: "w_stop (w_target w) = Inr b" "w_exits w" "w_connects (w_target w) = 0" "w_late (w_target w) = 0"
  obtains reason nd1 d st u where "apply_update_inner env w y nd = attempt_rollback env (w_restore w) y reason nd1"
    "progress x st TargetPhase (current_package (state_file nd)) d u nd1" "\<forall>p. p \<noteq> e \<longrightarrow> d p = disk nd p"
proof -
  let ?c = "current_package (state_file nd)"
  have m: "offer_generation_matches (x_offer x) (y_offer y)" and ph: "x_phase x = TargetPhase"
    and st: "x_status x \<in> {Installing, AwaitingRestart}" and e: "y_installed y = Some e"
    using r by (auto simp: restorable_def plan_handoff_is_active_def)
  let ?nd1 = "nd\<lparr>service_up := (service_up nd \<and> \<not> b)\<rparr>"
  have p0: "progress x (x_status x) TargetPhase ?c (disk nd) (service_up nd) nd"
    using progress_start [of nd x] r ph by (simp add: restorable_def)
  obtain nd2 where p2: "persist_apply_status env y Installing TargetPhase None (?nd1\<lparr>health_file := None\<rparr>) = (Inr (), nd2)"
      "progress x Installing TargetPhase ?c (disk nd) (service_up nd \<and> \<not> b) nd2" "health_file nd2 = None"
    using progress_persist [OF progress_update(1) [OF progress_update(3) [OF p0]] m] by force
  have inner: "apply_update_inner env w y nd = installation_phase env w y t nd2"
    using r t w(1,2) p2(1) handoff_current [of y nd] m ph st
    by (simp add: apply_update_inner_def h_then_def h_bind_def check_def h_lift_def h_guard_def h_return_def
        stop_standalone_service_def remove_health_def h_modify_def restorable_def plan_is_current_def plan_handoff_is_active_def)
  obtain q nd3 where q: "target_installation env (w_target w) y nd2 = (q, nd3)" by fastforce
  obtain d where d: "nd3 = nd2\<lparr>disk := d\<rparr>" "\<forall>p. p \<noteq> e \<longrightarrow> d p = disk nd p"
  proof -
    have "nd3 = nd2\<lparr>disk := disk nd3\<rparr> \<and> (\<forall>p. p \<noteq> e \<longrightarrow> disk nd3 p = disk nd2 p)"
      using q e by (auto simp: target_installation_def install_standalone_def h_then_def h_bind_def h_lift_def
          split: sum.splits option.splits)
    then show ?thesis using that progress_state [OF p2(2)] by metis
  qed
  have p3: "progress x Installing TargetPhase ?c d (service_up nd \<and> \<not> b) nd3" unfolding d(1) by (rule progress_update(2) [OF p2(2)])
  show ?thesis
  proof (cases q)
    case (Inl err)
    then show ?thesis using inner q that [OF _ p3 d(2)] by (simp add: installation_phase_def)
  next
    case (Inr u)
    obtain nd4 where p4: "persist_apply_status env y AwaitingRestart TargetPhase None nd3 = (Inr (), nd4)"
        "progress x AwaitingRestart TargetPhase ?c d (service_up nd \<and> \<not> b) nd4" "health_file nd4 = health_file nd3"
      using progress_persist [OF p3 m] by blast
    show ?thesis
    proof (cases "w_restart (w_target w)")
      case (Inl err)
      then show ?thesis using inner q Inr p4(1) that [OF _ p4(2) d(2)]
        by (simp add: installation_phase_def h_then_def h_bind_def restart_agent_service_def)
    next
      case restarted: (Inr v)
      let ?nd5 = "nd4\<lparr>service_up := True\<rparr>"
      have "\<not> health_matches (offer_marker (y_offer y)) ?nd5"
        using p4(3) p2(3) d(1) by (simp add: health_matches_def)
      then have "apply_update_inner env w y nd = attempt_rollback env (w_restore w) y ''agent did not reconnect'' ?nd5"
        using inner q Inr p4(1) restarted w(3,4)
        by (simp add: installation_phase_def h_then_def h_bind_def restart_agent_service_def await_target_def
            wait_for_health_def Let_def)
      then show ?thesis using that [OF _ progress_update(3) [OF p4(2)] d(2)] by blast
    qed
  qed
qed

lemma handoff_lock: "plan_handoff_is_active y (nd\<lparr>lock_owner := c\<rparr>) = plan_handoff_is_active y nd"
  by (simp add: plan_handoff_is_active_def)

lemma failed_target_is_replaced:
  assumes r: "restorable env y x k e bs nd" and t: "parse_package_type (o_package_type (y_offer y)) = Inr t"
    and w: "w_stop (w_target w) = Inr b" "w_exits w" "w_connects (w_target w) = 0" "w_late (w_target w) = 0"
    and v: "w_stop (w_restore w) = Inr b'" "w_install (w_restore w) = Inr ()" "w_restart (w_restore w) = Inr ()"
      "w_connects (w_restore w) > 0"
    and run: "apply_update env w y nd = (res, nd')"
  shows "(res = Inr () \<longleftrightarrow> x_operation x = UpgradeOperation) \<and> installed_bytes y nd' = Some bs \<and> service_up nd'
    \<and> current_package (state_file nd') = current_package (state_file nd)
    \<and> (\<exists>z. attempt (state_file nd') = Some z \<and> x_phase z = Completed \<and> x_status z = restored_previous_status (x_operation x))"
proof -
  let ?nd = "nd\<lparr>lock_owner := Some (y_lock_owner y)\<rparr>"
  let ?st = "restored_previous_status (x_operation x)"
  have r': "restorable env y x k e bs ?nd" using r handoff_lock by (simp add: restorable_def)
  have m: "offer_generation_matches (x_offer x) (y_offer y)"
    using r by (auto simp: restorable_def plan_handoff_is_active_def)
  obtain reason nd1 d st u where inner: "apply_update_inner env w y ?nd = attempt_rollback env (w_restore w) y reason nd1"
      "progress x st TargetPhase (current_package (state_file ?nd)) d u nd1" "\<forall>p. p \<noteq> e \<longrightarrow> d p = disk ?nd p"
    by (rule failing_target_reaches_restore [OF r' t w])
  have ver: "verify_package_at_rest env d (p_path k) (p_size_bytes k) (p_sha256 k) = Inr ()" "d (p_path k) = Some bs"
    using r inner(3) verify_same_file [of d "p_path k" "disk nd" env] by (simp_all add: restorable_def)
  obtain q nd2 where q: "attempt_rollback env (w_restore w) y reason nd1 = (q, nd2)" by fastforce
  have facts: "y_previous y = Some k" "x_previous x = Some k" "y_operation y = x_operation x" "y_installed y = Some e"
      "y_package_path y \<noteq> e" "exe_version env bs = p_version k" "plan_handoff_is_active y ?nd"
    using r' by (simp_all add: restorable_def)
  have done': "(q = Inr () \<longleftrightarrow> x_operation x = UpgradeOperation) \<and>
      progress x ?st Completed (current_package (state_file ?nd)) (d(e := Some bs, y_package_path y := None)) True nd2"
    by (rule restore_succeeds [OF inner(2) m facts(1-5) ver facts(6) v q])
  have settled_end: "snd (persist_apply_status env y Failed Completed msg nd2) = nd2 \<or> x_operation x = UpgradeOperation" for msg
  proof (cases "x_operation x")
    case RollbackOperation
    then have "?st = Failed" by (simp add: restored_previous_status_def)
    then have "progress x Failed Completed (current_package (state_file ?nd)) (d(e := Some bs, y_package_path y := None)) True nd2"
      using done' by simp
    from progress_persist_same [OF this final_statuses(3), where env = env and y = y and m = msg] show ?thesis by simp
  qed simp
  have nd': "nd' = nd2\<lparr>lock_owner := None\<rparr>" "res = q"
    using run inner(1) q facts(7) done' settled_end
    by (auto simp: apply_update_def h_then_def h_bind_def check_def Let_def split: sum.splits)
  show ?thesis using done' facts(4,5) nd' by (auto simp: progress_def installed_bytes_def)
qed

subsection \<open>A target that connects\<close>

text \<open>The baseline is kept as it is: there is none, or the updater that ran does not delete it.\<close>

definition baseline_kept :: "('v::linorder, 'sig) agent_env \<Rightarrow> persisted_attempt \<Rightarrow> bool" where
  "baseline_kept env x \<longleftrightarrow> x_operation x \<noteq> UpgradeOperation \<or> (case x_previous x of None \<Rightarrow> True
     | Some k \<Rightarrow> \<not> legacy_updater_removes_previous_package env (p_version k))"

lemma preserve_idle: "baseline_kept env x \<Longrightarrow> preserve_baseline_for_legacy_updater env x nd = (Inr (x_previous x), nd)"
  by (auto simp: baseline_kept_def preserve_baseline_for_legacy_updater_def split: option.splits)

lemma same_work_cached: "same_work x z \<Longrightarrow> cached_package_from_attempt z = cached_package_from_attempt x"
  unfolding same_work_def cached_package_from_attempt_def by (elim conjE) (simp only:)

lemma baseline_kept_work: "same_work x z \<Longrightarrow> baseline_kept env z = baseline_kept env x"
  by (simp add: same_work_def baseline_kept_def)

definition updated :: "persisted_attempt \<Rightarrow> cached_package \<Rightarrow> path \<Rightarrow> bytes option \<Rightarrow> node \<Rightarrow> bool" where
  "updated x k e bs nd \<longleftrightarrow> (\<exists>z. attempt (state_file nd) = Some z \<and> same_work x z \<and> x_phase z = Completed
       \<and> x_status z = target_success_status (x_operation x))
     \<and> current_package (state_file nd) = Some k \<and> rollback_baseline (state_file nd) = x_previous x
     \<and> disk nd e = bs \<and> service_up nd \<and> health_matches (offer_marker (x_offer x)) nd"

lemma target_connects:
  assumes p: "progress x AwaitingRestart TargetPhase c d True nd" and k: "cached_package_from_attempt x = Inr k"
    and kept: "baseline_kept env x" and v: "own_version env = o_version (x_offer x)"
    and e: "case rollback_baseline (state_file nd) of None \<Rightarrow> True | Some b \<Rightarrow> p_path b \<noteq> e"
  shows "updated x k e (d e) (snd (connected_status env nd))"
proof -
  obtain z where z: "attempt (state_file nd) = Some z" "same_work x z" "x_status z = AwaitingRestart" "x_phase z = TargetPhase"
    using p by (auto simp: progress_def)
  let ?m = "if x_operation z \<noteq> UpgradeOperation then x_message z else None"
  let ?st = "target_success_status (x_operation z)"
  let ?nd1 = "write_health env (Some (offer_marker (x_offer z))) nd"
  have zx: "x_offer z = x_offer x" "x_operation z = x_operation x" "x_previous z = x_previous x"
    using z(2) by (simp_all add: same_work_def)
  have nd1: "disk ?nd1 = d" "service_up ?nd1" "health_matches (offer_marker (x_offer x)) ?nd1"
    using p zx by (simp_all add: write_health_def offer_marker_def health_matches_def progress_def)
  let ?stale = "stale_baseline (state_file nd) (p_path k) (x_previous x)"
  have "?stale \<noteq> Some e" using e by (auto simp: stale_baseline_def split: option.splits if_splits)
  then have other: "disk (remove_file ?stale n) e = disk n e" for n by (auto simp: remove_file_def split: option.split)
  have kept_z: "baseline_kept env z" using baseline_kept_work [OF z(2), of env] kept by simp
  have rot: "rotate_successful_package_state env (state_file nd) z ?nd1 =
      (Inr ((state_file nd)\<lparr>current_package := Some k, rollback_baseline := x_previous x\<rparr>, ?stale), ?nd1)"
    using k same_work_cached [OF z(2)] preserve_idle [OF kept_z, of ?nd1] zx
    by (simp add: rotate_successful_package_state_def h_bind_def h_lift_def h_return_def)
  have "connection_outcome env z = (?st, Some (offer_marker (x_offer z)), ?m, True)"
    using z v zx by (simp add: connection_outcome_def Let_def)
  then have "snd (connected_status env nd) = remove_file ?stale (?nd1\<lparr>state_file :=
      (state_file nd)\<lparr>current_package := Some k, rollback_baseline := x_previous x,
        attempt := Some (z\<lparr>x_status := ?st, x_message := ?m, x_phase := Completed, x_updated_at := clock env\<rparr>)\<rparr>\<rparr>)"
    using z(1) rot by (simp add: connected_status_def finish_connection_def Let_def)
  then show ?thesis using z(2) zx nd1 other by (simp add: updated_def same_work_def health_matches_def)
qed

lemma updated_stays:
  assumes u: "updated x k e bs nd" and v: "own_version env = o_version (x_offer x)"
  shows "updated x k e bs (snd (connected_status env nd))"
proof -
  obtain z where z: "attempt (state_file nd) = Some z" "same_work x z" "x_phase z = Completed"
      "x_status z = target_success_status (x_operation x)" using u by (auto simp: updated_def)
  have "connection_outcome env z = (x_status z, Some (offer_marker (x_offer x)), x_message z, False)"
    using z v by (cases "x_operation x")
      (simp_all add: connection_outcome_def Let_def same_work_def target_success_status_def)
  then have "snd (connected_status env nd) = write_health env (Some (offer_marker (x_offer x))) nd"
    using z(1) by (simp add: connected_status_def Let_def)
  then show ?thesis using u by (simp add: updated_def write_health_def offer_marker_def health_matches_def)
qed

lemma updated_agent_connects:
  assumes p: "progress x AwaitingRestart TargetPhase c d True nd" and k: "cached_package_from_attempt x = Inr k"
    and kept: "baseline_kept env x" and bs: "y_installed y = Some e" "d e = Some bs" "exe_version env bs = o_version (x_offer x)"
    and e: "case rollback_baseline (state_file nd) of None \<Rightarrow> True | Some b \<Rightarrow> p_path b \<noteq> e" and n: "n > 0"
  shows "updated x k e (Some bs) (agent_connects env y n nd)"
proof -
  let ?env = "env\<lparr>own_version := exe_version env bs\<rparr>"
  let ?f = "\<lambda>nd. snd (connected_status ?env nd)"
  have v: "own_version ?env = o_version (x_offer x)" using bs(3) by simp
  have kept': "baseline_kept ?env x"
  proof -
    have "legacy_updater_removes_previous_package ?env v = legacy_updater_removes_previous_package env v" for v
      by (simp add: legacy_updater_removes_previous_package_def)
    then show ?thesis using kept by (simp add: baseline_kept_def split: option.splits)
  qed
  have "updated x k e (Some bs) ((?f ^^ Suc n) nd)" for n
  proof (induction n)
    case 0
    then show ?case using target_connects [OF p k kept' v e] bs(2) by simp
  next
    case (Suc n)
    have "(?f ^^ Suc (Suc n)) nd = ?f ((?f ^^ Suc n) nd)" by simp
    then show ?case using updated_stays [OF Suc v] by metis
  qed
  moreover obtain n' where "n = Suc n'" using n by (cases n) auto
  moreover have "agent_connects env y n nd = (?f ^^ n) nd"
    using p bs by (simp add: agent_connects_def installed_bytes_def progress_def)
  ultimately show ?thesis by metis
qed

text \<open>The updater finds the work done.\<close>

lemma updated_complete:
  assumes u: "updated x k e bs nd" and k: "cached_package_from_attempt x = Inr k" and y: "y_offer y = x_offer x" "y_previous y = x_previous x"
  shows "complete_target_update env y t nd = (Inr (), nd)"
proof -
  have "p_artifact_id k = o_artifact_id (x_offer x)" "p_retry_count k = o_retry_count (x_offer x)"
    using k by (auto simp: cached_package_from_attempt_def try_bind_Inr_iff split: option.splits)
  then have "target_already_cached y (state_file nd)" using u y by (simp add: target_already_cached_def updated_def)
  moreover have "stale_previous y (state_file nd) = None"
    using u y by (auto simp: stale_previous_def updated_def split: option.splits)
  ultimately show ?thesis by (simp add: complete_target_update_def Let_def remove_file_def)
qed

text \<open>The way to the health check, when the package is good and the operating system does what it is asked.\<close>

definition installable ::
  "('v::linorder, 'sig) agent_env \<Rightarrow> apply_plan \<Rightarrow> persisted_attempt \<Rightarrow> path \<Rightarrow> bytes \<Rightarrow> node \<Rightarrow> bool" where
  "installable env y x e bs nd \<longleftrightarrow> attempt (state_file nd) = Some x \<and> plan_handoff_is_active y nd
     \<and> y_offer y = x_offer x \<and> y_previous y = x_previous x \<and> x_package_path x = Some (y_package_path y)
     \<and> y_installed y = Some e \<and> baseline_kept env x
     \<and> (case rollback_baseline (state_file nd) of None \<Rightarrow> True | Some b \<Rightarrow> p_path b \<noteq> e)
     \<and> o_size_bytes (x_offer x) > 0 \<and> o_package_type (x_offer x) = ''standalone''
     \<and> verify_package_at_rest env (disk nd) (y_package_path y) (o_size_bytes (x_offer x)) (o_sha256 (x_offer x)) = Inr ()
     \<and> disk nd (y_package_path y) = Some bs \<and> exe_version env bs = o_version (x_offer x)"

lemma persist_keeps_baseline:
  "persist_apply_status env y st ph m nd = (r, nd') \<Longrightarrow> rollback_baseline (state_file nd') = rollback_baseline (state_file nd)"
  using persist_state(4) by blast

lemma good_target_is_installed:
  assumes r: "installable env y x e bs nd"
    and w: "w_stop (w_target w) = Inr b" "w_exits w" "w_install (w_target w) = Inr ()" "w_restart (w_target w) = Inr ()"
      "w_connects (w_target w) > 0"
    and k: "cached_package_from_attempt x = Inr k"
  shows "\<exists>nd'. apply_update_inner env w y nd = (Inr (), nd') \<and> updated x k e (Some bs) nd'"
proof -
  let ?c = "current_package (state_file nd)"
  have facts: "attempt (state_file nd) = Some x" "y_offer y = x_offer x" "y_previous y = x_previous x" "y_installed y = Some e"
      "baseline_kept env x" "disk nd (y_package_path y) = Some bs" "exe_version env bs = o_version (x_offer x)"
    using r by (simp_all add: installable_def)
  have m: "offer_generation_matches (x_offer x) (y_offer y)" and ph: "x_phase x = TargetPhase"
    and st: "x_status x \<in> {Installing, AwaitingRestart}"
    using r by (auto simp: installable_def plan_handoff_is_active_def)
  let ?nd1 = "nd\<lparr>service_up := (service_up nd \<and> \<not> b)\<rparr>"
  have p0: "progress x (x_status x) TargetPhase ?c (disk nd) (service_up nd) nd"
    using progress_start [OF facts(1)] ph by simp
  obtain nd2 where p2: "persist_apply_status env y Installing TargetPhase None (?nd1\<lparr>health_file := None\<rparr>) = (Inr (), nd2)"
      "progress x Installing TargetPhase ?c (disk nd) (service_up nd \<and> \<not> b) nd2"
    using progress_persist [OF progress_update(1) [OF progress_update(3) [OF p0]] m] by force
  have b2: "rollback_baseline (state_file nd2) = rollback_baseline (state_file nd)"
    using persist_keeps_baseline [OF p2(1)] by simp
  have t: "parse_package_type (o_package_type (y_offer y)) = Inr Standalone"
    using r by (simp add: installable_def parse_package_type_def)
  have inner: "apply_update_inner env w y nd = installation_phase env w y Standalone nd2"
    using r t w(1,2) p2(1) m ph st facts(1)
    by (simp add: apply_update_inner_def h_then_def h_bind_def check_def h_lift_def h_guard_def h_return_def
        stop_standalone_service_def remove_health_def h_modify_def plan_is_current_def plan_handoff_is_active_def)
  let ?d = "(disk nd)(e := Some bs)"
  let ?nd3 = "nd2\<lparr>disk := ?d\<rparr>"
  have install: "target_installation env (w_target w) y nd2 = (Inr (), ?nd3)"
    using r w(3) progress_state [OF p2(2)]
    by (simp add: installable_def target_installation_def h_then_def h_bind_def h_lift_def to_u64_def install_standalone_def)
  have p3: "progress x Installing TargetPhase ?c ?d (service_up nd \<and> \<not> b) ?nd3" by (rule progress_update(2) [OF p2(2)])
  obtain nd4 where p4: "persist_apply_status env y AwaitingRestart TargetPhase None ?nd3 = (Inr (), nd4)"
      "progress x AwaitingRestart TargetPhase ?c ?d (service_up nd \<and> \<not> b) nd4"
    using progress_persist [OF p3 m] by blast
  have b4: "rollback_baseline (state_file nd4) = rollback_baseline (state_file nd)"
    using persist_keeps_baseline [OF p4(1)] b2 by simp
  let ?nd5 = "nd4\<lparr>service_up := True\<rparr>"
  have p5: "progress x AwaitingRestart TargetPhase ?c ?d True ?nd5" by (rule progress_update(3) [OF p4(2)])
  let ?nd6 = "agent_connects env y (w_connects (w_target w)) ?nd5"
  have u: "updated x k e (Some bs) ?nd6"
    by (rule updated_agent_connects [OF p5 k facts(5,4) _ facts(7) _ w(5)])
      (use r b4 in \<open>auto simp: installable_def\<close>)
  have "complete_target_update env y Standalone ?nd6 = (Inr (), ?nd6)"
    by (rule updated_complete [OF u k facts(2,3)])
  moreover have "health_matches (offer_marker (y_offer y)) ?nd6" using u facts(2) by (simp add: updated_def)
  ultimately have "apply_update_inner env w y nd = (Inr (), ?nd6)"
    using inner install p4(1) w(4)
    by (simp add: installation_phase_def h_then_def h_bind_def restart_agent_service_def await_target_def
        wait_for_health_def Let_def)
  then show ?thesis using u by blast
qed

subsection \<open>Both finish the attempt alike\<close>

lemma message_alike:
  "target_success_status q = target_success_status q' \<Longrightarrow> (q = UpgradeOperation) = (q' = UpgradeOperation)"
  by (cases q; cases q') (simp_all add: target_success_status_def)

lemma finish_is_complete:
  assumes x: "attempt s = Some x" "y_offer y = x_offer x" "y_previous y = x_previous x" "y_operation y = x_operation x"
    and kept: "baseline_kept env x" and fresh: "\<not> target_already_cached y s" and s: "state_file nd = s"
    and m: "m = (if x_operation x \<noteq> UpgradeOperation then x_message x else None)"
  shows "snd (finish_connection env s x (target_success_status (x_operation x)) m nd) = snd (complete_target_update env y Standalone nd)"
proof (cases "cached_package_from_attempt x")
  case (Inl e)
  then show ?thesis using x fresh s
    by (simp add: finish_connection_def rotate_successful_package_state_def h_bind_def h_lift_def complete_target_update_def Let_def)
next
  case (Inr k)
  have "k\<lparr>p_package_type := Standalone\<rparr> = k" using package_type_all [of "p_package_type k"] by simp
  then show ?thesis using x fresh s m Inr preserve_idle [OF kept, of nd]
    by (auto simp: finish_connection_def rotate_successful_package_state_def h_bind_def h_lift_def h_return_def
        complete_target_update_def completed_target_def Let_def)
qed

lemma remove_twice: "remove_file p ((remove_file p nd)\<lparr>state_file := s\<rparr>) = remove_file p (nd\<lparr>state_file := s\<rparr>)"
  by (simp add: remove_file_def split: option.split)

lemma finish_after_complete:
  assumes x: "attempt s = Some x" "y_offer y = x_offer x" "y_previous y = x_previous x" "y_operation y = x_operation x"
    and kept: "baseline_kept env x" and fresh: "\<not> target_already_cached y s" and s: "state_file nd = s"
    and m: "m = (if x_operation x \<noteq> UpgradeOperation then x_message x else None)"
  shows "snd (finish_connection env s x (target_success_status (x_operation x)) m (snd (complete_target_update env y Standalone nd)))
    = snd (complete_target_update env y Standalone nd)"
proof (cases "cached_package_from_attempt x")
  case (Inl e)
  then show ?thesis using x fresh s
    by (simp add: finish_connection_def rotate_successful_package_state_def h_bind_def h_lift_def complete_target_update_def Let_def)
next
  case (Inr k)
  let ?stale = "stale_baseline s (p_path k) (x_previous x)"
  let ?S = "completed_target env y Standalone x k s"
  have same: "k\<lparr>p_package_type := Standalone\<rparr> = k" using package_type_all [of "p_package_type k"] by simp
  have c: "snd (complete_target_update env y Standalone nd) = remove_file ?stale (nd\<lparr>state_file := ?S\<rparr>)"
    using x fresh s Inr by (simp add: complete_target_update_def Let_def)
  have f: "snd (finish_connection env s x (target_success_status (x_operation x)) m n) = remove_file ?stale (n\<lparr>state_file := ?S\<rparr>)" for n
    using x m Inr preserve_idle [OF kept, of n] same
    by (auto simp: finish_connection_def rotate_successful_package_state_def h_bind_def h_lift_def h_return_def
        completed_target_def Let_def)
  show ?thesis unfolding c f remove_twice by simp
qed

lemma complete_after_complete:
  assumes x: "attempt s = Some x" "y_offer y = x_offer x" "y_previous y = x_previous x"
    and fresh: "\<not> target_already_cached y s" and s: "state_file nd = s"
  shows "snd (complete_target_update env y Standalone (snd (complete_target_update env y Standalone nd)))
    = snd (complete_target_update env y Standalone nd)"
proof (cases "cached_package_from_attempt x")
  case (Inl e)
  then have "complete_target_update env y Standalone nd = (Inl e, nd)"
    using x fresh s by (simp add: complete_target_update_def Let_def)
  then show ?thesis by simp
next
  case (Inr k)
  let ?nd = "remove_file (stale_baseline s (p_path k) (x_previous x)) (nd\<lparr>state_file := completed_target env y Standalone x k s\<rparr>)"
  have c: "snd (complete_target_update env y Standalone nd) = ?nd"
    using x fresh s Inr by (simp add: complete_target_update_def Let_def)
  have "p_artifact_id k = o_artifact_id (x_offer x)" "p_retry_count k = o_retry_count (x_offer x)"
    using Inr by (auto simp: cached_package_from_attempt_def try_bind_Inr_iff split: option.splits)
  then have "target_already_cached y (state_file ?nd)" using x by (simp add: target_already_cached_def completed_target_def)
  moreover have "stale_previous y (state_file ?nd) = None"
    using x by (auto simp: stale_previous_def completed_target_def split: option.splits)
  ultimately have "complete_target_update env y Standalone ?nd = (Inr (), ?nd)"
    by (simp add: complete_target_update_def Let_def remove_file_def [of None])
  then show ?thesis unfolding c by simp
qed

end
