(* ===== verification/AgentProperties.thy ===== *)
theory AgentProperties
  imports AgentOutcome
begin

text \<open>
  What the agent's updater guarantees: only signed software is installed, an updater that was handed
  over to always settles its attempt, a target that fails is replaced by the previous package, and
  the agent and the updater may finish an attempt in either order.  Two theorems state flaws.
\<close>

subsection \<open>Only signed software\<close>

interpretation agent: invariant_machine "agent_step env"
    "\<lambda>nd. env_ok env \<and> offers_vouched env D \<and> trusted_node env D nd" for env D
  by unfold_locales (auto intro: trusted_step)

definition issued_digests :: "update_offer set \<Rightarrow> rollback_offer set \<Rightarrow> digest set" where
  "issued_digests offs rollbacks = offer_digest ` offs
     \<union> {(k_size_bytes q, to_ascii_lowercase (k_sha256 q)) | q r. r \<in> rollbacks \<and> b_package r = Some q}"

lemma offer_fields_digest:
  "offer_fields a = offer_fields b \<Longrightarrow> offer_digest a = offer_digest b"
  "legacy_fields a = legacy_fields b \<Longrightarrow> offer_digest a = offer_digest b"
  by (simp_all add: offer_fields_def legacy_fields_def offer_digest_def)

lemma rollback_fields_digest:
  assumes "rollback_fields a = rollback_fields b" "b_package a = Some q" "k_size_bytes q > 0"
  obtains q' where "b_package b = Some q'" "k_size_bytes q' = k_size_bytes q"
    "to_ascii_lowercase (k_sha256 q') = to_ascii_lowercase (k_sha256 q)"
  using assms by (cases "b_package b") (auto simp: rollback_fields_def rollback_package_fields_def)

lemma require_Inr [simp]: "require b e = Inr u \<longleftrightarrow> b"
  by (simp add: require_def)

lemma signed_offers_vouched:
  assumes key: "embedded_key env = Some vk" and unforged: "unforged vk (signed_texts offs rollbacks)"
    and D: "issued_digests offs rollbacks \<subseteq> D"
  shows "offers_vouched env D"
  unfolding offers_vouched_def
proof (intro conjI allI impI)
  fix off t v
  let ?env = "env\<lparr>clock := t, own_version := v\<rparr>"
  show "validate_offer ?env off \<noteq> Inr Standalone \<or> offer_digest off \<in> D"
  proof (rule disjCI)
    assume "\<not> offer_digest off \<in> D"
    show "validate_offer ?env off \<noteq> Inr Standalone"
    proof
      assume "validate_offer ?env off = Inr Standalone"
      then have "verify_update_signature_policy_with_key off (server_https env) (Some vk) = Inr ()"
        using key by (auto simp: validate_offer_def try_bind_Inr_iff split: option.splits)
      then have "verify_update_signature_v2 vk off = Inr () \<or> verify_legacy_update_signature vk off = Inr ()"
        by (auto simp: verify_update_signature_policy_with_key_def split: if_splits)
      then obtain issued where "issued \<in> offs" "offer_digest off = offer_digest issued"
        using verified_v2 [OF unforged] verified_legacy [OF unforged] offer_fields_digest by blast
      then have "offer_digest off \<in> issued_digests offs rollbacks" by (auto simp: issued_digests_def)
      then show False using D \<open>\<not> offer_digest off \<in> D\<close> by blast
    qed
  qed
next
  fix off t v q
  let ?env = "env\<lparr>clock := t, own_version := v\<rparr>"
  assume ok: "validate_rollback_offer ?env off = Inr ()" and q: "b_package off = Some q"
  have "verify_rollback_signature_policy_with_key off (server_https env) (Some vk) = Inr ()"
    "validate_rollback_package ?env q = Inr ()"
    using ok key q by (auto simp: validate_rollback_offer_def try_bind_Inr_iff)
  then have "verify_rollback_signature vk off = Inr ()" "k_size_bytes q > 0"
    by (auto simp: verify_rollback_signature_policy_with_key_def validate_rollback_package_def try_bind_Inr_iff
        split: option.splits)
  then obtain r where r: "r \<in> rollbacks" "rollback_fields off = rollback_fields r"
    using verified_rollback [OF unforged] by blast
  obtain q' where "b_package r = Some q'" "k_size_bytes q' = k_size_bytes q"
      "to_ascii_lowercase (k_sha256 q') = to_ascii_lowercase (k_sha256 q)"
    by (rule rollback_fields_digest [OF r(2) q \<open>k_size_bytes q > 0\<close>])
  then show "(k_size_bytes q, to_ascii_lowercase (k_sha256 q)) \<in> D"
    using r(1) D by (force simp: issued_digests_def)
qed

definition new_node :: "('v, 'sig) agent_env \<Rightarrow> bytes \<Rightarrow> node" where
  "new_node env bs = \<lparr>state_file = \<lparr>current_package = None, rollback_baseline = None, attempt = None\<rparr>,
     health_file = None, lock_owner = None, disk = (\<lambda>_. None)(installed_exe env := Some bs), draining = False,
     inbound = [], plans = [], service_up = True\<rparr>"

lemma new_node_trusted: "bytes_digest env bs \<in> D \<Longrightarrow> trusted_node env D (new_node env bs)"
  by (simp add: new_node_def trusted_defs)

text \<open>
  C22: A node only ever runs software that the server signed.  Take an agent with an embedded key, over
  HTTP or HTTPS, and let anybody answer in the server's place: offers of every kind, transfers that are
  cut or altered, lost connections, updaters that fail anywhere, in any order.  The executable that is
  installed then has the size and digest of an issued offer or rollback package, or of the first one.
\<close>

theorem only_signed_software_runs:
  assumes "env_ok env" and "embedded_key env = Some vk" and "unforged vk (signed_texts offs rollbacks)"
    and "disk (fold (agent_step env) es (new_node env bs)) (installed_exe env) = Some bs'"
  shows "bytes_digest env bs' \<in> insert (bytes_digest env bs) (issued_digests offs rollbacks)"
proof -
  let ?D = "insert (bytes_digest env bs) (issued_digests offs rollbacks)"
  have "offers_vouched env ?D" by (rule signed_offers_vouched [OF assms(2,3)]) blast
  then have "trusted_node env ?D (fold (agent_step env) es (new_node env bs))"
    using agent.run_inv [of env ?D "new_node env bs" es] assms(1) new_node_trusted by blast
  then show ?thesis using assms(4) by (simp add: trusted_node_def)
qed

text \<open>A node that runs 1.1.0 and is offered 1.2.0; an executable is its magic bytes and a version byte.\<close>

definition old_exe :: bytes where "old_exe = [0x7f, 0x45, 0x4c, 0x46]"
definition new_exe :: bytes where "new_exe = [0x7f, 0x45, 0x4c, 0x46, 1]"

definition demo_sha :: "bytes \<Rightarrow> string" where
  "demo_sha bs = replicate 64 (if length bs = 4 then CHR ''a'' else CHR ''b'')"

definition demo_semver :: "string \<Rightarrow> nat option" where
  "demo_semver v = (if v = ''1.2.0'' then Some 120 else if v = ''1.1.0'' then Some 110
     else if v = ''0.1.23'' then Some 23 else None)"

definition good_offer :: update_offer where
  "good_offer = demo_offer\<lparr>o_download_url := ''/api/agent/update/artifacts/p1/download'', o_sha256 := demo_sha new_exe,
     o_size_bytes := 5, o_signature_key_id := Some ''key-1''\<rparr>"

definition good_payload :: string where
  "good_payload = (case update_signature_payload_v2 good_offer of Inr p \<Rightarrow> p | Inl _ \<Rightarrow> [])"

definition good_key :: "string verifying_key" where
  "good_key = \<lparr>v_key_id = ''key-1'', b64_decode = Some, key_verify = \<lambda>p sig. p = sig \<and> p = good_payload\<rparr>"

definition demo_agent :: "(nat, string) agent_env" where
  "demo_agent = \<lparr>clock = 0, instance_id = ''node-1'', is_privileged = True, own_package_type = Some ''standalone'',
     own_arch = Some ''x86'', own_os = ''linux'', standalone_arch = ''x86'', own_version = ''1.1.0'', server_https = False,
     embedded_key = Some good_key, semver = demo_semver, sha256_hex = demo_sha, packages_dir = [''packages''],
     installed_exe = [''bin'', ''om-agent''], exe_suffix = [], exe_version = \<lambda>bs. if length bs = 4 then ''1.1.0'' else ''1.2.0'',
     delay_hash = \<lambda>_ _. 7, fresh_lock_owner = ''w1''\<rparr>"

definition good_transfer :: transfer where
  "good_transfer = \<lparr>t_space = Inr 100000000, t_checksum = Inr (demo_sha new_exe @ ''  om-agent''), t_reply = Inr (),
     t_length = Some 5, t_chunks = [Inr old_exe, Inr [1]], t_active = 0\<rparr>"

definition good_install :: install_world where
  "good_install = \<lparr>w_stop = Inr True, w_install = Inr (), w_restart = Inr (), w_connects = 1, w_late = 0\<rparr>"

definition good_world :: apply_world where
  "good_world = \<lparr>w_exits = True, w_target = good_install, w_restore = good_install\<rparr>"

definition demo_events :: "agent_event list" where
  "demo_events = [OfferArrives 1 good_transfer (Inr ()) (good_offer\<lparr>o_signature_v2 := Some good_payload\<rparr>),
     UpdaterRuns 2 good_world 0, AgentConnects 3]"

lemma good_payload_v2: "update_signature_payload_v2 good_offer = Inr good_payload"
  unfolding good_payload_def by code_simp

lemma good_key_unforged: "unforged good_key (signed_texts {good_offer} {})"
  by (simp add: unforged_def good_key_def signed_texts_def good_payload_v2)

lemma demo_updated: "disk (fold (agent_step demo_agent) demo_events (new_node demo_agent old_exe)) (installed_exe demo_agent) = Some new_exe"
  by code_simp

theorem only_signed_software_runs_witness:
  "bytes_digest demo_agent new_exe \<in> {bytes_digest demo_agent old_exe, offer_digest good_offer} \<and>
   disk (fold (agent_step demo_agent) demo_events (new_node demo_agent old_exe)) (installed_exe demo_agent) = Some new_exe"
proof -
  have "env_ok demo_agent" by (simp add: env_ok_def demo_agent_def)
  moreover have "embedded_key demo_agent = Some good_key" by (simp add: demo_agent_def)
  ultimately have "bytes_digest demo_agent new_exe
      \<in> insert (bytes_digest demo_agent old_exe) (issued_digests {good_offer} {})"
    by (rule only_signed_software_runs [OF _ _ good_key_unforged demo_updated])
  then show ?thesis using demo_updated by (simp add: issued_digests_def)
qed

subsection \<open>The outcome of an update\<close>


text \<open>The demonstration node after the hand-over.\<close>

definition exe_path :: path where "exe_path = [''bin'', ''om-agent'']"
definition package_path :: path where "package_path = [''packages'', ''a1-retry-0.bin'']"

definition demo_previous :: cached_package where
  "demo_previous = \<lparr>p_artifact_id = ''standalone-installed-1.1.0'', p_version = ''1.1.0'', p_package_type = Standalone,
     p_native_arch = ''x86'', p_path = [''packages'', ''standalone-rollback-1.1.0''], p_retry_count = 0, p_size_bytes = 4,
     p_sha256 = demo_sha old_exe\<rparr>"

definition demo_attempt :: persisted_attempt where
  "demo_attempt = \<lparr>x_offer = good_offer, x_operation = UpgradeOperation, x_manual = False, x_status = AwaitingRestart,
     x_message = None, x_package_path = Some package_path, x_previous = Some demo_previous, x_phase = TargetPhase,
     x_updated_at = 1\<rparr>"

definition demo_plan :: apply_plan where
  "demo_plan = \<lparr>y_offer = good_offer, y_operation = UpgradeOperation, y_package_path = package_path,
     y_previous = Some demo_previous, y_lock_owner = ''w1'', y_installed = Some exe_path\<rparr>"

definition handed_over :: node where
  "handed_over = \<lparr>state_file = \<lparr>current_package = None, rollback_baseline = None, attempt = Some demo_attempt\<rparr>,
     health_file = None, lock_owner = None,
     disk = (\<lambda>_. None)(exe_path := Some old_exe, package_path := Some new_exe, p_path demo_previous := Some old_exe),
     draining = True, inbound = [], plans = [demo_plan], service_up = True\<rparr>"

definition dead_target :: install_world where
  "dead_target = \<lparr>w_stop = Inr True, w_install = Inr (), w_restart = Inl ''exit code 1'', w_connects = 0, w_late = 0\<rparr>"

definition failing_world :: apply_world where
  "failing_world = \<lparr>w_exits = True, w_target = dead_target, w_restore = good_install\<rparr>"




lemma demo_old_verified:
  "verify_package_at_rest demo_agent (disk handed_over) (p_path demo_previous) (p_size_bytes demo_previous) (p_sha256 demo_previous) = Inr ()"
  by code_simp

lemma demo_new_verified:
  "verify_package_at_rest demo_agent (disk handed_over) package_path (o_size_bytes good_offer) (o_sha256 good_offer) = Inr ()"
  by code_simp


text \<open>
  A good update succeeds.  When the staged package is intact, the operating system does what it is
  asked and the new agent connects at least once in time, the new executable is installed and runs, the
  attempt has succeeded, the package is the current one and the previous package is the rollback baseline.
\<close>

theorem good_update_succeeds:
  assumes "installable env y x e bs nd" and "cached_package_from_attempt x = Inr k"
    and "w_stop (w_target w) = Inr b" "w_exits w" "w_install (w_target w) = Inr ()" "w_restart (w_target w) = Inr ()"
      "w_connects (w_target w) > 0"
  shows "\<exists>nd'. apply_update env w y nd = (Inr (), nd') \<and> disk nd' e = Some bs \<and> service_up nd'
    \<and> current_package (state_file nd') = Some k \<and> rollback_baseline (state_file nd') = x_previous x
    \<and> (\<exists>z. attempt (state_file nd') = Some z \<and> x_phase z = Completed \<and> x_status z = target_success_status (x_operation x))"
proof -
  let ?nd = "nd\<lparr>lock_owner := Some (y_lock_owner y)\<rparr>"
  have "installable env y x e bs ?nd" using assms(1) handoff_lock by (simp add: installable_def)
  from good_target_is_installed [OF this assms(3-7) assms(2)] obtain nd' where
    nd': "apply_update_inner env w y ?nd = (Inr (), nd')" "updated x k e (Some bs) nd'" by blast
  have "plan_handoff_is_active y ?nd" using assms(1) handoff_lock by (simp add: installable_def)
  then have "apply_update env w y nd = (Inr (), nd'\<lparr>lock_owner := None\<rparr>)"
    using nd'(1) by (simp add: apply_update_def h_then_def h_bind_def check_def Let_def)
  then show ?thesis using nd'(2) by (auto simp: updated_def)
qed

lemma demo_installable: "installable demo_agent demo_plan demo_attempt exe_path new_exe handed_over"
  by code_simp

definition demo_package :: cached_package where
  "demo_package = (case cached_package_from_attempt demo_attempt of Inr k \<Rightarrow> k)"

lemma demo_package: "cached_package_from_attempt demo_attempt = Inr demo_package" by code_simp

theorem good_update_succeeds_witness:
  "\<exists>nd'. apply_update demo_agent good_world demo_plan handed_over = (Inr (), nd')
    \<and> disk nd' exe_path = Some new_exe \<and> current_package (state_file nd') = Some demo_package"
proof -
  have "w_stop (w_target good_world) = Inr True" "w_exits good_world" "w_install (w_target good_world) = Inr ()"
      "w_restart (w_target good_world) = Inr ()" "w_connects (w_target good_world) > 0"
    by (simp_all add: good_world_def good_install_def)
  from good_update_succeeds [OF demo_installable demo_package this] show ?thesis by blast
qed

text \<open>
  C24: A target that does not connect is replaced.  Whether the target was refused, could not be installed
  or started, or never connected: when the previous package is intact and its agent connects, the node
  runs the previous executable again, the current package is unchanged, and the attempt has ended as an
  upgrade that was rolled back (or as a failed rollback).
\<close>

theorem failed_update_restores_previous:
  assumes "restorable env y x k e bs nd" and "parse_package_type (o_package_type (y_offer y)) = Inr t"
    and "w_stop (w_target w) = Inr b" "w_exits w" "w_connects (w_target w) = 0" "w_late (w_target w) = 0"
    and "w_stop (w_restore w) = Inr b'" "w_install (w_restore w) = Inr ()" "w_restart (w_restore w) = Inr ()"
      "w_connects (w_restore w) > 0"
    and "apply_update env w y nd = (r, nd')"
  shows "(r = Inr () \<longleftrightarrow> x_operation x = UpgradeOperation) \<and> installed_bytes y nd' = Some bs \<and> service_up nd'
    \<and> current_package (state_file nd') = current_package (state_file nd)
    \<and> (\<exists>z. attempt (state_file nd') = Some z \<and> x_phase z = Completed \<and> x_status z = restored_previous_status (x_operation x))"
  by (rule failed_target_is_replaced [OF assms])

lemma demo_restorable: "restorable demo_agent demo_plan demo_attempt demo_previous exe_path old_exe handed_over"
  by code_simp

theorem failed_update_restores_previous_witness:
  "installed_bytes demo_plan (snd (apply_update demo_agent failing_world demo_plan handed_over)) = Some old_exe
   \<and> service_up (snd (apply_update demo_agent failing_world demo_plan handed_over))"
proof -
  have t: "parse_package_type (o_package_type (y_offer demo_plan)) = Inr Standalone" by code_simp
  have "w_stop (w_target failing_world) = Inr True" "w_exits failing_world" "w_connects (w_target failing_world) = 0"
      "w_late (w_target failing_world) = 0" "w_stop (w_restore failing_world) = Inr True"
      "w_install (w_restore failing_world) = Inr ()" "w_restart (w_restore failing_world) = Inr ()"
      "w_connects (w_restore failing_world) > 0"
    by (simp_all add: failing_world_def good_install_def dead_target_def)
  from failed_update_restores_previous [OF demo_restorable t this] show ?thesis by (metis prod.collapse)
qed




end
