(* ===== verification/AgentReports.thy ===== *)
theory AgentReports
  imports AgentProperties
begin

text \<open>
  What the server sees of an update: the statuses an agent reports while it prepares and hands over are
  in an order that the server's transition rule accepts.  Two flaws of the updater are stated at the end.
\<close>

subsection \<open>Reports\<close>

definition status_name :: "update_status \<Rightarrow> string" where
  "status_name st = (case st of Waiting \<Rightarrow> ''waiting'' | Downloading \<Rightarrow> ''downloading'' | Verifying \<Rightarrow> ''verifying''
     | WaitingIdle \<Rightarrow> ''waiting_idle'' | Installing \<Rightarrow> ''installing'' | AwaitingRestart \<Rightarrow> ''awaiting_restart''
     | Succeeded \<Rightarrow> ''succeeded'' | RollbackSucceeded \<Rightarrow> ''rollback_succeeded'' | Failed \<Rightarrow> ''failed'')"

fun reported_status :: "agent_inbound \<Rightarrow> update_status" where
  "reported_status (UpdateStatusMessage _ _ _ _ _ st _) = st"
| "reported_status (RollbackStatusMessage _ _ st _) = st"

definition reports :: "node \<Rightarrow> update_status list" where
  "reports nd = map reported_status (inbound nd)"

text \<open>The node works on the offer \<open>off\<close> and has sent the statuses \<open>sts\<close>.\<close>

definition reporting :: "update_offer \<Rightarrow> update_status list \<Rightarrow> node \<Rightarrow> bool" where
  "reporting off sts nd \<longleftrightarrow> (\<exists>x. attempt (state_file nd) = Some x \<and> x_offer x = off) \<and> reports nd = sts"

lemma reporting_send:
  assumes "reporting off sts nd"
  shows "\<exists>nd'. send_status env off st m nd = (Inr (), nd') \<and> reporting off (sts @ [st]) nd'"
  using assms by (auto simp: reporting_def reports_def send_status_for_attempt_def mutate_attempt_def send_message_def
      h_bind_def h_modify_def attempt_status_message_def update_status_message_def Let_def split: attempt_operation.split)

lemma reporting_mutate:
  assumes "reporting off sts nd"
  shows "\<exists>x nd'. set_package_path env off p nd = (Inr x, nd') \<and> reporting off sts nd'"
  using assms by (auto simp: reporting_def reports_def set_package_path_def mutate_attempt_def Let_def)

definition keeps_reports :: "'a node_action \<Rightarrow> bool" where
  "keeps_reports m \<longleftrightarrow> (\<forall>nd. state_file (snd (m nd)) = state_file nd \<and> inbound (snd (m nd)) = inbound nd)"

lemma keeps_reportsD: "keeps_reports m \<Longrightarrow> reporting off sts nd \<Longrightarrow> reporting off sts (snd (m nd))"
  by (simp add: keeps_reports_def reporting_def reports_def)

lemma keeps_reports_simple:
  "keeps_reports (h_lift r)" "keeps_reports (h_guard b e)" "keeps_reports (h_return x)" "keeps_reports (set_file p c)"
  "keeps_reports (read_file p)" "keeps_reports (replace_file p q)" "keeps_reports start_draining" "keeps_reports stop_draining"
  by (auto simp: keeps_reports_def handler_simps set_file_def read_file_def replace_file_def start_draining_def
      stop_draining_def split: option.split)

lemma keeps_reports_bind: "keeps_reports m \<Longrightarrow> (\<And>x. keeps_reports (k x)) \<Longrightarrow> keeps_reports (h_bind m k)"
  by (simp add: keeps_reports_def h_bind_def split: prod.split sum.split) (metis snd_conv)

lemma keeps_reports_then: "keeps_reports m \<Longrightarrow> keeps_reports k \<Longrightarrow> keeps_reports (h_then m k)"
  unfolding h_then_def by (rule keeps_reports_bind)

lemma keeps_reports_prod: "(\<And>a b. keeps_reports (k a b)) \<Longrightarrow> keeps_reports (case p of (a, b) \<Rightarrow> k a b)"
  by (cases p) simp

lemmas keeps_reports_intros = keeps_reports_simple keeps_reports_bind keeps_reports_then keeps_reports_prod

lemma keeps_reports_download: "keeps_reports (download_to_temporary env t off c)"
  unfolding download_to_temporary_def Let_def by (intro keeps_reports_intros)

text \<open>A transfer reports that it verifies, or fails before.\<close>

lemma reporting_fetch:
  assumes "reporting off sts nd" "fetch_package env t off c nd = (r, nd')"
  shows "\<exists>sts'. reporting off sts' nd' \<and> (sts' = sts @ [Verifying] \<or> (sts' = sts \<and> (\<exists>e. r = Inl e)))"
proof -
  let ?after = "\<lambda>tmp checksum. h_bind (read_file tmp) (\<lambda>bs.
      h_then (h_lift (verify_download env off bs checksum))
     (let final_path = package_file env c ''.bin'' in
      h_then (replace_file tmp final_path) (h_return final_path)))"
  have after: "keeps_reports (?after tmp checksum)" for tmp checksum
    unfolding Let_def by (intro keeps_reports_intros)
  show ?thesis
  proof (cases "download_checksum_of t off")
    case (Inl e)
    then show ?thesis using assms by (auto simp: fetch_package_def h_bind_def h_lift_def)
  next
    case (Inr checksum)
    obtain q nd1 where d: "download_to_temporary env t off c nd = (q, nd1)" by fastforce
    have nd1: "reporting off sts nd1" using keeps_reportsD [OF keeps_reports_download assms(1), of env t off c] d by simp
    show ?thesis
    proof (cases q)
      case (Inl e)
      then show ?thesis using assms(2) Inr d nd1 by (auto simp: fetch_package_def h_bind_def h_lift_def)
    next
      case tmp: (Inr tmp)
      obtain nd2 where s: "send_status env off Verifying None nd1 = (Inr (), nd2)" "reporting off (sts @ [Verifying]) nd2"
        using reporting_send [OF nd1] by blast
      have "fetch_package env t off c nd = ?after tmp checksum nd2"
        using Inr d tmp s(1) by (simp add: fetch_package_def h_then_def h_bind_def h_lift_def)
      then have "nd' = snd (?after tmp checksum nd2)" using assms(2) by (metis snd_conv)
      then show ?thesis using keeps_reportsD [OF after s(2)] by blast
    qed
  qed
qed

lemma reporting_begin: "reports nd = sts \<Longrightarrow> \<exists>nd'. begin_attempt env off q nd = (Inr (), nd') \<and> reporting off sts nd'"
  by (simp add: begin_attempt_def h_modify_def reporting_def reports_def)

definition prepared :: "update_offer \<Rightarrow> string + prepare_result \<Rightarrow> update_status list \<Rightarrow> bool" where
  "prepared off r sts \<longleftrightarrow> (case r of
       Inl _ \<Rightarrow> sts \<in> {[], [Waiting, Downloading], [Waiting, Downloading, Verifying]}
     | Inr Finished \<Rightarrow> sts = [Succeeded]
     | Inr (ReadyToApply off') \<Rightarrow> off' = off \<and>
         sts \<in> {[Waiting, Downloading, Verifying], [Waiting, Downloading, Verifying, WaitingIdle]})"

lemma reporting_drain:
  assumes "reporting off sts nd" "drain_and_wait env t off nd = (r, nd')"
  shows "r = Inr (ReadyToApply off) \<and> (reporting off sts nd' \<or> reporting off (sts @ [WaitingIdle]) nd')"
proof -
  let ?nd = "nd\<lparr>draining := True\<rparr>"
  have nd: "reporting off sts ?nd" using assms(1) by (simp add: reporting_def reports_def)
  show ?thesis
  proof (cases "t_active t > 0")
    case True
    obtain nd1 where "send_status env off WaitingIdle (Some (''waiting for active tasks: '' @ dec_string (t_active t))) ?nd = (Inr (), nd1)"
        "reporting off (sts @ [WaitingIdle]) nd1" using reporting_send [OF nd] by blast
    then show ?thesis using assms(2) True
      by (simp add: drain_and_wait_def start_draining_def h_then_def h_bind_def h_modify_def h_return_def)
  next
    case False
    then show ?thesis using assms(2) nd
      by (simp add: drain_and_wait_def start_draining_def h_then_def h_bind_def h_modify_def h_return_def)
  qed
qed

lemma reporting_prepare_inner:
  assumes start: "reports nd = []" and run: "prepare_inner env t off nd = (r, nd')"
  shows "\<exists>sts. reporting off sts nd' \<and> prepared off r sts"
proof -
  obtain nd1 where b: "begin_attempt env off UpgradeOperation nd = (Inr (), nd1)" "reporting off [] nd1"
    using reporting_begin [OF start] by blast
  show ?thesis
  proof (cases "semver env (own_version env)")
    case None
    then show ?thesis using run b by (auto simp: prepare_inner_def h_then_def h_bind_def h_fail_def prepared_def)
  next
    case current: (Some current)
    show ?thesis
    proof (cases "semver env (o_version off)")
      case None
      then show ?thesis using run b current by (auto simp: prepare_inner_def h_then_def h_bind_def h_fail_def prepared_def)
    next
      case target: (Some target)
      consider "target = current" | "target < current" | "\<not> target < current" "target \<noteq> current" by blast
      then show ?thesis
      proof cases
        case 1
        obtain nd2 where "send_status env off Succeeded (Some ''target version is already running'') nd1 = (Inr (), nd2)"
            and s2: "reporting off ([] @ [Succeeded]) nd2" using reporting_send [OF b(2)] by blast
        then have "(r, nd') = (Inr Finished, nd2)" using run b(1) current target 1
          by (simp add: prepare_inner_def h_then_def h_bind_def h_return_def)
        then show ?thesis using s2 by (auto simp: prepared_def)
      next
        case 2
        then have "target \<noteq> current" by auto
        then have "(\<exists>e. r = Inl e) \<and> nd' = nd1" using run b(1) current target 2
          by (auto simp: prepare_inner_def h_then_def h_bind_def h_fail_def)
        then show ?thesis using b(2) by (auto simp: prepared_def)
      next
        case 3
        let ?m = "Some (''spread delay '' @ dec_string (update_delay_seconds env (instance_id env) (o_artifact_id off)))"
        obtain nd2 where w: "send_status env off Waiting ?m nd1 = (Inr (), nd2)" "reporting off ([] @ [Waiting]) nd2"
          using reporting_send [OF b(2)] by blast
        obtain nd3 where d: "send_status env off Downloading None nd2 = (Inr (), nd3)"
            "reporting off (([] @ [Waiting]) @ [Downloading]) nd3" using reporting_send [OF w(2)] by blast
        obtain q nd4 where f: "fetch_package env t off (offer_storage_component off) nd3 = (q, nd4)" by fastforce
        from reporting_fetch [OF d(2) f] obtain sts where sts: "reporting off sts nd4"
            "sts = [Waiting, Downloading, Verifying] \<or> (sts = [Waiting, Downloading] \<and> (\<exists>e. q = Inl e))" by auto
        show ?thesis
        proof (cases q)
          case (Inl e)
          then show ?thesis using run b(1) current target 3 w(1) d(1) f sts
            by (auto simp: prepare_inner_def h_then_def h_bind_def prepared_def)
        next
          case (Inr p)
          then have sts': "sts = [Waiting, Downloading, Verifying]" using sts(2) by simp
          obtain x nd5 where s: "set_package_path env off p nd4 = (Inr x, nd5)" "reporting off sts nd5"
            using reporting_mutate [OF sts(1)] by blast
          have "drain_and_wait env t off nd5 = (r, nd')"
            using run b(1) current target 3 w(1) d(1) f Inr s(1) by (simp add: prepare_inner_def h_then_def h_bind_def)
          from reporting_drain [OF s(2) this] show ?thesis using sts' by (auto simp: prepared_def)
        qed
      qed
    qed
  qed
qed

text \<open>The statuses of a whole offer: a preparation, then its failure or the hand-over.\<close>

definition report_sequences :: "update_status list set" where
  "report_sequences = {[], [Succeeded], [Failed], [Waiting, Downloading, Failed], [Waiting, Downloading, Verifying, Failed],
     [Waiting, Downloading, Verifying, WaitingIdle, Failed], [Waiting, Downloading, Verifying, AwaitingRestart],
     [Waiting, Downloading, Verifying, WaitingIdle, AwaitingRestart]}"

lemma reports_drained: "reports (snd (stop_draining nd)) = reports nd"
  by (simp add: stop_draining_def h_modify_def reports_def)

lemma reporting_failed:
  assumes "reporting off sts nd"
  shows "reports (snd (h_then stop_draining (send_status env off Failed m) nd)) = sts @ [Failed]"
proof -
  have "reporting off sts (nd\<lparr>draining := False\<rparr>)" using assms by (simp add: reporting_def reports_def)
  from reporting_send [OF this] obtain nd1 where "send_status env off Failed m (nd\<lparr>draining := False\<rparr>) = (Inr (), nd1)"
      "reporting off (sts @ [Failed]) nd1" by blast
  then show ?thesis by (simp add: h_then_def h_bind_def stop_draining_def h_modify_def reporting_def)
qed

lemma reporting_spawn:
  assumes "reporting off sts nd" "spawn_updater env r off p nd = (q, nd')"
  shows "reporting off sts nd'"
  using assms unfolding spawn_updater_def keep_installed_def Let_def
  by (auto simp: reporting_def reports_def split: if_splits option.splits sum.splits)

lemma reporting_launch:
  assumes "reporting off sts nd"
  shows "reports (snd (launch_prepared_update env r off nd)) \<in> {sts @ [Failed], sts @ [AwaitingRestart]}"
proof -
  let ?spawn = "case attempt (state_file nd) of
           None \<Rightarrow> (Inl ''prepared update package is missing'', nd)
         | Some x \<Rightarrow> if \<not> offer_generation_matches (x_offer x) off then (Inl ''prepared update package is missing'', nd)
           else (case x_package_path x of None \<Rightarrow> (Inl ''prepared update package is missing'', nd)
             | Some p \<Rightarrow> spawn_updater env r off p nd)"
  obtain q nd1 where q: "?spawn = (q, nd1)" by fastforce
  then have nd1: "reporting off sts nd1" using assms reporting_spawn by (auto split: option.splits if_splits)
  show ?thesis
  proof (cases q)
    case (Inl e)
    have "launch_prepared_update env r off nd =
        (False, snd (h_then stop_draining (send_status env off Failed (Some (''failed to launch detached updater: '' @ e))) nd1))"
      using Inl unfolding launch_prepared_update_def q prod.case Let_def by simp
    then show ?thesis using reporting_failed [OF nd1, of env "Some (''failed to launch detached updater: '' @ e)"] by simp
  next
    case (Inr u)
    have "reports (snd (mark_handoff_started env off m nd1)) = sts @ [AwaitingRestart]" for m
      using nd1 by (auto simp: reporting_def reports_def mark_handoff_started_def mutate_attempt_def send_message_def
          h_bind_def h_modify_def attempt_status_message_def update_status_message_def Let_def split: attempt_operation.split)
    then show ?thesis using Inr unfolding launch_prepared_update_def q prod.case Let_def by simp
  qed
qed

lemma offer_reports:
  assumes "reports nd = []"
  shows "reports (handle_offer env t r off nd) \<in> report_sequences"
proof (cases "can_start_offer env off nd = Inr True")
  case False
  then show ?thesis using assms by (simp add: handle_offer_def report_sequences_def)
next
  case start: True
  show ?thesis
  proof (cases "validate_offer env off")
    case (Inl e)
    then show ?thesis using start assms
      by (simp add: handle_offer_def launch_when_ready_def prepare_def report_failure_def send_message_def stop_draining_def
          h_then_def h_bind_def h_modify_def reports_def update_status_message_def report_sequences_def)
  next
    case valid: (Inr u)
    obtain q nd1 where i: "prepare_inner env t off nd = (q, nd1)" by fastforce
    from reporting_prepare_inner [OF assms i] obtain sts where sts: "reporting off sts nd1" "prepared off q sts" by blast
    show ?thesis
    proof (cases q)
      case (Inl e)
      have "handle_offer env t r off nd =
          snd (stop_draining (snd (h_then stop_draining (send_status env off Failed (Some e)) nd1)))"
        using start valid i Inl by (simp add: handle_offer_def launch_when_ready_def prepare_def report_failure_def)
      then show ?thesis using reporting_failed [OF sts(1), of env "Some e"] sts(2) Inl
        by (auto simp: reports_drained prepared_def report_sequences_def)
    next
      case ready: (Inr p)
      show ?thesis
      proof (cases p)
        case Finished
        then show ?thesis using start valid i ready sts
          by (simp add: handle_offer_def launch_when_ready_def prepare_def reports_drained prepared_def report_sequences_def reporting_def)
      next
        case (ReadyToApply off')
        then have "off' = off" using sts(2) ready by (simp add: prepared_def)
        then have "handle_offer env t r off nd = snd (launch_prepared_update env r off nd1)"
          using start valid i ready ReadyToApply by (simp add: handle_offer_def launch_when_ready_def prepare_def)
        then show ?thesis using reporting_launch [OF sts(1), of env r] sts(2) ready ReadyToApply
          by (auto simp: prepared_def report_sequences_def)
      qed
    qed
  qed
qed

lemma sequences_accepted:
  "sts \<in> report_sequences \<Longrightarrow> successively update_status_transition_allowed (''pending'' # map status_name sts)"
  unfolding report_sequences_def
  by (elim insertE emptyE) (simp_all add: update_status_transition_allowed_def status_name_def terminal_attempt_statuses_def
      status_progress_def)

text \<open>
  C26: The agent and the server agree on the order of an update.  Whatever happens to an offer on the agent,
  be it refused, failed, already installed or handed over, the statuses the agent sends for it are, in the
  order in which it sends them, transitions that the server accepts for a pending attempt.
\<close>

theorem agent_reports_are_accepted:
  assumes "inbound nd = []"
  shows "successively update_status_transition_allowed
    (''pending'' # map (\<lambda>m. status_name (reported_status m)) (inbound (handle_offer env t r off nd)))"
proof -
  have "reports (handle_offer env t r off nd) \<in> report_sequences" by (rule offer_reports) (simp add: reports_def assms)
  from sequences_accepted [OF this] show ?thesis by (simp add: reports_def comp_def)
qed

theorem agent_reports_are_accepted_witness:
  "successively update_status_transition_allowed (''pending'' # map (\<lambda>m. status_name (reported_status m))
     (inbound (handle_offer demo_agent good_transfer (Inr ()) good_offer (new_node demo_agent old_exe))))"
  by (rule agent_reports_are_accepted) (simp add: new_node_def)

subsection \<open>Two flaws\<close>

text \<open>
  When the staged package and the previous package are both damaged, the updater ends with the service
  stopped, although the executable is untouched: only a missing previous package restarts the service.
\<close>

lemma apply_steps:
  assumes "plan_handoff_is_active y nd" "parse_package_type (o_package_type (y_offer y)) = Inr t"
    and "w_stop (w_target w) = Inr True" "w_exits w"
  obtains nd1 where "apply_update_inner env w y nd = installation_phase env w y t nd1" "plan_is_current y nd1"
    "disk nd1 = disk nd" "\<not> service_up nd1"
proof -
  obtain x where x: "attempt (state_file nd) = Some x" "offer_generation_matches (x_offer x) (y_offer y)" "x_phase x = TargetPhase"
    using assms(1) by (auto simp: plan_handoff_is_active_def split: option.splits)
  have p0: "progress x (x_status x) TargetPhase (current_package (state_file nd)) (disk nd) (service_up nd) nd"
    using progress_start [OF x(1)] x(3) by simp
  let ?nd = "nd\<lparr>service_up := False, health_file := None\<rparr>"
  have p1: "progress x (x_status x) TargetPhase (current_package (state_file nd)) (disk nd) False ?nd"
    by (rule progress_update(1) [OF progress_update(3) [OF p0]])
  obtain nd1 where p: "persist_apply_status env y Installing TargetPhase None ?nd = (Inr (), nd1)"
      "progress x Installing TargetPhase (current_package (state_file nd)) (disk nd) False nd1"
    using progress_persist [OF p1 x(2)] by blast
  have "apply_update_inner env w y nd = installation_phase env w y t nd1"
    using assms p(1) handoff_current [OF assms(1)]
    by (simp add: apply_update_inner_def h_then_def h_bind_def check_def h_lift_def h_guard_def h_return_def
        stop_standalone_service_def remove_health_def h_modify_def plan_is_current_def plan_handoff_is_active_def)
  then show ?thesis using that p(2) x(2) by (auto simp: progress_def plan_is_current_def same_work_def)
qed

lemma persist_world:
  assumes "persist_apply_status env y st ph m nd = (q, nd')"
  shows "disk nd' = disk nd" "service_up nd' = service_up nd"
  using assms by (auto simp: persist_apply_status_def h_modify_def split: option.splits if_splits)

theorem damaged_packages_stop_the_agent:
  assumes "plan_handoff_is_active y nd" "parse_package_type (o_package_type (y_offer y)) = Inr t"
    and "w_stop (w_target w) = Inr True" "w_exits w" and "y_previous y = Some k"
    and "\<not> is_ok (verify_package_at_rest env (disk nd) (y_package_path y) (o_size_bytes (y_offer y)) (o_sha256 (y_offer y)))"
    and "\<not> is_ok (verify_package_at_rest env (disk nd) (p_path k) (p_size_bytes k) (p_sha256 k))"
    and "apply_update env w y nd = (r, nd')"
  shows "\<not> service_up nd' \<and> disk nd' = disk nd"
proof -
  let ?nd = "nd\<lparr>lock_owner := Some (y_lock_owner y)\<rparr>"
  have act: "plan_handoff_is_active y ?nd" using assms(1) handoff_lock by simp
  obtain nd1 where nd1: "apply_update_inner env w y ?nd = installation_phase env w y t nd1"
      "disk nd1 = disk ?nd" "\<not> service_up nd1" by (rule apply_steps [OF act assms(2-4)])
  have "\<exists>e. try_bind (to_u64 (o_size_bytes (y_offer y))) (\<lambda>n. verify_package_at_rest env (disk nd1) (y_package_path y) n (o_sha256 (y_offer y))) = Inl e"
    using assms(6) nd1(2) by (cases "to_u64 (o_size_bytes (y_offer y))")
      (auto simp: to_u64_def elim!: is_ok.elims split: if_splits sum.splits)
  then obtain e where e: "target_installation env (w_target w) y nd1 = (Inl e, nd1)"
    by (auto simp: target_installation_def h_then_def h_bind_def h_lift_def)
  obtain f where f: "verify_package_at_rest env (disk nd) (p_path k) (p_size_bytes k) (p_sha256 k) = Inl f"
    using assms(7) by (cases "verify_package_at_rest env (disk nd) (p_path k) (p_size_bytes k) (p_sha256 k)") auto
  let ?m = "''target package installation failed: '' @ e"
  obtain q nd2 where q: "persist_apply_status env y Installing RollbackPhase (Some ?m) (nd1\<lparr>health_file := None\<rparr>) = (q, nd2)"
    by fastforce
  have nd2: "q = Inr ()" "disk nd2 = disk nd" "\<not> service_up nd2"
    using persist_world [OF q] persist_state(1) [OF q] nd1(2,3) by simp_all
  have "apply_update_inner env w y ?nd = (Inl f, nd2)"
    using nd1(1) e assms(5) q nd2 f
    by (simp add: installation_phase_def attempt_rollback_def remove_health_def h_then_def h_bind_def h_modify_def h_lift_def)
  moreover obtain q' nd3 where q': "persist_apply_status env y Failed Completed (Some (''updater failed: '' @ f)) nd2 = (q', nd3)"
    by fastforce
  moreover have "disk nd3 = disk nd" "\<not> service_up nd3"
    using persist_world [OF q'] nd2(2,3) by simp_all
  ultimately show ?thesis using assms(8) act by (auto simp: apply_update_def h_then_def h_bind_def check_def)
qed

text \<open>
  An agent that connects after the time-out and before the updater takes note of it finishes the attempt;
  the updater still restores the previous agent, and the failed target stays the current package.
\<close>

definition late_target :: install_world where
  "late_target = \<lparr>w_stop = Inr True, w_install = Inr (), w_restart = Inr (), w_connects = 0, w_late = 1\<rparr>"

definition late_world :: apply_world where
  "late_world = \<lparr>w_exits = True, w_target = late_target, w_restore = good_install\<rparr>"

theorem late_connection_leaves_failed_target_current:
  "(let nd = snd (apply_update demo_agent late_world demo_plan handed_over) in
      installed_bytes demo_plan nd = Some old_exe \<and> map_option p_version (current_package (state_file nd)) = Some ''1.2.0''
      \<and> map_option p_version (rollback_baseline (state_file nd)) = Some ''1.1.0''
      \<and> map_option x_status (attempt (state_file nd)) = Some RollbackSucceeded)"
  by code_simp

end
