(* ===== verification/Utf8.thy ===== *)
theory Utf8
  imports Prelude
begin

text \<open>
  UTF-8 as Rust's standard library decodes it: \<open>str::from_utf8\<close> with the position and the length of the
  first error, \<open>String::from_utf8_lossy\<close>, and the boundaries of characters.  Text and raw bytes are both
  lists of characters that stand for bytes, so a valid piece decodes to itself.
\<close>

definition byte_value :: "char \<Rightarrow> nat" where
  "byte_value c = of_char c"

definition continuation :: "char \<Rightarrow> bool" where
  "continuation c \<longleftrightarrow> 0x80 \<le> byte_value c \<and> byte_value c < 0xC0"

text \<open>The second byte of a sequence of three and of four bytes, after the first: no overlong forms, no surrogates.\<close>

definition second_of_three :: "char \<Rightarrow> char \<Rightarrow> bool" where
  "second_of_three a b \<longleftrightarrow> continuation b \<and> (byte_value a = 0xE0 \<longrightarrow> 0xA0 \<le> byte_value b) \<and> (byte_value a = 0xED \<longrightarrow> byte_value b < 0xA0)"

definition second_of_four :: "char \<Rightarrow> char \<Rightarrow> bool" where
  "second_of_four a b \<longleftrightarrow> continuation b \<and> (byte_value a = 0xF0 \<longrightarrow> 0x90 \<le> byte_value b) \<and> (byte_value a = 0xF4 \<longrightarrow> byte_value b < 0x90)"

text \<open>What a byte string starts with: a character, an error of so many bytes, or the beginning of a character.\<close>

datatype utf8_next = Valid nat | Invalid nat | Incomplete

fun next_char :: "string \<Rightarrow> utf8_next" where
  "next_char [] = Incomplete"
| "next_char (a # s) =
    (if byte_value a < 0x80 then Valid 1
     else if 0xC2 \<le> byte_value a \<and> byte_value a < 0xE0 then
       (case s of [] \<Rightarrow> Incomplete | b # _ \<Rightarrow> if continuation b then Valid 2 else Invalid 1)
     else if 0xE0 \<le> byte_value a \<and> byte_value a < 0xF0 then
       (case s of [] \<Rightarrow> Incomplete | b # s \<Rightarrow> if \<not> second_of_three a b then Invalid 1
        else (case s of [] \<Rightarrow> Incomplete | c # _ \<Rightarrow> if continuation c then Valid 3 else Invalid 2))
     else if 0xF0 \<le> byte_value a \<and> byte_value a < 0xF5 then
       (case s of [] \<Rightarrow> Incomplete | b # s \<Rightarrow> if \<not> second_of_four a b then Invalid 1
        else (case s of [] \<Rightarrow> Incomplete | c # s \<Rightarrow> if \<not> continuation c then Invalid 2
          else (case s of [] \<Rightarrow> Incomplete | d # _ \<Rightarrow> if continuation d then Valid 4 else Invalid 3)))
     else Invalid 1)"

lemma next_char_length:
  "next_char s = Valid n \<Longrightarrow> 0 < n \<and> n \<le> length s" "next_char s = Invalid n \<Longrightarrow> 0 < n \<and> n \<le> length s"
  by (cases s; auto split: if_splits list.splits)+

lemma next_char_incomplete: "next_char s = Incomplete \<Longrightarrow> length s < 4"
  by (cases s; auto split: if_splits list.splits)

text \<open>What is decided stays decided when more bytes arrive.\<close>

lemma next_char_append:
  "next_char s = Valid n \<Longrightarrow> next_char (s @ r) = Valid n" "next_char s = Invalid n \<Longrightarrow> next_char (s @ r) = Invalid n"
  by (cases s; auto split: if_splits list.splits)+

text \<open>The valid prefix alone is as valid.\<close>

lemma next_char_take: "next_char s = Valid n \<Longrightarrow> n \<le> k \<Longrightarrow> next_char (take k s) = Valid n"
proof -
  assume s: "next_char s = Valid n" and k: "n \<le> k"
  have "next_char (take n s) = Valid n"
    using s by (cases s; auto split: if_splits list.splits simp: numeral_eq_Suc)
  moreover have "take k s = take n s @ take (k - n) (drop n s)" using k by (metis le_add_diff_inverse take_add)
  ultimately show ?thesis using next_char_append(1) by metis
qed

text \<open>\<open>from_utf8\<close>: \<open>None\<close> for valid text, else \<open>valid_up_to\<close> and \<open>error_len\<close>.\<close>

function from_utf8 :: "string \<Rightarrow> (nat \<times> nat option) option" where
  "from_utf8 s = (if s = [] then None else case next_char s of
       Valid n \<Rightarrow> map_option (\<lambda>(v, e). (n + v, e)) (from_utf8 (drop n s))
     | Invalid n \<Rightarrow> Some (0, Some n)
     | Incomplete \<Rightarrow> Some (0, None))"
  by pat_completeness auto
termination
  by (relation "measure length") (auto dest: next_char_length)

declare from_utf8.simps [simp del]

definition replacement :: string where
  "replacement = [CHR 0xEF, CHR 0xBF, CHR 0xBD]"

function from_utf8_lossy :: "string \<Rightarrow> string" where
  "from_utf8_lossy s = (if s = [] then [] else case next_char s of
       Valid n \<Rightarrow> take n s @ from_utf8_lossy (drop n s)
     | Invalid n \<Rightarrow> replacement @ from_utf8_lossy (drop n s)
     | Incomplete \<Rightarrow> replacement)"
  by pat_completeness auto
termination
  by (relation "measure length") (auto dest: next_char_length)

declare from_utf8_lossy.simps [simp del]

lemma lossy_steps:
  "from_utf8_lossy [] = []"
  "next_char s = Valid n \<Longrightarrow> from_utf8_lossy s = take n s @ from_utf8_lossy (drop n s)"
  "next_char s = Invalid n \<Longrightarrow> from_utf8_lossy s = replacement @ from_utf8_lossy (drop n s)"
  "next_char s = Incomplete \<Longrightarrow> s \<noteq> [] \<Longrightarrow> from_utf8_lossy s = replacement"
  by (auto simp: from_utf8_lossy.simps [of s] from_utf8_lossy.simps [of "[]"])

definition utf8 :: "string \<Rightarrow> bool" where
  "utf8 s \<longleftrightarrow> from_utf8 s = None"

lemma utf8_Nil [simp]: "utf8 []"
  by (simp add: utf8_def from_utf8.simps)

lemma utf8_step: "next_char s = Valid n \<Longrightarrow> utf8 s \<longleftrightarrow> utf8 (drop n s)"
  by (cases "s = []") (simp_all add: utf8_def from_utf8.simps [of s])

lemma utf8_valid: "utf8 s \<Longrightarrow> s \<noteq> [] \<Longrightarrow> \<exists>n. next_char s = Valid n"
  by (simp add: utf8_def from_utf8.simps [of s] split: utf8_next.splits)

lemma utf8_append: "utf8 s \<Longrightarrow> utf8 t \<Longrightarrow> utf8 (s @ t)"
proof (induction s rule: from_utf8.induct)
  case (1 s)
  show ?case
  proof (cases "s = []")
    case True
    then show ?thesis using 1 by simp
  next
    case False
    then obtain n where n: "next_char s = Valid n" using utf8_valid 1(2) by blast
    then have "utf8 (drop n s @ t)" using 1(1) [OF False n] 1(2,3) utf8_step by blast
    moreover have "drop n (s @ t) = drop n s @ t" using next_char_length(1) [OF n] by simp
    ultimately show ?thesis using utf8_step [OF next_char_append(1) [OF n]] by simp
  qed
qed

text \<open>\<open>valid_up_to\<close> bytes are valid text, and what follows them is an error or an unfinished character.\<close>

lemma from_utf8_error:
  "from_utf8 s = Some (v, e) \<Longrightarrow> v < length s \<and> utf8 (take v s) \<and>
     next_char (drop v s) = (case e of Some n \<Rightarrow> Invalid n | None \<Rightarrow> Incomplete)"
proof (induction s arbitrary: v rule: from_utf8.induct)
  case (1 s)
  have ne: "s \<noteq> []" using 1(2) by (auto simp: from_utf8.simps)
  show ?case
  proof (cases "next_char s")
    case (Valid n)
    then obtain v' where v': "from_utf8 (drop n s) = Some (v', e)" "v = n + v'"
      using 1(2) ne by (auto simp: from_utf8.simps [of s])
    from 1(1) [OF ne Valid v'(1)] have ih: "v' < length (drop n s)" "utf8 (take v' (drop n s))"
        "next_char (drop v' (drop n s)) = (case e of Some n \<Rightarrow> Invalid n | None \<Rightarrow> Incomplete)" by auto
    have "next_char (take v s) = Valid n" using next_char_take [OF Valid] v'(2) by simp
    moreover have "drop n (take v s) = take v' (drop n s)" using v'(2) by (simp add: drop_take)
    ultimately have "utf8 (take v s)" using utf8_step ih(2) by metis
    then show ?thesis using ih v'(2) by (simp add: add.commute less_diff_conv)
  next
    case (Invalid n)
    then show ?thesis using 1(2) ne by (auto simp: from_utf8.simps [of s])
  next
    case Incomplete
    then show ?thesis using 1(2) ne by (auto simp: from_utf8.simps [of s])
  qed
qed

lemma lossy_utf8_prefix: "utf8 s \<Longrightarrow> from_utf8_lossy (s @ t) = s @ from_utf8_lossy t"
proof (induction s rule: from_utf8.induct)
  case (1 s)
  show ?case
  proof (cases "s = []")
    case False
    then obtain n where n: "next_char s = Valid n" using utf8_valid 1(2) by blast
    then have "from_utf8_lossy (drop n s @ t) = drop n s @ from_utf8_lossy t"
      using 1(1) [OF False n] 1(2) utf8_step by blast
    moreover have "drop n (s @ t) = drop n s @ t" "take n (s @ t) = take n s" using next_char_length(1) [OF n] by simp_all
    ultimately show ?thesis using lossy_steps(2) [OF next_char_append(1) [OF n], of t]
      by (metis append.assoc append_take_drop_id)
  qed simp
qed

lemma lossy_id: "utf8 s \<Longrightarrow> from_utf8_lossy s = s"
  using lossy_utf8_prefix [of s "[]"] by (simp add: lossy_steps(1))

lemma utf8_replacement [simp]: "utf8 replacement"
proof -
  have "next_char replacement = Valid 3"
    by (simp add: replacement_def byte_value_def continuation_def second_of_three_def)
  then show ?thesis using utf8_step [of replacement 3] by (simp add: replacement_def)
qed

lemma utf8_take_next: "next_char s = Valid n \<Longrightarrow> utf8 (take n s)"
  using utf8_step [OF next_char_take [of s n n]] by simp

lemma utf8_lossy: "utf8 (from_utf8_lossy s)"
proof (induction s rule: from_utf8_lossy.induct)
  case (1 s)
  show ?case
  proof (cases "s = []")
    case False
    then show ?thesis
      by (cases "next_char s") (simp_all add: lossy_steps 1 utf8_append utf8_take_next)
  qed (simp add: lossy_steps(1))
qed

lemma length_lossy: "length (from_utf8_lossy s) \<le> 3 * length s"
proof (induction s rule: from_utf8_lossy.induct)
  case (1 s)
  have ne: "s \<noteq> [] \<Longrightarrow> 1 \<le> length s" by (cases s) auto
  show ?case
  proof (cases "next_char s")
    case (Valid n)
    then have "s \<noteq> []" by auto
    from 1(1) [OF this Valid] have "length (from_utf8_lossy (drop n s)) \<le> 3 * (length s - n)" by simp
    moreover have "0 < n" "n \<le> length s" using next_char_length(1) [OF Valid] by auto
    ultimately show ?thesis by (simp add: lossy_steps(2) [OF Valid])
  next
    case (Invalid n)
    then have "s \<noteq> []" by auto
    from 1(2) [OF this Invalid] have "length (from_utf8_lossy (drop n s)) \<le> 3 * (length s - n)" by simp
    moreover have "0 < n" "n \<le> length s" using next_char_length(2) [OF Invalid] by auto
    ultimately show ?thesis by (simp add: lossy_steps(3) [OF Invalid] replacement_def)
  next
    case Incomplete
    then show ?thesis using ne by (cases "s = []") (simp_all add: lossy_steps replacement_def)
  qed
qed

text \<open>\<open>char_indices\<close>: where the characters of a text begin.\<close>

function char_starts :: "string \<Rightarrow> nat list" where
  "char_starts s = (if s = [] then [] else case next_char s of
       Valid n \<Rightarrow> 0 # map (\<lambda>k. n + k) (char_starts (drop n s))
     | Invalid n \<Rightarrow> [] | Incomplete \<Rightarrow> [])"
  by pat_completeness auto
termination
  by (relation "measure length") (auto dest: next_char_length)

declare char_starts.simps [simp del]

lemma char_starts_utf8: "k \<in> set (char_starts s) \<Longrightarrow> utf8 (take k s) \<and> k \<le> length s"
proof (induction s arbitrary: k rule: char_starts.induct)
  case (1 s)
  show ?case
  proof (cases "s = [] \<or> k = 0")
    case True
    then show ?thesis using 1(2) by (auto simp: char_starts.simps [of s])
  next
    case False
    then obtain n k' where n: "next_char s = Valid n" and k: "k = n + k'" "k' \<in> set (char_starts (drop n s))"
      using 1(2) by (cases "next_char s") (auto simp: char_starts.simps [of s])
    have "utf8 (take k' (drop n s)) \<and> k' \<le> length (drop n s)" using 1(1) n k(2) False by blast
    moreover have "take k s = take n s @ take k' (drop n s)" by (simp add: k(1) take_add)
    ultimately show ?thesis using next_char_length(1) [OF n] utf8_append [OF utf8_take_next [OF n]] k(1) by auto
  qed
qed

end
