(* ===== verification/CommandJobs.thy ===== *)
theory CommandJobs
  imports Tables
begin

text \<open>
  The table of command jobs (\<open>backend/src/jobs.rs\<close>): a job is queued, then running on one connection of
  the agent, then completed or failed.  Each definition is one SQL statement with its conditions; the
  order in which concurrent tasks issue them is in \<open>ConnectionHub\<close>.
\<close>

definition command_timeout_seconds :: int where "command_timeout_seconds = 60 * 60"
definition max_inflight_commands_per_instance :: nat where "max_inflight_commands_per_instance = 4"
definition max_command_output_bytes :: nat where "max_command_output_bytes = 1024 * 1024"

datatype job_status = Queued | Running | JobCompleted | JobFailed

record command_job =
  j_id :: string
  j_command_id :: "string option"
  j_instance :: string
  j_command :: string
  j_status :: job_status
  j_requested_by :: string
  j_created_at :: int
  j_started_at :: "int option"
  j_completed_at :: "int option"
  j_output :: string
  j_exit_code :: "int option"
  j_connection :: "string option"

definition inflight :: "command_job \<Rightarrow> bool" where
  "inflight j \<longleftrightarrow> j_status j = Queued \<or> j_status j = Running"

definition inflight_count :: "string \<Rightarrow> command_job list \<Rightarrow> nat" where
  "inflight_count i js = length (filter (\<lambda>j. j_instance j = i \<and> inflight j) js)"

definition new_job :: "int \<Rightarrow> string \<Rightarrow> string option \<Rightarrow> string \<Rightarrow> string \<Rightarrow> string \<Rightarrow> command_job" where
  "new_job t jid cid i cmd actor = \<lparr>j_id = jid, j_command_id = cid, j_instance = i, j_command = cmd, j_status = Queued,
     j_requested_by = actor, j_created_at = t, j_started_at = None, j_completed_at = None, j_output = [],
     j_exit_code = None, j_connection = None\<rparr>"

text \<open>
  The transaction of \<open>create_command_job\<close>: the advisory lock of the instance makes the count and the
  insertion one step.
\<close>

definition create_job_tx ::
  "int \<Rightarrow> string \<Rightarrow> string option \<Rightarrow> string \<Rightarrow> string \<Rightarrow> string \<Rightarrow> command_job list \<Rightarrow> (command_job list) result" where
  "create_job_tx t jid cid i cmd actor js =
     (if inflight_count i js \<ge> max_inflight_commands_per_instance
      then Inl (app_error_new 429 ''too many commands in flight'')
      else Inr (js @ [new_job t jid cid i cmd actor]))"

text \<open>The update of \<open>dispatch_command\<close>; the flag says whether one row was affected.\<close>

definition job_matches :: "string \<Rightarrow> string \<Rightarrow> job_status \<Rightarrow> command_job \<Rightarrow> bool" where
  "job_matches jid i st j \<longleftrightarrow> j_id j = jid \<and> j_instance j = i \<and> j_status j = st"

definition on_connection :: "string \<Rightarrow> command_job \<Rightarrow> bool" where
  "on_connection c j \<longleftrightarrow> j_connection j = Some c"

definition affected :: "(command_job \<Rightarrow> bool) \<Rightarrow> command_job list \<Rightarrow> nat" where
  "affected p js = length (filter p js)"

definition start_job :: "int \<Rightarrow> string \<Rightarrow> string \<Rightarrow> string \<Rightarrow> command_job list \<Rightarrow> bool \<times> command_job list" where
  "start_job t jid i c js = (affected (job_matches jid i Queued) js = 1,
     update_where (job_matches jid i Queued) (\<lambda>j. j\<lparr>j_status := Running, j_started_at := Some t, j_connection := Some c\<rparr>) js)"

definition completion_status :: "int \<Rightarrow> job_status" where
  "completion_status code = (if code = 0 then JobCompleted else JobFailed)"

definition complete_command_job ::
  "int \<Rightarrow> string \<Rightarrow> string \<Rightarrow> string \<Rightarrow> int \<Rightarrow> string \<Rightarrow> command_job list \<Rightarrow> bool \<times> command_job list" where
  "complete_command_job t jid i c code out js =
     (let p = (\<lambda>j. job_matches jid i Running j \<and> on_connection c j)
      in (affected p js = 1, update_where p (\<lambda>j. j\<lparr>j_status := completion_status code, j_completed_at := Some t,
            j_output := out, j_exit_code := Some code\<rparr>) js))"

definition append_output :: "string \<Rightarrow> command_job \<Rightarrow> command_job" where
  "append_output out j = j\<lparr>j_output := (if length (j_output j) + length out \<le> max_command_output_bytes
     then j_output j @ out else j_output j)\<rparr>"

definition append_command_job_output ::
  "string \<Rightarrow> string \<Rightarrow> string \<Rightarrow> string \<Rightarrow> command_job list \<Rightarrow> bool \<times> command_job list" where
  "append_command_job_output jid i c out js =
     (let p = (\<lambda>j. job_matches jid i Running j \<and> on_connection c j)
      in (affected p js = 1, update_where p (append_output out) js))"

definition failed_job :: "int \<Rightarrow> string \<Rightarrow> command_job \<Rightarrow> command_job" where
  "failed_job t msg j = j\<lparr>j_status := JobFailed, j_completed_at := Some t, j_output := msg, j_exit_code := Some (-1)\<rparr>"

definition fail_connection_command_jobs :: "int \<Rightarrow> string \<Rightarrow> string \<Rightarrow> command_job list \<Rightarrow> command_job list" where
  "fail_connection_command_jobs t i c = update_where
     (\<lambda>j. j_instance j = i \<and> on_connection c j \<and> j_status j = Running)
     (failed_job t ''connection lost, the result of the command is unknown'')"

definition sat_cutoff :: "int \<Rightarrow> int" where
  "sat_cutoff t = max (- (2 ^ 63)) (t - command_timeout_seconds)"

definition expire_command_jobs :: "int \<Rightarrow> command_job list \<Rightarrow> command_job list" where
  "expire_command_jobs t = update_where
     (\<lambda>j. j_status j = Running \<and> (case j_started_at j of None \<Rightarrow> False | Some s \<Rightarrow> s < sat_cutoff t))
     (failed_job t ''command ran for more than 60 minutes, the result is unknown'')"

definition fail_queued_command_job :: "int \<Rightarrow> string \<Rightarrow> string \<Rightarrow> string \<Rightarrow> command_job list \<Rightarrow> command_job list" where
  "fail_queued_command_job t jid i msg = update_where (job_matches jid i Queued) (failed_job t msg)"

definition fail_running_command_job ::
  "int \<Rightarrow> string \<Rightarrow> string \<Rightarrow> string \<Rightarrow> string \<Rightarrow> command_job list \<Rightarrow> command_job list" where
  "fail_running_command_job t jid i c msg =
     update_where (\<lambda>j. job_matches jid i Running j \<and> on_connection c j) (failed_job t msg)"

text \<open>At start-up (\<open>db.rs\<close>) no task of an earlier process is left.\<close>

definition terminate_all_jobs :: "int \<Rightarrow> command_job list \<Rightarrow> command_job list" where
  "terminate_all_jobs t = update_where inflight (failed_job t ''the server was restarted, the command was terminated'')"

lemmas job_statements = start_job_def complete_command_job_def append_command_job_output_def
  fail_connection_command_jobs_def expire_command_jobs_def fail_queued_command_job_def fail_running_command_job_def
  terminate_all_jobs_def

subsection \<open>Well-formed rows\<close>

definition job_ok :: "command_job \<Rightarrow> bool" where
  "job_ok j \<longleftrightarrow> length (j_output j) \<le> max_command_output_bytes \<and> (j_started_at j = None \<longleftrightarrow> j_connection j = None) \<and>
     (case j_status j of
        Queued \<Rightarrow> j_started_at j = None \<and> j_completed_at j = None \<and> j_exit_code j = None \<and> j_output j = []
      | Running \<Rightarrow> j_started_at j \<noteq> None \<and> j_completed_at j = None \<and> j_exit_code j = None
      | JobCompleted \<Rightarrow> j_started_at j \<noteq> None \<and> j_completed_at j \<noteq> None \<and> j_exit_code j = Some 0
      | JobFailed \<Rightarrow> j_completed_at j \<noteq> None \<and> (\<exists>e. j_exit_code j = Some e \<and> e \<noteq> 0))"

text \<open>What a statement may do to a row: it keeps what identifies the job, and never reopens it.\<close>

definition job_moves :: "command_job \<Rightarrow> command_job \<Rightarrow> bool" where
  "job_moves j k \<longleftrightarrow> j_id k = j_id j \<and> j_command_id k = j_command_id j \<and> j_instance k = j_instance j \<and>
     j_command k = j_command j \<and> j_requested_by k = j_requested_by j \<and> j_created_at k = j_created_at j \<and>
     (inflight k \<longrightarrow> inflight j) \<and> (\<not> inflight j \<longrightarrow> k = j) \<and> (job_ok j \<longrightarrow> job_ok k)"

lemma job_moves_refl [simp]: "job_moves j j"
  by (simp add: job_moves_def)

lemma job_moves_finished: "job_moves j k \<Longrightarrow> \<not> inflight j \<Longrightarrow> k = j"
  by (simp add: job_moves_def)

lemma job_moves_ok: "job_moves j k \<Longrightarrow> job_ok j \<Longrightarrow> job_ok k"
  by (simp add: job_moves_def)

lemma job_moves_inflight: "job_moves j k \<Longrightarrow> inflight k \<Longrightarrow> inflight j"
  and job_moves_same: "job_moves j k \<Longrightarrow> j_id k = j_id j" "job_moves j k \<Longrightarrow> j_instance k = j_instance j"
  by (simp_all add: job_moves_def)

definition jobs_move :: "command_job list \<Rightarrow> command_job list \<Rightarrow> bool" where
  "jobs_move js ks \<longleftrightarrow> list_all2 job_moves js ks"

lemma jobs_move_update_where: "(\<And>j. p j \<Longrightarrow> job_moves j (f j)) \<Longrightarrow> jobs_move js (update_where p f js)"
  by (simp add: jobs_move_def update_where_def list_all2_conv_all_nth)

lemma jobs_move_refl [simp]: "jobs_move js js"
  by (simp add: jobs_move_def list_all2_conv_all_nth)

lemma short_messages [simp]:
  "length m \<le> 64 \<Longrightarrow> length m \<le> max_command_output_bytes"
  by (simp add: max_command_output_bytes_def)

lemma failed_job_moves: "inflight j \<Longrightarrow> length m \<le> 64 \<Longrightarrow> job_moves j (failed_job t m j)"
  by (auto simp: job_moves_def failed_job_def inflight_def job_ok_def max_command_output_bytes_def)

lemma jobs_move_statements [simp]:
  "jobs_move js (snd (start_job t jid i c js))"
  "length out \<le> max_command_output_bytes \<Longrightarrow> jobs_move js (snd (complete_command_job t jid i c code out js))"
  "jobs_move js (snd (append_command_job_output jid i c out js))"
  "jobs_move js (fail_connection_command_jobs t i c js)"
  "jobs_move js (expire_command_jobs t js)"
  "length m \<le> 64 \<Longrightarrow> jobs_move js (fail_queued_command_job t jid i m js)"
  "length m \<le> 64 \<Longrightarrow> jobs_move js (fail_running_command_job t jid i c m js)"
  "jobs_move js (terminate_all_jobs t js)"
proof -
  show "jobs_move js (snd (start_job t jid i c js))" unfolding start_job_def snd_conv
    by (rule jobs_move_update_where) (auto simp: job_moves_def job_matches_def inflight_def job_ok_def)
  show "length out \<le> max_command_output_bytes \<Longrightarrow> jobs_move js (snd (complete_command_job t jid i c code out js))"
    unfolding complete_command_job_def Let_def snd_conv
    by (rule jobs_move_update_where) (auto simp: job_moves_def job_matches_def inflight_def job_ok_def completion_status_def)
  show "jobs_move js (snd (append_command_job_output jid i c out js))"
    unfolding append_command_job_output_def Let_def snd_conv
    by (rule jobs_move_update_where) (auto simp: job_moves_def job_matches_def inflight_def job_ok_def append_output_def)
  show "jobs_move js (fail_connection_command_jobs t i c js)" unfolding fail_connection_command_jobs_def
    by (rule jobs_move_update_where) (rule failed_job_moves, simp_all add: inflight_def)
  show "jobs_move js (expire_command_jobs t js)" unfolding expire_command_jobs_def
    by (rule jobs_move_update_where) (rule failed_job_moves, simp_all add: inflight_def)
  show "length m \<le> 64 \<Longrightarrow> jobs_move js (fail_queued_command_job t jid i m js)" unfolding fail_queued_command_job_def
    by (rule jobs_move_update_where) (rule failed_job_moves, simp_all add: inflight_def job_matches_def)
  show "length m \<le> 64 \<Longrightarrow> jobs_move js (fail_running_command_job t jid i c m js)" unfolding fail_running_command_job_def
    by (rule jobs_move_update_where) (rule failed_job_moves, simp_all add: inflight_def job_matches_def)
  show "jobs_move js (terminate_all_jobs t js)" unfolding terminate_all_jobs_def
    by (rule jobs_move_update_where) (rule failed_job_moves, simp_all)
qed

lemma jobs_move_inflight: "jobs_move js ks \<Longrightarrow> inflight_count i ks \<le> inflight_count i js"
  unfolding jobs_move_def inflight_count_def
  by (induction rule: list_all2_induct) (auto simp: job_moves_same dest: job_moves_inflight)

lemma jobs_move_ok: "jobs_move js ks \<Longrightarrow> \<forall>j \<in> set js. job_ok j \<Longrightarrow> \<forall>j \<in> set ks. job_ok j"
  unfolding jobs_move_def by (induction rule: list_all2_induct) (auto dest: job_moves_ok)

lemma jobs_move_ids: "jobs_move js ks \<Longrightarrow> map j_id ks = map j_id js"
  unfolding jobs_move_def by (induction rule: list_all2_induct) (simp_all add: job_moves_same)

lemma jobs_move_back: "jobs_move js ks \<Longrightarrow> k \<in> set ks \<Longrightarrow> \<exists>j \<in> set js. job_moves j k"
  unfolding jobs_move_def by (induction rule: list_all2_induct) auto

lemma jobs_move_finished: "jobs_move js ks \<Longrightarrow> j \<in> set js \<Longrightarrow> \<not> inflight j \<Longrightarrow> j \<in> set ks"
  unfolding jobs_move_def by (induction rule: list_all2_induct) (auto dest: job_moves_finished)

lemma create_job_tx_bound:
  assumes "create_job_tx t jid cid i cmd actor js = Inr ks" "\<And>i. inflight_count i js \<le> max_inflight_commands_per_instance"
  shows "inflight_count i' ks \<le> max_inflight_commands_per_instance"
  using assms(1) assms(2) [of i'] by (auto simp: create_job_tx_def inflight_count_def new_job_def split: if_splits)

lemma inflight_count_delete: "inflight_count i (delete_where p js) \<le> inflight_count i js"
  by (induction js) (auto simp: inflight_count_def delete_where_def)

lemma new_job_ok [simp]: "job_ok (new_job t jid cid i cmd actor)"
  by (simp add: job_ok_def new_job_def)

end
