(* ===== verification/ConnectionHub.thy ===== *)
theory ConnectionHub
  imports CommandJobs
begin

text \<open>
  The connections of the agents to the server (\<open>backend/src/ws.rs\<close>, \<open>state.rs\<close>) and the commands sent
  over them (\<open>jobs.rs\<close>, \<open>handlers/mod.rs\<close>), with every interleaving of the tasks involved: one task for each
  socket, one for each administrator's request that runs a command, one for each revocation.  A rule of
  \<open>hub_step\<close> is what a task does between two points at which it waits; the tables behind a lock and the
  rows of the database are read and written in one step each.
\<close>

subsection \<open>State\<close>

datatype outbound = RunCommand string string | OtherMessage

record agent_handle =
  ah_connection :: string
  ah_capabilities :: "string list"

text \<open>The channel of a connection: \<open>AgentOutboundSender\<close> with the receiver and the shutdown flag.\<close>

record agent_link =
  l_queue :: "outbound list"
  l_closed :: bool
  l_shutdown :: bool

record stored_command =
  sc_text :: string
  sc_enabled :: bool

datatype sock_pc =
    Unused
  | Inserted string "string option"  \<comment> \<open>in the table of agents; the connection it replaced\<close>
  | Checking string                  \<comment> \<open>before the check that the instance may connect\<close>
  | Connected string                 \<comment> \<open>in the loop\<close>
  | Rejected string                  \<comment> \<open>the check failed\<close>
  | Leaving string                   \<comment> \<open>out of the loop\<close>
  | Removed string                   \<comment> \<open>out of the table of agents, before its jobs are failed\<close>
  | Cleaned string                   \<comment> \<open>its jobs are failed, its channel still open\<close>
  | Ended string bool                \<comment> \<open>returned; whether it was rejected\<close>

datatype revoke_pc = NoRevocation | RevokePending string | RevokeFailing string string | RevokeDone | RevokeDropped string

datatype dispatch_pc =
    Idle
  | Admitted string string string string  \<comment> \<open>command, instance, text, administrator\<close>
  | JobQueued string string string        \<comment> \<open>job, instance, text\<close>
  | Offline string string
  | Target string string string string    \<comment> \<open>with the connection that was looked up\<close>
  | Started string string string string
  | Unsent string string string
  | Answered
  | Dropped "string option"               \<comment> \<open>the request was abandoned; the job it had made\<close>

record hub =
  hub_clock :: int
  hub_fleet :: "(string, bool) table"
  hub_commands :: "(string, stored_command) table"
  hub_agents :: "(string, agent_handle) table"
  hub_links :: "(string, agent_link) table"
  hub_jobs :: "command_job list"
  socks :: "string \<Rightarrow> sock_pc"
  revokes :: "nat \<Rightarrow> revoke_pc"
  dispatches :: "nat \<Rightarrow> dispatch_pc"

definition agent_outbound_queue_capacity :: nat where "agent_outbound_queue_capacity = 256"

subsection \<open>Operations\<close>

text \<open>\<open>AgentOutboundSender::send\<close>: a full or closed channel shuts the connection down.\<close>

definition link_send :: "string \<Rightarrow> outbound \<Rightarrow> hub \<Rightarrow> bool \<times> hub" where
  "link_send c m h = (case map_of (hub_links h) c of None \<Rightarrow> (False, h)
     | Some l \<Rightarrow> if l_closed l \<or> length (l_queue l) \<ge> agent_outbound_queue_capacity
         then (False, h\<lparr>hub_links := AList.update c (l\<lparr>l_shutdown := True\<rparr>) (hub_links h)\<rparr>)
         else (True, h\<lparr>hub_links := AList.update c (l\<lparr>l_queue := l_queue l @ [m]\<rparr>) (hub_links h)\<rparr>))"

definition map_link :: "string \<Rightarrow> (agent_link \<Rightarrow> agent_link) \<Rightarrow> hub \<Rightarrow> hub" where
  "map_link c f h = (case map_of (hub_links h) c of None \<Rightarrow> h
     | Some l \<Rightarrow> h\<lparr>hub_links := AList.update c (f l) (hub_links h)\<rparr>)"

definition shut_down :: "string \<Rightarrow> hub \<Rightarrow> hub" where
  "shut_down c = map_link c (\<lambda>l. l\<lparr>l_shutdown := True\<rparr>)"

definition close_link :: "string \<Rightarrow> hub \<Rightarrow> hub" where
  "close_link c = map_link c (\<lambda>l. l\<lparr>l_closed := True\<rparr>)"

definition set_sock :: "string \<Rightarrow> sock_pc \<Rightarrow> hub \<Rightarrow> hub" where
  "set_sock c p h = h\<lparr>socks := (socks h)(c := p)\<rparr>"

definition set_revoke :: "nat \<Rightarrow> revoke_pc \<Rightarrow> hub \<Rightarrow> hub" where
  "set_revoke r p h = h\<lparr>revokes := (revokes h)(r := p)\<rparr>"

definition set_dispatch :: "nat \<Rightarrow> dispatch_pc \<Rightarrow> hub \<Rightarrow> hub" where
  "set_dispatch d p h = h\<lparr>dispatches := (dispatches h)(d := p)\<rparr>"

definition set_jobs :: "command_job list \<Rightarrow> hub \<Rightarrow> hub" where
  "set_jobs js h = h\<lparr>hub_jobs := js\<rparr>"

text \<open>The beginning of \<open>agent_socket\<close>: the new handle takes the place of an older one, which is shut down.\<close>

definition insert_agent :: "string \<Rightarrow> string \<Rightarrow> string list \<Rightarrow> hub \<Rightarrow> hub" where
  "insert_agent i c caps h =
     (let replaced = map_option ah_connection (map_of (hub_agents h) i);
          h1 = h\<lparr>hub_agents := AList.update i \<lparr>ah_connection = c, ah_capabilities = caps\<rparr> (hub_agents h),
                 hub_links := AList.update c \<lparr>l_queue = [], l_closed = False, l_shutdown = False\<rparr> (hub_links h)\<rparr>;
          h2 = (case replaced of None \<Rightarrow> h1 | Some c0 \<Rightarrow> shut_down c0 h1)
      in set_sock c (Inserted i replaced) h2)"

definition fail_jobs_of :: "string \<Rightarrow> string \<Rightarrow> hub \<Rightarrow> hub" where
  "fail_jobs_of i c h = set_jobs (fail_connection_command_jobs (hub_clock h) i c (hub_jobs h)) h"

definition remove_current_agent :: "string \<Rightarrow> string \<Rightarrow> hub \<Rightarrow> hub" where
  "remove_current_agent i c h = (case map_of (hub_agents h) i of None \<Rightarrow> h
     | Some a \<Rightarrow> if ah_connection a = c then h\<lparr>hub_agents := AList.delete i (hub_agents h)\<rparr> else h)"

definition may_connect :: "string \<Rightarrow> hub \<Rightarrow> bool" where
  "may_connect i h \<longleftrightarrow> map_of (hub_fleet h) i = Some True"

datatype job_message = CommandResult string int string | CommandOutput string string

definition max_agent_id_bytes :: nat where "max_agent_id_bytes = 128"
definition max_stream_chunk_bytes :: nat where "max_stream_chunk_bytes = 64 * 1024"

text \<open>\<open>validate_agent_inbound\<close>, for the messages of a job; a message it refuses ends the connection.\<close>

fun valid_job_message :: "job_message \<Rightarrow> bool" where
  "valid_job_message (CommandResult jid code out) \<longleftrightarrow>
     length jid \<le> max_agent_id_bytes \<and> length out \<le> max_command_output_bytes"
| "valid_job_message (CommandOutput jid out) \<longleftrightarrow>
     length jid \<le> max_agent_id_bytes \<and> length out \<le> max_stream_chunk_bytes"

fun handle_job_message :: "string \<Rightarrow> string \<Rightarrow> job_message \<Rightarrow> hub \<Rightarrow> hub" where
  "handle_job_message i c (CommandResult jid code out) h =
     set_jobs (snd (complete_command_job (hub_clock h) jid i c code out (hub_jobs h))) h"
| "handle_job_message i c (CommandOutput jid out) h =
     set_jobs (snd (append_command_job_output jid i c out (hub_jobs h))) h"

definition socket_message :: "string \<Rightarrow> string \<Rightarrow> job_message \<Rightarrow> hub \<Rightarrow> hub" where
  "socket_message i c m h = (if valid_job_message m then handle_job_message i c m h else set_sock c (Leaving i) h)"

text \<open>\<open>revoke_instance_connection\<close> up to its first wait.\<close>

definition revoke_connection :: "nat \<Rightarrow> string \<Rightarrow> hub \<Rightarrow> hub" where
  "revoke_connection r i h = (case map_of (hub_agents h) i of None \<Rightarrow> set_revoke r RevokeDone h
     | Some a \<Rightarrow> set_revoke r (RevokeFailing i (ah_connection a))
         (shut_down (ah_connection a) (h\<lparr>hub_agents := AList.delete i (hub_agents h)\<rparr>)))"

text \<open>The steps of \<open>dispatch_command\<close>.\<close>

definition look_up_target :: "nat \<Rightarrow> string \<Rightarrow> string \<Rightarrow> string \<Rightarrow> hub \<Rightarrow> hub" where
  "look_up_target d jid i cmd h = (case map_of (hub_agents h) i of
       None \<Rightarrow> set_dispatch d (Offline jid i) h
     | Some a \<Rightarrow> set_dispatch d (Target jid i cmd (ah_connection a)) h)"

definition mark_started :: "nat \<Rightarrow> string \<Rightarrow> string \<Rightarrow> string \<Rightarrow> string \<Rightarrow> hub \<Rightarrow> hub" where
  "mark_started d jid i cmd c h = (let (ok, js) = start_job (hub_clock h) jid i c (hub_jobs h)
     in set_dispatch d (if ok then Started jid i cmd c else Answered) (set_jobs js h))"

definition send_command :: "nat \<Rightarrow> string \<Rightarrow> string \<Rightarrow> string \<Rightarrow> string \<Rightarrow> hub \<Rightarrow> hub" where
  "send_command d jid i cmd c h = (case map_of (hub_agents h) i of
       None \<Rightarrow> set_dispatch d (Unsent jid i c) h
     | Some a \<Rightarrow> if ah_connection a = c
         then (let (ok, h') = link_send c (RunCommand jid cmd) h
               in set_dispatch d (if ok then Answered else Unsent jid i c) h')
         else set_dispatch d (Unsent jid i c) h)"

definition create_command_job :: "nat \<Rightarrow> string \<Rightarrow> string \<Rightarrow> string \<Rightarrow> string \<Rightarrow> string \<Rightarrow> hub \<Rightarrow> hub" where
  "create_command_job d jid cid i cmd actor h =
     (case create_job_tx (hub_clock h) jid (Some cid) i cmd actor (hub_jobs h) of
        Inl _ \<Rightarrow> set_dispatch d Answered h
      | Inr js \<Rightarrow> set_dispatch d (JobQueued jid i cmd) (set_jobs js h))"

fun job_of_dispatch :: "dispatch_pc \<Rightarrow> string option" where
  "job_of_dispatch (JobQueued jid _ _) = Some jid"
| "job_of_dispatch (Offline jid _) = Some jid"
| "job_of_dispatch (Target jid _ _ _) = Some jid"
| "job_of_dispatch (Started jid _ _ _) = Some jid"
| "job_of_dispatch (Unsent jid _ _) = Some jid"
| "job_of_dispatch (Dropped j) = j"
| "job_of_dispatch _ = None"

text \<open>The administrators' handlers around them.\<close>

definition create_command :: "string \<Rightarrow> string \<Rightarrow> string \<Rightarrow> hub \<Rightarrow> hub" where
  "create_command cid name cmd h =
     (if trim name = [] \<or> trim cmd = [] then h
      else h\<lparr>hub_commands := hub_commands h @ [(cid, \<lparr>sc_text = trim cmd, sc_enabled = True\<rparr>)]\<rparr>)"

definition disable_command :: "string \<Rightarrow> hub \<Rightarrow> hub" where
  "disable_command cid h = h\<lparr>hub_commands :=
     map (\<lambda>(k, r). (k, if k = cid then r\<lparr>sc_enabled := False\<rparr> else r)) (hub_commands h)\<rparr>"

definition delete_instance :: "nat \<Rightarrow> string \<Rightarrow> hub \<Rightarrow> hub" where
  "delete_instance r i h = set_revoke r (RevokePending i)
     (h\<lparr>hub_jobs := delete_where (\<lambda>j. j_instance j = i) (hub_jobs h), hub_fleet := AList.delete i (hub_fleet h)\<rparr>)"

definition disable_instance :: "nat \<Rightarrow> string \<Rightarrow> hub \<Rightarrow> hub" where
  "disable_instance r i h = set_revoke r (RevokePending i) (h\<lparr>hub_fleet := AList.update i False (hub_fleet h)\<rparr>)"

text \<open>A start of the server: what was in memory is gone.\<close>

definition boot :: "hub \<Rightarrow> hub" where
  "boot h = h\<lparr>hub_agents := [], hub_links := [], hub_jobs := terminate_all_jobs (hub_clock h) (hub_jobs h),
     socks := (\<lambda>_. Unused), revokes := (\<lambda>_. NoRevocation), dispatches := (\<lambda>_. Idle)\<rparr>"

subsection \<open>Steps\<close>

inductive hub_step :: "hub \<Rightarrow> hub \<Rightarrow> bool" where
  clock: "hub_step h (h\<lparr>hub_clock := t\<rparr>)"
| connect: "socks h c = Unused \<Longrightarrow> hub_step h (insert_agent i c caps h)"
| clear_replaced: "socks h c = Inserted i (Some c0) \<Longrightarrow> hub_step h (set_sock c (Checking i) (fail_jobs_of i c0 h))"
| none_replaced: "socks h c = Inserted i None \<Longrightarrow> hub_step h (set_sock c (Checking i) h)"
| authorize: "socks h c = Checking i \<Longrightarrow>
    hub_step h (set_sock c (if may_connect i h then Connected i else Rejected i) h)"
| reject: "socks h c = Rejected i \<Longrightarrow>
    hub_step h (set_sock c (Ended i True) (close_link c (remove_current_agent i c h)))"
| receive: "socks h c = Connected i \<Longrightarrow> hub_step h (socket_message i c m h)"
| transmit: "socks h c = Connected i \<Longrightarrow> hub_step h (map_link c (\<lambda>l. l\<lparr>l_queue := tl (l_queue l)\<rparr>) h)"
| leave_loop: "socks h c = Connected i \<Longrightarrow> hub_step h (set_sock c (Leaving i) h)"
| unregister: "socks h c = Leaving i \<Longrightarrow> hub_step h (set_sock c (Removed i) (remove_current_agent i c h))"
| clean_up: "socks h c = Removed i \<Longrightarrow> hub_step h (set_sock c (Cleaned i) (fail_jobs_of i c h))"
| return: "socks h c = Cleaned i \<Longrightarrow> hub_step h (set_sock c (Ended i False) (close_link c h))"
| approve: "hub_step h (h\<lparr>hub_fleet := AList.update i True (hub_fleet h)\<rparr>)"
| disable: "revokes h r = NoRevocation \<Longrightarrow> map_of (hub_fleet h) i \<noteq> None \<Longrightarrow> hub_step h (disable_instance r i h)"
| delete: "revokes h r = NoRevocation \<Longrightarrow> map_of (hub_fleet h) i \<noteq> None \<Longrightarrow> hub_step h (delete_instance r i h)"
| revoke: "revokes h r = RevokePending i \<Longrightarrow> hub_step h (revoke_connection r i h)"
| revoke_jobs: "revokes h r = RevokeFailing i c \<Longrightarrow> hub_step h (set_revoke r RevokeDone (fail_jobs_of i c h))"
| revoke_dropped: "revokes h r = RevokePending i \<Longrightarrow> hub_step h (set_revoke r (RevokeDropped i) h)"
| add_command: "cid \<notin> fst ` set (hub_commands h) \<Longrightarrow> hub_step h (create_command cid name cmd h)"
| stop_command: "hub_step h (disable_command cid h)"
| request: "dispatches h d = Idle \<Longrightarrow> map_of (hub_commands h) cid = Some r \<Longrightarrow> sc_enabled r \<Longrightarrow>
    map_of (hub_fleet h) i \<noteq> None \<Longrightarrow> hub_step h (set_dispatch d (Admitted cid i (sc_text r) actor) h)"
| create: "dispatches h d = Admitted cid i cmd actor \<Longrightarrow> jid \<notin> j_id ` set (hub_jobs h) \<Longrightarrow>
    (\<forall>d'. job_of_dispatch (dispatches h d') \<noteq> Some jid) \<Longrightarrow> hub_step h (create_command_job d jid cid i cmd actor h)"
| look_up: "dispatches h d = JobQueued jid i cmd \<Longrightarrow> hub_step h (look_up_target d jid i cmd h)"
| offline: "dispatches h d = Offline jid i \<Longrightarrow> hub_step h (set_dispatch d Answered (set_jobs
    (fail_queued_command_job (hub_clock h) jid i ''the instance is offline, the command was not sent'' (hub_jobs h)) h))"
| start: "dispatches h d = Target jid i cmd c \<Longrightarrow> hub_step h (mark_started d jid i cmd c h)"
| send: "dispatches h d = Started jid i cmd c \<Longrightarrow> hub_step h (send_command d jid i cmd c h)"
| unsent: "dispatches h d = Unsent jid i c \<Longrightarrow> hub_step h (set_dispatch d Answered (set_jobs
    (fail_running_command_job (hub_clock h) jid i c ''connection lost, the command was not sent'' (hub_jobs h)) h))"
| request_dropped: "dispatches h d \<noteq> Idle \<Longrightarrow> hub_step h (set_dispatch d (Dropped (job_of_dispatch (dispatches h d))) h)"
| expire: "hub_step h (set_jobs (expire_command_jobs (hub_clock h) (hub_jobs h)) h)"
| restart: "hub_step h (boot h)"

definition empty_hub :: "int \<Rightarrow> hub" where
  "empty_hub t = \<lparr>hub_clock = t, hub_fleet = [], hub_commands = [], hub_agents = [], hub_links = [], hub_jobs = [],
     socks = (\<lambda>_. Unused), revokes = (\<lambda>_. NoRevocation), dispatches = (\<lambda>_. Idle)\<rparr>"

inductive hub_reachable :: "hub \<Rightarrow> bool" where
  hub_start: "hub_reachable (empty_hub t)"
| hub_more: "hub_reachable h \<Longrightarrow> hub_step h h' \<Longrightarrow> hub_reachable h'"

subsection \<open>Frames\<close>

lemma hub_frames [simp]:
  "hub_jobs (set_sock c p h) = hub_jobs h" "hub_jobs (set_revoke r q h) = hub_jobs h"
  "hub_jobs (set_dispatch d e h) = hub_jobs h" "hub_jobs (set_jobs js h) = js"
  "hub_agents (set_sock c p h) = hub_agents h" "hub_agents (set_revoke r q h) = hub_agents h"
  "hub_agents (set_dispatch d e h) = hub_agents h" "hub_agents (set_jobs js h) = hub_agents h"
  "hub_links (set_sock c p h) = hub_links h" "hub_links (set_revoke r q h) = hub_links h"
  "hub_links (set_dispatch d e h) = hub_links h" "hub_links (set_jobs js h) = hub_links h"
  "hub_fleet (set_sock c p h) = hub_fleet h" "hub_fleet (set_revoke r q h) = hub_fleet h"
  "hub_fleet (set_dispatch d e h) = hub_fleet h" "hub_fleet (set_jobs js h) = hub_fleet h"
  "hub_commands (set_sock c p h) = hub_commands h" "hub_commands (set_revoke r q h) = hub_commands h"
  "hub_commands (set_dispatch d e h) = hub_commands h" "hub_commands (set_jobs js h) = hub_commands h"
  "socks (set_sock c p h) = (socks h)(c := p)" "socks (set_revoke r q h) = socks h"
  "socks (set_dispatch d e h) = socks h" "socks (set_jobs js h) = socks h"
  "revokes (set_sock c p h) = revokes h" "revokes (set_revoke r q h) = (revokes h)(r := q)"
  "revokes (set_dispatch d e h) = revokes h" "revokes (set_jobs js h) = revokes h"
  "dispatches (set_sock c p h) = dispatches h" "dispatches (set_revoke r q h) = dispatches h"
  "dispatches (set_dispatch d e h) = (dispatches h)(d := e)" "dispatches (set_jobs js h) = dispatches h"
  by (simp_all add: set_sock_def set_revoke_def set_dispatch_def set_jobs_def)

lemma map_link_frames [simp]:
  "hub_jobs (map_link c f h) = hub_jobs h" "hub_agents (map_link c f h) = hub_agents h"
  "hub_fleet (map_link c f h) = hub_fleet h" "hub_commands (map_link c f h) = hub_commands h"
  "socks (map_link c f h) = socks h" "revokes (map_link c f h) = revokes h"
  "dispatches (map_link c f h) = dispatches h" "hub_clock (map_link c f h) = hub_clock h"
  "map_of (hub_links (map_link c f h)) c' =
     (if c' = c then map_option f (map_of (hub_links h) c) else map_of (hub_links h) c')"
  by (auto simp: map_link_def split: option.splits)

lemma link_send_frames [simp]:
  "hub_jobs (snd (link_send c m h)) = hub_jobs h" "hub_agents (snd (link_send c m h)) = hub_agents h"
  "hub_fleet (snd (link_send c m h)) = hub_fleet h" "hub_commands (snd (link_send c m h)) = hub_commands h"
  "socks (snd (link_send c m h)) = socks h" "revokes (snd (link_send c m h)) = revokes h"
  "dispatches (snd (link_send c m h)) = dispatches h"
  by (auto simp: link_send_def split: option.splits)

lemma remove_frames [simp]:
  "hub_jobs (remove_current_agent i c h) = hub_jobs h" "hub_links (remove_current_agent i c h) = hub_links h"
  "hub_fleet (remove_current_agent i c h) = hub_fleet h" "hub_commands (remove_current_agent i c h) = hub_commands h"
  "socks (remove_current_agent i c h) = socks h" "revokes (remove_current_agent i c h) = revokes h"
  "dispatches (remove_current_agent i c h) = dispatches h"
  "map_of (hub_agents (remove_current_agent i c h)) i' = (case map_of (hub_agents h) i' of None \<Rightarrow> None
     | Some a \<Rightarrow> if i' = i \<and> ah_connection a = c then None else Some a)"
  by (auto simp: remove_current_agent_def split: option.splits)

lemmas link_ops = shut_down_def close_link_def

end
