(* ===== verification/CommandOutput.thy ===== *)
theory CommandOutput
  imports Utf8 ConnectionHub
begin

text \<open>
  The agent's side of a command (\<open>instanceEnd/src/command.rs\<close> and \<open>dispatch_command_job\<close> of its \<open>ws.rs\<close>): the
  output of the process is captured up to a limit, streamed to the server as text while it arrives in
  pieces that may cut characters, and sent as a whole with the exit code.  The process is a parameter: the
  pieces it writes on its two streams, in the order in which they are read, and how it ends.
\<close>

definition max_output_bytes :: nat where "max_output_bytes = 64 * 1024"
definition read_buffer_bytes :: nat where "read_buffer_bytes = 8 * 1024"
definition output_truncation_marker :: string where
  "output_truncation_marker = CHR 0x0A # ''[output truncated]''"

datatype command_stream = Stdout | Stderr

subsection \<open>Capturing\<close>

record captured_output =
  cap_bytes :: string
  cap_truncated :: bool

text \<open>One turn of the loop of \<open>capture_output\<close>.\<close>

definition capture_chunk :: "nat \<Rightarrow> string \<Rightarrow> captured_output \<Rightarrow> captured_output" where
  "capture_chunk limit chunk cap =
     (let retained = min (length chunk) (limit - length (cap_bytes cap))
      in \<lparr>cap_bytes = cap_bytes cap @ take retained chunk, cap_truncated = (cap_truncated cap \<or> retained < length chunk)\<rparr>)"

definition capture_output :: "nat \<Rightarrow> string list \<Rightarrow> captured_output" where
  "capture_output limit chunks = fold (capture_chunk limit) chunks \<lparr>cap_bytes = [], cap_truncated = False\<rparr>"

text \<open>The loop keeps the beginning of the stream, and says whether something was left out.\<close>

lemma capture_output_prefix:
  "capture_output limit chunks =
    \<lparr>cap_bytes = take limit (concat chunks), cap_truncated = (limit < length (concat chunks))\<rparr>"
proof -
  have "fold (capture_chunk limit) chunks \<lparr>cap_bytes = take limit s, cap_truncated = (limit < length s)\<rparr> =
      \<lparr>cap_bytes = take limit (s @ concat chunks), cap_truncated = (limit < length (s @ concat chunks))\<rparr>" for s
  proof (induction chunks arbitrary: s)
    case (Cons c cs)
    have "capture_chunk limit c \<lparr>cap_bytes = take limit s, cap_truncated = (limit < length s)\<rparr> =
        \<lparr>cap_bytes = take limit (s @ c), cap_truncated = (limit < length (s @ c))\<rparr>"
      by (auto simp: capture_chunk_def Let_def min_def)
    then show ?case using Cons [of "s @ c"] by simp
  qed simp
  from this [of "[]"] show ?thesis by (simp add: capture_output_def)
qed

subsection \<open>Streaming\<close>

text \<open>
  The loop of \<open>decode_utf8_chunk\<close> on the pending bytes: the text it produces and the bytes that stay
  pending.
\<close>

function decode_loop :: "bool \<Rightarrow> string \<Rightarrow> string \<times> string" where
  "decode_loop flush pending = (case from_utf8 pending of
       None \<Rightarrow> (pending, [])
     | Some (v, e) \<Rightarrow>
         if v > 0 then (let (d, p) = decode_loop flush (drop v pending) in (take v pending @ d, p))
         else (case e of
             Some n \<Rightarrow> (let (d, p) = decode_loop flush (drop n pending) in (replacement @ d, p))
           | None \<Rightarrow> if flush then (from_utf8_lossy pending, []) else ([], pending)))"
  by pat_completeness auto
termination
proof (relation "measure (length \<circ> snd)")
  fix flush :: bool and pending :: string and x v e d n
  assume x: "from_utf8 pending = Some x" "(v, e) = x"
  show "((flush, drop v pending), (flush, pending)) \<in> measure (length \<circ> snd)" if "0 < v"
    using from_utf8_error [of pending v e] x that by auto
  show "((flush, drop n pending), (flush, pending)) \<in> measure (length \<circ> snd)" if "\<not> 0 < v" "e = Some n"
    using from_utf8_error [of pending v e] x that next_char_length(2) [of pending n] by auto
qed simp

declare decode_loop.simps [simp del]

definition decode_utf8_chunk :: "string \<Rightarrow> string \<Rightarrow> bool \<Rightarrow> string \<times> string" where
  "decode_utf8_chunk pending bs flush = decode_loop flush (pending @ bs)"

text \<open>What was decoded and what is pending stand for the bytes that came in, whatever follows.\<close>

lemma decode_loop_lossy:
  "decode_loop False s = (d, p) \<Longrightarrow> from_utf8_lossy (s @ rest) = d @ from_utf8_lossy (p @ rest)"
proof (induction "False" s arbitrary: d p rule: decode_loop.induct)
  case (1 s)
  show ?case
  proof (cases "from_utf8 s")
    case None
    then have "utf8 s" by (simp add: utf8_def)
    then show ?thesis using None 1(3) by (simp add: decode_loop.simps [of False s] lossy_utf8_prefix)
  next
    case (Some ve)
    obtain v e where ve: "ve = (v, e)" by fastforce
    have err: "v < length s" "utf8 (take v s)" "next_char (drop v s) = (case e of Some n \<Rightarrow> Invalid n | None \<Rightarrow> Incomplete)"
      using from_utf8_error [of s v e] Some ve by auto
    show ?thesis
    proof (cases "v > 0")
      case True
      obtain d' p' where l: "decode_loop False (drop v s) = (d', p')" by fastforce
      then have "d = take v s @ d'" "p = p'" using 1(3) Some ve True by (simp_all add: decode_loop.simps [of False s])
      moreover have "from_utf8_lossy (drop v s @ rest) = d' @ from_utf8_lossy (p' @ rest)"
        using 1(1) [OF Some ve [symmetric] True l] .
      moreover have "from_utf8_lossy (take v s @ drop v s @ rest) = take v s @ from_utf8_lossy (drop v s @ rest)"
        using err(2) by (rule lossy_utf8_prefix)
      ultimately show ?thesis by (simp flip: append_assoc)
    next
      case False
      then have v0: "v = 0" by simp
      show ?thesis
      proof (cases e)
        case None
        then show ?thesis using 1(3) Some ve v0 by (simp add: decode_loop.simps [of False s])
      next
        case n: (Some n)
        then have inv: "next_char s = Invalid n" using err(3) v0 by simp
        obtain d' p' where l: "decode_loop False (drop n s) = (d', p')" by fastforce
        have "0 < n" "s \<noteq> []" "n \<le> length s" using next_char_length(2) [OF inv] by auto
        then have "d = replacement @ d'" "p = p'" using 1(3) Some ve v0 n l
          by (simp_all add: decode_loop.simps [of False s])
        moreover have "from_utf8_lossy (drop n s @ rest) = d' @ from_utf8_lossy (p' @ rest)"
          using 1(2) [OF Some ve [symmetric] False n l] .
        moreover have "from_utf8_lossy (s @ rest) = replacement @ from_utf8_lossy (drop n s @ rest)"
          using lossy_steps(3) [OF next_char_append(2) [OF inv], of rest] \<open>n \<le> length s\<close> by simp
        ultimately show ?thesis by simp
      qed
    qed
  qed
qed


lemma decode_flush: "decode_loop True s = (from_utf8_lossy s, [])"
proof (induction "True" s rule: decode_loop.induct)
  case (1 s)
  show ?case
  proof (cases "from_utf8 s")
    case None
    then show ?thesis by (simp add: decode_loop.simps [of True s] lossy_id utf8_def)
  next
    case (Some ve)
    obtain v e where ve: "ve = (v, e)" by fastforce
    have err: "v < length s" "utf8 (take v s)" "next_char (drop v s) = (case e of Some n \<Rightarrow> Invalid n | None \<Rightarrow> Incomplete)"
      using from_utf8_error [of s v e] Some ve by auto
    show ?thesis
    proof (cases "v > 0")
      case True
      then have "from_utf8_lossy s = take v s @ from_utf8_lossy (drop v s)"
        using lossy_utf8_prefix [OF err(2), of "drop v s"] by simp
      then show ?thesis using 1(1) [OF Some ve [symmetric] True] Some ve True by (simp add: decode_loop.simps [of True s])
    next
      case False
      then have v0: "v = 0" "s \<noteq> []" using err(1) by auto
      show ?thesis
      proof (cases e)
        case None
        then show ?thesis using Some ve v0 by (simp add: decode_loop.simps [of True s])
      next
        case n: (Some n)
        then have "next_char s = Invalid n" using err(3) v0 by simp
        then show ?thesis using 1(2) [OF Some ve [symmetric] False n] Some ve v0 n
          by (simp add: decode_loop.simps [of True s] lossy_steps(3))
      qed
    qed
  qed
qed

lemma decode_loop_pending: "decode_loop False s = (d, p) \<Longrightarrow> length p < 4"
proof (induction "False" s arbitrary: d p rule: decode_loop.induct)
  case (1 s)
  show ?case
  proof (cases "from_utf8 s")
    case None
    then show ?thesis using 1(3) by (simp add: decode_loop.simps [of False s])
  next
    case (Some ve)
    obtain v e where ve: "ve = (v, e)" by fastforce
    show ?thesis
    proof (cases "v > 0")
      case True
      obtain d' p' where l: "decode_loop False (drop v s) = (d', p')" by fastforce
      then show ?thesis using 1(1) [OF Some ve [symmetric] True l] 1(3) Some ve True
        by (simp add: decode_loop.simps [of False s])
    next
      case False
      show ?thesis
      proof (cases e)
        case None
        then have "next_char s = Incomplete" using from_utf8_error [of s v e] Some ve False by simp
        then show ?thesis using next_char_incomplete 1(3) Some ve False None by (simp add: decode_loop.simps [of False s])
      next
        case n: (Some n)
        obtain d' p' where l: "decode_loop False (drop n s) = (d', p')" by fastforce
        then show ?thesis using 1(2) [OF Some ve [symmetric] False n l] 1(3) Some ve False n
          by (simp add: decode_loop.simps [of False s])
      qed
    qed
  qed
qed

lemma decode_loop_length: "decode_loop False s = (d, p) \<Longrightarrow> length d \<le> 3 * length s"
  using decode_loop_lossy [of s d p "[]"] length_lossy [of s] by simp

text \<open>\<open>forward_output\<close>: the pieces of both streams, in the order in which they arrive, within one budget.\<close>

record forwarder =
  fw_streamed :: nat
  fw_stdout :: string
  fw_stderr :: string
  fw_sent :: "(command_stream \<times> string) list"

fun pending_of :: "command_stream \<Rightarrow> forwarder \<Rightarrow> string" where
  "pending_of Stdout f = fw_stdout f"
| "pending_of Stderr f = fw_stderr f"

fun set_pending :: "command_stream \<Rightarrow> string \<Rightarrow> forwarder \<Rightarrow> forwarder" where
  "set_pending Stdout p f = f\<lparr>fw_stdout := p\<rparr>"
| "set_pending Stderr p f = f\<lparr>fw_stderr := p\<rparr>"

definition emit :: "command_stream \<Rightarrow> string \<Rightarrow> forwarder \<Rightarrow> forwarder" where
  "emit st d f = (if d = [] then f else f\<lparr>fw_sent := fw_sent f @ [(st, d)]\<rparr>)"

definition forward_chunk :: "command_stream \<times> string \<Rightarrow> forwarder \<Rightarrow> forwarder" where
  "forward_chunk piece f =
     (let (st, bs) = piece; retained = min (length bs) (max_output_bytes - fw_streamed f);
          f1 = f\<lparr>fw_streamed := fw_streamed f + retained\<rparr>
      in if retained = 0 then f1
         else (let (d, p) = decode_utf8_chunk (pending_of st f1) (take retained bs) False in emit st d (set_pending st p f1)))"

definition flush_stream :: "command_stream \<Rightarrow> forwarder \<Rightarrow> forwarder" where
  "flush_stream st f = (let (d, p) = decode_utf8_chunk (pending_of st f) [] True in emit st d (set_pending st p f))"

definition new_forwarder :: forwarder where
  "new_forwarder = \<lparr>fw_streamed = 0, fw_stdout = [], fw_stderr = [], fw_sent = []\<rparr>"

definition forward_pieces :: "(command_stream \<times> string) list \<Rightarrow> forwarder" where
  "forward_pieces pieces = fold forward_chunk pieces new_forwarder"

definition forward_output :: "(command_stream \<times> string) list \<Rightarrow> forwarder" where
  "forward_output pieces = flush_stream Stderr (flush_stream Stdout (forward_pieces pieces))"

text \<open>What the budget retains of the pieces, and the bytes and the texts of one stream.\<close>

fun retained_pieces :: "nat \<Rightarrow> (command_stream \<times> string) list \<Rightarrow> (command_stream \<times> string) list" where
  "retained_pieces b [] = []"
| "retained_pieces b ((st, bs) # ps) = (st, take b bs) # retained_pieces (b - length bs) ps"

definition stream_bytes :: "command_stream \<Rightarrow> (command_stream \<times> string) list \<Rightarrow> string" where
  "stream_bytes st ps = concat (map snd (filter (\<lambda>p. fst p = st) ps))"

lemma stream_bytes_simps [simp]:
  "stream_bytes st [] = []"
  "stream_bytes st ((st', s) # ps) = (if st' = st then s @ stream_bytes st ps else stream_bytes st ps)"
  "stream_bytes st (ps @ qs) = stream_bytes st ps @ stream_bytes st qs"
  by (simp_all add: stream_bytes_def)

lemma retained_pieces_all: "length (concat (map snd ps)) \<le> b \<Longrightarrow> retained_pieces b ps = ps"
proof (induction ps arbitrary: b)
  case (Cons p ps)
  then show ?case by (cases p) simp
qed simp

lemma emit_simps [simp]:
  "fw_streamed (emit st d f) = fw_streamed f" "pending_of st' (emit st d f) = pending_of st' f"
  "stream_bytes st' (fw_sent (emit st d f)) = stream_bytes st' (fw_sent f) @ (if st = st' then d else [])"
  "fw_sent (set_pending st p f) = fw_sent f" "fw_streamed (set_pending st p f) = fw_streamed f"
  "pending_of st' (set_pending st p f) = (if st' = st then p else pending_of st' f)"
  "pending_of st (f\<lparr>fw_streamed := n\<rparr>) = pending_of st f"
  by (cases st; cases st'; simp add: emit_def)+

text \<open>Sent text and pending bytes of a stream stand for the bytes it has delivered within the budget.\<close>

lemma forward_chunk_lossy:
  "from_utf8_lossy (pending_of st f @ stream_bytes st (retained_pieces (max_output_bytes - fw_streamed f) [p]) @ rest) = x \<Longrightarrow>
   stream_bytes st (fw_sent (forward_chunk p f)) @ from_utf8_lossy (pending_of st (forward_chunk p f) @ rest) =
   stream_bytes st (fw_sent f) @ x"
proof -
  assume x: "from_utf8_lossy (pending_of st f @ stream_bytes st (retained_pieces (max_output_bytes - fw_streamed f) [p]) @ rest) = x"
  obtain st' bs where p: "p = (st', bs)" by fastforce
  let ?r = "min (length bs) (max_output_bytes - fw_streamed f)"
  have take: "take ?r bs = take (max_output_bytes - fw_streamed f) bs" by (simp add: min_def)
  show ?thesis
  proof (cases "?r = 0")
    case True
    then have "take (max_output_bytes - fw_streamed f) bs = []" using take by simp
    then show ?thesis using x True by (cases "st' = st") (auto simp: forward_chunk_def p Let_def)
  next
    case False
    obtain d q where d: "decode_loop False (pending_of st' f @ take ?r bs) = (d, q)" by fastforce
    have f': "forward_chunk p f = emit st' d (set_pending st' q (f\<lparr>fw_streamed := fw_streamed f + ?r\<rparr>))"
      using d unfolding forward_chunk_def p Let_def prod.case if_not_P [OF False] by (simp add: decode_utf8_chunk_def)
    show ?thesis
    proof (cases "st' = st")
      case True
      have "from_utf8_lossy (pending_of st f @ take ?r bs @ rest) = d @ from_utf8_lossy (q @ rest)"
        using decode_loop_lossy [OF d, of rest] True by simp
      then show ?thesis using x True take unfolding f' by (simp add: p)
    next
      case False
      then show ?thesis using x unfolding f' by (simp add: p)
    qed
  qed
qed

lemma forward_streamed:
  "fw_streamed (forward_chunk (st, bs) f) = fw_streamed f + min (length bs) (max_output_bytes - fw_streamed f)"
  by (simp add: forward_chunk_def Let_def split: prod.splits)

lemma forward_pieces_lossy:
  "stream_bytes st (fw_sent (fold forward_chunk ps f)) @ from_utf8_lossy (pending_of st (fold forward_chunk ps f)) =
   stream_bytes st (fw_sent f) @ from_utf8_lossy (pending_of st f @ stream_bytes st (retained_pieces (max_output_bytes - fw_streamed f) ps))"
proof (induction ps arbitrary: f)
  case (Cons p ps)
  obtain st' bs where p: "p = (st', bs)" by fastforce
  let ?b = "max_output_bytes - fw_streamed f"
  have b: "max_output_bytes - fw_streamed (forward_chunk p f) = ?b - length bs"
    by (simp add: p forward_streamed min_def)
  let ?rest = "stream_bytes st (retained_pieces (?b - length bs) ps)"
  have "stream_bytes st (fw_sent (forward_chunk p f)) @ from_utf8_lossy (pending_of st (forward_chunk p f) @ ?rest) =
      stream_bytes st (fw_sent f) @ from_utf8_lossy (pending_of st f @ stream_bytes st (retained_pieces ?b [p]) @ ?rest)"
    by (rule forward_chunk_lossy) (rule refl)
  moreover have "stream_bytes st (retained_pieces ?b [p]) @ ?rest = stream_bytes st (retained_pieces ?b (p # ps))"
    by (simp add: p)
  ultimately show ?case using Cons [of "forward_chunk p f"] b by simp
qed simp

lemma flush_stream_sent:
  "stream_bytes st (fw_sent (flush_stream st' f)) =
    stream_bytes st (fw_sent f) @ (if st = st' then from_utf8_lossy (pending_of st f) else [])"
  "pending_of st (flush_stream st' f) = (if st = st' then [] else pending_of st f)"
  by (simp_all add: flush_stream_def decode_utf8_chunk_def decode_flush)

text \<open>
  C32: Streaming does not damage the output.  However the pipes cut the output of a process into pieces and
  interleave them, in the middle of a character or not, the texts sent for a stream are together exactly what
  decoding all its bytes at once gives, up to the common limit of bytes.
\<close>

theorem streamed_text_is_lossy:
  "stream_bytes st (fw_sent (forward_output pieces)) = from_utf8_lossy (stream_bytes st (retained_pieces max_output_bytes pieces))"
  using forward_pieces_lossy [of st pieces new_forwarder]
  by (cases st) (simp_all add: forward_output_def flush_stream_sent forward_pieces_def new_forwarder_def)


text \<open>No message of the stream is larger than three times a full buffer and what was pending.\<close>

definition small_pending :: "forwarder \<Rightarrow> bool" where
  "small_pending f \<longleftrightarrow> length (fw_stdout f) < 4 \<and> length (fw_stderr f) < 4 \<and>
     (\<forall>(st, d) \<in> set (fw_sent f). length d \<le> 3 * (read_buffer_bytes + 3))"

lemma small_pending_stream: "small_pending f \<Longrightarrow> length (pending_of st f) < 4"
  by (cases st) (simp_all add: small_pending_def)

lemma small_pending_emit:
  "small_pending f \<Longrightarrow> length p < 4 \<Longrightarrow> length d \<le> 3 * (read_buffer_bytes + 3) \<Longrightarrow> small_pending (emit st d (set_pending st p f))"
  by (cases st) (auto simp: small_pending_def emit_def)

lemma small_pending_chunk:
  assumes "small_pending f" "length bs \<le> read_buffer_bytes"
  shows "small_pending (forward_chunk (st, bs) f)"
proof -
  let ?r = "min (length bs) (max_output_bytes - fw_streamed f)" let ?f = "f\<lparr>fw_streamed := fw_streamed f + ?r\<rparr>"
  obtain d p where d: "decode_loop False (pending_of st f @ take ?r bs) = (d, p)" by fastforce
  have f: "small_pending ?f" using assms(1) by (simp add: small_pending_def)
  have "length (pending_of st f @ take ?r bs) \<le> read_buffer_bytes + 3"
    using small_pending_stream [OF assms(1), of st] assms(2) by simp
  then have "length d \<le> 3 * (read_buffer_bytes + 3)" using decode_loop_length [OF d] by simp
  then have "small_pending (emit st d (set_pending st p ?f))" using f decode_loop_pending [OF d] by (simp add: small_pending_emit)
  then have "small_pending (let (d, p) = decode_utf8_chunk (pending_of st ?f) (take ?r bs) False in emit st d (set_pending st p ?f))"
    using d by (simp add: decode_utf8_chunk_def)
  then show ?thesis using f by (simp only: forward_chunk_def Let_def prod.case split: if_split) simp
qed

lemma small_pending_flush:
  assumes "small_pending f"
  shows "small_pending (flush_stream st f)"
proof -
  have "length (from_utf8_lossy (pending_of st f)) \<le> 3 * (read_buffer_bytes + 3)"
    using length_lossy [of "pending_of st f"] small_pending_stream [OF assms, of st] by simp
  then show ?thesis using assms by (simp add: flush_stream_def decode_utf8_chunk_def decode_flush small_pending_emit)
qed

lemma small_pending_pieces:
  "\<forall>(st, bs) \<in> set pieces. length bs \<le> read_buffer_bytes \<Longrightarrow> small_pending f \<Longrightarrow> small_pending (fold forward_chunk pieces f)"
proof (induction pieces arbitrary: f)
  case (Cons p ps)
  obtain st bs where p: "p = (st, bs)" by fastforce
  then have "small_pending (forward_chunk p f)" using Cons.prems by (auto intro: small_pending_chunk)
  then show ?case using Cons by simp
qed simp

subsection \<open>The result\<close>

definition truncation_boundary :: "nat \<Rightarrow> string \<Rightarrow> nat" where
  "truncation_boundary limit s = (let ks = takeWhile (\<lambda>k. k \<le> limit) (char_starts s) in if ks = [] then 0 else List.last ks)"

definition append_truncation_marker :: "string \<Rightarrow> nat \<Rightarrow> string" where
  "append_truncation_marker s max_bytes =
     (let content_limit = max_bytes - length output_truncation_marker;
          s1 = (if length s > content_limit then take (truncation_boundary content_limit s) s else s);
          marker_bytes = max_bytes - length s1
      in s1 @ take (min marker_bytes (length output_truncation_marker)) output_truncation_marker)"

definition truncate_utf8 :: "string \<Rightarrow> nat \<Rightarrow> bool \<times> string" where
  "truncate_utf8 s max_bytes = (if length s \<le> max_bytes then (False, s) else (True, append_truncation_marker s max_bytes))"

definition combined_output :: "(command_stream \<times> string) list \<Rightarrow> string" where
  "combined_output pieces =
     (let out = capture_output max_output_bytes (map snd (filter (\<lambda>p. fst p = Stdout) pieces));
          err = capture_output max_output_bytes (map snd (filter (\<lambda>p. fst p = Stderr) pieces));
          truncated_while_reading = cap_truncated out \<or> cap_truncated err;
          (truncated_after_decoding, combined) =
            truncate_utf8 (from_utf8_lossy (cap_bytes out @ cap_bytes err)) max_output_bytes
      in if truncated_while_reading \<and> \<not> truncated_after_decoding
         then append_truncation_marker combined max_output_bytes else combined)"

datatype process_end = Exited "int option" | IoFailed string | TimedOut
datatype process = SpawnFailed string | NoPipe string | Ran "(command_stream \<times> string) list" process_end

text \<open>\<open>execute_command_with_timeout_streaming\<close>: the texts streamed, and the exit code with the output.\<close>

fun execute_command :: "process \<Rightarrow> string list \<times> int \<times> string" where
  "execute_command (SpawnFailed e) = (let out = ''failed to execute command: '' @ e in ([out], -1, out))"
| "execute_command (NoPipe which) = (let out = ''failed to capture command '' @ which in ([out], -1, out))"
| "execute_command (Ran pieces (Exited status)) =
     (map snd (fw_sent (forward_output pieces)), (case status of None \<Rightarrow> -1 | Some c \<Rightarrow> c), combined_output pieces)"
| "execute_command (Ran pieces (IoFailed e)) =
     (let out = ''failed to execute command: '' @ e in (map snd (fw_sent (forward_pieces pieces)) @ [out], -1, out))"
| "execute_command (Ran pieces TimedOut) =
     (let out = ''command timed out after 120 seconds'' in (map snd (fw_sent (forward_pieces pieces)) @ [out], -1, out))"

definition execute_tracked_command :: "bool \<Rightarrow> process \<Rightarrow> string list \<times> int \<times> string" where
  "execute_tracked_command entered p = (if \<not> entered
     then (let out = ''command rejected because an agent update is waiting to install'' in ([out], -1, out))
     else execute_command p)"

text \<open>\<open>dispatch_command_job\<close>: the messages an agent with so many free slots sends for a command.\<close>

definition dispatch_command_job :: "nat \<Rightarrow> bool \<Rightarrow> string \<Rightarrow> process \<Rightarrow> job_message list" where
  "dispatch_command_job free_slots entered jid p = (if free_slots = 0
     then [CommandResult jid (-1) ''command rejected because the concurrent command limit (4) was reached'']
     else (let (texts, exit_code, out) = execute_tracked_command entered p
           in map (CommandOutput jid) texts @ [CommandResult jid exit_code out]))"

lemma length_append_marker:
  "length s \<le> max_bytes \<or> length output_truncation_marker \<le> max_bytes \<Longrightarrow> length (append_truncation_marker s max_bytes) \<le> max_bytes"
proof -
  let ?limit = "max_bytes - length output_truncation_marker"
  assume h: "length s \<le> max_bytes \<or> length output_truncation_marker \<le> max_bytes"
  have b: "truncation_boundary ?limit s \<le> ?limit"
    using List.last_in_set set_takeWhileD by (fastforce simp: truncation_boundary_def Let_def)
  show ?thesis
  proof (cases "length s > ?limit")
    case True
    then show ?thesis using b h by (simp add: append_truncation_marker_def Let_def)
  next
    case False
    then show ?thesis by (auto simp: append_truncation_marker_def Let_def)
  qed
qed

lemma utf8_ascii: "\<forall>c \<in> set s. byte_value c < 0x80 \<Longrightarrow> utf8 s"
proof (induction s)
  case (Cons c s)
  then have "next_char (c # s) = Valid 1" by simp
  then show ?case using utf8_step [of "c # s" 1] Cons by simp
qed simp

lemma utf8_append_marker:
  assumes "utf8 s"
  shows "utf8 (append_truncation_marker s max_bytes)"
proof -
  have "truncation_boundary limit s \<in> set (char_starts s) \<or> truncation_boundary limit s = 0" for limit
    using List.last_in_set set_takeWhileD by (fastforce simp: truncation_boundary_def Let_def)
  then have "utf8 (take (truncation_boundary limit s) s)" for limit using char_starts_utf8 by (metis take0 utf8_Nil)
  moreover have "\<forall>c \<in> set output_truncation_marker. byte_value c < 0x80" by (simp add: output_truncation_marker_def byte_value_def)
  then have "utf8 (take n output_truncation_marker)" for n by (intro utf8_ascii) (meson in_set_takeD)
  ultimately show ?thesis using assms by (simp add: append_truncation_marker_def Let_def utf8_append)
qed

lemma combined_output_ok: "utf8 (combined_output pieces) \<and> length (combined_output pieces) \<le> max_output_bytes"
proof -
  have m: "length output_truncation_marker \<le> max_output_bytes" by (simp add: output_truncation_marker_def max_output_bytes_def)
  obtain b s where t: "truncate_utf8 (from_utf8_lossy (cap_bytes (capture_output max_output_bytes (map snd (filter (\<lambda>p. fst p = Stdout) pieces)))
      @ cap_bytes (capture_output max_output_bytes (map snd (filter (\<lambda>p. fst p = Stderr) pieces))))) max_output_bytes = (b, s)"
    by fastforce
  then have "utf8 s \<and> length s \<le> max_output_bytes"
    using utf8_lossy utf8_append_marker length_append_marker m by (auto simp: truncate_utf8_def split: if_splits)
  then show ?thesis using t utf8_append_marker length_append_marker m by (simp add: combined_output_def Let_def)
qed

end
