(* ===== verification/HubSafety.thy ===== *)
theory HubSafety
  imports ConnectionHub
begin

text \<open>
  The invariants of the connections and of the commands, over every interleaving of the tasks of
  \<open>ConnectionHub\<close>.
\<close>

subsection \<open>Jobs\<close>

definition jobs_inv :: "hub \<Rightarrow> bool" where
  "jobs_inv h \<longleftrightarrow> (\<forall>j \<in> set (hub_jobs h). job_ok j) \<and> distinct (map j_id (hub_jobs h)) \<and>
     (\<forall>i. inflight_count i (hub_jobs h) \<le> max_inflight_commands_per_instance)"

text \<open>Every step moves the rows, adds one, or deletes those of one instance.\<close>

lemma jobs_step:
  assumes "hub_step h h'"
  obtains "jobs_move (hub_jobs h) (hub_jobs h')"
  | t jid cid i cmd actor where "create_job_tx t jid cid i cmd actor (hub_jobs h) = Inr (hub_jobs h')" "jid \<notin> j_id ` set (hub_jobs h)"
  | i where "hub_jobs h' = delete_where (\<lambda>j. j_instance j = i) (hub_jobs h)" "map_of (hub_fleet h') i = None"
  using assms
proof cases
  case (connect c i caps)
  then show ?thesis using that(1) by (simp add: insert_agent_def Let_def shut_down_def split: option.splits)
next
  case (receive c i m)
  show ?thesis
  proof (cases m)
    case (CommandResult jid code out)
    then show ?thesis using receive that(1) by (simp add: socket_message_def)
  next
    case (CommandOutput jid out)
    then show ?thesis using receive that(1) by (simp add: socket_message_def)
  qed
next
  case (revoke r i)
  then show ?thesis using that(1) by (simp add: revoke_connection_def shut_down_def split: option.splits)
next
  case (create d cid i cmd actor jid)
  then show ?thesis using that(1,2) by (simp add: create_command_job_def split: sum.splits)
next
  case (look_up d jid i cmd)
  then show ?thesis using that(1) by (simp add: look_up_target_def split: option.splits)
next
  case (start d jid i cmd c)
  then have "hub_jobs h' = snd (start_job (hub_clock h) jid i c (hub_jobs h))"
    by (simp add: mark_started_def Let_def split: prod.splits)
  then show ?thesis using that(1) by simp
next
  case (send d jid i cmd c)
  have "hub_jobs k = hub_jobs h" if "link_send c m h = (b, k)" for m b k using link_send_frames(1) [of c m h] that by simp
  then have "hub_jobs h' = hub_jobs h" using send by (simp add: send_command_def split: option.splits prod.splits if_splits)
  then show ?thesis using that(1) by simp
next
  case (add_command cid name cmd)
  then show ?thesis using that(1) by (simp add: create_command_def)
qed (use that(1,3) in \<open>simp_all add: fail_jobs_of_def link_ops disable_instance_def delete_instance_def
    disable_command_def boot_def\<close>)

lemma jobs_inv_step:
  assumes "jobs_inv h" "hub_step h h'"
  shows "jobs_inv h'"
  using assms(2)
proof (cases rule: jobs_step)
  case 1
  then show ?thesis using assms(1) jobs_move_ok [OF 1] jobs_move_ids [OF 1] jobs_move_inflight [OF 1] order_trans
    unfolding jobs_inv_def by metis
next
  case (2 t jid cid i cmd actor)
  have "hub_jobs h' = hub_jobs h @ [new_job t jid cid i cmd actor]" using 2(1) by (simp add: create_job_tx_def split: if_splits)
  moreover have "j_id (new_job t jid cid i cmd actor) = jid" by (simp add: new_job_def)
  moreover have "inflight_count i' (hub_jobs h') \<le> max_inflight_commands_per_instance" for i'
    using create_job_tx_bound [OF 2(1)] assms(1) by (simp add: jobs_inv_def)
  ultimately show ?thesis using assms(1) 2(2) by (auto simp: jobs_inv_def)
next
  case (3 i)
  have "inflight_count i' (hub_jobs h') \<le> inflight_count i' (hub_jobs h)" for i'
    unfolding 3(1) by (rule inflight_count_delete)
  then have "inflight_count i' (hub_jobs h') \<le> max_inflight_commands_per_instance" for i'
    using assms(1) order_trans unfolding jobs_inv_def by blast
  then show ?thesis using assms(1) 3(1) unfolding jobs_inv_def
    by (simp add: delete_where_def distinct_map_filter)
qed

subsection \<open>Sockets and the table of agents\<close>

text \<open>The instance whose handle a socket may have in the table.\<close>

fun serves :: "sock_pc \<Rightarrow> string option" where
  "serves (Inserted i _) = Some i"
| "serves (Checking i) = Some i"
| "serves (Connected i) = Some i"
| "serves (Rejected i) = Some i"
| "serves (Leaving i) = Some i"
| "serves _ = None"

definition is_shut_down :: "string \<Rightarrow> hub \<Rightarrow> bool" where
  "is_shut_down c h \<longleftrightarrow> (\<exists>l. map_of (hub_links h) c = Some l \<and> l_shutdown l)"

definition is_current :: "string \<Rightarrow> string \<Rightarrow> hub \<Rightarrow> bool" where
  "is_current i c h \<longleftrightarrow> (\<exists>a. map_of (hub_agents h) i = Some a \<and> ah_connection a = c)"

definition socks_inv :: "hub \<Rightarrow> bool" where
  "socks_inv h \<longleftrightarrow> (\<forall>i c. is_current i c h \<longrightarrow> serves (socks h c) = Some i) \<and>
     (\<forall>c. socks h c \<noteq> Unused \<longrightarrow> map_of (hub_links h) c \<noteq> None) \<and>
     (\<forall>i c. serves (socks h c) = Some i \<longrightarrow> is_current i c h \<or> is_shut_down c h)"

lemma serves_used: "serves p = Some i \<Longrightarrow> p \<noteq> Unused"
  by auto

lemma socks_invD:
  assumes "socks_inv h"
  shows "is_current i c h \<Longrightarrow> serves (socks h c) = Some i"
    and "socks h c \<noteq> Unused \<Longrightarrow> map_of (hub_links h) c \<noteq> None"
    and "serves (socks h c) = Some i \<Longrightarrow> is_current i c h \<or> is_shut_down c h"
  using assms by (auto simp: socks_inv_def)

lemma current_used: "socks_inv h \<Longrightarrow> is_current i c h \<Longrightarrow> socks h c \<noteq> Unused"
  by (rule serves_used) (rule socks_invD(1))

lemma socks_inv_frame:
  assumes "socks_inv h" "socks h' = socks h" "hub_agents h' = hub_agents h"
    and "\<And>c. map_of (hub_links h) c \<noteq> None \<Longrightarrow> map_of (hub_links h') c \<noteq> None"
    and "\<And>c. is_shut_down c h \<Longrightarrow> is_shut_down c h'"
  shows "socks_inv h'"
  using assms unfolding socks_inv_def is_current_def by metis

lemma shut_down_grows [simp]:
  "is_shut_down c h \<Longrightarrow> is_shut_down c (shut_down c' h)" "is_shut_down c h \<Longrightarrow> is_shut_down c (close_link c' h)"
  "is_shut_down c h \<Longrightarrow> is_shut_down c (snd (link_send c' m h))"
  "map_of (hub_links h) c \<noteq> None \<Longrightarrow> is_shut_down c (shut_down c h)"
  by (auto simp: is_shut_down_def link_ops link_send_def split: option.splits)

lemma shut_down_frame [simp]:
  "is_shut_down c (set_sock c' p h) = is_shut_down c h" "is_shut_down c (set_revoke r q h) = is_shut_down c h"
  "is_shut_down c (set_dispatch d e h) = is_shut_down c h" "is_shut_down c (set_jobs js h) = is_shut_down c h"
  "is_shut_down c (remove_current_agent i c' h) = is_shut_down c h"
  "is_shut_down c (fail_jobs_of i c' h) = is_shut_down c h"
  by (simp_all add: is_shut_down_def fail_jobs_of_def)

lemma current_frame [simp]:
  "is_current i c (set_sock c' p h) = is_current i c h" "is_current i c (set_revoke r q h) = is_current i c h"
  "is_current i c (set_dispatch d e h) = is_current i c h" "is_current i c (set_jobs js h) = is_current i c h"
  "is_current i c (fail_jobs_of i' c' h) = is_current i c h" "is_current i c (map_link c' f h) = is_current i c h"
  "is_current i c (remove_current_agent i' c' h) \<longleftrightarrow> is_current i c h \<and> \<not> (i = i' \<and> c = c')"
  by (auto simp: is_current_def fail_jobs_of_def split: option.splits if_splits)

lemma fail_jobs_frame [simp]:
  "socks (fail_jobs_of i c h) = socks h" "hub_links (fail_jobs_of i c h) = hub_links h"
  "dispatches (fail_jobs_of i c h) = dispatches h" "revokes (fail_jobs_of i c h) = revokes h"
  "hub_fleet (fail_jobs_of i c h) = hub_fleet h" "hub_agents (fail_jobs_of i c h) = hub_agents h"
  "hub_commands (fail_jobs_of i c h) = hub_commands h"
  by (simp_all add: fail_jobs_of_def)

lemma close_link_frame [simp]: "socks (close_link c h) = socks h" "socks (shut_down c h) = socks h"
  by (simp_all add: link_ops)

lemma socks_inv_insert:
  assumes "socks_inv h" "socks h c = Unused"
  shows "socks_inv (insert_agent i c caps h)"
proof -
  let ?h = "insert_agent i c caps h"
  have cur: "is_current i' c' ?h \<longleftrightarrow> (if i' = i then c' = c else is_current i' c' h)" for i' c'
    by (auto simp: is_current_def insert_agent_def Let_def shut_down_def split: option.splits)
  have socks: "socks ?h = (socks h)(c := Inserted i (map_option ah_connection (map_of (hub_agents h) i)))"
    by (simp add: insert_agent_def Let_def shut_down_def split: option.splits)
  have links: "map_of (hub_links ?h) c' \<noteq> None" if "c' = c \<or> socks h c' \<noteq> Unused" for c'
    using that assms(1) by (auto simp: insert_agent_def Let_def shut_down_def socks_inv_def split: option.splits)
  have shut: "is_shut_down c' ?h" if c': "c' \<noteq> c" "is_shut_down c' h \<or> is_current i c' h" "socks h c' \<noteq> Unused" for c'
  proof -
    obtain l where l: "map_of (hub_links h) c' = Some l" using socks_invD(2) [OF assms(1) c'(3)] by blast
    show ?thesis
    proof (cases "is_current i c' h")
      case True
      then show ?thesis using c'(1) l by (auto simp: insert_agent_def Let_def shut_down_def is_shut_down_def is_current_def)
    next
      case False
      then have "l_shutdown l" using c'(2) l by (simp add: is_shut_down_def)
      then show ?thesis using c'(1) l by (auto simp: insert_agent_def Let_def shut_down_def is_shut_down_def split: option.split)
    qed
  qed
  show ?thesis unfolding socks_inv_def
  proof (intro conjI allI impI)
    fix i' c' assume "is_current i' c' ?h"
    then show "serves (socks ?h c') = Some i'" using assms(2) current_used [OF assms(1)] socks_invD(1) [OF assms(1)]
      by (auto simp: cur socks split: if_splits)
  next
    fix c' assume "socks ?h c' \<noteq> Unused"
    then show "map_of (hub_links ?h) c' \<noteq> None" using links by (auto simp: socks split: if_splits)
  next
    fix i' c' assume s: "serves (socks ?h c') = Some i'"
    show "is_current i' c' ?h \<or> is_shut_down c' ?h"
    proof (cases "c' = c")
      case True
      then have "i' = i" using s by (simp add: socks)
      then show ?thesis using cur [of i' c'] True by simp
    next
      case False
      then have "serves (socks h c') = Some i'" using s by (simp add: socks)
      then have "is_current i' c' h \<or> is_shut_down c' h" "socks h c' \<noteq> Unused" using assms(1) by (auto simp: socks_inv_def)
      then show ?thesis using shut False by (auto simp: cur)
    qed
  qed
qed

lemma socks_inv_advance:
  assumes "socks_inv h" "serves (socks h c) = Some i" "serves p = Some i"
  shows "socks_inv (set_sock c p h)"
  using assms serves_used [OF assms(2)] unfolding socks_inv_def by (auto split: if_splits)

lemma socks_inv_remove:
  assumes "socks_inv h" "serves (socks h c) = Some i" "serves p = None"
  shows "socks_inv (set_sock c p (remove_current_agent i c h))"
  using assms serves_used [OF assms(2)] unfolding socks_inv_def by (auto split: if_splits)

lemma socks_inv_retire:
  assumes "socks_inv h" "serves (socks h c) = None" "socks h c \<noteq> Unused" "serves p = None"
  shows "socks_inv (set_sock c p h)"
  using assms socks_invD(1) [OF assms(1), of _ c] unfolding socks_inv_def by (auto split: if_splits)

lemma socks_inv_fail: "socks_inv h \<Longrightarrow> socks_inv (fail_jobs_of i c h)"
  by (erule socks_inv_frame) simp_all

lemma socks_inv_jobs: "socks_inv h \<Longrightarrow> socks_inv (set_jobs js h)"
  by (erule socks_inv_frame) simp_all

lemma socks_inv_revoke: "socks_inv h \<Longrightarrow> socks_inv (set_revoke r q h)"
  by (erule socks_inv_frame) simp_all

lemma socks_inv_dispatch: "socks_inv h \<Longrightarrow> socks_inv (set_dispatch d e h)"
  by (erule socks_inv_frame) simp_all

lemma socks_inv_send: "socks_inv h \<Longrightarrow> socks_inv (snd (link_send c m h))"
  by (erule socks_inv_frame) (simp_all, auto simp: link_send_def split: option.splits)

lemma socks_inv_close: "socks_inv h \<Longrightarrow> socks_inv (close_link c h)"
  by (erule socks_inv_frame) (simp_all, auto simp: close_link_def)

lemma socks_inv_revoke_connection: 
  assumes "socks_inv h"
  shows "socks_inv (revoke_connection r i h)"
proof (cases "map_of (hub_agents h) i")
  case None
  then show ?thesis using assms by (simp add: revoke_connection_def socks_inv_revoke)
next
  case (Some a)
  let ?h = "shut_down (ah_connection a) (h\<lparr>hub_agents := AList.delete i (hub_agents h)\<rparr>)"
  have used: "socks h (ah_connection a) \<noteq> Unused" using current_used [OF assms, of i "ah_connection a"] Some by (simp add: is_current_def)
  have cur: "is_current i' c ?h \<longleftrightarrow> is_current i' c h \<and> i' \<noteq> i" for i' c
    by (simp add: is_current_def shut_down_def)
  have shut: "is_shut_down c ?h \<longleftrightarrow> is_shut_down c h \<or> c = ah_connection a" for c
    using socks_invD(2) [OF assms used] by (auto simp: is_shut_down_def shut_down_def)
  have links: "map_of (hub_links ?h) c \<noteq> None" if "socks h c \<noteq> Unused" for c
    using socks_invD(2) [OF assms that] by (auto simp: shut_down_def)
  have same: "is_current i c h \<Longrightarrow> c = ah_connection a" for c using Some by (simp add: is_current_def)
  have "is_current i' c ?h \<or> is_shut_down c ?h" if "serves (socks h c) = Some i'" for i' c
    using socks_invD(3) [OF assms that] same by (cases "i' = i") (auto simp: cur shut)
  then have "socks_inv ?h" using socks_invD(1) [OF assms] links unfolding socks_inv_def by (simp add: cur)
  then show ?thesis using Some by (simp add: revoke_connection_def socks_inv_revoke)
qed

lemmas socks_inv_rules = socks_inv_fail socks_inv_jobs socks_inv_revoke socks_inv_dispatch socks_inv_send socks_inv_close

lemma socks_inv_step:
  assumes "socks_inv h" "hub_step h h'"
  shows "socks_inv h'"
  using assms(2)
proof cases
  case (connect c i caps)
  then show ?thesis using assms(1) by (simp add: socks_inv_insert)
next
  case (clear_replaced c i c0)
  then show ?thesis using assms(1) by (auto intro!: socks_inv_advance socks_inv_fail)
next
  case (none_replaced c i)
  then show ?thesis using assms(1) by (auto intro!: socks_inv_advance)
next
  case (authorize c i)
  then show ?thesis using assms(1) by (auto intro!: socks_inv_advance)
next
  case (reject c i)
  have "socks_inv (close_link c (set_sock c (Ended i True) (remove_current_agent i c h)))"
    using assms(1) reject by (intro socks_inv_close socks_inv_remove) auto
  moreover have "close_link c (set_sock c p h) = set_sock c p (close_link c h)" for c p h
    by (simp add: close_link_def map_link_def set_sock_def split: option.splits)
  ultimately show ?thesis using reject by simp
next
  case (receive c i m)
  have "socks_inv (handle_job_message i c m h)" using assms(1) by (cases m) (simp_all add: socks_inv_jobs)
  then show ?thesis using assms(1) receive by (auto simp: socket_message_def intro!: socks_inv_advance)
next
  case (transmit c i)
  then show ?thesis using assms(1) by (auto elim!: socks_inv_frame simp: is_shut_down_def)
next
  case (leave_loop c i)
  then show ?thesis using assms(1) by (auto intro!: socks_inv_advance)
next
  case (unregister c i)
  then show ?thesis using assms(1) by (auto intro!: socks_inv_remove)
next
  case (clean_up c i)
  then show ?thesis using assms(1) by (auto intro!: socks_inv_retire socks_inv_fail)
next
  case (return c i)
  then show ?thesis using assms(1) by (auto intro!: socks_inv_retire socks_inv_close)
next
  case (disable r i)
  have "socks_inv (h\<lparr>hub_fleet := AList.update i False (hub_fleet h)\<rparr>)"
    using assms(1) by (rule socks_inv_frame) (simp_all add: is_shut_down_def)
  then show ?thesis using disable by (simp add: disable_instance_def socks_inv_revoke)
next
  case (delete r i)
  have "socks_inv (h\<lparr>hub_jobs := delete_where (\<lambda>j. j_instance j = i) (hub_jobs h), hub_fleet := AList.delete i (hub_fleet h)\<rparr>)"
    using assms(1) by (rule socks_inv_frame) (simp_all add: is_shut_down_def)
  then show ?thesis using delete by (simp add: delete_instance_def socks_inv_revoke)
next
  case (revoke r i)
  then show ?thesis using assms(1) by (simp add: socks_inv_revoke_connection)
next
  case (add_command cid name cmd)
  then show ?thesis using assms(1) by (auto simp: create_command_def elim!: socks_inv_frame simp: is_shut_down_def)
next
  case (stop_command cid)
  then show ?thesis using assms(1) by (auto simp: disable_command_def elim!: socks_inv_frame simp: is_shut_down_def)
next
  case (create d cid i cmd actor jid)
  then show ?thesis using assms(1) by (simp add: create_command_job_def socks_inv_rules split: sum.split)
next
  case (look_up d jid i cmd)
  then show ?thesis using assms(1) by (simp add: look_up_target_def socks_inv_rules split: option.split)
next
  case (start d jid i cmd c)
  then show ?thesis using assms(1) by (simp add: mark_started_def socks_inv_rules split: prod.split)
next
  case (send d jid i cmd c)
  have "socks_inv k" if "link_send c m h = (b, k)" for m b k using socks_inv_send [OF assms(1), of c m] that by simp
  then show ?thesis using assms(1) send by (auto simp: send_command_def socks_inv_rules split: option.split prod.split)
next
  case restart
  then show ?thesis by (simp add: socks_inv_def boot_def is_current_def)
qed (use assms(1) in \<open>auto simp: socks_inv_rules elim!: socks_inv_frame simp: is_shut_down_def\<close>)

subsection \<open>Every running command is looked after\<close>

text \<open>
  Who will end a running job: the request that dispatched it, while it has not handed the command over;
  the socket of its connection, which fails its jobs when it leaves.  Two sources of jobs that only the
  time limit ends are named: a request that was abandoned, and a connection that was refused after commands
  had been sent to it.
\<close>

fun cleans :: "sock_pc \<Rightarrow> string option" where
  "cleans (Removed i) = Some i"
| "cleans p = serves p"

fun looks_after :: "dispatch_pc \<Rightarrow> string \<Rightarrow> string \<Rightarrow> string \<Rightarrow> bool" where
  "looks_after (Started jid' i' cmd c') jid i c \<longleftrightarrow> jid = jid' \<and> i = i' \<and> c = c'"
| "looks_after (Unsent jid' i' c') jid i c \<longleftrightarrow> jid = jid' \<and> i = i' \<and> c = c'"
| "looks_after (Dropped j) jid i c \<longleftrightarrow> j = Some jid"
| "looks_after _ jid i c \<longleftrightarrow> False"

definition covered :: "hub \<Rightarrow> string \<Rightarrow> string \<Rightarrow> string \<Rightarrow> bool" where
  "covered h jid i c \<longleftrightarrow> (\<exists>d. looks_after (dispatches h d) jid i c) \<or> cleans (socks h c) = Some i \<or> socks h c = Ended i True"

definition cover_inv :: "hub \<Rightarrow> bool" where
  "cover_inv h \<longleftrightarrow> (\<forall>j \<in> set (hub_jobs h). j_status j = Running \<longrightarrow>
     (\<exists>c. j_connection j = Some c \<and> covered h (j_id j) (j_instance j) c))"

lemma serves_cleans: "serves p = Some i \<Longrightarrow> cleans p = Some i"
  by (cases p) auto

text \<open>A step that starts no job and takes nobody from his duty.\<close>

lemma cover_inv_frame:
  assumes "cover_inv h"
    and "\<And>k. k \<in> set (hub_jobs h') \<Longrightarrow> j_status k = Running \<Longrightarrow>
      \<exists>j \<in> set (hub_jobs h). j_status j = Running \<and> j_id j = j_id k \<and> j_instance j = j_instance k \<and> j_connection j = j_connection k"
    and "\<And>k c. k \<in> set (hub_jobs h') \<Longrightarrow> j_status k = Running \<Longrightarrow> j_connection k = Some c \<Longrightarrow>
      covered h (j_id k) (j_instance k) c \<Longrightarrow> covered h' (j_id k) (j_instance k) c"
  shows "cover_inv h'"
  unfolding cover_inv_def
proof (intro ballI impI)
  fix k assume k: "k \<in> set (hub_jobs h')" "j_status k = Running"
  from assms(2) [OF k] obtain j where j: "j \<in> set (hub_jobs h)" "j_status j = Running" "j_id j = j_id k"
      "j_instance j = j_instance k" "j_connection j = j_connection k" by blast
  from assms(1) j obtain c where c: "j_connection k = Some c" "covered h (j_id k) (j_instance k) c"
    unfolding cover_inv_def by metis
  with assms(3) [OF k c] show "\<exists>c. j_connection k = Some c \<and> covered h' (j_id k) (j_instance k) c" by blast
qed

lemma cover_same_jobs:
  assumes "cover_inv h" "hub_jobs h' = hub_jobs h" "\<And>jid i c. covered h jid i c \<Longrightarrow> covered h' jid i c"
  shows "cover_inv h'"
  using assms by (auto simp: cover_inv_def)

lemma covered_sock:
  assumes "covered h jid i c" "cleans (socks h c') = cleans p \<or> p = Ended i' True \<and> cleans (socks h c') = Some i'"
    "\<And>i. socks h c' \<noteq> Ended i True"
  shows "covered (set_sock c' p h) jid i c"
  using assms by (auto simp: covered_def)

text \<open>The rows a statement leaves running were running, on the same connection.\<close>

definition running_kept :: "command_job list \<Rightarrow> command_job list \<Rightarrow> bool" where
  "running_kept js ks \<longleftrightarrow> (\<forall>k \<in> set ks. j_status k = Running \<longrightarrow> (\<exists>j \<in> set js. j_status j = Running \<and>
     j_id j = j_id k \<and> j_instance j = j_instance k \<and> j_connection j = j_connection k))"

lemma running_kept_update:
  "(\<And>j. p j \<Longrightarrow> j_status (f j) = Running \<Longrightarrow> j_status j = Running \<and> j_id (f j) = j_id j \<and> j_instance (f j) = j_instance j
     \<and> j_connection (f j) = j_connection j) \<Longrightarrow> running_kept js (update_where p f js)"
  by (fastforce simp: running_kept_def set_update_where)

lemma running_kept_fewer [simp]: "running_kept js js" "running_kept js (delete_where p js)"
  by (auto simp: running_kept_def)

lemma running_kept_statements [simp]:
  "running_kept js (snd (complete_command_job t jid i c code out js))"
  "running_kept js (snd (append_command_job_output jid i c out js))"
  "running_kept js (fail_connection_command_jobs t i c js)"
  "running_kept js (expire_command_jobs t js)"
  "running_kept js (fail_queued_command_job t jid i m js)"
  "running_kept js (fail_running_command_job t jid i c m js)"
  "running_kept js (terminate_all_jobs t js)"
  by (simp only: job_statements Let_def snd_conv,
      rule running_kept_update, simp add: failed_job_def append_output_def job_matches_def completion_status_def split: if_splits)+

lemma cover_statement:
  assumes "cover_inv h" "running_kept (hub_jobs h) (hub_jobs h')"
    and "\<And>k c. k \<in> set (hub_jobs h') \<Longrightarrow> j_status k = Running \<Longrightarrow> j_connection k = Some c \<Longrightarrow>
      covered h (j_id k) (j_instance k) c \<Longrightarrow> covered h' (j_id k) (j_instance k) c"
  shows "cover_inv h'"
  using assms(1) by (rule cover_inv_frame) (use assms(2,3) in \<open>auto simp: running_kept_def\<close>)

lemma covered_frame [simp]:
  "covered (set_jobs js h) = covered h" "covered (set_revoke r q h) = covered h"
  "covered (fail_jobs_of i' c' h) = covered h" "covered (map_link c' f h) = covered h"
  "covered (remove_current_agent i' c' h) = covered h" "covered (close_link c' h) = covered h"
  "covered (shut_down c' h) = covered h" "covered (snd (link_send c' m h)) = covered h"
  by (auto simp: covered_def fun_eq_iff link_ops)

text \<open>A socket or a request that moves on and keeps its duty.\<close>

lemma covered_set_sock:
  "covered h jid i c \<Longrightarrow> c = c' \<longrightarrow> covered (set_sock c' p h) jid i c \<Longrightarrow> covered (set_sock c' p h) jid i c"
  by (auto simp: covered_def)

lemma covered_set_dispatch:
  assumes "covered h jid i c" "looks_after (dispatches h d) jid i c \<Longrightarrow> looks_after e jid i c"
  shows "covered (set_dispatch d e h) jid i c"
proof -
  have "\<exists>d'. looks_after (dispatches (set_dispatch d e h) d') jid i c" if "looks_after (dispatches h d') jid i c" for d'
    using that assms(2) by (cases "d' = d") (auto intro: exI [of _ d'])
  then show ?thesis using assms(1) unfolding covered_def hub_frames by blast
qed

lemma cover_set_sock:
  assumes "cover_inv h" "\<And>i. cleans (socks h c) = Some i \<Longrightarrow> cleans p = Some i \<or> p = Ended i True"
    "\<And>i. socks h c \<noteq> Ended i True"
  shows "cover_inv (set_sock c p h)"
  using assms(1) by (rule cover_same_jobs) (use assms(2,3) in \<open>auto simp: covered_def\<close>)

lemma cover_set_dispatch:
  assumes "cover_inv h" "\<And>jid i c. looks_after (dispatches h d) jid i c \<Longrightarrow> looks_after e jid i c"
  shows "cover_inv (set_dispatch d e h)"
proof (rule cover_same_jobs [OF assms(1)])
  show "covered (set_dispatch d e h) jid i c" if "covered h jid i c" for jid i c
    using that assms(2) by (rule covered_set_dispatch)
qed simp

lemma filter_id_one: "distinct (map f xs) \<Longrightarrow> (\<And>x. p x \<Longrightarrow> f x = y) \<Longrightarrow> length (filter p xs) \<le> 1"
proof (induction xs)
  case Nil
  then show ?case by simp
next
  case (Cons x xs)
  show ?case
  proof (cases "p x")
    case True
    then have "filter p xs = []" using Cons.prems by (auto simp: filter_empty_conv)
    then show ?thesis by simp
  next
    case False
    then show ?thesis using Cons by simp
  qed
qed

lemma cover_set_jobs: "cover_inv h \<Longrightarrow> running_kept (hub_jobs h) js \<Longrightarrow> cover_inv (set_jobs js h)"
  by (erule cover_statement) simp_all

lemma cover_fail_jobs: "cover_inv h \<Longrightarrow> cover_inv (fail_jobs_of i c h)"
  unfolding fail_jobs_of_def by (rule cover_set_jobs) simp_all

lemma cover_start:
  assumes inv: "cover_inv h" "jobs_inv h" and d: "dispatches h d = Target jid i cmd c"
  shows "cover_inv (mark_started d jid i cmd c h)"
proof -
  let ?js = "snd (start_job (hub_clock h) jid i c (hub_jobs h))"
  let ?p = "job_matches jid i Queued"
  let ?f = "\<lambda>j. j\<lparr>j_status := Running, j_started_at := Some (hub_clock h), j_connection := Some c\<rparr>"
  let ?e = "if fst (start_job (hub_clock h) jid i c (hub_jobs h)) then Started jid i cmd c else Answered"
  have js: "?js = update_where ?p ?f (hub_jobs h)" by (simp add: start_job_def)
  have ms: "mark_started d jid i cmd c h = set_dispatch d ?e (set_jobs ?js h)"
    by (simp add: mark_started_def case_prod_beta)
  show ?thesis unfolding cover_inv_def
  proof (intro ballI impI)
    fix k assume "k \<in> set (hub_jobs (mark_started d jid i cmd c h))" and run: "j_status k = Running"
    then have "k \<in> set (update_where ?p ?f (hub_jobs h))" using js by (simp add: mark_started_def split: prod.splits)
    then show "\<exists>c'. j_connection k = Some c' \<and> covered (mark_started d jid i cmd c h) (j_id k) (j_instance k) c'"
    proof (cases rule: update_whereE)
      case (1 j)
      then have "affected ?p (hub_jobs h) > 0" by (auto simp: affected_def filter_empty_conv)
      moreover have "affected ?p (hub_jobs h) \<le> 1"
        using inv(2) unfolding jobs_inv_def affected_def by (metis filter_id_one job_matches_def)
      ultimately have "?e = Started jid i cmd c" by (simp add: start_job_def)
      then show ?thesis using 1 by (auto simp: covered_def mark_started_def job_matches_def split: prod.splits)
    next
      case 2
      then obtain c' where c': "j_connection k = Some c'" "covered h (j_id k) (j_instance k) c'"
        using inv(1) run by (auto simp: cover_inv_def)
      then have "covered (set_dispatch d ?e (set_jobs ?js h)) (j_id k) (j_instance k) c'"
        by (intro covered_set_dispatch) (simp_all add: d)
      then show ?thesis using c'(1) by (simp add: ms)
    qed
  qed
qed

lemma covered_new_link:
  assumes "covered h jid i c" "socks h c' = Unused"
  shows "covered (insert_agent i' c' caps h) jid i c"
  using assms by (auto simp: covered_def insert_agent_def Let_def shut_down_def split: option.splits)

lemma cover_unsent:
  assumes inv: "cover_inv h" and d: "dispatches h d = Unsent jid i c"
  shows "cover_inv (set_dispatch d e (set_jobs (fail_running_command_job t jid i c m (hub_jobs h)) h))"
  using inv
proof (rule cover_statement)
  fix k c' assume k: "k \<in> set (hub_jobs (set_dispatch d e (set_jobs (fail_running_command_job t jid i c m (hub_jobs h)) h)))"
      "j_status k = Running" "j_connection k = Some c'" "covered h (j_id k) (j_instance k) c'"
  have "\<not> (j_id k = jid \<and> j_instance k = i \<and> c' = c)"
    using k(1-3) unfolding fail_running_command_job_def hub_frames
    by (elim update_whereE) (auto simp: job_matches_def on_connection_def failed_job_def)
  then have "covered (set_dispatch d e h) (j_id k) (j_instance k) c'" using k(4) d
    by (intro covered_set_dispatch) auto
  then show "covered (set_dispatch d e (set_jobs (fail_running_command_job t jid i c m (hub_jobs h)) h)) (j_id k) (j_instance k) c'"
    by (simp add: covered_def)
qed simp

lemma cover_clean_up:
  assumes inv: "cover_inv h" and s: "socks h c = Removed i"
  shows "cover_inv (set_sock c (Cleaned i) (fail_jobs_of i c h))"
  using inv
proof (rule cover_statement)
  fix k c' assume k: "k \<in> set (hub_jobs (set_sock c (Cleaned i) (fail_jobs_of i c h)))" "j_status k = Running"
      "j_connection k = Some c'" "covered h (j_id k) (j_instance k) c'"
  have "\<not> (j_instance k = i \<and> c' = c)"
    using k(1-3) unfolding fail_jobs_of_def fail_connection_command_jobs_def hub_frames
    by (elim update_whereE) (auto simp: on_connection_def failed_job_def)
  then show "covered (set_sock c (Cleaned i) (fail_jobs_of i c h)) (j_id k) (j_instance k) c'"
    using k(4) s by (auto simp: covered_def)
qed (simp add: fail_jobs_of_def)

lemma cover_send:
  assumes inv: "cover_inv h" "socks_inv h" and d: "dispatches h d = Started jid i cmd c"
  shows "cover_inv (send_command d jid i cmd c h)"
proof (cases "is_current i c h")
  case False
  then have "send_command d jid i cmd c h = set_dispatch d (Unsent jid i c) h"
    by (auto simp: send_command_def is_current_def split: option.split)
  then show ?thesis using inv(1) d by (auto intro: cover_set_dispatch)
next
  case True
  then have c: "cleans (socks h c) = Some i" using socks_invD(1) [OF inv(2)] serves_cleans by blast
  obtain ok k where l: "link_send c (RunCommand jid cmd) h = (ok, k)" by fastforce
  have k: "k = snd (link_send c (RunCommand jid cmd) h)" using l by simp
  have "send_command d jid i cmd c h = set_dispatch d (if ok then Answered else Unsent jid i c) k"
    using True l by (auto simp: send_command_def is_current_def)
  moreover have "covered (set_dispatch d e k) jid' i' c'" if "covered h jid' i' c'" for e jid' i' c'
  proof (cases "looks_after (dispatches h d) jid' i' c'")
    case True
    then show ?thesis using c d by (simp add: covered_def k)
  next
    case False
    then show ?thesis using that by (intro covered_set_dispatch) (simp_all add: k)
  qed
  ultimately show ?thesis using inv(1) by (auto intro: cover_same_jobs simp: k)
qed

lemma cover_step:
  assumes "cover_inv h" "jobs_inv h" "socks_inv h" "hub_step h h'"
  shows "cover_inv h'"
  using assms(4)
proof cases
  case (connect c i caps)
  have "hub_jobs h' = hub_jobs h" using connect by (simp add: insert_agent_def Let_def shut_down_def split: option.splits)
  then show ?thesis using connect assms(1) covered_new_link by (auto intro: cover_same_jobs)
next
  case (clear_replaced c i c0)
  then show ?thesis using assms(1) by (auto intro!: cover_set_sock cover_fail_jobs)
next
  case (none_replaced c i)
  then show ?thesis using assms(1) by (auto intro!: cover_set_sock)
next
  case (authorize c i)
  then show ?thesis using assms(1) by (auto intro!: cover_set_sock)
next
  case (reject c i)
  have "cover_inv (close_link c (remove_current_agent i c h))"
    using assms(1) by (rule cover_same_jobs) (simp_all add: close_link_def)
  then show ?thesis using reject by (auto intro!: cover_set_sock)
next
  case (receive c i m)
  have "cover_inv (handle_job_message i c m h)" using assms(1) by (cases m) (simp_all add: cover_set_jobs)
  then show ?thesis using assms(1) receive by (auto simp: socket_message_def intro!: cover_set_sock)
next
  case (transmit c i)
  then show ?thesis using assms(1) by (auto intro: cover_same_jobs)
next
  case (leave_loop c i)
  then show ?thesis using assms(1) by (auto intro!: cover_set_sock)
next
  case (unregister c i)
  have "cover_inv (remove_current_agent i c h)" using assms(1) by (rule cover_same_jobs) simp_all
  then show ?thesis using unregister by (auto intro!: cover_set_sock)
next
  case (clean_up c i)
  then show ?thesis using assms(1) by (simp add: cover_clean_up)
next
  case (return c i)
  have "cover_inv (close_link c h)" using assms(1) by (rule cover_same_jobs) (simp_all add: close_link_def)
  then show ?thesis using return by (auto intro!: cover_set_sock)
next
  case (delete r i)
  then show ?thesis using assms(1) by (auto simp: delete_instance_def elim!: cover_statement simp: covered_def)
next
  case (revoke r i)
  show ?thesis using assms(1)
    by (rule cover_same_jobs) (auto simp: revoke revoke_connection_def shut_down_def covered_def split: option.split)
next
  case (revoke_jobs r i c)
  have "cover_inv (fail_jobs_of i c h)" using assms(1) by (rule cover_fail_jobs)
  then show ?thesis using revoke_jobs by (auto elim: cover_same_jobs)
next
  case (create d cid i cmd actor jid)
  show ?thesis
  proof (cases "create_job_tx (hub_clock h) jid (Some cid) i cmd actor (hub_jobs h)")
    case (Inl e)
    then show ?thesis using create assms(1) by (auto simp: create_command_job_def intro!: cover_set_dispatch)
  next
    case (Inr js)
    have "running_kept (hub_jobs h) js"
      using Inr by (auto simp: create_job_tx_def running_kept_def new_job_def split: if_splits)
    then show ?thesis using create Inr assms(1)
      by (auto simp: create_command_job_def intro!: cover_set_dispatch cover_set_jobs)
  qed
next
  case (look_up d jid i cmd)
  then show ?thesis using assms(1) by (auto simp: look_up_target_def intro!: cover_set_dispatch split: option.split)
next
  case (offline d jid i)
  then show ?thesis using assms(1) by (auto intro!: cover_set_dispatch cover_set_jobs)
next
  case (start d jid i cmd c)
  then show ?thesis using assms(1,2) by (simp add: cover_start)
next
  case (send d jid i cmd c)
  then show ?thesis using assms(1,3) by (simp add: cover_send)
next
  case (unsent d jid i c)
  then show ?thesis using assms(1) by (simp add: cover_unsent)
next
  case (request_dropped d)
  have "looks_after p jid i c \<Longrightarrow> looks_after (Dropped (job_of_dispatch p)) jid i c" for p jid i c
    by (cases p) simp_all
  then show ?thesis using request_dropped assms(1) by (auto intro: cover_set_dispatch)
next
  case (request d cid r i actor)
  then show ?thesis using assms(1) by (auto intro!: cover_set_dispatch)
next
  case restart
  then have "j_status j \<noteq> Running" if "j \<in> set (hub_jobs h')" for j
    using that by (auto simp: boot_def terminate_all_jobs_def inflight_def failed_job_def elim!: update_whereE)
  then show ?thesis by (simp add: cover_inv_def)
next
  case expire
  then show ?thesis using assms(1) by (simp add: cover_set_jobs)
qed (use assms(1) in \<open>auto simp: covered_def disable_instance_def create_command_def disable_command_def intro: cover_same_jobs\<close>)

subsection \<open>Revocation\<close>

text \<open>
  An instance that may not connect is in the table of agents only with a socket that has not passed its
  check or has left the loop, unless the revocation that follows the change is still to run, or the request
  that had to run it was abandoned.
\<close>

definition revocation_pending :: "string \<Rightarrow> hub \<Rightarrow> bool" where
  "revocation_pending i h \<longleftrightarrow> (\<exists>r. revokes h r = RevokePending i \<or> revokes h r = RevokeDropped i)"

definition revoked_inv :: "hub \<Rightarrow> bool" where
  "revoked_inv h \<longleftrightarrow> (\<forall>i c. is_current i c h \<longrightarrow> socks h c = Connected i \<longrightarrow> may_connect i h \<or> revocation_pending i h)"

lemma revoked_inv_frame:
  assumes "revoked_inv h"
    and "\<And>i c. is_current i c h' \<Longrightarrow> socks h' c = Connected i \<Longrightarrow> is_current i c h \<and> socks h c = Connected i"
    and "\<And>i. may_connect i h \<Longrightarrow> may_connect i h' \<or> revocation_pending i h'"
    and "\<And>i. revocation_pending i h \<Longrightarrow> revocation_pending i h'"
  shows "revoked_inv h'"
  using assms unfolding revoked_inv_def by blast

lemma revoked_frame [simp]:
  "may_connect i (set_sock c p h) = may_connect i h" "may_connect i (set_revoke r q h) = may_connect i h"
  "may_connect i (set_dispatch d e h) = may_connect i h" "may_connect i (set_jobs js h) = may_connect i h"
  "may_connect i (fail_jobs_of i' c h) = may_connect i h" "may_connect i (map_link c f h) = may_connect i h"
  "may_connect i (remove_current_agent i' c h) = may_connect i h" "may_connect i (snd (link_send c m h)) = may_connect i h"
  "revocation_pending i (set_sock c p h) = revocation_pending i h"
  "revocation_pending i (set_dispatch d e h) = revocation_pending i h"
  "revocation_pending i (set_jobs js h) = revocation_pending i h"
  "revocation_pending i (fail_jobs_of i' c h) = revocation_pending i h"
  "revocation_pending i (map_link c f h) = revocation_pending i h"
  "revocation_pending i (remove_current_agent i' c h) = revocation_pending i h"
  "revocation_pending i (snd (link_send c m h)) = revocation_pending i h"
  by (simp_all add: may_connect_def revocation_pending_def)

lemma revocation_pending_set_revoke:
  assumes "revocation_pending i h" "revokes h r \<noteq> RevokePending i" "revokes h r \<noteq> RevokeDropped i"
  shows "revocation_pending i (set_revoke r q h)"
proof -
  obtain r' where "revokes h r' = RevokePending i \<or> revokes h r' = RevokeDropped i"
    using assms(1) by (auto simp: revocation_pending_def)
  moreover from this have "r' \<noteq> r" using assms(2,3) by auto
  ultimately show ?thesis unfolding revocation_pending_def hub_frames by (intro exI [of _ r']) simp
qed

lemma revocation_pending_new: "q = RevokePending i \<or> q = RevokeDropped i \<Longrightarrow> revocation_pending i (set_revoke r q h)"
  unfolding revocation_pending_def hub_frames by (intro exI [of _ r]) auto

lemma pending_cases:
  assumes "revocation_pending i h" "revokes h r = NoRevocation \<or> (\<exists>j c. revokes h r = RevokeFailing j c)"
  shows "revocation_pending i (set_revoke r q h)"
  using assms by (intro revocation_pending_set_revoke) auto

lemma current_send [simp]: "is_current i c (snd (link_send c' m h)) = is_current i c h"
  by (simp add: is_current_def)

lemma revoked_step:
  assumes "revoked_inv h" "socks_inv h" "hub_step h h'"
  shows "revoked_inv h'"
  using assms(3)
proof cases
  case (connect c i caps)
  have "is_current i' c' h' \<longleftrightarrow> (if i' = i then c' = c else is_current i' c' h)" for i' c'
    by (auto simp: connect is_current_def insert_agent_def Let_def shut_down_def split: option.splits)
  moreover have "socks h' = (socks h)(c := Inserted i (map_option ah_connection (map_of (hub_agents h) i)))"
    "hub_fleet h' = hub_fleet h" "revokes h' = revokes h"
    by (simp_all add: connect insert_agent_def Let_def shut_down_def split: option.splits)
  ultimately show ?thesis using assms(1) by (auto simp: revoked_inv_def may_connect_def revocation_pending_def split: if_splits)
next
  case (authorize c i)
  then show ?thesis using assms(1) by (auto simp: revoked_inv_def)
next
  case (reject c i)
  show ?thesis using assms(1) by (rule revoked_inv_frame) (auto simp: reject close_link_def split: if_splits)
next
  case (receive c i m)
  have "revoked_inv (handle_job_message i c m h)" using assms(1) by (cases m) (simp_all add: revoked_inv_def)
  then show ?thesis using assms(1) receive by (auto simp: socket_message_def revoked_inv_def)
next
  case (unregister c i)
  show ?thesis using assms(1) by (rule revoked_inv_frame) (auto simp: unregister split: if_splits)
next
  case (return c i)
  show ?thesis using assms(1) by (rule revoked_inv_frame) (auto simp: return close_link_def split: if_splits)
next
  case (approve i)
  show ?thesis using assms(1)
    by (rule revoked_inv_frame) (auto simp: approve may_connect_def revocation_pending_def is_current_def)
next
  case (disable r i)
  let ?h = "h\<lparr>hub_fleet := AList.update i False (hub_fleet h)\<rparr>"
  have "may_connect i' h \<Longrightarrow> may_connect i' h' \<or> revocation_pending i' h'" for i'
    using disable by (cases "i' = i") (auto simp: disable_instance_def revocation_pending_new, simp add: may_connect_def)
  moreover have "revocation_pending i' h \<Longrightarrow> revocation_pending i' h'" for i'
    using pending_cases [of i' ?h r] disable by (simp add: disable_instance_def revocation_pending_def)
  ultimately show ?thesis using assms(1)
    by (elim revoked_inv_frame) (auto simp: disable disable_instance_def is_current_def)
next
  case (delete r i)
  let ?h = "h\<lparr>hub_jobs := delete_where (\<lambda>j. j_instance j = i) (hub_jobs h), hub_fleet := AList.delete i (hub_fleet h)\<rparr>"
  have "may_connect i' h \<Longrightarrow> may_connect i' h' \<or> revocation_pending i' h'" for i'
    using delete by (cases "i' = i") (auto simp: delete_instance_def revocation_pending_new, simp add: may_connect_def)
  moreover have "revocation_pending i' h \<Longrightarrow> revocation_pending i' h'" for i'
    using pending_cases [of i' ?h r] delete by (simp add: delete_instance_def revocation_pending_def)
  ultimately show ?thesis using assms(1)
    by (elim revoked_inv_frame) (auto simp: delete delete_instance_def is_current_def)
next
  case (revoke r i)
  have cur: "is_current i' c h' \<longleftrightarrow> is_current i' c h \<and> i' \<noteq> i" for i' c
    by (auto simp: revoke revoke_connection_def is_current_def shut_down_def split: option.splits)
  have "revocation_pending i' h \<Longrightarrow> i' \<noteq> i \<Longrightarrow> revocation_pending i' h'" for i'
    using revoke revocation_pending_set_revoke [of i' h r]
    by (auto simp: revoke_connection_def revocation_pending_def shut_down_def split: option.split)
  moreover have "hub_fleet h' = hub_fleet h" "socks h' = socks h"
    by (simp_all add: revoke revoke_connection_def shut_down_def split: option.split)
  ultimately show ?thesis using assms(1) unfolding revoked_inv_def by (metis cur may_connect_def)
next
  case (revoke_jobs r i c)
  show ?thesis using assms(1)
    by (rule revoked_inv_frame) (use revoke_jobs in \<open>auto intro: pending_cases\<close>)
next
  case (revoke_dropped r i)
  have "revocation_pending i' h \<Longrightarrow> revocation_pending i' h'" for i'
    using revoke_dropped revocation_pending_set_revoke [of i' h r] revocation_pending_new
    by (cases "i' = i") auto
  then show ?thesis using assms(1) by (elim revoked_inv_frame) (auto simp: revoke_dropped)
next
  case (create d cid i cmd actor jid)
  then show ?thesis using assms(1) by (auto simp: create_command_job_def revoked_inv_def split: sum.split)
next
  case (look_up d jid i cmd)
  then show ?thesis using assms(1) by (auto simp: look_up_target_def revoked_inv_def split: option.split)
next
  case (start d jid i cmd c)
  then show ?thesis using assms(1) by (auto simp: mark_started_def revoked_inv_def split: prod.split)
next
  case (send d jid i cmd c)
  have "revoked_inv k" if "link_send c m h = (b, k)" for m b k
    using assms(1) that snd_conv [of b k] by (elim revoked_inv_frame) (metis current_send link_send_frames(5) revoked_frame)+
  then show ?thesis using assms(1) send by (auto simp: send_command_def revoked_inv_def split: option.split prod.split)
next
  case restart
  then show ?thesis by (simp add: revoked_inv_def boot_def)
qed (use assms(1) in \<open>auto simp: revoked_inv_def create_command_def disable_command_def may_connect_def revocation_pending_def
    is_current_def split: if_splits\<close>)

subsection \<open>All invariants\<close>

definition hub_inv :: "hub \<Rightarrow> bool" where
  "hub_inv h \<longleftrightarrow> jobs_inv h \<and> socks_inv h \<and> cover_inv h \<and> revoked_inv h"

lemma hub_inv_step: "hub_inv h \<Longrightarrow> hub_step h h' \<Longrightarrow> hub_inv h'"
  unfolding hub_inv_def using jobs_inv_step socks_inv_step cover_step revoked_step by blast

lemma hub_inv_start: "hub_inv (empty_hub t)"
  by (simp add: hub_inv_def empty_hub_def jobs_inv_def socks_inv_def cover_inv_def revoked_inv_def is_current_def
      inflight_count_def)

theorem reachable_inv: "hub_reachable h \<Longrightarrow> hub_inv h"
  by (induction rule: hub_reachable.induct) (auto intro: hub_inv_start hub_inv_step)

end
