(* ===== verification/HubProperties.thy ===== *)
theory HubProperties
  imports HubSafety
begin

text \<open>
  What the invariants give for administrators and agents: commands that are bounded, typed, final, bound
  to one connection and looked after, and revocations that reach the socket.
\<close>

subsection \<open>Commands come from the stored list\<close>

definition stored :: "hub \<Rightarrow> string \<Rightarrow> bool" where
  "stored h cmd \<longleftrightarrow> (\<exists>(k, r) \<in> set (hub_commands h). sc_text r = cmd)"

fun text_of_dispatch :: "dispatch_pc \<Rightarrow> string option" where
  "text_of_dispatch (Admitted _ _ cmd _) = Some cmd"
| "text_of_dispatch (JobQueued _ _ cmd) = Some cmd"
| "text_of_dispatch (Target _ _ cmd _) = Some cmd"
| "text_of_dispatch (Started _ _ cmd _) = Some cmd"
| "text_of_dispatch _ = None"

definition commands_inv :: "hub \<Rightarrow> bool" where
  "commands_inv h \<longleftrightarrow> (\<forall>d cmd. text_of_dispatch (dispatches h d) = Some cmd \<longrightarrow> stored h cmd) \<and>
     (\<forall>c l jid cmd. map_of (hub_links h) c = Some l \<longrightarrow> RunCommand jid cmd \<in> set (l_queue l) \<longrightarrow> stored h cmd)"

lemma commands_inv_frame:
  assumes "commands_inv h" "\<And>cmd. stored h cmd \<Longrightarrow> stored h' cmd"
    and "\<And>d cmd. text_of_dispatch (dispatches h' d) = Some cmd \<Longrightarrow> stored h cmd \<or> text_of_dispatch (dispatches h d) = Some cmd"
    and "\<And>c l jid cmd. map_of (hub_links h') c = Some l \<Longrightarrow> RunCommand jid cmd \<in> set (l_queue l) \<Longrightarrow>
      stored h cmd \<or> (\<exists>l'. map_of (hub_links h) c = Some l' \<and> RunCommand jid cmd \<in> set (l_queue l'))"
  shows "commands_inv h'"
  using assms unfolding commands_inv_def by blast

lemma stored_frame [simp]:
  "stored (set_sock c p h) = stored h" "stored (set_revoke r q h) = stored h"
  "stored (set_dispatch d e h) = stored h" "stored (set_jobs js h) = stored h" "stored (map_link c f h) = stored h"
  "stored (fail_jobs_of i c h) = stored h" "stored (remove_current_agent i c h) = stored h"
  "stored (close_link c h) = stored h" "stored (shut_down c h) = stored h" "stored (snd (link_send c m h)) = stored h"
  by (simp_all add: stored_def fun_eq_iff link_ops)

lemma queue_frame:
  "map_of (hub_links (map_link c' f h)) c = Some l \<Longrightarrow> (\<And>l. set (l_queue (f l)) \<subseteq> set (l_queue l)) \<Longrightarrow> m \<in> set (l_queue l) \<Longrightarrow>
    \<exists>l'. map_of (hub_links h) c = Some l' \<and> m \<in> set (l_queue l')"
  by (auto split: if_splits)

lemma queue_send:
  "map_of (hub_links (snd (link_send c' m' h))) c = Some l \<Longrightarrow> m \<in> set (l_queue l) \<Longrightarrow>
    m = m' \<or> (\<exists>l'. map_of (hub_links h) c = Some l' \<and> m \<in> set (l_queue l'))"
  by (auto simp: link_send_def split: option.splits if_splits)

lemma commands_step:
  assumes "commands_inv h" "hub_step h h'"
  shows "commands_inv h'"
  using assms(2)
proof cases
  case (connect c i caps)
  show ?thesis using assms(1)
    by (rule commands_inv_frame)
       (auto simp: connect insert_agent_def Let_def stored_def shut_down_def split: option.splits if_splits)
next
  case (reject c i)
  show ?thesis using assms(1)
    by (rule commands_inv_frame) (auto simp: reject close_link_def split: if_splits)
next
  case (receive c i m)
  show ?thesis using assms(1)
    by (rule commands_inv_frame) (cases m; auto simp: receive socket_message_def split: if_splits)+
next
  case (transmit c i)
  have "x \<in> set (tl q) \<Longrightarrow> x \<in> set q" for x and q :: "outbound list" by (cases q) auto
  then show ?thesis using assms(1)
    by (elim commands_inv_frame) (auto simp: transmit split: if_splits)
next
  case (return c i)
  show ?thesis using assms(1)
    by (rule commands_inv_frame) (auto simp: return close_link_def split: if_splits)
next
  case (revoke r i)
  show ?thesis using assms(1)
    by (rule commands_inv_frame)
       (auto simp: revoke revoke_connection_def shut_down_def stored_def split: option.splits if_splits)
next
  case (add_command cid name cmd)
  then show ?thesis using assms(1) by (auto simp: create_command_def elim!: commands_inv_frame) (auto simp: stored_def)
next
  case (stop_command cid)
  have "stored h' cmd" if "stored h cmd" for cmd
    using that unfolding stored_def stop_command disable_command_def by force
  then show ?thesis using assms(1) by (elim commands_inv_frame) (auto simp: stop_command disable_command_def)
next
  case (request d cid r i actor)
  have "stored h (sc_text r)" using request(3) by (auto simp: stored_def dest: map_of_SomeD)
  then show ?thesis using assms(1) by (elim commands_inv_frame) (auto simp: request split: if_splits)
next
  case (create d cid i cmd actor jid)
  then show ?thesis using assms(1)
    by (auto simp: create_command_job_def elim!: commands_inv_frame split: sum.splits if_splits)
next
  case (look_up d jid i cmd)
  then show ?thesis using assms(1) by (auto simp: look_up_target_def elim!: commands_inv_frame split: option.splits if_splits)
next
  case (start d jid i cmd c)
  then show ?thesis using assms(1) by (auto simp: mark_started_def elim!: commands_inv_frame split: prod.splits if_splits)
next
  case (send d jid i cmd c)
  have st: "stored h cmd" using assms(1) send(2) unfolding commands_inv_def by (metis text_of_dispatch.simps(4))
  have "commands_inv (set_dispatch d e k)" if k: "link_send c (RunCommand jid cmd) h = (b, k)" "text_of_dispatch e = None" for b e k
  proof (rule commands_inv_frame [OF assms(1)])
    have ks: "k = snd (link_send c (RunCommand jid cmd) h)" using k(1) by simp
    show "stored (set_dispatch d e k) cmd'" if "stored h cmd'" for cmd' using that by (simp add: ks)
    show "stored h cmd' \<or> text_of_dispatch (dispatches h d') = Some cmd'"
      if "text_of_dispatch (dispatches (set_dispatch d e k) d') = Some cmd'" for d' cmd'
      using that k(2) by (simp add: ks split: if_splits)
    show "stored h cmd' \<or> (\<exists>l'. map_of (hub_links h) c' = Some l' \<and> RunCommand jid' cmd' \<in> set (l_queue l'))"
      if "map_of (hub_links (set_dispatch d e k)) c' = Some l" "RunCommand jid' cmd' \<in> set (l_queue l)" for c' l jid' cmd'
      using that st queue_send [of c "RunCommand jid cmd" h c' l "RunCommand jid' cmd'"] by (auto simp: ks)
  qed
  moreover have "commands_inv (set_dispatch d (Unsent jid i c) h)"
    using assms(1) by (rule commands_inv_frame) (auto split: if_splits)
  ultimately show ?thesis using send by (auto simp: send_command_def split: option.split prod.split)
next
  case restart
  then show ?thesis by (simp add: commands_inv_def boot_def)
next
  case (request_dropped d)
  have "text_of_dispatch (Dropped j) = None" for j by simp
  then show ?thesis using assms(1) by (elim commands_inv_frame) (auto simp: request_dropped split: if_splits)
qed (use assms(1) in \<open>auto simp: disable_instance_def delete_instance_def stored_def elim!: commands_inv_frame split: if_splits\<close>)

lemma reachable_commands: "hub_reachable h \<Longrightarrow> commands_inv h"
proof (induction rule: hub_reachable.induct)
  case (hub_start t)
  show ?case by (simp add: commands_inv_def empty_hub_def)
next
  case (hub_more h h')
  then show ?case by (blast intro: commands_step)
qed

subsection \<open>A run: one command on one agent\<close>

definition run_connected :: hub where
  "run_connected = set_sock ''c1'' (Connected ''node'') (set_sock ''c1'' (Checking ''node'')
     (insert_agent ''node'' ''c1'' [] (create_command ''cmd'' ''status'' ''uptime''
       (empty_hub 100\<lparr>hub_fleet := [(''node'', True)]\<rparr>))))"

definition run_started :: hub where
  "run_started = mark_started 0 ''job'' ''node'' ''uptime'' ''c1'' (look_up_target 0 ''job'' ''node'' ''uptime''
     (create_command_job 0 ''job'' ''cmd'' ''node'' ''uptime'' ''root''
       (set_dispatch 0 (Admitted ''cmd'' ''node'' ''uptime'' ''root'') run_connected)))"

lemma trim_uptime: "trim ''uptime'' = ''uptime''" "trim ''status'' = ''status''"
  by (rule trim_idle; code_simp)+

lemma reach_connected: "hub_reachable run_connected"
proof -
  let ?h0 = "empty_hub 100\<lparr>hub_fleet := [(''node'', True)]\<rparr>"
  have "hub_step (empty_hub 100) ?h0" using approve [of "empty_hub 100" "''node''"] by (simp add: empty_hub_def)
  then have h0: "hub_reachable ?h0" by (rule hub_more [OF hub_start])
  let ?h1 = "create_command ''cmd'' ''status'' ''uptime'' ?h0"
  have "hub_step ?h0 ?h1" by (rule add_command) (simp add: empty_hub_def)
  with h0 have h1: "hub_reachable ?h1" by (rule hub_more)
  let ?h2 = "insert_agent ''node'' ''c1'' [] ?h1"
  have "hub_step ?h1 ?h2" by (rule connect) (simp add: create_command_def empty_hub_def)
  with h1 have h2: "hub_reachable ?h2" by (rule hub_more)
  have fl: "hub_fleet ?h2 = [(''node'', True)]" "hub_agents ?h1 = []" "socks ?h2 ''c1'' = Inserted ''node'' None"
    by (simp_all add: insert_agent_def create_command_def empty_hub_def)
  let ?h3 = "set_sock ''c1'' (Checking ''node'') ?h2"
  have "hub_step ?h2 ?h3" by (rule none_replaced) (rule fl(3))
  with h2 have h3: "hub_reachable ?h3" by (rule hub_more)
  have "hub_step ?h3 (set_sock ''c1'' (if may_connect ''node'' ?h3 then Connected ''node'' else Rejected ''node'') ?h3)"
    by (rule authorize) simp
  moreover have "may_connect ''node'' ?h3" using fl(1) by (simp add: may_connect_def)
  ultimately have "hub_step ?h3 run_connected" by (simp add: run_connected_def)
  with h3 show ?thesis by (rule hub_more)
qed

lemma run_connected_fields:
  "hub_jobs run_connected = []" "hub_commands run_connected = [(''cmd'', \<lparr>sc_text = ''uptime'', sc_enabled = True\<rparr>)]"
  "map_of (hub_agents run_connected) ''node'' = Some \<lparr>ah_connection = ''c1'', ah_capabilities = []\<rparr>"
  "dispatches run_connected = (\<lambda>_. Idle)" "hub_fleet run_connected = [(''node'', True)]" "hub_clock run_connected = 100"
  "socks run_connected ''c1'' = Connected ''node''"
  by (simp_all add: run_connected_def insert_agent_def create_command_def empty_hub_def trim_uptime set_sock_def)

lemma reach_started: "hub_reachable run_started"
proof -
  let ?h1 = "set_dispatch 0 (Admitted ''cmd'' ''node'' ''uptime'' ''root'') run_connected"
  have "hub_step run_connected ?h1"
    using request [of run_connected 0 "''cmd''" "\<lparr>sc_text = ''uptime'', sc_enabled = True\<rparr>" "''node''" "''root''"]
    by (simp add: run_connected_fields)
  then have h1: "hub_reachable ?h1" by (rule hub_more [OF reach_connected])
  let ?h2 = "create_command_job 0 ''job'' ''cmd'' ''node'' ''uptime'' ''root'' ?h1"
  have "hub_step ?h1 ?h2" by (rule create) (simp_all add: run_connected_fields)
  with h1 have h2: "hub_reachable ?h2" by (rule hub_more)
  have f: "dispatches ?h2 0 = JobQueued ''job'' ''node'' ''uptime''"
      "map_of (hub_agents ?h2) ''node'' = Some \<lparr>ah_connection = ''c1'', ah_capabilities = []\<rparr>"
    by (simp_all add: create_command_job_def create_job_tx_def inflight_count_def run_connected_fields
        max_inflight_commands_per_instance_def)
  let ?h3 = "look_up_target 0 ''job'' ''node'' ''uptime'' ?h2"
  have "hub_step ?h2 ?h3" by (rule look_up) (rule f(1))
  with h2 have h3: "hub_reachable ?h3" by (rule hub_more)
  have "hub_step ?h3 run_started" unfolding run_started_def by (rule start) (simp add: look_up_target_def f(2))
  with h3 show ?thesis by (rule hub_more)
qed

definition demo_job :: command_job where
  "demo_job = (new_job 100 ''job'' (Some ''cmd'') ''node'' ''uptime'' ''root'')
     \<lparr>j_status := Running, j_started_at := Some 100, j_connection := Some ''c1''\<rparr>"

lemma run_started_jobs: "hub_jobs run_started = [demo_job]"
  by (simp add: run_started_def mark_started_def look_up_target_def create_command_job_def create_job_tx_def inflight_count_def
      run_connected_fields max_inflight_commands_per_instance_def start_job_def update_where_def job_matches_def new_job_def
      demo_job_def set_dispatch_def set_jobs_def)

subsection \<open>Properties\<close>

text \<open>
  C27: Every row of the table of commands is well formed, whatever the administrators, the agents, the time
  limit and restarts do: what has started has a start time and a connection, what has not finished has no
  exit code and no completion time, a completed job exited with 0 and a failed one with something else, and
  no output exceeds a mebibyte.
\<close>

theorem command_jobs_are_well_formed: "hub_reachable h \<Longrightarrow> j \<in> set (hub_jobs h) \<Longrightarrow> job_ok j"
  using reachable_inv by (auto simp: hub_inv_def jobs_inv_def)

theorem command_jobs_are_well_formed_witness: "job_ok demo_job"
  by (rule command_jobs_are_well_formed [OF reach_started]) (simp add: run_started_jobs)

text \<open>
  C28: However many requests race, an instance never has more than four commands queued or running.
\<close>

theorem four_commands_at_most:
  "hub_reachable h \<Longrightarrow> inflight_count i (hub_jobs h) \<le> max_inflight_commands_per_instance"
  using reachable_inv by (auto simp: hub_inv_def jobs_inv_def)

theorem four_commands_at_most_witness:
  "inflight_count ''node'' (hub_jobs run_started) \<le> max_inflight_commands_per_instance \<and> inflight_count ''node'' (hub_jobs run_started) = 1"
  using four_commands_at_most [OF reach_started, of "''node''"]
  by (simp add: run_started_jobs inflight_count_def inflight_def demo_job_def new_job_def)

text \<open>
  C29: A finished command is final.  Its row, with its output and exit code, survives every later step
  unchanged, late messages of agents, time limits and restarts included, until its instance is deleted.
\<close>

theorem finished_command_is_final:
  assumes "hub_step h h'" "j \<in> set (hub_jobs h)" "\<not> inflight j"
  shows "j \<in> set (hub_jobs h') \<or> map_of (hub_fleet h') (j_instance j) = None"
  using assms(1)
proof (cases rule: jobs_step)
  case 1
  then show ?thesis using assms(2,3) jobs_move_finished by blast
next
  case (2 t jid cid i cmd actor)
  then have "hub_jobs h' = hub_jobs h @ [new_job t jid cid i cmd actor]" by (simp add: create_job_tx_def split: if_splits)
  then show ?thesis using assms(2) by simp
next
  case (3 i)
  then show ?thesis using assms(2) by (cases "j_instance j = i") simp_all
qed

definition done_job :: command_job where
  "done_job = demo_job\<lparr>j_status := JobCompleted, j_completed_at := Some 101, j_output := ''up 3 days'', j_exit_code := Some 0\<rparr>"

theorem finished_command_is_final_witness:
  "done_job \<in> set (hub_jobs (boot (set_jobs [done_job] run_started)))
   \<or> map_of (hub_fleet (boot (set_jobs [done_job] run_started))) (j_instance done_job) = None"
  by (rule finished_command_is_final [OF restart]) (simp_all add: done_job_def inflight_def)

text \<open>
  C30: Every running command is looked after.  A job that runs is bound to a connection of its instance, and
  either the request that started it is still handing it over and will fail it if that does not succeed, or
  the socket of the connection has yet to fail its jobs on the way out.  The exceptions, which only the time
  limit ends, are a request that was abandoned between the two steps and a connection that was refused after
  the command had been sent to it.
\<close>

theorem running_command_is_looked_after:
  assumes "hub_reachable h" "j \<in> set (hub_jobs h)" "j_status j = Running"
  shows "\<exists>c. j_connection j = Some c \<and>
    ((\<exists>d. looks_after (dispatches h d) (j_id j) (j_instance j) c) \<or> cleans (socks h c) = Some (j_instance j) \<or>
     socks h c = Ended (j_instance j) True)"
  using reachable_inv [OF assms(1)] assms(2,3) by (auto simp: hub_inv_def cover_inv_def covered_def)

theorem running_command_is_looked_after_witness:
  "\<exists>c. j_connection demo_job = Some c \<and>
    ((\<exists>d. looks_after (dispatches run_started d) (j_id demo_job) (j_instance demo_job) c) \<or>
     cleans (socks run_started c) = Some (j_instance demo_job) \<or> socks run_started c = Ended (j_instance demo_job) True)"
  by (rule running_command_is_looked_after [OF reach_started]) (simp_all add: run_started_jobs demo_job_def)

text \<open>
  An agent decides nothing but its own commands.  A message that arrives on a connection, whatever it
  says, leaves every job unchanged that does not run on that connection for its instance.
\<close>

theorem agent_message_is_confined:
  assumes "j \<in> set (hub_jobs h)" "\<not> (j_status j = Running \<and> j_instance j = i \<and> j_connection j = Some c)"
  shows "j \<in> set (hub_jobs (socket_message i c m h))"
proof -
  have keep: "j \<in> set (update_where p f (hub_jobs h))"
    if "\<And>j. p j \<Longrightarrow> j_status j = Running \<and> j_instance j = i \<and> j_connection j = Some c" for p f
    using assms that [of j] unfolding set_update_where by auto
  show ?thesis using assms(1)
    by (cases m) (auto simp: socket_message_def complete_command_job_def append_command_job_output_def Let_def
        job_matches_def on_connection_def intro!: keep)
qed

theorem agent_message_is_confined_witness:
  "demo_job \<in> set (hub_jobs (socket_message ''other'' ''c2'' (CommandResult ''job'' 0 ''forged'') run_started))"
  by (rule agent_message_is_confined) (simp_all add: run_started_jobs demo_job_def new_job_def)






text \<open>
  Agents only ever receive commands from the list that the administrators keep.  Every command that waits
  in the queue of a connection has the text of a stored command.
\<close>

theorem only_stored_commands_are_sent:
  assumes "hub_reachable h" "map_of (hub_links h) c = Some l" "RunCommand jid cmd \<in> set (l_queue l)"
  shows "stored h cmd"
  using reachable_commands [OF assms(1)] assms(2,3) unfolding commands_inv_def by blast

definition run_sent :: hub where
  "run_sent = send_command 0 ''job'' ''node'' ''uptime'' ''c1'' run_started"

theorem only_stored_commands_are_sent_witness: "stored run_sent ''uptime''"
proof (rule only_stored_commands_are_sent)
  have "dispatches run_started 0 = Started ''job'' ''node'' ''uptime'' ''c1''"
    by (simp add: run_started_def mark_started_def look_up_target_def create_command_job_def create_job_tx_def
        inflight_count_def run_connected_fields max_inflight_commands_per_instance_def start_job_def affected_def
        job_matches_def new_job_def)
  then have "hub_step run_started run_sent" unfolding run_sent_def by (rule send)
  then show "hub_reachable run_sent" by (rule hub_more [OF reach_started])
  have links: "map_of (hub_links run_started) ''c1'' = Some \<lparr>l_queue = [], l_closed = False, l_shutdown = False\<rparr>"
    "map_of (hub_agents run_started) ''node'' = Some \<lparr>ah_connection = ''c1'', ah_capabilities = []\<rparr>"
    by (simp_all add: run_started_def mark_started_def look_up_target_def create_command_job_def create_job_tx_def
        inflight_count_def run_connected_fields max_inflight_commands_per_instance_def start_job_def,
        simp add: run_connected_def insert_agent_def create_command_def empty_hub_def)
  show "map_of (hub_links run_sent) ''c1'' = Some \<lparr>l_queue = [RunCommand ''job'' ''uptime''], l_closed = False, l_shutdown = False\<rparr>"
    by (simp add: run_sent_def send_command_def link_send_def links agent_outbound_queue_capacity_def)
qed simp

text \<open>Once the time limit has run, no job that started more than an hour before the clock still runs.\<close>

lemma expired_jobs_are_failed:
  assumes "j \<in> set (expire_command_jobs t js)" "j_status j = Running" "j_started_at j = Some s"
  shows "sat_cutoff t \<le> s"
  using assms unfolding expire_command_jobs_def by (elim update_whereE) (auto simp: failed_job_def)

end
