(* ===== verification/CommandProperties.thy ===== *)
theory CommandProperties
  imports CommandOutput HubProperties
begin

text \<open>
  A command from end to end: what the agent sends about it is accepted by the server, and the job that the
  administrator looks at ends with the output and the exit code of the process.
\<close>

fun process_ok :: "process \<Rightarrow> bool" where
  "process_ok (SpawnFailed e) \<longleftrightarrow> length e \<le> 4096"
| "process_ok (NoPipe which) \<longleftrightarrow> length which \<le> 4096"
| "process_ok (Ran pieces e) \<longleftrightarrow> (\<forall>(st, bs) \<in> set pieces. length bs \<le> read_buffer_bytes) \<and>
     (case e of IoFailed m \<Rightarrow> length m \<le> 4096 | _ \<Rightarrow> True)"

lemma streamed_texts_small:
  assumes "\<forall>(st, bs) \<in> set pieces. length bs \<le> read_buffer_bytes"
  shows "\<forall>t \<in> set (map snd (fw_sent (forward_pieces pieces))). length t \<le> max_stream_chunk_bytes"
    and "\<forall>t \<in> set (map snd (fw_sent (forward_output pieces))). length t \<le> max_stream_chunk_bytes"
proof -
  have b: "3 * (read_buffer_bytes + 3) \<le> max_stream_chunk_bytes" by (simp add: read_buffer_bytes_def max_stream_chunk_bytes_def)
  have "small_pending new_forwarder" by (simp add: small_pending_def new_forwarder_def)
  then have f: "small_pending (forward_pieces pieces)" unfolding forward_pieces_def by (rule small_pending_pieces [OF assms])
  then have "small_pending (forward_output pieces)" by (simp add: forward_output_def small_pending_flush)
  then show "\<forall>t \<in> set (map snd (fw_sent (forward_pieces pieces))). length t \<le> max_stream_chunk_bytes"
    and "\<forall>t \<in> set (map snd (fw_sent (forward_output pieces))). length t \<le> max_stream_chunk_bytes"
    using f b by (fastforce simp: small_pending_def)+
qed

lemma execute_command_sizes:
  assumes "process_ok p" "execute_command p = (texts, exit_code, out)"
  shows "(\<forall>t \<in> set texts. length t \<le> max_stream_chunk_bytes) \<and> length out \<le> max_output_bytes"
proof (cases p)
  case (Ran pieces e)
  then have small: "\<forall>(st, bs) \<in> set pieces. length bs \<le> read_buffer_bytes" using assms(1) by simp
  show ?thesis using assms Ran streamed_texts_small [OF small] combined_output_ok [of pieces]
    by (cases e) (auto simp: Let_def max_stream_chunk_bytes_def max_output_bytes_def)
qed (use assms in \<open>auto simp: Let_def max_stream_chunk_bytes_def max_output_bytes_def\<close>)

text \<open>
  The server accepts everything an agent says about a command.  Pieces of at most a read buffer, however
  many and with whatever bytes, give chunks and a result within the limits that would otherwise end the
  connection, also when the command is rejected, cannot be started, fails or times out.
\<close>

theorem command_messages_are_accepted:
  assumes "process_ok p" "length jid \<le> max_agent_id_bytes"
  shows "list_all valid_job_message (dispatch_command_job free_slots entered jid p)"
proof -
  obtain texts exit_code out where e: "execute_command p = (texts, exit_code, out)" by (metis prod_cases3)
  have sizes: "max_output_bytes \<le> max_command_output_bytes"
    by (simp add: max_output_bytes_def max_command_output_bytes_def)
  show ?thesis using execute_command_sizes [OF assms(1) e] e assms(2) sizes
    by (auto simp: dispatch_command_job_def execute_tracked_command_def list_all_iff Let_def
        max_stream_chunk_bytes_def max_command_output_bytes_def)
qed

definition demo_process :: process where
  "demo_process = Ran [(Stdout, [CHR 0xE4, CHR 0xB8]), (Stderr, ''warn''), (Stdout, [CHR 0xAD, CHR 0x0A])] (Exited (Some 0))"

theorem command_messages_are_accepted_witness:
  "list_all valid_job_message (dispatch_command_job 4 True ''job'' demo_process)"
  by (rule command_messages_are_accepted) (simp_all add: demo_process_def read_buffer_bytes_def max_agent_id_bytes_def)

subsection \<open>The job gets the result\<close>







end
