(* ===== verification/FileTypes.thy ===== *)
theory FileTypes
  imports Prelude
begin

text \<open>
  The messages of the file manager (\<open>backend/src/models.rs\<close> and the equal types of
  \<open>instanceEnd/src/models.rs\<close>) and the server's errors about them (\<open>backend/src/files.rs\<close>).  Sizes and sequence
  numbers (\<open>u64\<close>) are natural numbers here; a transfer counts far below the limit.
\<close>

datatype file_error_code = InvalidPath | NotFound | PermissionDenied | AlreadyExists | NotDirectory | IsDirectory
  | Busy | TooLarge | Unsupported | Io

type_synonym file_failure = "file_error_code \<times> string"

datatype file_entry_kind = FileKind | DirectoryKind | SymlinkKind | OtherKind

record file_entry =
  fe_name :: string
  fe_path :: string
  fe_kind :: file_entry_kind
  fe_size_bytes :: nat
  fe_modified_at :: "int option"
  fe_readonly :: bool

record file_listing =
  fl_path :: string
  fl_parent :: "string option"
  fl_entries :: "file_entry list"
  fl_offset :: nat
  fl_limit :: nat
  fl_total :: nat

datatype file_request =
    RootsRequest
  | ListRequest string nat nat
  | CreateDirectoryRequest string string
  | MoveRequest string string string bool
  | DeleteRequest string bool
  | UploadStart string string nat bool nat
  | DownloadStart string nat

datatype file_response =
    RootsResponse "(string \<times> string) list"
  | ListingResponse file_listing
  | OperationComplete string
  | UploadReady string
  | DownloadReady string string nat
  | TransferAck nat nat
  | TransferComplete string nat
  | FileError file_error_code string

subsection \<open>Errors of the server\<close>

definition file_error_code_text :: "file_error_code \<Rightarrow> string" where
  "file_error_code_text c = (case c of InvalidPath \<Rightarrow> ''invalid_path'' | NotDirectory \<Rightarrow> ''not_directory''
     | IsDirectory \<Rightarrow> ''is_directory'' | NotFound \<Rightarrow> ''not_found'' | PermissionDenied \<Rightarrow> ''permission_denied''
     | AlreadyExists \<Rightarrow> ''already_exists'' | Busy \<Rightarrow> ''busy'' | TooLarge \<Rightarrow> ''too_large''
     | Unsupported \<Rightarrow> ''unsupported'' | Io \<Rightarrow> ''io'')"

definition file_error_status :: "file_error_code \<Rightarrow> nat" where
  "file_error_status c = (case c of InvalidPath \<Rightarrow> 400 | NotDirectory \<Rightarrow> 400 | IsDirectory \<Rightarrow> 400 | NotFound \<Rightarrow> 404
     | PermissionDenied \<Rightarrow> 403 | AlreadyExists \<Rightarrow> 409 | Busy \<Rightarrow> 409 | TooLarge \<Rightarrow> 413 | Unsupported \<Rightarrow> 422 | Io \<Rightarrow> 502)"

definition file_error :: "file_error_code \<Rightarrow> string \<Rightarrow> app_error" where
  "file_error c msg = app_error_with_code (file_error_status c) (file_error_code_text c) msg"

definition unexpected_response :: app_error where
  "unexpected_response = app_error_with_code 502 ''unexpected_agent_response'' ''the agent returned an invalid file response''"

definition disconnected_error :: app_error where
  "disconnected_error = app_error_with_code 409 ''agent_disconnected'' ''the agent has disconnected''"

definition response_error_or_unexpected :: "file_response \<Rightarrow> app_error" where
  "response_error_or_unexpected r = (case r of FileError c msg \<Rightarrow> file_error c msg | _ \<Rightarrow> unexpected_response)"

text \<open>What a request's channel delivers, and \<open>wait_response\<close> on it; \<open>None\<close> is the time-out.\<close>

datatype file_request_event = ResponseEvent file_response | ChunkEvent nat bytes | DisconnectedEvent

definition wait_response :: "file_request_event option \<Rightarrow> file_response result" where
  "wait_response ev = (case ev of
       None \<Rightarrow> Inl (app_error_new 504 ''timed out waiting for the agent'')
     | Some (ResponseEvent (FileError c msg)) \<Rightarrow> Inl (file_error c msg)
     | Some (ResponseEvent r) \<Rightarrow> Inr r
     | Some DisconnectedEvent \<Rightarrow> Inl disconnected_error
     | Some (ChunkEvent q bs) \<Rightarrow> Inl unexpected_response)"

definition transfer_window :: nat where "transfer_window = 4"

definition request_queue_capacity :: nat where "request_queue_capacity = transfer_window * 2 + 4"

end
