(* ===== verification/ChunkFrames.thy ===== *)
theory ChunkFrames
  imports FileTypes Totp
begin

text \<open>
  The binary frames that carry the pieces of a file between the server (\<open>backend/src/files.rs\<close>) and the
  agent (\<open>instanceEnd/src/file_manager.rs\<close>): a kind, the 16 bytes of the request's UUID, a sequence number
  in network order and the data.  Both programs have their own encoder and decoder.  The texts of UUIDs are
  those of a library, a parameter.
\<close>

definition chunk_size :: nat where "chunk_size = 256 * 1024"
definition frame_kind_file_chunk_v1 :: u8 where "frame_kind_file_chunk_v1 = 1"
definition frame_header_bytes :: nat where "frame_header_bytes = 1 + 16 + 8"

record uuid_text =
  uuid_parse :: "string \<Rightarrow> bytes option"
  uuid_show :: "bytes \<Rightarrow> string"

subsection \<open>The server\<close>

definition encode_chunk_frame :: "uuid_text \<Rightarrow> string \<Rightarrow> u64 \<Rightarrow> bytes \<Rightarrow> bytes result" where
  "encode_chunk_frame lib request_id sequence data =
     (if length data > chunk_size then Inl (app_error_new 500 ''file chunk exceeds the protocol limit'')
      else case uuid_parse lib request_id of None \<Rightarrow> Inl unexpected_response
      | Some u \<Rightarrow> Inr (frame_kind_file_chunk_v1 # u @ to_be_bytes sequence @ data))"

definition u64_from_be_bytes :: "bytes \<Rightarrow> u64" where
  "u64_from_be_bytes bs = fold (\<lambda>b w. push_bit 8 w OR ucast b) bs 0"

definition decode_chunk_frame :: "uuid_text \<Rightarrow> bytes \<Rightarrow> (string \<times> u64 \<times> bytes) option" where
  "decode_chunk_frame lib frame =
     (if length frame < frame_header_bytes \<or> hd frame \<noteq> frame_kind_file_chunk_v1
         \<or> length frame - frame_header_bytes > chunk_size
      then None
      else Some (uuid_show lib (take 16 (drop 1 frame)), u64_from_be_bytes (take 8 (drop 17 frame)),
        drop frame_header_bytes frame))"

subsection \<open>The agent\<close>

definition agent_encode_chunk_frame :: "uuid_text \<Rightarrow> string \<Rightarrow> u64 \<Rightarrow> bytes \<Rightarrow> file_failure + bytes" where
  "agent_encode_chunk_frame lib request_id sequence data =
     (if length data > chunk_size then Inl (TooLarge, ''file chunk exceeds the protocol limit'')
      else case uuid_parse lib request_id of None \<Rightarrow> Inl (InvalidPath, ''invalid file request id'')
      | Some u \<Rightarrow> Inr (frame_kind_file_chunk_v1 # u @ to_be_bytes sequence @ data))"

definition agent_decode_chunk_frame :: "uuid_text \<Rightarrow> bytes \<Rightarrow> file_failure + (string \<times> u64 \<times> bytes)" where
  "agent_decode_chunk_frame lib frame =
     (if length frame < frame_header_bytes \<or> hd frame \<noteq> frame_kind_file_chunk_v1
      then Inl (Io, ''invalid file chunk header'')
      else let data = drop frame_header_bytes frame
        in if length data > chunk_size then Inl (TooLarge, ''file chunk exceeds the protocol limit'')
           else Inr (uuid_show lib (take 16 (drop 1 frame)), u64_from_be_bytes (take 8 (drop 17 frame)), data))"

subsection \<open>Round trips\<close>

text \<open>What the UUID library documents, for the canonical texts that \<open>Uuid::to_string\<close> gives.\<close>

definition uuid_ok :: "uuid_text \<Rightarrow> bool" where
  "uuid_ok lib \<longleftrightarrow> (\<forall>u. length u = 16 \<longrightarrow> uuid_parse lib (uuid_show lib u) = Some u)"

lemma length_to_be_bytes [simp]: "length (to_be_bytes w) = 8"
  by (simp add: to_be_bytes_def)

lemma list8: "length xs = 8 \<Longrightarrow> \<exists>a b c d e f g h. xs = [a, b, c, d, e, f, g, h]"
  by (auto simp: numeral_eq_Suc length_Suc_conv)

lemma to_from_be_bytes:
  assumes "length bs = 8"
  shows "to_be_bytes (u64_from_be_bytes bs) = bs"
proof -
  obtain a b c d e f g h where bs: "bs = [a, b, c, d, e, f, g, h]" using list8 [OF assms] by blast
  show ?thesis unfolding bs to_be_bytes_def u64_from_be_bytes_def
    by (simp, intro conjI; rule bit_eqI; auto simp: bit_simps dest: bit_imp_le_length)
qed


lemma to_be_bytes_inj: "to_be_bytes x = to_be_bytes w \<Longrightarrow> x = w"
proof (rule bit_eqI)
  fix n assume eq: "to_be_bytes x = to_be_bytes w" and "possible_bit TYPE(64 word) n"
  then have n: "n < 64" by simp
  have "(ucast (drop_bit (8 * i) x) :: u8) = ucast (drop_bit (8 * i) w)" if "i < 8" for i
  proof -
    have "i \<in> set [7, 6, 5, 4, 3, 2, 1, 0]" using that by auto
    then show ?thesis using eq unfolding to_be_bytes_def by (auto simp: map_eq_conv)
  qed
  from this [of "n div 8"] have "bit (ucast (drop_bit (8 * (n div 8)) x) :: u8) (n mod 8) = bit (ucast (drop_bit (8 * (n div 8)) w) :: u8) (n mod 8)"
    using n by simp
  then show "bit x n = bit w n" by (simp add: bit_simps)
qed

lemma from_to_be_bytes [simp]: "u64_from_be_bytes (to_be_bytes w) = w"
  by (rule to_be_bytes_inj) (simp add: to_from_be_bytes)

lemma frame_parts:
  assumes "length u = 16"
  shows "take 16 (drop 1 (k # u @ to_be_bytes q @ data)) = u"
    "take 8 (drop 17 (k # u @ to_be_bytes q @ data)) = to_be_bytes q"
    "drop frame_header_bytes (k # u @ to_be_bytes q @ data) = data"
    "length (k # u @ to_be_bytes q @ data) = frame_header_bytes + length data"
  using assms by (simp_all add: frame_header_bytes_def)

text \<open>
  A piece of a file crosses the connection unchanged.  A frame that the server or the agent builds for a
  request, with any sequence number and any data up to the chunk size, is decoded by both programs to that
  request, that number and that data.
\<close>

theorem chunk_frames_round_trip:
  assumes "uuid_ok lib" "length u = 16" "length data \<le> chunk_size"
  shows "\<exists>frame. encode_chunk_frame lib (uuid_show lib u) q data = Inr frame
    \<and> agent_encode_chunk_frame lib (uuid_show lib u) q data = Inr frame
    \<and> decode_chunk_frame lib frame = Some (uuid_show lib u, q, data)
    \<and> agent_decode_chunk_frame lib frame = Inr (uuid_show lib u, q, data)"
proof -
  let ?f = "frame_kind_file_chunk_v1 # u @ to_be_bytes q @ data"
  note parts = frame_parts [OF assms(2), of frame_kind_file_chunk_v1 q data]
  have "uuid_parse lib (uuid_show lib u) = Some u" using assms(1,2) by (simp add: uuid_ok_def)
  then have "encode_chunk_frame lib (uuid_show lib u) q data = Inr ?f"
      "agent_encode_chunk_frame lib (uuid_show lib u) q data = Inr ?f"
    using assms(3) by (simp_all add: encode_chunk_frame_def agent_encode_chunk_frame_def)
  moreover have "decode_chunk_frame lib ?f = Some (uuid_show lib u, q, data)"
    unfolding decode_chunk_frame_def parts using assms(3) by simp
  moreover have "agent_decode_chunk_frame lib ?f = Inr (uuid_show lib u, q, data)"
    unfolding agent_decode_chunk_frame_def parts Let_def using assms(3) by simp
  ultimately show ?thesis by blast
qed

text \<open>A library that writes the bytes themselves, for the witness.\<close>

definition demo_uuid :: uuid_text where
  "demo_uuid = \<lparr>uuid_parse = (\<lambda>s. if length s = 16 then Some (map (\<lambda>c. of_nat (of_char c)) s) else None),
     uuid_show = map (\<lambda>b. char_of (unat b))\<rparr>"

lemma demo_uuid_ok: "uuid_ok demo_uuid"
proof -
  have "of_nat (of_char (char_of (unat b))) = b" for b :: u8
  proof -
    have "unat b < 256" using unsigned_less [where 'a = nat, of b] by simp
    then show ?thesis by (simp add: of_char_of)
  qed
  then show ?thesis by (simp add: uuid_ok_def demo_uuid_def comp_def)
qed

theorem chunk_frames_round_trip_witness:
  "\<exists>frame. encode_chunk_frame demo_uuid (uuid_show demo_uuid (replicate 16 7)) 5 [1, 2, 3] = Inr frame
    \<and> agent_encode_chunk_frame demo_uuid (uuid_show demo_uuid (replicate 16 7)) 5 [1, 2, 3] = Inr frame
    \<and> decode_chunk_frame demo_uuid frame = Some (uuid_show demo_uuid (replicate 16 7), 5, [1, 2, 3])
    \<and> agent_decode_chunk_frame demo_uuid frame = Inr (uuid_show demo_uuid (replicate 16 7), 5, [1, 2, 3])"
  by (rule chunk_frames_round_trip) (simp_all add: demo_uuid_ok chunk_size_def)

end
