(* ===== verification/FileUpload.thy ===== *)
theory FileUpload
  imports ChunkFrames
begin

text \<open>
  An upload from end to end: \<open>admin_upload_file\<close> of the server (\<open>backend/src/files.rs\<close>), which cuts the body of
  the request into pieces and keeps at most four of them unacknowledged, and \<open>run_upload\<close> of the agent
  (\<open>instanceEnd/src/file_manager.rs\<close>), which writes them to a temporary file and puts it in place.  Between
  them are the server's queues, the socket and the agent's queue of four events; every interleaving of the
  two tasks, the two socket loops and the faults that may hit them is a run of \<open>upload_step\<close>.
\<close>

subsection \<open>The server's task\<close>

datatype upload_phase = AwaitReady | Streaming | Draining | AwaitComplete | UploadEnded "string result"

record server_upload =
  su_size :: nat
  su_max :: nat
  su_body :: "bytes list"
  su_chunk :: bytes
  su_sequence :: nat
  su_transferred :: nat
  su_inflight :: "(nat \<times> nat) list"
  su_phase :: upload_phase

definition fail_upload :: "app_error \<Rightarrow> server_upload \<Rightarrow> server_upload" where
  "fail_upload e su = su\<lparr>su_phase := UploadEnded (Inl e)\<rparr>"

text \<open>\<open>wait_upload_ack\<close>, once \<open>wait_response\<close> has returned.\<close>

definition wait_upload_ack :: "file_response \<Rightarrow> server_upload \<Rightarrow> server_upload" where
  "wait_upload_ack r su = (case r of
       TransferAck sequence transferred_bytes \<Rightarrow> (case su_inflight su of
           [] \<Rightarrow> fail_upload unexpected_response su
         | (expected_sequence, expected_bytes) # rest \<Rightarrow>
             if sequence \<noteq> expected_sequence \<or> transferred_bytes \<noteq> expected_bytes
             then fail_upload (app_error_new 502 ''invalid chunk acknowledgement from the agent'') su
             else su\<lparr>su_inflight := rest\<rparr>)
     | _ \<Rightarrow> fail_upload (response_error_or_unexpected r) su)"

definition upload_response :: "file_response \<Rightarrow> server_upload \<Rightarrow> server_upload" where
  "upload_response r su = (case su_phase su of
       AwaitReady \<Rightarrow> (case r of UploadReady _ \<Rightarrow> su\<lparr>su_phase := Streaming\<rparr>
         | _ \<Rightarrow> fail_upload (response_error_or_unexpected r) su)
     | Streaming \<Rightarrow> wait_upload_ack r su
     | Draining \<Rightarrow> wait_upload_ack r su
     | AwaitComplete \<Rightarrow> (case r of
           TransferComplete path completed_size \<Rightarrow> if completed_size \<noteq> su_size su
             then fail_upload (app_error_new 502 ''the agent returned another size'') su
             else su\<lparr>su_phase := UploadEnded (Inr path)\<rparr>
         | _ \<Rightarrow> fail_upload (response_error_or_unexpected r) su)
     | UploadEnded _ \<Rightarrow> su)"

text \<open>An event of the request's channel, as \<open>wait_response\<close> sees it.\<close>

definition upload_event_arrives :: "file_request_event option \<Rightarrow> server_upload \<Rightarrow> server_upload" where
  "upload_event_arrives ev su = (case wait_response ev of Inl e \<Rightarrow> fail_upload e su | Inr r \<Rightarrow> upload_response r su)"

definition waits_for_event :: "server_upload \<Rightarrow> bool" where
  "waits_for_event su \<longleftrightarrow> su_phase su = AwaitReady \<or> su_phase su = AwaitComplete
     \<or> su_phase su = Streaming \<and> su_chunk su \<noteq> [] \<and> length (su_inflight su) \<ge> transfer_window
     \<or> su_phase su = Draining \<and> su_inflight su \<noteq> []"

text \<open>One turn of the inner loop: the next piece of the current part of the body.\<close>

definition send_piece :: "server_upload \<Rightarrow> server_upload \<times> (nat \<times> bytes) option" where
  "send_piece su =
     (let data = take chunk_size (su_chunk su); transferred = su_transferred su + length data
      in if transferred > su_size su \<or> transferred > su_max su
         then (fail_upload (app_error_new 413 ''the body is larger than declared'') su, None)
         else (su\<lparr>su_transferred := transferred, su_inflight := su_inflight su @ [(su_sequence su, transferred)],
             su_sequence := su_sequence su + 1, su_chunk := drop chunk_size (su_chunk su)\<rparr>,
           Some (su_sequence su, data)))"

text \<open>The outer loop: the next part of the body, or its end.\<close>

definition next_part :: "server_upload \<Rightarrow> server_upload" where
  "next_part su = (case su_body su of
       part # body \<Rightarrow> su\<lparr>su_chunk := part, su_body := body\<rparr>
     | [] \<Rightarrow> if su_transferred su \<noteq> su_size su
         then fail_upload (app_error_new 400 ''the body is shorter than declared'') su
         else su\<lparr>su_phase := Draining\<rparr>)"

text \<open>A request for a declared size; larger than the limit it is refused at once.\<close>

definition admin_upload_file :: "nat \<Rightarrow> nat \<Rightarrow> bytes list \<Rightarrow> server_upload" where
  "admin_upload_file declared limit body = \<lparr>su_size = declared, su_max = limit, su_body = body, su_chunk = [], su_sequence = 0,
     su_transferred = 0, su_inflight = [],
     su_phase = (if declared > limit then UploadEnded (Inl (app_error_new 413 ''the file is larger than allowed'')) else AwaitReady)\<rparr>"

subsection \<open>The agent's task\<close>

datatype upload_event = UploadChunk nat bytes | UploadFinish
datatype agent_phase = Opening | Receiving | Committed | AgentFailed | AgentCancelled

record agent_upload =
  au_expected :: nat
  au_next :: nat
  au_received :: nat
  au_file :: bytes
  au_phase :: agent_phase

text \<open>The temporary file is open: the server hears that the agent is ready.\<close>

definition upload_ready :: "string \<Rightarrow> agent_upload \<Rightarrow> agent_upload \<times> file_response" where
  "upload_ready target au = (au\<lparr>au_phase := Receiving\<rparr>, UploadReady target)"

definition agent_failure :: "file_error_code \<Rightarrow> string \<Rightarrow> agent_upload \<Rightarrow> agent_upload \<times> file_response" where
  "agent_failure c msg au = (au\<lparr>au_phase := AgentFailed\<rparr>, FileError c msg)"

text \<open>One turn of the loop of \<open>run_upload\<close>, when the file system does what it is asked to.\<close>

definition run_upload_event :: "string \<Rightarrow> upload_event \<Rightarrow> agent_upload \<Rightarrow> agent_upload \<times> file_response" where
  "run_upload_event target ev au = (case ev of
       UploadChunk sequence data \<Rightarrow>
         if sequence \<noteq> au_next au then agent_failure Io ''invalid order of upload chunks'' au
         else if au_received au + length data > au_expected au
         then agent_failure TooLarge ''the upload is larger than declared'' au
         else (let received = au_received au + length data
           in (au\<lparr>au_file := au_file au @ data, au_received := received, au_next := au_next au + 1\<rparr>,
               TransferAck sequence received))
     | UploadFinish \<Rightarrow>
         if au_received au \<noteq> au_expected au then agent_failure Io ''the upload has not the declared size'' au
         else (au\<lparr>au_phase := Committed\<rparr>, TransferComplete target (au_received au)))"

subsection \<open>The whole\<close>

record upload =
  up_server :: server_upload
  up_frames :: "(nat \<times> bytes) list"       \<comment> \<open>sent by the server, not yet seen by the agent's socket loop\<close>
  up_finish :: bool                          \<comment> \<open>the message that ends the upload is on its way\<close>
  up_queue :: "upload_event list"            \<comment> \<open>the queue of the agent's task\<close>
  up_agent :: agent_upload
  up_responses :: "file_response list"       \<comment> \<open>sent by the agent, not yet seen by the server's socket loop\<close>
  up_events :: "file_response list"          \<comment> \<open>the channel of the server's request\<close>

definition agent_live :: "agent_upload \<Rightarrow> bool" where
  "agent_live au \<longleftrightarrow> au_phase au = Opening \<or> au_phase au = Receiving"

definition server_live :: "server_upload \<Rightarrow> bool" where
  "server_live su \<longleftrightarrow> (\<forall>r. su_phase su \<noteq> UploadEnded r)"

text \<open>The agent's socket loop: \<open>handle_binary\<close> and \<open>finish_upload\<close>, which cancel the upload when its queue is full.\<close>

definition queue_upload_event :: "upload_event \<Rightarrow> upload \<Rightarrow> upload" where
  "queue_upload_event ev u = (if \<not> agent_live (up_agent u) then u
     else if length (up_queue u) < transfer_window then u\<lparr>up_queue := up_queue u @ [ev]\<rparr>
     else u\<lparr>up_agent := (up_agent u)\<lparr>au_phase := AgentCancelled\<rparr>,
        up_responses := up_responses u @ [FileError Busy ''the upload exceeds the transfer window'']\<rparr>)"

text \<open>\<open>handle_agent_file_response\<close>: a full or closed channel loses the response.\<close>

definition deliver_response :: "file_response \<Rightarrow> upload \<Rightarrow> upload" where
  "deliver_response r u = (if server_live (up_server u) \<and> length (up_events u) < request_queue_capacity
     then u\<lparr>up_events := up_events u @ [r]\<rparr> else u)"

definition server_sends :: "upload \<Rightarrow> upload" where
  "server_sends u = (let (su, frame) = send_piece (up_server u)
     in u\<lparr>up_server := su, up_frames := up_frames u @ (case frame of None \<Rightarrow> [] | Some f \<Rightarrow> [f])\<rparr>)"

definition agent_works :: "string \<Rightarrow> upload_event \<Rightarrow> upload \<Rightarrow> upload" where
  "agent_works target ev u = (let (au, r) = run_upload_event target ev (up_agent u)
     in u\<lparr>up_agent := au, up_queue := tl (up_queue u), up_responses := up_responses u @ [r]\<rparr>)"

definition agent_opens :: "string \<Rightarrow> upload \<Rightarrow> upload" where
  "agent_opens target u = (let (au, r) = upload_ready target (up_agent u)
     in u\<lparr>up_agent := au, up_responses := up_responses u @ [r]\<rparr>)"

text \<open>Steps in which nothing outside goes wrong.\<close>

inductive upload_move :: "string \<Rightarrow> upload \<Rightarrow> upload \<Rightarrow> bool" for target where
  server_event: "waits_for_event (up_server u) \<Longrightarrow> up_events u = r # rs \<Longrightarrow>
    upload_move target u (u\<lparr>up_server := upload_event_arrives (Some (ResponseEvent r)) (up_server u), up_events := rs\<rparr>)"
| server_sends: "su_phase (up_server u) = Streaming \<Longrightarrow> su_chunk (up_server u) \<noteq> [] \<Longrightarrow>
    length (su_inflight (up_server u)) < transfer_window \<Longrightarrow> upload_move target u (server_sends u)"
| server_next: "su_phase (up_server u) = Streaming \<Longrightarrow> su_chunk (up_server u) = [] \<Longrightarrow>
    upload_move target u (u\<lparr>up_server := next_part (up_server u)\<rparr>)"
| server_finishes: "su_phase (up_server u) = Draining \<Longrightarrow> su_inflight (up_server u) = [] \<Longrightarrow>
    upload_move target u (u\<lparr>up_server := (up_server u)\<lparr>su_phase := AwaitComplete\<rparr>, up_finish := True\<rparr>)"
| frame_arrives: "up_frames u = (q, data) # fs \<Longrightarrow>
    upload_move target u (queue_upload_event (UploadChunk q data) (u\<lparr>up_frames := fs\<rparr>))"
| finish_arrives: "up_finish u \<Longrightarrow> upload_move target u (queue_upload_event UploadFinish (u\<lparr>up_finish := False\<rparr>))"
| agent_opens: "au_phase (up_agent u) = Opening \<Longrightarrow> upload_move target u (agent_opens target u)"
| agent_works: "au_phase (up_agent u) = Receiving \<Longrightarrow> up_queue u = ev # evs \<Longrightarrow> upload_move target u (agent_works target ev u)"
| response_arrives: "up_responses u = r # rs \<Longrightarrow>
    upload_move target u (deliver_response r (u\<lparr>up_responses := rs\<rparr>))"

text \<open>
  Steps in which something does: the server's task ends (the client is gone, a wait times out, the
  connection is lost); the agent drops the upload (it is told to, or its connection is lost); a file operation
  of the agent fails.
\<close>

inductive upload_fault :: "upload \<Rightarrow> upload \<Rightarrow> bool" where
  server_ends: "server_live (up_server u) \<Longrightarrow> upload_fault u (u\<lparr>up_server := fail_upload e (up_server u)\<rparr>)"
| agent_cancels: "agent_live (up_agent u) \<Longrightarrow>
    upload_fault u (u\<lparr>up_agent := (up_agent u)\<lparr>au_phase := AgentCancelled\<rparr>\<rparr>)"
| agent_fails: "agent_live (up_agent u) \<Longrightarrow>
    upload_fault u (u\<lparr>up_agent := fst (agent_failure c msg (up_agent u)),
      up_responses := up_responses u @ [snd (agent_failure c msg (up_agent u))]\<rparr>)"

definition start_upload :: "nat \<Rightarrow> nat \<Rightarrow> bytes list \<Rightarrow> upload" where
  "start_upload declared limit body = \<lparr>up_server = admin_upload_file declared limit body, up_frames = [], up_finish = False,
     up_queue = [], up_agent = \<lparr>au_expected = declared, au_next = 0, au_received = 0, au_file = [], au_phase = Opening\<rparr>,
     up_responses = [], up_events = []\<rparr>"

inductive upload_reachable :: "string \<Rightarrow> nat \<Rightarrow> nat \<Rightarrow> bytes list \<Rightarrow> upload \<Rightarrow> bool" for target declared limit body where
  upload_start: "upload_reachable target declared limit body (start_upload declared limit body)"
| upload_moves: "upload_reachable target declared limit body u \<Longrightarrow> upload_move target u v \<Longrightarrow> upload_reachable target declared limit body v"
| upload_faults: "upload_reachable target declared limit body u \<Longrightarrow> upload_fault u v \<Longrightarrow> upload_reachable target declared limit body v"

end
