(* ===== verification/UploadSafety.thy ===== *)
theory UploadSafety
  imports FileUpload "HOL-Library.Sublist"
begin

text \<open>
  The invariant of an upload: what is on its way to the agent continues what the agent has written, and what is
  on its way back are the acknowledgements the server waits for.
\<close>

definition transit :: "upload \<Rightarrow> upload_event list" where
  "transit u = up_queue u @ map (\<lambda>(q, d). UploadChunk q d) (up_frames u) @ (if up_finish u then [UploadFinish] else [])"

definition replies :: "upload \<Rightarrow> file_response list" where
  "replies u = up_events u @ up_responses u"

fun chunks_from :: "nat \<Rightarrow> bytes list \<Rightarrow> upload_event list" where
  "chunks_from q [] = []"
| "chunks_from q (d # ds) = UploadChunk q d # chunks_from (q + 1) ds"

fun acks_from :: "nat \<Rightarrow> nat \<Rightarrow> bytes list \<Rightarrow> (nat \<times> nat) list" where
  "acks_from q n [] = []"
| "acks_from q n (d # ds) = (q, n + length d) # acks_from (q + 1) (n + length d) ds"

definition ack :: "nat \<times> nat \<Rightarrow> file_response" where
  "ack = (\<lambda>(q, n). TransferAck q n)"

lemma length_chunks_from [simp]: "length (chunks_from q ds) = length ds"
  by (induction ds arbitrary: q) simp_all

lemma length_acks_from [simp]: "length (acks_from q n ds) = length ds"
  by (induction ds arbitrary: q n) simp_all

lemma chunks_from_append: "chunks_from q (ds @ es) = chunks_from q ds @ chunks_from (q + length ds) es"
  by (induction ds arbitrary: q) simp_all

lemma acks_from_append:
  "acks_from q n (ds @ es) = acks_from q n ds @ acks_from (q + length ds) (n + length (concat ds)) es"
  by (induction ds arbitrary: q n) (simp_all add: add.assoc)

lemma no_finish_in_chunks [simp]: "UploadFinish \<notin> set (chunks_from q ds)"
  by (induction ds arbitrary: q) simp_all

lemma chunks_from_eq_Nil [simp]: "chunks_from q ds = [] \<longleftrightarrow> ds = []" "[] = chunks_from q ds \<longleftrightarrow> ds = []"
  by (cases ds; simp)+

lemma chunks_from_not_finish [simp]: "chunks_from q ds \<noteq> [UploadFinish]" "chunks_from q ds \<noteq> UploadFinish # es"
  by (cases ds; simp)+

lemma ack_eq_map [simp]: "UploadReady t \<notin> ack ` A" "TransferComplete t n \<notin> ack ` A" "FileError c m \<notin> ack ` A"
  by (auto simp: ack_def)

text \<open>The server, while it streams the body: \<open>pieces\<close> are on their way, the acknowledgements \<open>acks\<close> on theirs.\<close>

definition streaming_inv :: "nat \<Rightarrow> bytes \<Rightarrow> upload \<Rightarrow> bytes list \<Rightarrow> bool" where
  "streaming_inv declared content u pieces \<longleftrightarrow>
     (let su = up_server u; au = up_agent u
      in (\<exists>acks. replies u = map ack acks \<and> su_inflight su = acks @ acks_from (au_next au) (au_received au) pieces)
       \<and> su_sequence su = au_next au + length pieces
       \<and> su_transferred su = au_received au + length (concat pieces)
       \<and> au_file au @ concat pieces @ su_chunk su @ concat (su_body su) = content
       \<and> (su_phase su = Draining \<longrightarrow> su_chunk su = [] \<and> su_body su = [] \<and> su_transferred su = declared))"

definition receiving_inv :: "string \<Rightarrow> nat \<Rightarrow> bytes \<Rightarrow> upload \<Rightarrow> bytes list \<Rightarrow> bool" where
  "receiving_inv target declared content u pieces \<longleftrightarrow>
     transit u = chunks_from (au_next (up_agent u)) pieces \<and> length pieces \<le> transfer_window
     \<and> prefix (au_file (up_agent u) @ concat pieces) content
     \<and> au_received (up_agent u) + length (concat pieces) \<le> declared
     \<and> (case su_phase (up_server u) of
          AwaitReady \<Rightarrow> replies u = [UploadReady target] \<and> pieces = [] \<and> au_next (up_agent u) = 0 \<and> au_file (up_agent u) = []
            \<and> su_inflight (up_server u) = [] \<and> su_sequence (up_server u) = 0 \<and> su_transferred (up_server u) = 0
            \<and> su_chunk (up_server u) = [] \<and> concat (su_body (up_server u)) = content
        | Streaming \<Rightarrow> streaming_inv declared content u pieces
        | Draining \<Rightarrow> streaming_inv declared content u pieces
        | AwaitComplete \<Rightarrow> False
        | UploadEnded r \<Rightarrow> isl r)"

definition whole_file :: "nat \<Rightarrow> nat \<Rightarrow> bytes \<Rightarrow> agent_upload \<Rightarrow> bool" where
  "whole_file declared limit content au \<longleftrightarrow> au_file au = content \<and> length content = declared \<and> declared \<le> limit"

definition finishing_inv :: "nat \<Rightarrow> nat \<Rightarrow> bytes \<Rightarrow> upload \<Rightarrow> bool" where
  "finishing_inv declared limit content u \<longleftrightarrow> transit u = [UploadFinish] \<and> whole_file declared limit content (up_agent u)
     \<and> (case su_phase (up_server u) of AwaitComplete \<Rightarrow> replies u = [] | UploadEnded r \<Rightarrow> isl r | _ \<Rightarrow> False)"

definition committed_inv :: "string \<Rightarrow> nat \<Rightarrow> nat \<Rightarrow> bytes \<Rightarrow> upload \<Rightarrow> bool" where
  "committed_inv target declared limit content u \<longleftrightarrow> whole_file declared limit content (up_agent u)
     \<and> (case su_phase (up_server u) of AwaitComplete \<Rightarrow> replies u = [TransferComplete target declared]
        | UploadEnded r \<Rightarrow> isl r \<or> r = Inr target | _ \<Rightarrow> False)"

definition opening_inv :: "bytes \<Rightarrow> upload \<Rightarrow> bool" where
  "opening_inv content u \<longleftrightarrow> transit u = [] \<and> au_next (up_agent u) = 0 \<and> au_file (up_agent u) = [] \<and> replies u = []
     \<and> (case su_phase (up_server u) of
          AwaitReady \<Rightarrow> su_inflight (up_server u) = [] \<and> su_sequence (up_server u) = 0 \<and> su_transferred (up_server u) = 0
            \<and> su_chunk (up_server u) = [] \<and> concat (su_body (up_server u)) = content
        | UploadEnded r \<Rightarrow> isl r | _ \<Rightarrow> False)"

definition failed_inv :: "upload \<Rightarrow> bool" where
  "failed_inv u \<longleftrightarrow> (case su_phase (up_server u) of UploadEnded r \<Rightarrow> isl r
     | _ \<Rightarrow> length (replies u) \<le> transfer_window + 1
        \<and> (\<forall>r \<in> set (replies u). \<forall>t n. r \<noteq> TransferComplete t n))"

definition upload_inv :: "string \<Rightarrow> nat \<Rightarrow> nat \<Rightarrow> bytes \<Rightarrow> upload \<Rightarrow> bool" where
  "upload_inv target declared limit content u \<longleftrightarrow>
     au_expected (up_agent u) = declared \<and> su_size (up_server u) = declared \<and> su_max (up_server u) = limit
     \<and> au_received (up_agent u) = length (au_file (up_agent u))
     \<and> (server_live (up_server u) \<longrightarrow> declared \<le> limit \<and> length (su_inflight (up_server u)) \<le> transfer_window)
     \<and> (case au_phase (up_agent u) of
          Opening \<Rightarrow> opening_inv content u
        | Receiving \<Rightarrow> (\<exists>pieces. receiving_inv target declared content u pieces) \<or> finishing_inv declared limit content u
        | Committed \<Rightarrow> committed_inv target declared limit content u
        | AgentFailed \<Rightarrow> failed_inv u
        | AgentCancelled \<Rightarrow> failed_inv u)"

lemmas upload_inv_defs = upload_inv_def opening_inv_def receiving_inv_def streaming_inv_def finishing_inv_def
  committed_inv_def whole_file_def

lemma upload_inv_start: "upload_inv target declared limit (concat body) (start_upload declared limit body)"
  by (simp add: upload_inv_def opening_inv_def start_upload_def admin_upload_file_def transit_def replies_def server_live_def)


subsection \<open>The server's steps\<close>

lemma upload_event_result:
  "(\<exists>e. upload_event_arrives (Some (ResponseEvent r)) su = fail_upload e su)
   \<or> (\<exists>t. r = UploadReady t \<and> su_phase su = AwaitReady
        \<and> upload_event_arrives (Some (ResponseEvent r)) su = su\<lparr>su_phase := Streaming\<rparr>)
   \<or> (\<exists>q n rest. r = TransferAck q n \<and> su_inflight su = (q, n) # rest \<and> (su_phase su = Streaming \<or> su_phase su = Draining)
        \<and> upload_event_arrives (Some (ResponseEvent r)) su = su\<lparr>su_inflight := rest\<rparr>)
   \<or> (\<exists>t. r = TransferComplete t (su_size su) \<and> su_phase su = AwaitComplete
        \<and> upload_event_arrives (Some (ResponseEvent r)) su = su\<lparr>su_phase := UploadEnded (Inr t)\<rparr>)
   \<or> (\<exists>res. su_phase su = UploadEnded res)"
  unfolding upload_event_arrives_def wait_response_def upload_response_def wait_upload_ack_def
  by (simp split: file_response.split upload_phase.split list.split prod.split) blast

lemma fail_upload_fields [simp]:
  "su_size (fail_upload e su) = su_size su" "su_max (fail_upload e su) = su_max su"
  "su_inflight (fail_upload e su) = su_inflight su" "su_phase (fail_upload e su) = UploadEnded (Inl e)"
  by (simp_all add: fail_upload_def)

lemma not_server_live [simp]: "su_phase su = UploadEnded r \<Longrightarrow> \<not> server_live su"
  by (simp add: server_live_def)

text \<open>A server that has given up asks nothing of what is still on its way.\<close>

lemma upload_inv_failed:
  assumes "upload_inv target declared limit content u" "server_live (up_server u)"
    and "transit v = transit u" "up_agent v = up_agent u" "up_server v = fail_upload e (up_server u)" "up_responses v = up_responses u"
    and "au_phase (up_agent u) = Opening \<longrightarrow> replies v = []"
  shows "upload_inv target declared limit content v"
  using assms unfolding upload_inv_defs failed_inv_def
  by (cases "au_phase (up_agent u)"; cases "su_phase (up_server u)") auto

lemma replies_pop: "up_events u = r # rs \<Longrightarrow> replies u = r # replies (u\<lparr>up_events := rs\<rparr>)"
  by (simp add: replies_def)

lemma transit_frame [simp]: "transit (u\<lparr>up_server := su\<rparr>) = transit u" "transit (u\<lparr>up_agent := au\<rparr>) = transit u"
  "transit (u\<lparr>up_events := es\<rparr>) = transit u" "transit (u\<lparr>up_responses := rs\<rparr>) = transit u"
  by (simp_all add: transit_def)

lemma replies_frame [simp]: "replies (u\<lparr>up_server := su\<rparr>) = replies u" "replies (u\<lparr>up_agent := au\<rparr>) = replies u"
  "replies (u\<lparr>up_frames := fs\<rparr>) = replies u" "replies (u\<lparr>up_finish := b\<rparr>) = replies u" "replies (u\<lparr>up_queue := qs\<rparr>) = replies u"
  by (simp_all add: replies_def)

lemma Cons_eq_map_ack: "r # rs = map ack acks \<longleftrightarrow> (\<exists>q n acks'. acks = (q, n) # acks' \<and> r = TransferAck q n \<and> rs = map ack acks')"
  by (cases acks) (auto simp: ack_def)

lemma upload_inv_server_event:
  assumes "upload_inv target declared limit content u" "waits_for_event (up_server u)" "up_events u = r # rs"
  shows "upload_inv target declared limit content
    (u\<lparr>up_server := upload_event_arrives (Some (ResponseEvent r)) (up_server u), up_events := rs\<rparr>)" (is "upload_inv _ _ _ _ ?v")
proof -
  have live: "server_live (up_server u)" using assms(2) by (auto simp: waits_for_event_def server_live_def)
  have rep: "replies u = r # replies ?v" using assms(3) by (simp add: replies_def)
  have ph: "au_phase (up_agent u) \<noteq> Opening"
    using assms(1) rep by (auto simp: upload_inv_def opening_inv_def)
  consider (failed) e where "upload_event_arrives (Some (ResponseEvent r)) (up_server u) = fail_upload e (up_server u)"
    | (ready) t where "r = UploadReady t" "su_phase (up_server u) = AwaitReady"
        "upload_event_arrives (Some (ResponseEvent r)) (up_server u) = (up_server u)\<lparr>su_phase := Streaming\<rparr>"
    | (acked) q n rest where "r = TransferAck q n" "su_inflight (up_server u) = (q, n) # rest"
        "su_phase (up_server u) = Streaming \<or> su_phase (up_server u) = Draining"
        "upload_event_arrives (Some (ResponseEvent r)) (up_server u) = (up_server u)\<lparr>su_inflight := rest\<rparr>"
    | (complete) t where "r = TransferComplete t (su_size (up_server u))" "su_phase (up_server u) = AwaitComplete"
        "upload_event_arrives (Some (ResponseEvent r)) (up_server u) = (up_server u)\<lparr>su_phase := UploadEnded (Inr t)\<rparr>"
    using upload_event_result [of r "up_server u"] live unfolding server_live_def by blast
  then show ?thesis
  proof cases
    case failed
    show ?thesis by (rule upload_inv_failed [OF assms(1) live]) (use failed ph in simp_all)
  next
    case ready
    show ?thesis
    proof (cases "au_phase (up_agent u)")
      case Receiving
      then have "receiving_inv target declared content u []" using assms(1) ready(2)
        by (auto simp: upload_inv_def receiving_inv_def finishing_inv_def)
      moreover have "au_received (up_agent u) = length (au_file (up_agent u))" using assms(1) by (simp add: upload_inv_def)
      ultimately have "receiving_inv target declared content ?v []" using ready rep 
        by (auto simp: receiving_inv_def streaming_inv_def Let_def)
      then show ?thesis using assms(1) ready Receiving by (auto simp: upload_inv_def server_live_def)
    qed (use assms(1) ready rep ph in \<open>auto simp: upload_inv_def committed_inv_def failed_inv_def server_live_def\<close>)
  next
    case acked
    show ?thesis
    proof (cases "au_phase (up_agent u)")
      case Receiving
      then obtain pieces where p: "receiving_inv target declared content u pieces" using assms(1) acked(3)
        by (auto simp: upload_inv_def finishing_inv_def)
      then have "streaming_inv declared content u pieces" using acked(3) by (auto simp: receiving_inv_def)
      then have "streaming_inv declared content ?v pieces" using acked rep
        by (auto simp: streaming_inv_def Let_def Cons_eq_map_ack)
      then have "receiving_inv target declared content ?v pieces" using p acked
        by (auto simp: receiving_inv_def)
      then show ?thesis using assms(1) acked Receiving by (auto simp: upload_inv_def server_live_def)
    qed (use assms(1) acked rep ph in \<open>auto simp: upload_inv_def committed_inv_def failed_inv_def server_live_def\<close>)
  next
    case complete
    have "su_size (up_server u) = declared" using assms(1) by (simp add: upload_inv_def)
    then show ?thesis using assms(1) complete rep ph
      by (cases "au_phase (up_agent u)")
        (auto simp: upload_inv_def receiving_inv_def finishing_inv_def committed_inv_def failed_inv_def)
  qed
qed


lemma transit_chunks:
  assumes "transit u = chunks_from q pieces"
  shows "\<not> up_finish u"
proof
  assume "up_finish u"
  then have "UploadFinish \<in> set (transit u)" by (simp add: transit_def)
  then show False unfolding assms by simp
qed

lemma upload_inv_server_sends:
  assumes "upload_inv target declared limit content u" "su_phase (up_server u) = Streaming" "su_chunk (up_server u) \<noteq> []"
    "length (su_inflight (up_server u)) < transfer_window"
  shows "upload_inv target declared limit content (server_sends u)"
proof -
  let ?su = "up_server u" and ?au = "up_agent u"
  have live: "server_live ?su" using assms(2) by (simp add: server_live_def)
  define data where "data = take chunk_size (su_chunk ?su)"
  show ?thesis
  proof (cases "su_transferred ?su + length data > su_size ?su \<or> su_transferred ?su + length data > su_max ?su")
    case True
    then have "server_sends u = u\<lparr>up_server := fail_upload (app_error_new 413 ''the body is larger than declared'') ?su\<rparr>"
      by (simp add: server_sends_def send_piece_def data_def Let_def)
    then show ?thesis by (intro upload_inv_failed [OF assms(1) live])
      (use assms(1) in \<open>auto simp: upload_inv_def opening_inv_def\<close>)
  next
    case False
    then have v: "server_sends u = u\<lparr>up_server := ?su\<lparr>su_transferred := su_transferred ?su + length data,
        su_inflight := su_inflight ?su @ [(su_sequence ?su, su_transferred ?su + length data)],
        su_sequence := su_sequence ?su + 1, su_chunk := drop chunk_size (su_chunk ?su)\<rparr>,
        up_frames := up_frames u @ [(su_sequence ?su, data)]\<rparr>" (is "_ = ?v")
      by (simp add: server_sends_def send_piece_def data_def Let_def)
    show ?thesis
    proof (cases "au_phase ?au")
      case Receiving
      then obtain pieces where p: "receiving_inv target declared content u pieces" using assms(1,2)
        by (auto simp: upload_inv_def finishing_inv_def)
      then have st: "streaming_inv declared content u pieces" using assms(2) by (auto simp: receiving_inv_def)
      have cut: "data @ drop chunk_size (su_chunk ?su) = su_chunk ?su" by (simp add: data_def)
      have nofin: "\<not> up_finish u" using p transit_chunks by (auto simp: receiving_inv_def)
      then have tr: "transit ?v = chunks_from (au_next ?au) (pieces @ [data])"
        using p st by (simp add: receiving_inv_def transit_def streaming_inv_def Let_def chunks_from_append)
      have st': "streaming_inv declared content ?v (pieces @ [data])"
        using st cut assms(2) by (auto simp: streaming_inv_def Let_def acks_from_append)
      have len: "length pieces < transfer_window"
        using st assms(4) by (auto simp: streaming_inv_def Let_def)
      have size: "au_received ?au + length (concat (pieces @ [data])) \<le> declared"
        using st False assms(1) by (simp add: streaming_inv_def Let_def upload_inv_def)
      have "au_file ?au @ concat (pieces @ [data]) @ (drop chunk_size (su_chunk ?su) @ concat (su_body ?su)) = content"
        using st cut by (auto simp: streaming_inv_def Let_def)
      then have "prefix (au_file ?au @ concat (pieces @ [data])) content" by (metis append.assoc prefixI)
      then have "receiving_inv target declared content ?v (pieces @ [data])"
        using tr st' len size assms(2) by (simp add: receiving_inv_def)
      then show ?thesis unfolding v using assms Receiving
        by (auto simp: upload_inv_def server_live_def)
    qed (use assms v in \<open>auto simp: upload_inv_def opening_inv_def committed_inv_def failed_inv_def server_live_def\<close>)
  qed
qed

lemma upload_inv_server_next:
  assumes "upload_inv target declared limit content u" "su_phase (up_server u) = Streaming" "su_chunk (up_server u) = []"
  shows "upload_inv target declared limit content (u\<lparr>up_server := next_part (up_server u)\<rparr>)" (is "upload_inv _ _ _ _ ?v")
proof -
  let ?su = "up_server u" and ?au = "up_agent u"
  have live: "server_live ?su" using assms(2) by (simp add: server_live_def)
  consider (part) part body where "next_part ?su = ?su\<lparr>su_chunk := part, su_body := body\<rparr>" "su_body ?su = part # body"
    | (short) e where "next_part ?su = fail_upload e ?su"
    | (drained) "next_part ?su = ?su\<lparr>su_phase := Draining\<rparr>" "su_body ?su = []" "su_transferred ?su = su_size ?su"
    by (cases "su_body ?su"; cases "su_transferred ?su = su_size ?su") (simp_all add: next_part_def)
  then show ?thesis
  proof cases
    case short
    show ?thesis by (rule upload_inv_failed [OF assms(1) live]) (use short assms(1) in \<open>auto simp: upload_inv_def opening_inv_def\<close>)
  next
    case part
    show ?thesis
    proof (cases "au_phase ?au")
      case Receiving
      then obtain pieces where p: "receiving_inv target declared content u pieces" using assms(1,2)
        by (auto simp: upload_inv_def finishing_inv_def)
      then have "receiving_inv target declared content ?v pieces" using part assms(2,3)
        by (simp add: receiving_inv_def streaming_inv_def Let_def)
      then show ?thesis using assms Receiving part by (auto simp: upload_inv_def server_live_def)
    qed (use assms part in \<open>auto simp: upload_inv_def opening_inv_def committed_inv_def failed_inv_def server_live_def\<close>)
  next
    case drained
    show ?thesis
    proof (cases "au_phase ?au")
      case Receiving
      then obtain pieces where p: "receiving_inv target declared content u pieces" using assms(1,2)
        by (auto simp: upload_inv_def finishing_inv_def)
      moreover have "su_size ?su = declared" using assms(1) by (simp add: upload_inv_def)
      ultimately have "receiving_inv target declared content ?v pieces" using drained assms(2,3)
        by (simp add: receiving_inv_def streaming_inv_def Let_def)
      then show ?thesis using assms Receiving drained by (auto simp: upload_inv_def server_live_def)
    qed (use assms drained in \<open>auto simp: upload_inv_def opening_inv_def committed_inv_def failed_inv_def server_live_def\<close>)
  qed
qed

lemma upload_inv_server_finishes:
  assumes "upload_inv target declared limit content u" "su_phase (up_server u) = Draining" "su_inflight (up_server u) = []"
  shows "upload_inv target declared limit content (u\<lparr>up_server := (up_server u)\<lparr>su_phase := AwaitComplete\<rparr>, up_finish := True\<rparr>)"
    (is "upload_inv _ _ _ _ ?v")
proof (cases "au_phase (up_agent u)")
  case Receiving
  then obtain pieces where p: "receiving_inv target declared content u pieces" using assms(1,2)
    by (auto simp: upload_inv_def finishing_inv_def)
  then have st: "streaming_inv declared content u pieces" using assms(2) by (simp add: receiving_inv_def)
  then obtain acks where "replies u = map ack acks" "[] = acks @ acks_from (au_next (up_agent u)) (au_received (up_agent u)) pieces"
    using assms(3) by (auto simp: streaming_inv_def Let_def)
  then have nil: "pieces = []" "replies u = []" by (cases pieces; simp)+
  then have "up_queue u = [] \<and> up_frames u = []" using p by (auto simp: receiving_inv_def transit_def)
  moreover have "server_live (up_server u)" using assms(2) by (simp add: server_live_def)
  ultimately have "finishing_inv declared limit content ?v" using p st nil assms
    by (auto simp: finishing_inv_def transit_def streaming_inv_def Let_def upload_inv_def whole_file_def)
  then show ?thesis using assms Receiving by (auto simp: upload_inv_def server_live_def)
qed (use assms in \<open>auto simp: upload_inv_def opening_inv_def committed_inv_def failed_inv_def server_live_def\<close>)


subsection \<open>The agent's steps\<close>

lemma agent_live_iff: "agent_live au \<longleftrightarrow> au_phase au = Opening \<or> au_phase au = Receiving"
  by (simp add: agent_live_def)

lemma upload_inv_moved:
  assumes "upload_inv target declared limit content u" "up_server v = up_server u" "up_agent v = up_agent u" "replies v = replies u"
    and "agent_live (up_agent u) \<Longrightarrow> transit v = transit u"
  shows "upload_inv target declared limit content v"
proof (cases "agent_live (up_agent u)")
  case True
  show ?thesis using assms(1)
    unfolding upload_inv_defs failed_inv_def assms(2,3,4) assms(5) [OF True] by blast
next
  case False
  show ?thesis using assms(1) False unfolding upload_inv_def committed_inv_def failed_inv_def assms(2,3,4)
    by (auto simp: agent_live_iff split: agent_phase.splits)
qed

lemma transit_bound:
  assumes "upload_inv target declared limit content u" "agent_live (up_agent u)"
  shows "length (transit u) \<le> transfer_window"
  using assms by (auto simp: upload_inv_def agent_live_iff opening_inv_def receiving_inv_def finishing_inv_def transfer_window_def)

lemma transit_finish:
  assumes "upload_inv target declared limit content u" "agent_live (up_agent u)" "up_finish u"
  shows "up_queue u = []" "up_frames u = []"
proof -
  have "\<exists>pieces. transit u = chunks_from (au_next (up_agent u)) pieces \<or> transit u = [] \<or> transit u = [UploadFinish]"
    using assms(1,2) by (auto simp: upload_inv_def agent_live_iff opening_inv_def receiving_inv_def finishing_inv_def)
  moreover have "transit u \<noteq> []" using assms(3) by (simp add: transit_def)
  ultimately have "transit u = [UploadFinish]" using assms(3) transit_chunks by blast
  then show "up_queue u = []" "up_frames u = []" using assms(3) by (auto simp: transit_def)
qed

lemma upload_inv_frame_arrives:
  assumes "upload_inv target declared limit content u" "up_frames u = (q, data) # fs"
  shows "upload_inv target declared limit content (queue_upload_event (UploadChunk q data) (u\<lparr>up_frames := fs\<rparr>))"
proof (rule upload_inv_moved [OF assms(1)])
  let ?v = "queue_upload_event (UploadChunk q data) (u\<lparr>up_frames := fs\<rparr>)"
  have v: "?v = (if agent_live (up_agent u) then u\<lparr>up_frames := fs, up_queue := up_queue u @ [UploadChunk q data]\<rparr> else u\<lparr>up_frames := fs\<rparr>)"
    using transit_bound [OF assms(1)] assms(2) by (auto simp: queue_upload_event_def transit_def)
  show "up_server ?v = up_server u" "up_agent ?v = up_agent u" "replies ?v = replies u"
    unfolding v by (auto simp: replies_def)
  show "agent_live (up_agent u) \<Longrightarrow> transit ?v = transit u" unfolding v using assms(2) by (simp add: transit_def)
qed

lemma upload_inv_finish_arrives:
  assumes "upload_inv target declared limit content u" "up_finish u"
  shows "upload_inv target declared limit content (queue_upload_event UploadFinish (u\<lparr>up_finish := False\<rparr>))"
proof (rule upload_inv_moved [OF assms(1)])
  let ?v = "queue_upload_event UploadFinish (u\<lparr>up_finish := False\<rparr>)"
  have v: "?v = (if agent_live (up_agent u) then u\<lparr>up_finish := False, up_queue := up_queue u @ [UploadFinish]\<rparr> else u\<lparr>up_finish := False\<rparr>)"
    using transit_finish [OF assms(1)] assms(2) by (auto simp: queue_upload_event_def transfer_window_def)
  show "up_server ?v = up_server u" "up_agent ?v = up_agent u" "replies ?v = replies u"
    unfolding v by (auto simp: replies_def)
  show "agent_live (up_agent u) \<Longrightarrow> transit ?v = transit u"
    unfolding v using transit_finish [OF assms(1)] assms(2) by (simp add: transit_def)
qed

lemma upload_inv_agent_opens:
  assumes "upload_inv target declared limit content u" "au_phase (up_agent u) = Opening"
  shows "upload_inv target declared limit content (agent_opens target u)" (is "upload_inv _ _ _ _ ?v")
proof -
  have v: "?v = u\<lparr>up_agent := (up_agent u)\<lparr>au_phase := Receiving\<rparr>, up_responses := up_responses u @ [UploadReady target]\<rparr>"
    by (simp add: agent_opens_def upload_ready_def)
  have "opening_inv content u" using assms by (simp add: upload_inv_def)
  then have "receiving_inv target declared content ?v []" using assms(1)
    unfolding v by (auto simp: opening_inv_def receiving_inv_def replies_def upload_inv_def split: upload_phase.splits)
  then show ?thesis using assms(1) unfolding v by (auto simp: upload_inv_def)
qed

lemma replies_bound:
  assumes "upload_inv target declared limit content u" "server_live (up_server u)"
  shows "length (replies u) \<le> transfer_window + 1"
  using assms by (cases "au_phase (up_agent u)")
    (auto simp: upload_inv_def opening_inv_def receiving_inv_def streaming_inv_def finishing_inv_def
      committed_inv_def failed_inv_def server_live_def Let_def split: upload_phase.splits)

lemma replies_no_complete:
  assumes "upload_inv target declared limit content u" "server_live (up_server u)" "agent_live (up_agent u)"
  shows "TransferComplete t n \<notin> set (replies u)"
  using assms by (auto simp: upload_inv_def opening_inv_def receiving_inv_def streaming_inv_def finishing_inv_def ack_def
      failed_inv_def server_live_def agent_live_iff Let_def split: upload_phase.splits)

lemma replies_live_bound:
  assumes "upload_inv target declared limit content u" "server_live (up_server u)" "agent_live (up_agent u)"
  shows "length (replies u) \<le> transfer_window"
  using assms by (auto simp: upload_inv_def opening_inv_def receiving_inv_def streaming_inv_def finishing_inv_def
      server_live_def agent_live_iff Let_def transfer_window_def split: upload_phase.splits)

text \<open>An agent that has given up, with or without a last word.\<close>

lemma upload_inv_agent_stops:
  assumes "upload_inv target declared limit content u" "agent_live (up_agent u)"
    and "up_server v = up_server u" "up_agent v = (up_agent u)\<lparr>au_phase := p\<rparr>" "p = AgentFailed \<or> p = AgentCancelled"
    and "replies v = replies u @ rs" "length rs \<le> 1" "\<forall>r \<in> set rs. \<forall>t n. r \<noteq> TransferComplete t n"
  shows "upload_inv target declared limit content v"
proof -
  have "server_live (up_server u) \<or> (\<exists>r. su_phase (up_server u) = UploadEnded r \<and> isl r)"
    using assms(1,2) by (auto simp: upload_inv_def agent_live_iff opening_inv_def receiving_inv_def finishing_inv_def server_live_def
        split: upload_phase.splits)
  then have "failed_inv v"
  proof
    assume "server_live (up_server u)"
    then show ?thesis using assms replies_live_bound [OF assms(1)] replies_no_complete [OF assms(1)]
      by (fastforce simp: failed_inv_def server_live_def split: upload_phase.split)
  qed (use assms in \<open>auto simp: failed_inv_def\<close>)
  then show ?thesis using assms by (auto simp: upload_inv_def)
qed

lemma upload_inv_agent_works:
  assumes "upload_inv target declared limit content u" "au_phase (up_agent u) = Receiving" "up_queue u = ev # evs"
  shows "upload_inv target declared limit content (agent_works target ev u)" (is "upload_inv _ _ _ _ ?v")
proof -
  let ?au = "up_agent u"
  have exp: "au_expected ?au = declared" "au_received ?au = length (au_file ?au)" using assms(1) by (simp_all add: upload_inv_def)
  consider (pieces) pieces where "receiving_inv target declared content u pieces" | (finish) "finishing_inv declared limit content u"
    using assms(1,2) by (auto simp: upload_inv_def)
  then show ?thesis
  proof cases
    case pieces
    then obtain d ds where p: "pieces = d # ds" "ev = UploadChunk (au_next ?au) d"
      using assms(3) by (cases pieces) (auto simp: receiving_inv_def transit_def)
    let ?au' = "?au\<lparr>au_file := au_file ?au @ d, au_received := au_received ?au + length d, au_next := au_next ?au + 1\<rparr>"
    let ?w = "u\<lparr>up_agent := ?au', up_queue := evs, up_responses := up_responses u @ [TransferAck (au_next ?au) (au_received ?au + length d)]\<rparr>"
    have v: "?v = ?w"
      using pieces p assms(3) exp by (simp add: agent_works_def run_upload_event_def receiving_inv_def Let_def)
    have "transit ?w = chunks_from (au_next ?au') ds"
      using pieces p assms(3) by (simp add: receiving_inv_def transit_def)
    moreover have "streaming_inv declared content ?w ds" if st: "streaming_inv declared content u pieces"
    proof -
      obtain acks where a: "replies u = map ack acks" "su_inflight (up_server u) = acks @ acks_from (au_next ?au) (au_received ?au) pieces"
        using st by (auto simp: streaming_inv_def Let_def)
      have "replies ?w = map ack (acks @ [(au_next ?au, au_received ?au + length d)])"
        using a(1) by (simp add: replies_def ack_def)
      moreover have "su_inflight (up_server ?w) = (acks @ [(au_next ?au, au_received ?au + length d)])
          @ acks_from (au_next ?au') (au_received ?au') ds"
        using a(2) p by simp
      moreover have "su_sequence (up_server ?w) = au_next ?au' + length ds"
          "su_transferred (up_server ?w) = au_received ?au' + length (concat ds)"
          "au_file ?au' @ concat ds @ su_chunk (up_server ?w) @ concat (su_body (up_server ?w)) = content"
          "su_phase (up_server ?w) = Draining \<longrightarrow> su_chunk (up_server ?w) = [] \<and> su_body (up_server ?w) = [] \<and> su_transferred (up_server ?w) = declared"
        using st p by (auto simp: streaming_inv_def Let_def)
      ultimately show ?thesis unfolding streaming_inv_def Let_def by auto
    qed
    ultimately have "receiving_inv target declared content ?w ds"
      using pieces p exp unfolding receiving_inv_def by (simp split: upload_phase.splits)
    then show ?thesis using assms exp unfolding v by (auto simp: upload_inv_def)
  next
    case finish
    then have ev: "ev = UploadFinish" "evs = []" using assms(3) by (auto simp: finishing_inv_def transit_def)
    then have v: "?v = u\<lparr>up_agent := ?au\<lparr>au_phase := Committed\<rparr>, up_queue := [],
        up_responses := up_responses u @ [TransferComplete target declared]\<rparr>"
      using finish exp assms(3) by (simp add: agent_works_def run_upload_event_def finishing_inv_def whole_file_def)
    then have "committed_inv target declared limit content ?v" using finish
      by (auto simp: finishing_inv_def committed_inv_def whole_file_def replies_def split: upload_phase.splits)
    then show ?thesis using assms(1) unfolding v by (auto simp: upload_inv_def)
  qed
qed

lemma upload_inv_response_arrives:
  assumes "upload_inv target declared limit content u" "up_responses u = r # rs"
  shows "upload_inv target declared limit content (deliver_response r (u\<lparr>up_responses := rs\<rparr>))" (is "upload_inv _ _ _ _ ?v")
proof (cases "server_live (up_server u)")
  case True
  then have "length (up_events u) < request_queue_capacity"
    using replies_bound [OF assms(1) True] assms(2) by (simp add: replies_def request_queue_capacity_def transfer_window_def)
  then have "?v = u\<lparr>up_events := up_events u @ [r], up_responses := rs\<rparr>" using True by (simp add: deliver_response_def)
  then show ?thesis using assms(2) by (intro upload_inv_moved [OF assms(1)]) (simp_all add: replies_def transit_def)
next
  case False
  then obtain res where r: "su_phase (up_server u) = UploadEnded res" by (auto simp: server_live_def)
  have v: "?v = u\<lparr>up_responses := rs\<rparr>" using False by (simp add: deliver_response_def)
  show ?thesis unfolding v using assms r
    by (cases "au_phase (up_agent u)")
      (auto simp: upload_inv_def opening_inv_def receiving_inv_def finishing_inv_def committed_inv_def failed_inv_def replies_def server_live_def)
qed

lemma upload_inv_move:
  assumes "upload_move target u v" "upload_inv target declared limit content u"
  shows "upload_inv target declared limit content v"
  using assms(1)
proof cases
  case server_event then show ?thesis using upload_inv_server_event [OF assms(2)] by simp
next
  case server_sends then show ?thesis using upload_inv_server_sends [OF assms(2)] by simp
next
  case server_next then show ?thesis using upload_inv_server_next [OF assms(2)] by simp
next
  case server_finishes then show ?thesis using upload_inv_server_finishes [OF assms(2)] by simp
next
  case frame_arrives then show ?thesis using upload_inv_frame_arrives [OF assms(2)] by simp
next
  case finish_arrives then show ?thesis using upload_inv_finish_arrives [OF assms(2)] by simp
next
  case agent_opens then show ?thesis using upload_inv_agent_opens [OF assms(2)] by simp
next
  case agent_works then show ?thesis using upload_inv_agent_works [OF assms(2)] by simp
next
  case response_arrives then show ?thesis using upload_inv_response_arrives [OF assms(2)] by simp
qed

lemma opening_server_ends:
  "upload_inv target declared limit content u \<Longrightarrow> au_phase (up_agent u) = Opening \<Longrightarrow> replies u = []"
  by (simp add: upload_inv_def opening_inv_def)

lemma upload_inv_fault:
  assumes "upload_fault u v" "upload_inv target declared limit content u"
  shows "upload_inv target declared limit content v"
  using assms(1)
proof cases
  case (server_ends e)
  then show ?thesis using opening_server_ends [OF assms(2)]
    by (intro upload_inv_failed [OF assms(2) server_ends(2), where e = e]) (simp_all add: transit_def replies_def)
next
  case agent_cancels
  then show ?thesis
    by (intro upload_inv_agent_stops [OF assms(2) agent_cancels(2), where p = AgentCancelled and rs = "[]"]) (simp_all add: replies_def)
next
  case (agent_fails c msg)
  then show ?thesis
    by (intro upload_inv_agent_stops [OF assms(2) agent_fails(2), where p = AgentFailed and rs = "[FileError c msg]"])
      (simp_all add: agent_failure_def replies_def)
qed

lemma upload_reachable_inv:
  "upload_reachable target declared limit body u \<Longrightarrow> upload_inv target declared limit (concat body) u"
  by (induction rule: upload_reachable.induct) (auto intro: upload_inv_start upload_inv_move upload_inv_fault)

end
