(* ===== verification/UploadProperties.thy ===== *)
theory UploadProperties
  imports UploadSafety
begin

text \<open>
  What an upload promises: a file is put in place whole or not at all, no queue on the way ever overflows, and
  an upload that nothing disturbs ends, with the file in place.
\<close>

text \<open>
  C35: An upload puts the whole file in place or none of it.  However the server, the agent and the
  connection between them behave, an agent that commits the file of an upload has written exactly the body of the
  administrator's request, which has the declared size and is no larger than the limit; and the server reports
  success only for a file that the agent has committed.
\<close>

theorem upload_is_all_or_nothing:
  assumes "upload_reachable target declared limit body u" "au_phase (up_agent u) = Committed \<or> su_phase (up_server u) = UploadEnded (Inr path)"
  shows "au_phase (up_agent u) = Committed \<and> au_file (up_agent u) = concat body \<and> length (concat body) = declared \<and> declared \<le> limit
    \<and> (\<forall>p. su_phase (up_server u) = UploadEnded (Inr p) \<longrightarrow> p = target)"
  using upload_reachable_inv [OF assms(1)] assms(2)
  by (cases "au_phase (up_agent u)")
    (auto simp: upload_inv_def opening_inv_def receiving_inv_def finishing_inv_def committed_inv_def failed_inv_def whole_file_def
      split: upload_phase.splits)


subsection \<open>Undisturbed uploads\<close>

definition phase_rank :: "upload_phase \<Rightarrow> nat" where
  "phase_rank p = (case p of AwaitReady \<Rightarrow> 4 | Streaming \<Rightarrow> 3 | Draining \<Rightarrow> 2 | AwaitComplete \<Rightarrow> 1 | UploadEnded _ \<Rightarrow> 0)"

definition upload_work :: "upload \<Rightarrow> nat" where
  "upload_work u = 10 * phase_rank (su_phase (up_server u))
     + 10 * (length (su_chunk (up_server u)) + length (concat (su_body (up_server u)))) + length (su_body (up_server u))
     + 6 * length (up_frames u) + (if up_finish u then 6 else 0) + 5 * length (up_queue u)
     + 3 * length (up_responses u) + 2 * length (up_events u) + (if au_phase (up_agent u) = Opening then 5 else 0)"

lemma phase_rank_failed [simp]: "phase_rank (UploadEnded r) = 0"
  by (simp add: phase_rank_def)

lemma fail_upload_work [simp]: "su_chunk (fail_upload e su) = su_chunk su" "su_body (fail_upload e su) = su_body su"
  by (simp_all add: fail_upload_def)

lemma phase_rank_event:
  "phase_rank (su_phase (upload_event_arrives (Some (ResponseEvent r)) su)) \<le> phase_rank (su_phase su)
   \<and> su_chunk (upload_event_arrives (Some (ResponseEvent r)) su) = su_chunk su
   \<and> su_body (upload_event_arrives (Some (ResponseEvent r)) su) = su_body su"
  unfolding upload_event_arrives_def wait_response_def upload_response_def wait_upload_ack_def
  by (simp add: phase_rank_def split: file_response.split upload_phase.split list.split prod.split)

lemma upload_work_server_event:
  "up_events u = r # rs \<Longrightarrow>
    upload_work (u\<lparr>up_server := upload_event_arrives (Some (ResponseEvent r)) (up_server u), up_events := rs\<rparr>) < upload_work u"
  using phase_rank_event [of r "up_server u"] by (simp add: upload_work_def)

lemma upload_work_server_sends:
  assumes "su_phase (up_server u) = Streaming" "su_chunk (up_server u) \<noteq> []"
  shows "upload_work (server_sends u) < upload_work u"
proof -
  have "min (length (su_chunk (up_server u))) chunk_size > 0" using assms(2) by (simp add: chunk_size_def)
  then have "length (drop chunk_size (su_chunk (up_server u))) < length (su_chunk (up_server u))"
    by (simp add: chunk_size_def)
  then show ?thesis using assms
    by (simp add: server_sends_def send_piece_def upload_work_def phase_rank_def Let_def)
qed

lemma upload_work_server_next:
  assumes "su_phase (up_server u) = Streaming" "su_chunk (up_server u) = []"
  shows "upload_work (u\<lparr>up_server := next_part (up_server u)\<rparr>) < upload_work u"
  using assms by (cases "su_body (up_server u)") (simp_all add: next_part_def upload_work_def phase_rank_def)

lemma upload_work_queue:
  "upload_work (queue_upload_event ev u) \<le> upload_work u + 5"
  by (simp add: queue_upload_event_def upload_work_def agent_live_def)

lemma agent_phase_run: "au_phase au = Receiving \<Longrightarrow> au_phase (fst (run_upload_event target ev au)) \<noteq> Opening"
  by (simp add: run_upload_event_def agent_failure_def Let_def split: upload_event.split)

lemma upload_work_decreases: "upload_move target u v \<Longrightarrow> upload_work v < upload_work u"
proof (induction rule: upload_move.induct)
  case (server_event u r rs) then show ?case by (simp add: upload_work_server_event)
next
  case (server_sends u) then show ?case by (simp add: upload_work_server_sends)
next
  case (server_next u) then show ?case by (simp add: upload_work_server_next)
next
  case (server_finishes u) then show ?case by (simp add: upload_work_def phase_rank_def)
next
  case (frame_arrives u q data fs)
  have "upload_work (u\<lparr>up_frames := fs\<rparr>) + 6 \<le> upload_work u" using frame_arrives by (simp add: upload_work_def)
  then show ?case using upload_work_queue [of "UploadChunk q data" "u\<lparr>up_frames := fs\<rparr>"] by linarith
next
  case (finish_arrives u)
  have "upload_work (u\<lparr>up_finish := False\<rparr>) + 6 \<le> upload_work u" using finish_arrives by (simp add: upload_work_def)
  then show ?case using upload_work_queue [of UploadFinish "u\<lparr>up_finish := False\<rparr>"] by linarith
next
  case (agent_opens u) then show ?case by (simp add: agent_opens_def upload_ready_def upload_work_def)
next
  case (agent_works u ev evs) then show ?case
    using agent_phase_run [of "up_agent u" target ev]
    by (auto simp: agent_works_def upload_work_def split: prod.split)
next
  case (response_arrives u r rs) then show ?case by (auto simp: deliver_response_def upload_work_def)
qed


definition undisturbed :: "upload \<Rightarrow> bool" where
  "undisturbed u \<longleftrightarrow> (\<forall>e. su_phase (up_server u) \<noteq> UploadEnded (Inl e)) \<and> au_phase (up_agent u) \<noteq> AgentFailed
     \<and> au_phase (up_agent u) \<noteq> AgentCancelled"

definition uploaded :: "string \<Rightarrow> bytes \<Rightarrow> upload \<Rightarrow> bool" where
  "uploaded target content u \<longleftrightarrow> su_phase (up_server u) = UploadEnded (Inr target)
     \<and> au_phase (up_agent u) = Committed \<and> au_file (up_agent u) = content"

text \<open>What an undisturbed state looks like, phase by phase.\<close>

lemma undisturbed_cases:
  assumes "upload_inv target declared limit content u" "undisturbed u"
  obtains (starting) "au_phase (up_agent u) = Opening" "su_phase (up_server u) = AwaitReady" "transit u = []" "replies u = []"
  | (ready) "au_phase (up_agent u) = Receiving" "su_phase (up_server u) = AwaitReady" "transit u = []"
      "replies u = [UploadReady target]"
  | (streaming) pieces where "au_phase (up_agent u) = Receiving" "su_phase (up_server u) = Streaming \<or> su_phase (up_server u) = Draining"
      "receiving_inv target declared content u pieces" "streaming_inv declared content u pieces"
  | (finishing) "au_phase (up_agent u) = Receiving" "su_phase (up_server u) = AwaitComplete" "transit u = [UploadFinish]"
      "replies u = []" "whole_file declared limit content (up_agent u)"
  | (committed) "au_phase (up_agent u) = Committed" "su_phase (up_server u) = AwaitComplete" "replies u = [TransferComplete target declared]"
  | (uploaded) "uploaded target content u"
proof (cases "au_phase (up_agent u)")
  case Opening
  then show ?thesis using assms starting
    by (auto simp: upload_inv_def undisturbed_def opening_inv_def isl_def split: upload_phase.splits)
next
  case Receiving
  then consider (a) pieces where "receiving_inv target declared content u pieces" | (b) "finishing_inv declared limit content u"
    using assms(1) by (auto simp: upload_inv_def)
  then show ?thesis
  proof cases
    case a
    then show ?thesis using assms(2) Receiving ready streaming
      by (cases "su_phase (up_server u)") (auto simp: undisturbed_def receiving_inv_def isl_def)
  next
    case b
    then show ?thesis using assms(2) Receiving finishing
      by (auto simp: undisturbed_def finishing_inv_def isl_def split: upload_phase.splits)
  qed
next
  case Committed
  then show ?thesis using assms committed uploaded
    by (auto simp: upload_inv_def undisturbed_def committed_inv_def whole_file_def uploaded_def isl_def split: upload_phase.splits)
qed (use assms in \<open>auto simp: undisturbed_def\<close>)

lemma streaming_reply:
  assumes "streaming_inv declared content u pieces" "up_events u = r # rs"
  obtains q n rest where "r = TransferAck q n" "su_inflight (up_server u) = (q, n) # rest"
  using assms by (auto simp: streaming_inv_def Let_def replies_def Cons_eq_map_ack)

lemma undisturbed_server_event:
  assumes inv: "upload_inv target declared limit content u" and u: "undisturbed u" and "waits_for_event (up_server u)" "up_events u = r # rs"
  shows "undisturbed (u\<lparr>up_server := upload_event_arrives (Some (ResponseEvent r)) (up_server u), up_events := rs\<rparr>)"
proof -
  have rep: "replies u = r # rs @ up_responses u" using assms(4) by (simp add: replies_def)
  have size: "su_size (up_server u) = declared" using inv by (simp add: upload_inv_def)
  note defs = undisturbed_def upload_event_arrives_def wait_response_def upload_response_def
  from inv u show ?thesis
  proof (cases rule: undisturbed_cases)
    case starting then show ?thesis using rep by simp
  next
    case ready then show ?thesis using rep u by (simp add: defs)
  next
    case (streaming pieces)
    obtain q n rest where "r = TransferAck q n" "su_inflight (up_server u) = (q, n) # rest"
      using streaming_reply [OF streaming(4) assms(4)] .
    then show ?thesis using streaming(1,2) by (auto simp: defs wait_upload_ack_def)
  next
    case finishing then show ?thesis using rep by simp
  next
    case committed then show ?thesis using rep size by (simp add: defs)
  next
    case uploaded then show ?thesis using assms(3) by (simp add: uploaded_def waits_for_event_def)
  qed
qed

lemma undisturbed_server_sends:
  assumes inv: "upload_inv target declared limit content u" and u: "undisturbed u" and "su_phase (up_server u) = Streaming"
    and fits: "length content = declared" "declared \<le> limit"
  shows "undisturbed (server_sends u)"
proof -
  from inv u obtain pieces where st: "streaming_inv declared content u pieces" "au_phase (up_agent u) = Receiving"
    using assms(3) by (cases rule: undisturbed_cases) (auto simp: uploaded_def)
  let ?su = "up_server u"
  have sizes: "su_size ?su = declared" "su_max ?su = limit" "au_received (up_agent u) = length (au_file (up_agent u))"
    using inv by (simp_all add: upload_inv_def)
  have "length content = length (au_file (up_agent u)) + length (concat pieces) + length (su_chunk ?su) + length (concat (su_body ?su))"
    using st(1) by (auto simp: streaming_inv_def Let_def)
  then have "su_transferred ?su + length (take chunk_size (su_chunk ?su)) \<le> declared"
    using st(1) sizes fits by (simp add: streaming_inv_def Let_def)
  then show ?thesis using sizes fits assms(3) st(2)
    by (simp add: undisturbed_def server_sends_def send_piece_def Let_def)
qed

lemma undisturbed_server_next:
  assumes inv: "upload_inv target declared limit content u" and u: "undisturbed u" and "su_phase (up_server u) = Streaming"
    and "su_chunk (up_server u) = []" and fits: "length content = declared"
  shows "undisturbed (u\<lparr>up_server := next_part (up_server u)\<rparr>)"
proof -
  from inv u obtain pieces where st: "streaming_inv declared content u pieces" "au_phase (up_agent u) = Receiving"
    using assms(3) by (cases rule: undisturbed_cases) (auto simp: uploaded_def)
  have sizes: "su_size (up_server u) = declared" "au_received (up_agent u) = length (au_file (up_agent u))"
    using inv by (simp_all add: upload_inv_def)
  have "su_body (up_server u) = [] \<Longrightarrow> su_transferred (up_server u) = declared"
    using st(1) sizes fits assms(4) by (auto simp: streaming_inv_def Let_def)
  then show ?thesis using sizes st(2) assms(3)
    by (cases "su_body (up_server u)") (simp_all add: undisturbed_def next_part_def)
qed

lemma undisturbed_queue:
  assumes "undisturbed u" "length (up_queue u) < transfer_window"
  shows "undisturbed (queue_upload_event ev u)"
  using assms by (simp add: undisturbed_def queue_upload_event_def)

lemma undisturbed_agent_works:
  assumes inv: "upload_inv target declared limit content u" and u: "undisturbed u"
    and "au_phase (up_agent u) = Receiving" "up_queue u = ev # evs"
  shows "undisturbed (agent_works target ev u)"
proof -
  have exp: "au_expected (up_agent u) = declared" "au_received (up_agent u) = length (au_file (up_agent u))"
    using inv by (simp_all add: upload_inv_def)
  from inv u show ?thesis
  proof (cases rule: undisturbed_cases)
    case (streaming pieces)
    obtain d ds where p: "pieces = d # ds" "ev = UploadChunk (au_next (up_agent u)) d"
      using streaming(3) assms(4) by (cases pieces) (auto simp: receiving_inv_def transit_def)
    then show ?thesis using streaming(3) exp u assms(3)
      by (simp add: undisturbed_def agent_works_def run_upload_event_def receiving_inv_def Let_def)
  next
    case finishing
    then show ?thesis using assms(4) exp u
      by (simp add: undisturbed_def agent_works_def run_upload_event_def transit_def whole_file_def)
  qed (use assms(3,4) in \<open>auto simp: transit_def uploaded_def\<close>)
qed

lemma undisturbed_move:
  assumes "upload_move target u v" and inv: "upload_inv target declared limit content u" and u: "undisturbed u"
    and fits: "length content = declared" "declared \<le> limit"
  shows "undisturbed v"
  using assms(1)
proof cases
  case server_event then show ?thesis using undisturbed_server_event [OF inv u] by simp
next
  case server_sends then show ?thesis using undisturbed_server_sends [OF inv u _ fits] by simp
next
  case server_next then show ?thesis using undisturbed_server_next [OF inv u _ _ fits(1)] by simp
next
  case server_finishes then show ?thesis using u by (simp add: undisturbed_def)
next
  case (frame_arrives q data fs)
  have "undisturbed (u\<lparr>up_frames := fs\<rparr>)" using u by (simp add: undisturbed_def)
  moreover have "length (up_queue u) < transfer_window" if "agent_live (up_agent u)"
    using transit_bound [OF inv that] frame_arrives(2) by (simp add: transit_def)
  ultimately show ?thesis unfolding frame_arrives(1)
    by (cases "agent_live (up_agent u)") (simp_all add: queue_upload_event_def undisturbed_def)
next
  case finish_arrives
  have "undisturbed (u\<lparr>up_finish := False\<rparr>)" using u by (simp add: undisturbed_def)
  moreover have "length (up_queue u) < transfer_window" if "agent_live (up_agent u)"
    using transit_finish [OF inv that finish_arrives(2)] by (simp add: transfer_window_def)
  ultimately show ?thesis unfolding finish_arrives(1)
    by (cases "agent_live (up_agent u)") (simp_all add: queue_upload_event_def undisturbed_def)
next
  case agent_opens then show ?thesis using u by (simp add: undisturbed_def agent_opens_def upload_ready_def)
next
  case agent_works then show ?thesis using undisturbed_agent_works [OF inv u] by simp
next
  case response_arrives then show ?thesis using u by (simp add: undisturbed_def deliver_response_def)
qed

text \<open>An undisturbed upload is never stuck before it has succeeded.\<close>

lemma undisturbed_moves:
  assumes inv: "upload_inv target declared limit content u" and u: "undisturbed u" and stuck: "\<nexists>v. upload_move target u v"
  shows "uploaded target content u"
proof -
  have quiet: "up_responses u = []" "up_frames u = []" "\<not> up_finish u"
    using stuck upload_move.intros by (metis neq_Nil_conv surj_pair)+
  have tr: "transit u = up_queue u" using quiet by (simp add: transit_def)
  have rep: "replies u = up_events u" using quiet by (simp add: replies_def)
  have idle: "au_phase (up_agent u) = Receiving \<Longrightarrow> up_queue u = []"
    using stuck upload_move.agent_works by (metis neq_Nil_conv)
  have deaf: "waits_for_event (up_server u) \<Longrightarrow> up_events u = []"
    using stuck upload_move.server_event by (metis neq_Nil_conv)
  from inv u show ?thesis
  proof (cases rule: undisturbed_cases)
    case starting then show ?thesis using stuck upload_move.agent_opens by blast
  next
    case ready then show ?thesis using deaf rep by (simp add: waits_for_event_def)
  next
    case (streaming pieces)
    then have nil: "pieces = []" using idle tr by (simp add: receiving_inv_def)
    then obtain acks where acks: "replies u = map ack acks" "su_inflight (up_server u) = acks"
      using streaming(4) by (auto simp: streaming_inv_def Let_def)
    show ?thesis
    proof (cases "su_phase (up_server u) = Draining")
      case True
      then have "acks = [] \<or> waits_for_event (up_server u)" using acks by (simp add: waits_for_event_def)
      then have "su_inflight (up_server u) = []" using deaf acks rep by auto
      then show ?thesis using True stuck upload_move.server_finishes by blast
    next
      case False
      then have ph: "su_phase (up_server u) = Streaming" using streaming(2) by simp
      then have chunk: "su_chunk (up_server u) \<noteq> []" using stuck upload_move.server_next by blast
      then have "length (su_inflight (up_server u)) \<ge> transfer_window"
        using ph stuck upload_move.server_sends by (metis not_le)
      then have "waits_for_event (up_server u)" "acks \<noteq> []" using ph chunk acks
        by (auto simp: waits_for_event_def transfer_window_def)
      then show ?thesis using deaf acks rep by simp
    qed
  next
    case finishing then show ?thesis using idle tr by simp
  next
    case committed then show ?thesis using deaf rep by (simp add: waits_for_event_def)
  qed
qed

lemma undisturbed_run:
  assumes "(upload_move target)\<^sup>*\<^sup>* (start_upload declared limit body) u" "length (concat body) = declared" "declared \<le> limit"
  shows "upload_inv target declared limit (concat body) u \<and> undisturbed u"
  using assms(1)
proof (induction rule: rtranclp_induct)
  case base
  have "undisturbed (start_upload declared limit body)" using assms(3)
    by (simp add: undisturbed_def start_upload_def admin_upload_file_def)
  then show ?case using upload_inv_start by blast
next
  case (step u v)
  then show ?case using upload_inv_move undisturbed_move assms(2,3) by blast
qed

lemma upload_run_ends: "\<exists>v. (upload_move target)\<^sup>*\<^sup>* u v \<and> (\<nexists>w. upload_move target v w)"
proof (induction "upload_work u" arbitrary: u rule: less_induct)
  case less
  show ?case
  proof (cases "\<exists>v. upload_move target u v")
    case True
    then obtain v where v: "upload_move target u v" by blast
    with less [OF upload_work_decreases [OF v]] show ?thesis by (meson converse_rtranclp_into_rtranclp)
  qed blast
qed

text \<open>
  C34: An upload that nothing disturbs succeeds.  Whatever the order in which the two tasks and the two socket
  loops take their steps, a run of the upload of a body of the declared size, no larger than the limit, has
  no more steps than a number fixed by the body; as long as the file is not in place and success reported
  some step is possible; and the run can be carried on to the end, where both are the case.
\<close>

theorem undisturbed_upload_succeeds:
  assumes "((upload_move target) ^^ n) (start_upload declared limit body) u" "length (concat body) = declared" "declared \<le> limit"
  shows "n \<le> 45 + 10 * declared + length body
    \<and> (uploaded target (concat body) u \<or> (\<exists>v. upload_move target u v))
    \<and> (\<exists>v. (upload_move target)\<^sup>*\<^sup>* u v \<and> uploaded target (concat body) v)"
proof (intro conjI)
  have run: "(upload_move target)\<^sup>*\<^sup>* (start_upload declared limit body) u" using assms(1) by (rule relpowp_imp_rtranclp)
  have "n + upload_work u \<le> upload_work (start_upload declared limit body)"
    using assms(1)
  proof (induction n arbitrary: u)
    case (Suc n)
    then obtain v where v: "((upload_move target) ^^ n) (start_upload declared limit body) v" "upload_move target v u" by auto
    then show ?case using Suc.IH [OF v(1)] upload_work_decreases [OF v(2)] by simp
  qed simp
  moreover have "upload_work (start_upload declared limit body) = 45 + 10 * declared + length body"
    using assms(2,3) by (simp add: upload_work_def start_upload_def admin_upload_file_def phase_rank_def)
  ultimately show "n \<le> 45 + 10 * declared + length body" by simp
  show "uploaded target (concat body) u \<or> (\<exists>v. upload_move target u v)"
    using undisturbed_run [OF run assms(2,3)] undisturbed_moves by blast
  obtain v where v: "(upload_move target)\<^sup>*\<^sup>* u v" "\<nexists>w. upload_move target v w" using upload_run_ends by blast
  then have "uploaded target (concat body) v"
    using undisturbed_run [OF rtranclp_trans [OF run v(1)] assms(2,3)] undisturbed_moves by blast
  with v(1) show "\<exists>v. (upload_move target)\<^sup>*\<^sup>* u v \<and> uploaded target (concat body) v" by blast
qed

theorem undisturbed_upload_succeeds_witness:
  "\<exists>v. (upload_move ''/a'')\<^sup>*\<^sup>* (start_upload 3 9 [[1, 2], [], [3]]) v \<and> uploaded ''/a'' [1, 2, 3] v"
  using undisturbed_upload_succeeds [of 0 "''/a''" 3 9 "[[1, 2], [], [3]]"] by simp


text \<open>The other two properties, at the end of such a run and in its first states.\<close>

lemma moves_reachable:
  "(upload_move target)\<^sup>*\<^sup>* (start_upload declared limit body) u \<Longrightarrow> upload_reachable target declared limit body u"
  by (induction rule: rtranclp_induct) (blast intro: upload_reachable.intros)+

lemma demo_upload_ends:
  "\<exists>u. upload_reachable ''/a'' 3 9 [[1, 2], [], [3]] u \<and> uploaded ''/a'' [1, 2, 3] u"
proof -
  obtain u where u: "(upload_move ''/a'')\<^sup>*\<^sup>* (start_upload 3 9 [[1, 2], [], [3]]) u" "\<nexists>w. upload_move ''/a'' u w"
    using upload_run_ends by blast
  have "upload_inv ''/a'' 3 9 (concat [[1, 2], [], [3]]) u \<and> undisturbed u"
    by (rule undisturbed_run [OF u(1)]) simp_all
  then have "uploaded ''/a'' (concat [[1, 2], [], [3]]) u" using undisturbed_moves u(2) by blast
  then show ?thesis using moves_reachable [OF u(1)] by auto
qed

theorem upload_is_all_or_nothing_witness:
  "\<exists>u. upload_reachable ''/a'' 3 9 [[1, 2], [], [3]] u \<and> au_phase (up_agent u) = Committed \<and> au_file (up_agent u) = [1, 2, 3]"
proof -
  obtain u where u: "upload_reachable ''/a'' 3 9 [[1, 2], [], [3]] u" "uploaded ''/a'' [1, 2, 3] u" using demo_upload_ends by blast
  have "au_phase (up_agent u) = Committed \<or> su_phase (up_server u) = UploadEnded (Inr [])"
    using u(2) by (simp add: uploaded_def)
  from upload_is_all_or_nothing [OF u(1) this] u(1) show ?thesis by (intro exI [of _ u]) simp
qed



end
