(* ===== verification/FileDownload.thy ===== *)
theory FileDownload
  imports UploadSafety
begin

text \<open>
  A download from end to end: \<open>run_download\<close> of the agent (\<open>instanceEnd/src/file_manager.rs\<close>), which keeps at
  most four pieces of the file unacknowledged, and \<open>admin_download_file\<close> of the server (\<open>backend/src/files.rs\<close>),
  which passes them on to the administrator.  The agent's responses and its pieces wait in two queues, from
  which its socket loop takes in any order; the model has every interleaving.
\<close>

subsection \<open>The server's task\<close>

text \<open>\<open>Refused\<close> is an error before the answer has begun, \<open>Broken\<close> one that breaks it off, with its code in the audit log.\<close>

datatype download_phase = AwaitAnnouncement | Delivering | Refused app_error | Broken string | Delivered

record server_download =
  sd_max :: nat
  sd_size :: nat
  sd_expected :: nat
  sd_transferred :: nat
  sd_output :: bytes
  sd_phase :: download_phase

definition break_off :: "string \<Rightarrow> server_download \<Rightarrow> server_download \<times> nat list" where
  "break_off code sd = (sd\<lparr>sd_phase := Broken code\<rparr>, [])"

text \<open>The first response.\<close>

definition await_announcement :: "file_request_event option \<Rightarrow> server_download \<Rightarrow> server_download" where
  "await_announcement ev sd = (case wait_response ev of
       Inl e \<Rightarrow> sd\<lparr>sd_phase := Refused e\<rparr>
     | Inr (DownloadReady path name size_bytes) \<Rightarrow>
         if size_bytes > sd_max sd then sd\<lparr>sd_phase := Refused (app_error_new 413 ''the file is larger than allowed'')\<rparr>
         else sd\<lparr>sd_size := size_bytes, sd_phase := Delivering\<rparr>
     | Inr r \<Rightarrow> sd\<lparr>sd_phase := Refused (response_error_or_unexpected r)\<rparr>)"

text \<open>One turn of the loop of the stream: the new state and the acknowledgements sent.\<close>

definition stream_event :: "file_request_event \<Rightarrow> server_download \<Rightarrow> server_download \<times> nat list" where
  "stream_event ev sd = (case ev of
       ChunkEvent sequence data \<Rightarrow>
         if sequence \<noteq> sd_expected sd then break_off ''invalid_sequence'' sd
         else (let transferred = sd_transferred sd + length data
           in if transferred > sd_size sd then break_off ''size_mismatch'' (sd\<lparr>sd_transferred := transferred\<rparr>)
              else (sd\<lparr>sd_transferred := transferred, sd_expected := sd_expected sd + 1, sd_output := sd_output sd @ data\<rparr>, [sequence]))
     | ResponseEvent (TransferComplete path completed_size) \<Rightarrow>
         if completed_size \<noteq> sd_size sd \<or> sd_transferred sd \<noteq> sd_size sd then break_off ''size_mismatch'' sd
         else (sd\<lparr>sd_phase := Delivered\<rparr>, [])
     | ResponseEvent (FileError c msg) \<Rightarrow> break_off (file_error_code_text c) sd
     | DisconnectedEvent \<Rightarrow> break_off ''agent_disconnected'' sd
     | ResponseEvent _ \<Rightarrow> break_off ''unexpected_agent_response'' sd)"

definition download_event :: "file_request_event \<Rightarrow> server_download \<Rightarrow> server_download \<times> nat list" where
  "download_event ev sd = (case sd_phase sd of
       AwaitAnnouncement \<Rightarrow> (await_announcement (Some ev) sd, [])
     | Delivering \<Rightarrow> stream_event ev sd
     | _ \<Rightarrow> (sd, []))"

definition admin_download_file :: "nat \<Rightarrow> server_download" where
  "admin_download_file limit = \<lparr>sd_max = limit, sd_size = 0, sd_expected = 0, sd_transferred = 0, sd_output = [],
     sd_phase = AwaitAnnouncement\<rparr>"

definition download_live :: "server_download \<Rightarrow> bool" where
  "download_live sd \<longleftrightarrow> sd_phase sd = AwaitAnnouncement \<or> sd_phase sd = Delivering"

subsection \<open>The agent's task\<close>

datatype sender_phase = Announcing | Sending | Sent | SenderFailed | SenderCancelled

record agent_download =
  ad_rest :: bytes                           \<comment> \<open>what the file still holds after the position of the reader\<close>
  ad_size :: nat
  ad_remaining :: nat
  ad_sequence :: nat
  ad_inflight :: "nat list"
  ad_phase :: sender_phase

definition announce_download :: "string \<Rightarrow> string \<Rightarrow> nat \<Rightarrow> agent_download \<Rightarrow> agent_download \<times> file_response" where
  "announce_download path name limit ad = (let size_bytes = length (ad_rest ad)
     in if size_bytes > limit then (ad\<lparr>ad_phase := SenderFailed\<rparr>, FileError TooLarge ''the file is larger than allowed'')
        else (ad\<lparr>ad_size := size_bytes, ad_remaining := size_bytes, ad_phase := Sending\<rparr>, DownloadReady path name size_bytes))"

text \<open>The inner loop: the next piece of the file.\<close>

definition read_piece :: "agent_download \<Rightarrow> agent_download \<times> (nat \<times> bytes)" where
  "read_piece ad = (let next_len = min (ad_remaining ad) chunk_size; data = take next_len (ad_rest ad)
     in (ad\<lparr>ad_rest := drop next_len (ad_rest ad), ad_inflight := ad_inflight ad @ [ad_sequence ad],
            ad_sequence := ad_sequence ad + 1, ad_remaining := ad_remaining ad - length data\<rparr>, (ad_sequence ad, data)))"

definition take_ack :: "nat \<Rightarrow> agent_download \<Rightarrow> agent_download \<times> file_response list" where
  "take_ack received ad = (case ad_inflight ad of
       [] \<Rightarrow> (ad, [])
     | expected # rest \<Rightarrow> if received \<noteq> expected
         then (ad\<lparr>ad_phase := SenderFailed\<rparr>, [FileError Io ''invalid order of acknowledgements''])
         else (ad\<lparr>ad_inflight := rest\<rparr>, []))"

definition may_read :: "agent_download \<Rightarrow> bool" where
  "may_read ad \<longleftrightarrow> ad_phase ad = Sending \<and> ad_remaining ad > 0 \<and> length (ad_inflight ad) < transfer_window"

definition sender_live :: "agent_download \<Rightarrow> bool" where
  "sender_live ad \<longleftrightarrow> ad_phase ad = Announcing \<or> ad_phase ad = Sending"

subsection \<open>The whole\<close>

record download =
  dn_server :: server_download
  dn_agent :: agent_download
  dn_text :: "file_response list"            \<comment> \<open>the agent's queue of messages\<close>
  dn_frames :: "(nat \<times> bytes) list"       \<comment> \<open>the agent's queue of frames\<close>
  dn_events :: "file_request_event list"     \<comment> \<open>the channel of the server's request\<close>
  dn_acks :: "nat list"                      \<comment> \<open>sent by the server, not yet seen by the agent's socket loop\<close>
  dn_ack_queue :: "nat list"                 \<comment> \<open>the channel of the agent's task\<close>

text \<open>\<open>handle_agent_file_response\<close>, and \<open>handle_agent_file_binary\<close>, which cancels the download when the channel is full.\<close>

definition deliver_event :: "file_request_event \<Rightarrow> download \<Rightarrow> download" where
  "deliver_event ev d = (if download_live (dn_server d) \<and> length (dn_events d) < request_queue_capacity
     then d\<lparr>dn_events := dn_events d @ [ev]\<rparr>
     else case ev of ChunkEvent q bs \<Rightarrow> if download_live (dn_server d) then d\<lparr>dn_agent := (dn_agent d)\<lparr>ad_phase := SenderCancelled\<rparr>\<rparr> else d
        | _ \<Rightarrow> d)"

text \<open>\<open>acknowledge_download\<close> of the agent's socket loop.\<close>

definition acknowledge_download :: "nat \<Rightarrow> download \<Rightarrow> download" where
  "acknowledge_download q d = (if \<not> sender_live (dn_agent d) then d
     else if length (dn_ack_queue d) < transfer_window then d\<lparr>dn_ack_queue := dn_ack_queue d @ [q]\<rparr>
     else d\<lparr>dn_agent := (dn_agent d)\<lparr>ad_phase := SenderCancelled\<rparr>,
       dn_text := dn_text d @ [FileError Busy ''the window of acknowledgements is full'']\<rparr>)"

definition agent_announces :: "string \<Rightarrow> string \<Rightarrow> nat \<Rightarrow> download \<Rightarrow> download" where
  "agent_announces path name limit d = (let (ad, r) = announce_download path name limit (dn_agent d)
     in d\<lparr>dn_agent := ad, dn_text := dn_text d @ [r]\<rparr>)"

definition agent_reads :: "download \<Rightarrow> download" where
  "agent_reads d = (let (ad, frame) = read_piece (dn_agent d) in d\<lparr>dn_agent := ad, dn_frames := dn_frames d @ [frame]\<rparr>)"

definition agent_takes_ack :: "nat \<Rightarrow> download \<Rightarrow> download" where
  "agent_takes_ack q d = (let (ad, rs) = take_ack q (dn_agent d)
     in d\<lparr>dn_agent := ad, dn_ack_queue := tl (dn_ack_queue d), dn_text := dn_text d @ rs\<rparr>)"

definition agent_completes :: "string \<Rightarrow> download \<Rightarrow> download" where
  "agent_completes path d = d\<lparr>dn_agent := (dn_agent d)\<lparr>ad_phase := Sent\<rparr>,
     dn_text := dn_text d @ [TransferComplete path (ad_size (dn_agent d))]\<rparr>"

definition server_turns :: "file_request_event \<Rightarrow> download \<Rightarrow> download" where
  "server_turns ev d = (let (sd, qs) = download_event ev (dn_server d)
     in d\<lparr>dn_server := sd, dn_events := tl (dn_events d), dn_acks := dn_acks d @ qs\<rparr>)"

inductive download_move :: "string \<Rightarrow> string \<Rightarrow> nat \<Rightarrow> download \<Rightarrow> download \<Rightarrow> bool" for path name limit where
  announces: "ad_phase (dn_agent d) = Announcing \<Longrightarrow> download_move path name limit d (agent_announces path name limit d)"
| reads: "may_read (dn_agent d) \<Longrightarrow> download_move path name limit d (agent_reads d)"
| takes_ack: "ad_phase (dn_agent d) = Sending \<Longrightarrow> \<not> may_read (dn_agent d) \<Longrightarrow> dn_ack_queue d = q # qs \<Longrightarrow>
    ad_inflight (dn_agent d) \<noteq> [] \<Longrightarrow> download_move path name limit d (agent_takes_ack q d)"
| completes: "ad_phase (dn_agent d) = Sending \<Longrightarrow> ad_remaining (dn_agent d) = 0 \<Longrightarrow> ad_inflight (dn_agent d) = [] \<Longrightarrow>
    download_move path name limit d (agent_completes path d)"
| text_arrives: "dn_text d = r # rs \<Longrightarrow> download_move path name limit d (deliver_event (ResponseEvent r) (d\<lparr>dn_text := rs\<rparr>))"
| chunk_arrives: "dn_frames d = (q, bs) # fs \<Longrightarrow> download_move path name limit d (deliver_event (ChunkEvent q bs) (d\<lparr>dn_frames := fs\<rparr>))"
| ack_arrives: "dn_acks d = q # qs \<Longrightarrow> download_move path name limit d (acknowledge_download q (d\<lparr>dn_acks := qs\<rparr>))"
| server_turn: "download_live (dn_server d) \<Longrightarrow> dn_events d = ev # evs \<Longrightarrow> download_move path name limit d (server_turns ev d)"

text \<open>
  What may go wrong outside: the server's task ends (a wait times out, the connection is lost, the administrator's
  client is gone, possibly when a piece has been passed on and before it is acknowledged); the agent drops the
  download; a read fails, for instance of a file that has become shorter.
\<close>

inductive download_fault :: "download \<Rightarrow> download \<Rightarrow> bool" where
  server_stops: "download_live (dn_server d) \<Longrightarrow> p = Broken code \<or> p = Refused e \<Longrightarrow>
    download_fault d (d\<lparr>dn_server := (dn_server d)\<lparr>sd_phase := p\<rparr>\<rparr>)"
| client_leaves: "download_live (dn_server d) \<Longrightarrow> dn_events d = ev # evs \<Longrightarrow>
    download_fault d (d\<lparr>dn_server := (fst (download_event ev (dn_server d)))\<lparr>sd_phase := Broken ''client_disconnected''\<rparr>, dn_events := evs\<rparr>)"
| agent_drops: "sender_live (dn_agent d) \<Longrightarrow> download_fault d (d\<lparr>dn_agent := (dn_agent d)\<lparr>ad_phase := SenderCancelled\<rparr>\<rparr>)"
| read_fails: "sender_live (dn_agent d) \<Longrightarrow>
    download_fault d (d\<lparr>dn_agent := (dn_agent d)\<lparr>ad_phase := SenderFailed\<rparr>, dn_text := dn_text d @ [FileError c msg]\<rparr>)"

definition start_download :: "nat \<Rightarrow> bytes \<Rightarrow> download" where
  "start_download limit content = \<lparr>dn_server = admin_download_file limit,
     dn_agent = \<lparr>ad_rest = content, ad_size = 0, ad_remaining = 0, ad_sequence = 0, ad_inflight = [], ad_phase = Announcing\<rparr>,
     dn_text = [], dn_frames = [], dn_events = [], dn_acks = [], dn_ack_queue = []\<rparr>"

inductive download_reachable :: "string \<Rightarrow> string \<Rightarrow> nat \<Rightarrow> bytes \<Rightarrow> download \<Rightarrow> bool" for path name limit content where
  download_start: "download_reachable path name limit content (start_download limit content)"
| download_moves: "download_reachable path name limit content d \<Longrightarrow> download_move path name limit d e \<Longrightarrow>
    download_reachable path name limit content e"
| download_faults: "download_reachable path name limit content d \<Longrightarrow> download_fault d e \<Longrightarrow>
    download_reachable path name limit content e"

subsection \<open>The invariant\<close>

text \<open>The pieces on their way to the server, and the acknowledgements on their way back.\<close>

definition pieces_in :: "file_request_event list \<Rightarrow> (nat \<times> bytes) list" where
  "pieces_in evs = concat (map (\<lambda>ev. case ev of ChunkEvent q bs \<Rightarrow> [(q, bs)] | _ \<Rightarrow> []) evs)"

definition responses_in :: "file_request_event list \<Rightarrow> file_response list" where
  "responses_in evs = concat (map (\<lambda>ev. case ev of ResponseEvent r \<Rightarrow> [r] | _ \<Rightarrow> []) evs)"

definition under_way :: "download \<Rightarrow> (nat \<times> bytes) list" where
  "under_way d = pieces_in (dn_events d) @ dn_frames d"

definition answers :: "download \<Rightarrow> file_response list" where
  "answers d = responses_in (dn_events d) @ dn_text d"

definition acks_back :: "download \<Rightarrow> nat list" where
  "acks_back d = dn_ack_queue d @ dn_acks d"

lemma pieces_in_simps [simp]: "pieces_in [] = []" "pieces_in (ChunkEvent q bs # evs) = (q, bs) # pieces_in evs"
  "pieces_in (ResponseEvent r # evs) = pieces_in evs" "pieces_in (DisconnectedEvent # evs) = pieces_in evs"
  "pieces_in (evs @ evs') = pieces_in evs @ pieces_in evs'"
  by (simp_all add: pieces_in_def)

lemma responses_in_simps [simp]: "responses_in [] = []" "responses_in (ChunkEvent q bs # evs) = responses_in evs"
  "responses_in (ResponseEvent r # evs) = r # responses_in evs" "responses_in (DisconnectedEvent # evs) = responses_in evs"
  "responses_in (evs @ evs') = responses_in evs @ responses_in evs'"
  by (simp_all add: responses_in_def)

text \<open>
  The data: what has been passed on, what is under way and what is still to be read make up the file, and the
  pieces under way are numbered from the one that the server expects.
\<close>

definition data_inv :: "bytes \<Rightarrow> download \<Rightarrow> bool" where
  "data_inv content d \<longleftrightarrow> (let sd = dn_server d
     in sd_transferred sd = length (sd_output sd)
      \<and> sd_output sd @ concat (map snd (under_way d)) @ ad_rest (dn_agent d) = content
      \<and> map fst (under_way d) = [sd_expected sd ..< ad_sequence (dn_agent d)] \<and> sd_expected sd \<le> ad_sequence (dn_agent d))"

text \<open>The acknowledgements: \<open>b\<close> is the piece after the last one that the server has acknowledged.\<close>

definition acks_inv :: "download \<Rightarrow> nat \<Rightarrow> bool" where
  "acks_inv d b \<longleftrightarrow> (\<exists>a. acks_back d = [a ..< b] \<and> a \<le> b \<and> b \<le> ad_sequence (dn_agent d)
     \<and> ad_inflight (dn_agent d) = [a ..< ad_sequence (dn_agent d)])"

text \<open>How many responses the agent may have sent.\<close>

definition answer_bound :: "sender_phase \<Rightarrow> nat" where
  "answer_bound p = (case p of Announcing \<Rightarrow> 0 | Sending \<Rightarrow> 1 | _ \<Rightarrow> 2)"

definition server_side_inv :: "nat \<Rightarrow> bytes \<Rightarrow> download \<Rightarrow> bool" where
  "server_side_inv limit content d \<longleftrightarrow> sd_max (dn_server d) = limit \<and> prefix (sd_output (dn_server d)) content
     \<and> (sd_phase (dn_server d) = Delivering \<or> sd_phase (dn_server d) = Delivered \<longrightarrow>
          sd_size (dn_server d) = length content \<and> length content \<le> limit)
     \<and> (sd_phase (dn_server d) = Delivered \<longrightarrow> sd_output (dn_server d) = content)
     \<and> (\<forall>p n s. DownloadReady p n s \<in> set (answers d) \<longrightarrow> s = length content)
     \<and> (download_live (dn_server d) \<longrightarrow> data_inv content d \<and> length (under_way d) \<le> transfer_window
          \<and> length (answers d) \<le> answer_bound (ad_phase (dn_agent d)) \<and> DisconnectedEvent \<notin> set (dn_events d))"

definition agent_side_inv :: "bytes \<Rightarrow> download \<Rightarrow> bool" where
  "agent_side_inv content d \<longleftrightarrow>
     (ad_phase (dn_agent d) = Announcing \<longrightarrow> ad_rest (dn_agent d) = content \<and> ad_inflight (dn_agent d) = []
        \<and> ad_sequence (dn_agent d) = 0 \<and> acks_back d = [] \<and> sd_expected (dn_server d) = 0)
     \<and> (ad_phase (dn_agent d) = Sending \<longrightarrow> ad_size (dn_agent d) = length content
        \<and> ad_remaining (dn_agent d) = length (ad_rest (dn_agent d)) \<and> length (ad_inflight (dn_agent d)) \<le> transfer_window
        \<and> (\<exists>b. acks_inv d b \<and> (download_live (dn_server d) \<longrightarrow> b = sd_expected (dn_server d))))"

lemma events_split:
  "DisconnectedEvent \<notin> set evs \<Longrightarrow> length evs = length (pieces_in evs) + length (responses_in evs)"
proof (induction evs)
  case (Cons ev evs) then show ?case by (cases ev) simp_all
qed simp

lemma answer_bound_le: "answer_bound p \<le> 2"
  by (cases p) (simp_all add: answer_bound_def)

lemma events_room:
  assumes "server_side_inv limit content d" "download_live (dn_server d)"
  shows "length (dn_events d) < request_queue_capacity"
proof -
  have "length (dn_events d) \<le> length (under_way d) + length (answers d)"
    using assms events_split [of "dn_events d"] by (simp add: server_side_inv_def under_way_def answers_def)
  also have "\<dots> \<le> transfer_window + 2"
    using assms answer_bound_le [of "ad_phase (dn_agent d)"] by (simp add: server_side_inv_def)
  finally show ?thesis by (simp add: request_queue_capacity_def transfer_window_def)
qed

lemma download_inv_start:
  "server_side_inv limit content (start_download limit content)" "agent_side_inv content (start_download limit content)"
  by (simp_all add: server_side_inv_def agent_side_inv_def data_inv_def start_download_def admin_download_file_def under_way_def answers_def
      acks_back_def answer_bound_def)

lemma inv_announces:
  assumes "ad_phase (dn_agent d) = Announcing" "server_side_inv limit content d" "agent_side_inv content d"
  shows "server_side_inv limit content (agent_announces path name limit' d) \<and> agent_side_inv content (agent_announces path name limit' d)"
proof -
  have ad: "ad_rest (dn_agent d) = content" "ad_inflight (dn_agent d) = []" "ad_sequence (dn_agent d) = 0" "acks_back d = []"
      "sd_expected (dn_server d) = 0"
    using assms(1,3) by (simp_all add: agent_side_inv_def)
  show ?thesis
  proof (cases "length content > limit'")
    case True
    then have "agent_announces path name limit' d = d\<lparr>dn_agent := (dn_agent d)\<lparr>ad_phase := SenderFailed\<rparr>,
        dn_text := dn_text d @ [FileError TooLarge ''the file is larger than allowed'']\<rparr>"
      by (simp add: agent_announces_def announce_download_def ad Let_def)
    then show ?thesis using assms
      by (auto simp: server_side_inv_def agent_side_inv_def data_inv_def under_way_def answers_def answer_bound_def Let_def)
  next
    case False
    then have "agent_announces path name limit' d = d\<lparr>dn_agent := (dn_agent d)\<lparr>ad_size := length content, ad_remaining := length content,
        ad_phase := Sending\<rparr>, dn_text := dn_text d @ [DownloadReady path name (length content)]\<rparr>"
      by (simp add: agent_announces_def announce_download_def ad Let_def)
    moreover from this have "acks_inv (agent_announces path name limit' d) 0" using ad by (simp add: acks_inv_def acks_back_def)
    ultimately show ?thesis using assms ad
      by (auto simp: server_side_inv_def agent_side_inv_def data_inv_def under_way_def answers_def answer_bound_def Let_def)
  qed
qed

lemma inv_reads:
  assumes "may_read (dn_agent d)" "server_side_inv limit content d" "agent_side_inv content d"
  shows "server_side_inv limit content (agent_reads d) \<and> agent_side_inv content (agent_reads d)"
proof -
  let ?ad = "dn_agent d"
  define n where "n = min (ad_remaining ?ad) chunk_size"
  have ph: "ad_phase ?ad = Sending" "length (ad_inflight ?ad) < transfer_window" using assms(1) by (simp_all add: may_read_def)
  then have ad: "ad_remaining ?ad = length (ad_rest ?ad)" using assms(3) by (simp add: agent_side_inv_def)
  then have e: "agent_reads d = d\<lparr>dn_agent := ?ad\<lparr>ad_rest := drop n (ad_rest ?ad), ad_inflight := ad_inflight ?ad @ [ad_sequence ?ad],
      ad_sequence := ad_sequence ?ad + 1, ad_remaining := length (ad_rest ?ad) - n\<rparr>,
      dn_frames := dn_frames d @ [(ad_sequence ?ad, take n (ad_rest ?ad))]\<rparr>"
    by (simp add: agent_reads_def read_piece_def n_def Let_def)
  obtain b where b: "acks_inv d b" "download_live (dn_server d) \<longrightarrow> b = sd_expected (dn_server d)"
    using assms(3) ph by (auto simp: agent_side_inv_def)
  then obtain a where a: "acks_back d = [a ..< b]" "a \<le> b" "b \<le> ad_sequence ?ad" "ad_inflight ?ad = [a ..< ad_sequence ?ad]"
    by (auto simp: acks_inv_def)
  have "length (under_way d) < transfer_window" if "download_live (dn_server d)"
  proof -
    have "map fst (under_way d) = [sd_expected (dn_server d) ..< ad_sequence ?ad]"
      using assms(2) that by (simp add: server_side_inv_def data_inv_def Let_def)
    then have "length (under_way d) = ad_sequence ?ad - b" using b(2) that by (metis length_map length_upt)
    then show ?thesis using a ph(2) by simp
  qed
  then have "server_side_inv limit content (agent_reads d)" using assms(2) ph unfolding e
    by (auto simp: server_side_inv_def data_inv_def under_way_def answers_def answer_bound_def Let_def)
  moreover have "acks_inv (agent_reads d) b" using a unfolding e acks_inv_def acks_back_def by (auto simp: acks_back_def)
  then have "agent_side_inv content (agent_reads d)" using assms(3) ph b(2) unfolding e
    by (auto simp: agent_side_inv_def transfer_window_def)
  ultimately show ?thesis ..
qed


lemma upt_eq_Cons_iff: "[a ..< b] = q # qs \<longleftrightarrow> q = a \<and> a < b \<and> qs = [Suc a ..< b]"
  by (cases "a < b") (auto simp: upt_conv_Cons)

lemma inv_takes_ack:
  assumes "ad_phase (dn_agent d) = Sending" "dn_ack_queue d = q # qs" "server_side_inv limit content d" "agent_side_inv content d"
  shows "server_side_inv limit content (agent_takes_ack q d) \<and> agent_side_inv content (agent_takes_ack q d)"
proof -
  let ?ad = "dn_agent d"
  obtain b where b: "acks_inv d b" "download_live (dn_server d) \<longrightarrow> b = sd_expected (dn_server d)"
    using assms(1,4) by (auto simp: agent_side_inv_def)
  then obtain a where a: "q # qs @ dn_acks d = [a ..< b]" "b \<le> ad_sequence ?ad" "ad_inflight ?ad = [a ..< ad_sequence ?ad]"
    using assms(2) by (auto simp: acks_inv_def acks_back_def)
  then have q: "q = a" "a < b" "qs @ dn_acks d = [Suc a ..< b]" by (metis upt_eq_Cons_iff)+
  then have "ad_inflight ?ad = q # [Suc a ..< ad_sequence ?ad]" using a(2,3) by (simp add: upt_conv_Cons)
  then have e: "agent_takes_ack q d = d\<lparr>dn_agent := ?ad\<lparr>ad_inflight := [Suc a ..< ad_sequence ?ad]\<rparr>, dn_ack_queue := qs\<rparr>"
    using assms(2) by (simp add: agent_takes_ack_def take_ack_def)
  have "acks_inv (agent_takes_ack q d) b" using q a unfolding e acks_inv_def acks_back_def by auto
  moreover have "length (ad_inflight ?ad) \<le> transfer_window" using assms(1,4) by (simp add: agent_side_inv_def)
  ultimately show ?thesis using assms(1,3,4) b(2) a(3) unfolding e
    by (auto simp: server_side_inv_def agent_side_inv_def data_inv_def under_way_def answers_def answer_bound_def Let_def)
qed

lemma inv_completes:
  assumes "ad_phase (dn_agent d) = Sending" "server_side_inv limit content d" "agent_side_inv content d"
  shows "server_side_inv limit content (agent_completes path d) \<and> agent_side_inv content (agent_completes path d)"
  using assms by (auto simp: agent_completes_def server_side_inv_def agent_side_inv_def data_inv_def under_way_def answers_def
      answer_bound_def Let_def)

text \<open>A sender that has stopped, with or without a last word.\<close>

lemma inv_sender_stops:
  assumes "sender_live (dn_agent d)" "server_side_inv limit content d" "agent_side_inv content d"
    and "p = SenderFailed \<or> p = SenderCancelled" "length rs \<le> 1" "\<forall>p n s. DownloadReady p n s \<notin> set rs"
  shows "server_side_inv limit content (d\<lparr>dn_agent := (dn_agent d)\<lparr>ad_phase := p\<rparr>, dn_text := dn_text d @ rs\<rparr>)
    \<and> agent_side_inv content (d\<lparr>dn_agent := (dn_agent d)\<lparr>ad_phase := p\<rparr>, dn_text := dn_text d @ rs\<rparr>)"
  using assms by (auto simp: server_side_inv_def agent_side_inv_def data_inv_def under_way_def answers_def
      answer_bound_def sender_live_def Let_def)

lemma inv_text_arrives:
  assumes "dn_text d = r # rs" "server_side_inv limit content d" "agent_side_inv content d"
  shows "server_side_inv limit content (deliver_event (ResponseEvent r) (d\<lparr>dn_text := rs\<rparr>))
    \<and> agent_side_inv content (deliver_event (ResponseEvent r) (d\<lparr>dn_text := rs\<rparr>))" (is "server_side_inv _ _ ?e \<and> _")
proof -
  have e: "?e = (if download_live (dn_server d) then d\<lparr>dn_text := rs, dn_events := dn_events d @ [ResponseEvent r]\<rparr> else d\<lparr>dn_text := rs\<rparr>)"
    using events_room [OF assms(2)] by (simp add: deliver_event_def)
  show ?thesis unfolding e using assms
    by (auto simp: server_side_inv_def agent_side_inv_def data_inv_def under_way_def answers_def acks_inv_def acks_back_def Let_def)
qed

lemma inv_chunk_arrives:
  assumes "dn_frames d = (q, bs) # fs" "server_side_inv limit content d" "agent_side_inv content d"
  shows "server_side_inv limit content (deliver_event (ChunkEvent q bs) (d\<lparr>dn_frames := fs\<rparr>))
    \<and> agent_side_inv content (deliver_event (ChunkEvent q bs) (d\<lparr>dn_frames := fs\<rparr>))" (is "server_side_inv _ _ ?e \<and> _")
proof -
  have e: "?e = (if download_live (dn_server d) then d\<lparr>dn_frames := fs, dn_events := dn_events d @ [ChunkEvent q bs]\<rparr> else d\<lparr>dn_frames := fs\<rparr>)"
    using events_room [OF assms(2)] by (simp add: deliver_event_def)
  show ?thesis unfolding e using assms
    by (auto simp: server_side_inv_def agent_side_inv_def data_inv_def under_way_def answers_def acks_inv_def acks_back_def Let_def)
qed

lemma inv_ack_arrives:
  assumes "dn_acks d = q # qs" "server_side_inv limit content d" "agent_side_inv content d"
  shows "server_side_inv limit content (acknowledge_download q (d\<lparr>dn_acks := qs\<rparr>))
    \<and> agent_side_inv content (acknowledge_download q (d\<lparr>dn_acks := qs\<rparr>))" (is "server_side_inv _ _ ?e \<and> _")
proof (cases "ad_phase (dn_agent d) = Sending")
  case True
  obtain b a where b: "dn_ack_queue d @ q # qs = [a ..< b]" "b \<le> ad_sequence (dn_agent d)" "ad_inflight (dn_agent d) = [a ..< ad_sequence (dn_agent d)]"
    using assms(1,3) True by (auto simp: agent_side_inv_def acks_inv_def acks_back_def)
  have "length (dn_ack_queue d) + 1 + length qs = b - a" using b(1) by (metis add.assoc length_Cons length_append length_upt plus_1_eq_Suc)
  moreover have "length (ad_inflight (dn_agent d)) \<le> transfer_window" using assms(3) True by (simp add: agent_side_inv_def)
  ultimately have "length (dn_ack_queue d) < transfer_window" using b(2,3) by simp
  then have e: "?e = d\<lparr>dn_acks := qs, dn_ack_queue := dn_ack_queue d @ [q]\<rparr>"
    using True by (simp add: acknowledge_download_def sender_live_def)
  show ?thesis unfolding e using assms True
    by (auto simp: server_side_inv_def agent_side_inv_def data_inv_def under_way_def answers_def acks_inv_def acks_back_def Let_def)
next
  case False
  then have "\<not> sender_live (dn_agent d)" using assms(1,3) by (auto simp: sender_live_def agent_side_inv_def acks_back_def)
  then have e: "?e = d\<lparr>dn_acks := qs\<rparr>" by (simp add: acknowledge_download_def)
  show ?thesis unfolding e using assms False
    by (auto simp: server_side_inv_def agent_side_inv_def data_inv_def under_way_def answers_def acks_back_def Let_def)
qed


text \<open>What an event does to the server's task.\<close>

definition stopped :: "server_download \<Rightarrow> server_download \<Rightarrow> bool" where
  "stopped sd sd' \<longleftrightarrow> ((\<exists>c. sd_phase sd' = Broken c) \<or> (\<exists>e. sd_phase sd' = Refused e)) \<and> sd_max sd' = sd_max sd
     \<and> sd_output sd' = sd_output sd \<and> sd_expected sd' = sd_expected sd"

lemma download_event_result:
  assumes "download_live sd" "ev \<noteq> DisconnectedEvent"
  shows "stopped sd (fst (download_event ev sd)) \<and> snd (download_event ev sd) = []
   \<or> (\<exists>p n s. ev = ResponseEvent (DownloadReady p n s) \<and> sd_phase sd = AwaitAnnouncement \<and> s \<le> sd_max sd
        \<and> download_event ev sd = (sd\<lparr>sd_size := s, sd_phase := Delivering\<rparr>, []))
   \<or> (\<exists>bs. ev = ChunkEvent (sd_expected sd) bs \<and> sd_phase sd = Delivering
        \<and> download_event ev sd = (sd\<lparr>sd_transferred := sd_transferred sd + length bs, sd_expected := sd_expected sd + 1,
            sd_output := sd_output sd @ bs\<rparr>, [sd_expected sd]))
   \<or> (\<exists>p. ev = ResponseEvent (TransferComplete p (sd_size sd)) \<and> sd_phase sd = Delivering \<and> sd_transferred sd = sd_size sd
        \<and> download_event ev sd = (sd\<lparr>sd_phase := Delivered\<rparr>, []))"
proof (cases "sd_phase sd")
  case AwaitAnnouncement
  then show ?thesis using assms(2)
    by (auto simp: download_event_def await_announcement_def wait_response_def stopped_def
        split: file_request_event.split file_response.split)
next
  case Delivering
  then show ?thesis using assms(2)
    by (auto simp: download_event_def stream_event_def break_off_def stopped_def Let_def
        split: file_request_event.split file_response.split)
qed (use assms in \<open>auto simp: download_live_def\<close>)

lemma inv_server_stops:
  assumes "stopped (dn_server d) sd'" "server_side_inv limit content d" "agent_side_inv content d" "dn_acks e = dn_acks d"
    "dn_agent e = dn_agent d" "dn_server e = sd'" "set (answers e) \<subseteq> set (answers d)" "dn_ack_queue e = dn_ack_queue d"
  shows "server_side_inv limit content e \<and> agent_side_inv content e"
proof
  have sd: "\<not> download_live sd'" "sd_phase sd' \<noteq> Delivering" "sd_phase sd' \<noteq> Delivered" "sd_max sd' = sd_max (dn_server d)"
      "sd_output sd' = sd_output (dn_server d)" "sd_expected sd' = sd_expected (dn_server d)"
    using assms(1) by (auto simp: stopped_def download_live_def)
  show "server_side_inv limit content e" using assms(2,7) sd unfolding server_side_inv_def assms(6) by auto
  have acks: "acks_back e = acks_back d" "acks_inv e = acks_inv d" using assms(4,5,8) by (auto simp: acks_back_def acks_inv_def fun_eq_iff)
  show "agent_side_inv content e" using assms(3) sd unfolding agent_side_inv_def assms(5,6) acks by auto
qed

lemma answers_turned:
  assumes "dn_events d = ev # evs"
  shows "answers (server_turns ev d) = responses_in evs @ dn_text d"
  using assms by (simp add: server_turns_def answers_def split: prod.split)

lemma responses_in_tl: "set (responses_in evs) \<subseteq> set (responses_in (ev # evs))"
  by (cases ev) auto

lemma inv_server_turn:
  assumes "download_live (dn_server d)" "dn_events d = ev # evs" "server_side_inv limit content d" "agent_side_inv content d"
  shows "server_side_inv limit content (server_turns ev d) \<and> agent_side_inv content (server_turns ev d)"
proof -
  let ?sd = "dn_server d"
  have ev: "ev \<noteq> DisconnectedEvent" using assms(1-3) by (auto simp: server_side_inv_def)
  have e: "server_turns ev d = d\<lparr>dn_server := fst (download_event ev ?sd), dn_events := evs, dn_acks := dn_acks d @ snd (download_event ev ?sd)\<rparr>"
    using assms(2) by (simp add: server_turns_def split: prod.split)
  consider (stop) "stopped ?sd (fst (download_event ev ?sd))" "snd (download_event ev ?sd) = []"
    | (announced) p n s where "ev = ResponseEvent (DownloadReady p n s)" "sd_phase ?sd = AwaitAnnouncement" "s \<le> sd_max ?sd"
        "download_event ev ?sd = (?sd\<lparr>sd_size := s, sd_phase := Delivering\<rparr>, [])"
    | (taken) bs where "ev = ChunkEvent (sd_expected ?sd) bs" "sd_phase ?sd = Delivering"
        "download_event ev ?sd = (?sd\<lparr>sd_transferred := sd_transferred ?sd + length bs, sd_expected := sd_expected ?sd + 1,
            sd_output := sd_output ?sd @ bs\<rparr>, [sd_expected ?sd])"
    | (complete) p where "ev = ResponseEvent (TransferComplete p (sd_size ?sd))" "sd_phase ?sd = Delivering"
        "sd_transferred ?sd = sd_size ?sd" "download_event ev ?sd = (?sd\<lparr>sd_phase := Delivered\<rparr>, [])"
    using download_event_result [OF assms(1) ev] by blast
  then show ?thesis
  proof cases
    case stop
    show ?thesis
    proof (rule inv_server_stops [OF stop(1) assms(3,4)])
      show "set (answers (server_turns ev d)) \<subseteq> set (answers d)"
        using responses_in_tl [of evs ev] unfolding answers_turned [OF assms(2)] by (auto simp: answers_def assms(2))
    qed (simp_all add: e stop(2))
  next
    case announced
    have "s = length content" using announced(1) assms(2,3) by (auto simp: server_side_inv_def answers_def)
    then show ?thesis using announced assms unfolding e
      by (auto simp: server_side_inv_def agent_side_inv_def data_inv_def under_way_def answers_def download_live_def
          acks_inv_def acks_back_def Let_def)
  next
    case taken
    let ?q = "sd_expected ?sd"
    have data: "data_inv content d" "length (under_way d) \<le> transfer_window" using assms(1,3) by (simp_all add: server_side_inv_def)
    have way: "under_way d = (?q, bs) # under_way (server_turns ev d)" using assms(2) taken(1) unfolding e by (simp add: under_way_def)
    then have seqs: "?q < ad_sequence (dn_agent d)" "map fst (under_way (server_turns ev d)) = [Suc ?q ..< ad_sequence (dn_agent d)]"
      using data(1) by (auto simp: data_inv_def Let_def dest!: sym [where t = "[_ ..< _]"] simp: upt_eq_Cons_iff)
    have data': "data_inv content (server_turns ev d)"
      using data(1) seqs way taken(3) by (auto simp: data_inv_def Let_def e)
    then have "prefix (sd_output ?sd @ bs) content"
      using taken(3) by (auto simp: data_inv_def Let_def e intro!: prefixI)
    then have "server_side_inv limit content (server_turns ev d)"
      using assms(2,3) taken data data' way unfolding e
      by (auto simp: server_side_inv_def answers_def download_live_def)
    moreover have "agent_side_inv content (server_turns ev d)"
    proof (cases "ad_phase (dn_agent d) = Sending")
      case True
      then obtain a where a: "acks_back d = [a ..< ?q]" "a \<le> ?q" "ad_inflight (dn_agent d) = [a ..< ad_sequence (dn_agent d)]"
        using assms(1,4) by (auto simp: agent_side_inv_def acks_inv_def)
      have "acks_inv (server_turns ev d) (Suc ?q)"
        using a seqs(1) taken(3) unfolding e by (auto simp: acks_inv_def acks_back_def)
      then show ?thesis using assms(4) True taken(3) unfolding e by (auto simp: agent_side_inv_def)
    next
      case False
      then have "ad_phase (dn_agent d) \<noteq> Announcing" using seqs(1) assms(4) by (auto simp: agent_side_inv_def)
      then show ?thesis using False assms(4) unfolding e by (auto simp: agent_side_inv_def)
    qed
    ultimately show ?thesis ..
  next
    case complete
    have "sd_size ?sd = length content" "sd_transferred ?sd = length (sd_output ?sd)" "prefix (sd_output ?sd) content"
      using assms(1,3) complete(2) by (auto simp: server_side_inv_def data_inv_def Let_def)
    then have "sd_output ?sd = content" using complete(3) by (auto simp: prefix_def)
    then show ?thesis using complete assms(2-4) unfolding e
      by (auto simp: server_side_inv_def agent_side_inv_def answers_def download_live_def acks_inv_def acks_back_def)
  qed
qed

lemma inv_download_move:
  assumes "download_move path name limit' d e" "server_side_inv limit content d" "agent_side_inv content d"
  shows "server_side_inv limit content e \<and> agent_side_inv content e"
  using assms(1)
proof cases
  case announces then show ?thesis using inv_announces [OF _ assms(2,3)] by simp
next
  case reads then show ?thesis using inv_reads [OF _ assms(2,3)] by simp
next
  case takes_ack then show ?thesis using inv_takes_ack [OF _ _ assms(2,3)] by simp
next
  case completes then show ?thesis using inv_completes [OF _ assms(2,3)] by simp
next
  case text_arrives then show ?thesis using inv_text_arrives [OF _ assms(2,3)] by simp
next
  case chunk_arrives then show ?thesis using inv_chunk_arrives [OF _ assms(2,3)] by simp
next
  case ack_arrives then show ?thesis using inv_ack_arrives [OF _ assms(2,3)] by simp
next
  case server_turn then show ?thesis using inv_server_turn [OF _ _ assms(2,3)] by simp
qed

lemma inv_download_fault:
  assumes "download_fault d e" "server_side_inv limit content d \<and> agent_side_inv content d"
  shows "server_side_inv limit content e \<and> agent_side_inv content e"
  using assms
proof (induction rule: download_fault.induct)
  case (server_stops d p code err)
  then show ?case
    by (intro inv_server_stops [of d "(dn_server d)\<lparr>sd_phase := p\<rparr>"]) (auto simp: stopped_def answers_def)
next
  case (client_leaves d ev evs)
  have turned: "server_side_inv limit content (server_turns ev d)" "agent_side_inv content (server_turns ev d)"
    using inv_server_turn client_leaves by blast+
  let ?e = "d\<lparr>dn_server := (fst (download_event ev (dn_server d)))\<lparr>sd_phase := Broken ''client_disconnected''\<rparr>, dn_events := evs\<rparr>"
  have same: "sd_output (dn_server ?e) = sd_output (dn_server (server_turns ev d))" "sd_max (dn_server ?e) = sd_max (dn_server (server_turns ev d))"
      "dn_agent ?e = dn_agent (server_turns ev d)" "answers ?e = answers (server_turns ev d)"
    using answers_turned [OF client_leaves(2)] by (simp_all add: server_turns_def answers_def split: prod.split)
  have "server_side_inv limit content ?e"
    using turned(1) same by (auto simp: server_side_inv_def download_live_def)
  moreover have "agent_side_inv content ?e"
  proof -
    have keep: "acks_back ?e = acks_back d" "acks_inv ?e = acks_inv d" by (auto simp: acks_back_def acks_inv_def fun_eq_iff)
    have "sd_expected (dn_server ?e) = sd_expected (dn_server (server_turns ev d))" by (simp add: server_turns_def split: prod.split)
    then show ?thesis using client_leaves(3) turned(2) same(3) unfolding agent_side_inv_def keep
      by (auto simp: download_live_def)
  qed
  ultimately show ?case ..
next
  case (agent_drops d)
  then show ?case using inv_sender_stops [of d limit content SenderCancelled "[]"] by simp
next
  case (read_fails d c msg)
  then show ?case using inv_sender_stops [of d limit content SenderFailed "[FileError c msg]"] by simp
qed

lemma download_reachable_inv:
  "download_reachable path name limit content d \<Longrightarrow> server_side_inv limit content d \<and> agent_side_inv content d"
proof (induction rule: download_reachable.induct)
  case download_start then show ?case by (intro conjI download_inv_start)
next
  case (download_moves d e) then show ?case using inv_download_move [OF download_moves(2), of limit content] by simp
next
  case (download_faults d e) then show ?case using inv_download_fault [OF download_faults(2), of limit content] by simp
qed


subsection \<open>What a download promises\<close>

text \<open>
  C37: A download gives the administrator the file or an error.  However the agent, the server and the connection
  between them behave, what has been passed on is the beginning of the file; a download that ends as delivered
  has passed on all of it, and it was no larger than the limit.  On the way, the server's channel and the agent's
  channel of acknowledgements never overflow while the tasks that read them are at work.
\<close>

theorem download_is_faithful:
  assumes "download_reachable path name limit content d"
  shows "prefix (sd_output (dn_server d)) content
    \<and> (sd_phase (dn_server d) = Delivered \<longrightarrow> sd_output (dn_server d) = content \<and> length content \<le> limit)
    \<and> (download_live (dn_server d) \<longrightarrow> length (dn_events d) < request_queue_capacity)
    \<and> (ad_phase (dn_agent d) = Sending \<longrightarrow> length (dn_ack_queue d) + length (dn_acks d) \<le> transfer_window)"
proof -
  have inv: "server_side_inv limit content d" "agent_side_inv content d" using download_reachable_inv [OF assms] by blast+
  have "length (dn_ack_queue d) + length (dn_acks d) \<le> transfer_window" if sending: "ad_phase (dn_agent d) = Sending"
  proof -
    obtain a b where "dn_ack_queue d @ dn_acks d = [a ..< b]" "b \<le> ad_sequence (dn_agent d)"
        "ad_inflight (dn_agent d) = [a ..< ad_sequence (dn_agent d)]" "length (ad_inflight (dn_agent d)) \<le> transfer_window"
      using inv(2) sending by (auto simp: agent_side_inv_def acks_inv_def acks_back_def)
    moreover from this(1) have "length (dn_ack_queue d) + length (dn_acks d) = b - a" by (metis length_append length_upt)
    ultimately show ?thesis by simp
  qed
  then show ?thesis using inv(1) events_room [OF inv(1)] by (auto simp: server_side_inv_def)
qed

text \<open>
  The two queues of the agent let a piece overtake the announcement of the download: a run in which nothing goes
  wrong outside and the server refuses the download, for any file that is not empty.
\<close>

lemma download_may_outrun_its_announcement:
  assumes "content \<noteq> []" "length content \<le> limit"
  shows "\<exists>d. (download_move path name limit)\<^sup>*\<^sup>* (start_download limit content) d
    \<and> sd_phase (dn_server d) = Refused unexpected_response"
proof -
  define n where "n = min (length content) chunk_size"
  let ?announced = "(start_download limit content)\<lparr>dn_agent := \<lparr>ad_rest = content, ad_size = length content, ad_remaining = length content,
    ad_sequence = 0, ad_inflight = [], ad_phase = Sending\<rparr>, dn_text := [DownloadReady path name (length content)]\<rparr>"
  let ?read = "?announced\<lparr>dn_agent := \<lparr>ad_rest = drop n content, ad_size = length content, ad_remaining = length content - n,
    ad_sequence = 1, ad_inflight = [0], ad_phase = Sending\<rparr>, dn_frames := [(0, take n content)]\<rparr>"
  let ?arrived = "?read\<lparr>dn_frames := [], dn_events := [ChunkEvent 0 (take n content)]\<rparr>"
  have 1: "download_move path name limit (start_download limit content) ?announced"
    using download_move.announces [of "start_download limit content" path name limit] assms
    by (simp add: start_download_def agent_announces_def announce_download_def Let_def)
  have 2: "download_move path name limit ?announced ?read"
    using download_move.reads [of ?announced path name limit] assms
    by (simp add: start_download_def agent_reads_def read_piece_def may_read_def transfer_window_def n_def Let_def)
  have 3: "download_move path name limit ?read ?arrived"
    using download_move.chunk_arrives [of ?read 0 "take n content" "[]" path name limit]
    by (simp add: start_download_def deliver_event_def download_live_def admin_download_file_def request_queue_capacity_def transfer_window_def)
  have 4: "download_move path name limit ?arrived (server_turns (ChunkEvent 0 (take n content)) ?arrived)"
    by (rule download_move.server_turn) (simp_all add: start_download_def download_live_def admin_download_file_def)
  have "(download_move path name limit)\<^sup>*\<^sup>* (start_download limit content) (server_turns (ChunkEvent 0 (take n content)) ?arrived)"
    using 1 2 3 4 by (meson rtranclp.rtrancl_into_rtrancl rtranclp.rtrancl_refl)
  moreover have "sd_phase (dn_server (server_turns (ChunkEvent 0 (take n content)) ?arrived)) = Refused unexpected_response"
    by (simp add: server_turns_def download_event_def start_download_def admin_download_file_def await_announcement_def wait_response_def)
  ultimately show ?thesis by blast
qed

theorem download_is_faithful_witness:
  "\<exists>d. download_reachable ''/a'' ''a'' 9 [1, 2] d \<and> length (dn_events d) = 1 \<and> sd_output (dn_server d) = []
    \<and> prefix (sd_output (dn_server d)) [1, 2]"
proof -
  let ?d = "deliver_event (ResponseEvent (DownloadReady ''/a'' ''a'' 2)) ((agent_announces ''/a'' ''a'' 9 (start_download 9 [1, 2]))\<lparr>dn_text := []\<rparr>)"
  have "download_reachable ''/a'' ''a'' 9 [1, 2] (agent_announces ''/a'' ''a'' 9 (start_download 9 [1, 2]))"
    by (rule download_moves [OF download_start download_move.announces]) (simp add: start_download_def)
  then have r: "download_reachable ''/a'' ''a'' 9 [1, 2] ?d"
    by (rule download_moves [OF _ download_move.text_arrives])
      (simp add: start_download_def agent_announces_def announce_download_def Let_def)
  have "length (dn_events ?d) = 1 \<and> sd_output (dn_server ?d) = []"
    by (simp add: start_download_def agent_announces_def announce_download_def deliver_event_def download_live_def
        admin_download_file_def request_queue_capacity_def Let_def)
  with r download_is_faithful [OF r] show ?thesis by (intro exI [of _ ?d]) blast
qed

end
