(* ===== verification/FileRequests.thy ===== *)
theory FileRequests
  imports FileTypes
begin

text \<open>
  The server's register of file requests (\<open>backend/src/files.rs\<close>): which requests wait for an agent's
  answer, which instance has a transfer, and how an entry is taken back when its request is finished or
  abandoned.  Every handler is a task; a rule is what it does between two points at which it waits for a lock.
\<close>

record pending_file_request =
  pf_instance :: string
  pf_connection :: string
  pf_events :: "file_request_event list"

record file_agent =
  fa_connection :: string
  fa_file_manager :: bool                    \<comment> \<open>the capability \<open>file_manager_v1\<close>\<close>

datatype file_task =
    Reserved string string bool              \<comment> \<open>before the lock of the requests; instance, connection, transfer\<close>
  | Held string string bool                  \<comment> \<open>registered; it has a \<open>RequestCleanup\<close>\<close>
  | Releasing string string bool             \<comment> \<open>its entry is removed, before the lock of the transfers\<close>

record file_register =
  fr_known :: "string list"                  \<comment> \<open>the instances in the database\<close>
  fr_agents :: "string \<rightharpoonup> file_agent"
  fr_requests :: "string \<rightharpoonup> pending_file_request"
  fr_active :: "string \<rightharpoonup> string"
  fr_tasks :: "string \<rightharpoonup> file_task"



text \<open>\<open>register_request\<close> up to its second lock; the request's number is a fresh UUID.\<close>

definition register_request :: "string \<Rightarrow> bool \<Rightarrow> string \<Rightarrow> file_register \<Rightarrow> file_register result" where
  "register_request inst transfer request_id fr =
     (if inst \<notin> set (fr_known fr) then Inl (app_error_new 404 ''instance not found'')
      else case fr_agents fr inst of
       None \<Rightarrow> Inl (app_error_new 409 ''the instance is not online'')
     | Some agent \<Rightarrow>
         if \<not> fa_file_manager agent then Inl (app_error_new 409 ''the agent does not support the file manager'')
         else if transfer \<and> fr_active fr inst \<noteq> None then Inl (app_error_new 409 ''a file is being transferred'')
         else Inr (fr\<lparr>fr_active := (if transfer then (fr_active fr)(inst \<mapsto> request_id) else fr_active fr),
                      fr_tasks := (fr_tasks fr)(request_id \<mapsto> Reserved inst (fa_connection agent) transfer)\<rparr>))"

text \<open>The rest of it.\<close>

definition insert_request :: "string \<Rightarrow> string \<Rightarrow> string \<Rightarrow> bool \<Rightarrow> file_register \<Rightarrow> file_register" where
  "insert_request request_id inst connection transfer fr =
     fr\<lparr>fr_requests := (fr_requests fr)(request_id \<mapsto> \<lparr>pf_instance = inst, pf_connection = connection, pf_events = []\<rparr>),
        fr_tasks := (fr_tasks fr)(request_id \<mapsto> Held inst connection transfer)\<rparr>"

text \<open>\<open>RequestCleanup::release\<close>, and the same two steps of its \<open>Drop\<close>.\<close>

definition release_request :: "string \<Rightarrow> string \<Rightarrow> string \<Rightarrow> bool \<Rightarrow> file_register \<Rightarrow> file_register" where
  "release_request request_id inst connection transfer fr =
     fr\<lparr>fr_requests := (fr_requests fr)(request_id := None),
        fr_tasks := (fr_tasks fr)(request_id \<mapsto> Releasing inst connection transfer)\<rparr>"

definition release_transfer :: "string \<Rightarrow> string \<Rightarrow> bool \<Rightarrow> file_register \<Rightarrow> file_register" where
  "release_transfer request_id inst transfer fr =
     fr\<lparr>fr_active := (if transfer \<and> fr_active fr inst = Some request_id then (fr_active fr)(inst := None) else fr_active fr),
        fr_tasks := (fr_tasks fr)(request_id := None)\<rparr>"

text \<open>Events for a request: \<open>try_send\<close> on its channel.\<close>

definition try_send_event :: "file_request_event \<Rightarrow> pending_file_request \<Rightarrow> pending_file_request" where
  "try_send_event ev pending = (if length (pf_events pending) < request_queue_capacity
     then pending\<lparr>pf_events := pf_events pending @ [ev]\<rparr> else pending)"

definition pending_of :: "string \<Rightarrow> string \<Rightarrow> string \<Rightarrow> file_register \<Rightarrow> pending_file_request option" where
  "pending_of inst connection request_id fr = (case fr_requests fr request_id of
       Some p \<Rightarrow> if pf_instance p = inst \<and> pf_connection p = connection then Some p else None
     | None \<Rightarrow> None)"

definition handle_agent_file_response :: "string \<Rightarrow> string \<Rightarrow> string \<Rightarrow> file_response \<Rightarrow> file_register \<Rightarrow> file_register" where
  "handle_agent_file_response inst connection request_id r fr = (case pending_of inst connection request_id fr of
       None \<Rightarrow> fr
     | Some p \<Rightarrow> fr\<lparr>fr_requests := (fr_requests fr)(request_id \<mapsto> try_send_event (ResponseEvent r) p)\<rparr>)"

text \<open>The piece of a decoded frame; \<open>True\<close> when the agent is told to cancel.\<close>

definition handle_agent_file_binary :: "string \<Rightarrow> string \<Rightarrow> string \<Rightarrow> nat \<Rightarrow> bytes \<Rightarrow> file_register \<Rightarrow> file_register \<times> bool" where
  "handle_agent_file_binary inst connection request_id sequence data fr = (case pending_of inst connection request_id fr of
       None \<Rightarrow> (fr, False)
     | Some p \<Rightarrow> (fr\<lparr>fr_requests := (fr_requests fr)(request_id \<mapsto> try_send_event (ChunkEvent sequence data) p)\<rparr>,
         length (pf_events p) \<ge> request_queue_capacity \<and> fr_agents fr inst \<noteq> None))"

definition of_connection :: "string \<Rightarrow> string \<Rightarrow> pending_file_request \<Rightarrow> bool" where
  "of_connection inst connection p \<longleftrightarrow> pf_instance p = inst \<and> pf_connection p = connection"

definition close_connection_file_requests :: "string \<Rightarrow> string \<Rightarrow> file_register \<Rightarrow> file_register" where
  "close_connection_file_requests inst connection fr =
     fr\<lparr>fr_requests := (\<lambda>r. case fr_requests fr r of
          Some p \<Rightarrow> if of_connection inst connection p then None else Some p | None \<Rightarrow> None)\<rparr>"

inductive file_step :: "file_register \<Rightarrow> file_register \<Rightarrow> bool" where
  registers: "fr_tasks fr request_id = None \<Longrightarrow> (\<forall>i. fr_active fr i \<noteq> Some request_id) \<Longrightarrow> fr_requests fr request_id = None \<Longrightarrow>
    register_request inst transfer request_id fr = Inr fr' \<Longrightarrow> file_step fr fr'"
| inserts: "fr_tasks fr r = Some (Reserved i c t) \<Longrightarrow> file_step fr (insert_request r i c t fr)"
| abandons: "fr_tasks fr r = Some (Reserved i c t) \<Longrightarrow> file_step fr (fr\<lparr>fr_tasks := (fr_tasks fr)(r := None)\<rparr>)"
| releases: "fr_tasks fr r = Some (Held i c t) \<Longrightarrow> file_step fr (release_request r i c t fr)"
| releases_transfer: "fr_tasks fr r = Some (Releasing i c t) \<Longrightarrow> file_step fr (release_transfer r i t fr)"
| response: "file_step fr (handle_agent_file_response i c r rsp fr)"
| chunk: "file_step fr (fst (handle_agent_file_binary i c r q bs fr))"
| disconnects: "file_step fr (close_connection_file_requests i c fr)"
| agents_change: "file_step fr (fr\<lparr>fr_agents := agents, fr_known := known\<rparr>)"



subsection \<open>The invariant\<close>




lemma try_send_event_fields [simp]:
  "pf_instance (try_send_event ev p) = pf_instance p" "pf_connection (try_send_event ev p) = pf_connection p"
  by (simp_all add: try_send_event_def)





subsection \<open>An abandoned registration\<close>

text \<open>
  A handler that is dropped while it waits for the lock of the requests has no \<open>RequestCleanup\<close> yet: the entry of
  its transfer stays, and no later step removes it.
\<close>

definition orphaned :: "string \<Rightarrow> string \<Rightarrow> file_register \<Rightarrow> bool" where
  "orphaned inst r fr \<longleftrightarrow> fr_active fr inst = Some r \<and> fr_tasks fr r = None"

lemma orphan_stays:
  assumes "file_step fr fr'" "orphaned inst r fr"
  shows "orphaned inst r fr'"
  using assms
proof (induction rule: file_step.induct)
  case (registers fr rid i transfer fr')
  then have "rid \<noteq> r" by (auto simp: orphaned_def)
  then show ?case using registers
    by (auto simp: orphaned_def register_request_def split: option.splits if_splits)
qed (auto simp: orphaned_def insert_request_def release_request_def release_transfer_def handle_agent_file_response_def
    handle_agent_file_binary_def close_connection_file_requests_def split: option.splits)

lemma abandoned_registration_blocks_transfers:
  assumes "fr_agents fr inst = Some agent" "fa_file_manager agent" "fr_active fr inst = None" "fr_tasks fr r = None"
    "\<forall>i. fr_active fr i \<noteq> Some r" "fr_requests fr r = None" "inst \<in> set (fr_known fr)"
  shows "\<exists>fr'. file_step\<^sup>*\<^sup>* fr fr' \<and> orphaned inst r fr'
    \<and> (\<forall>later r'. file_step\<^sup>*\<^sup>* fr' later \<longrightarrow> fr_active later inst = Some r \<and> isl (register_request inst True r' later))"
proof -
  let ?a = "fr\<lparr>fr_active := (fr_active fr)(inst \<mapsto> r), fr_tasks := (fr_tasks fr)(r \<mapsto> Reserved inst (fa_connection agent) True)\<rparr>"
  let ?b = "?a\<lparr>fr_tasks := (fr_tasks ?a)(r := None)\<rparr>"
  have "file_step fr ?a"
    by (rule file_step.registers [where request_id = r and inst = inst and transfer = True])
      (use assms in \<open>simp_all add: register_request_def\<close>)
  moreover have "file_step ?a ?b" by (rule file_step.abandons [where i = inst and c = "fa_connection agent" and t = True]) simp
  ultimately have "file_step\<^sup>*\<^sup>* fr ?b" by (meson rtranclp.rtrancl_into_rtrancl rtranclp.rtrancl_refl)
  moreover have orphan: "orphaned inst r ?b" by (simp add: orphaned_def)
  moreover have "fr_active later inst = Some r \<and> isl (register_request inst True r' later)" if "file_step\<^sup>*\<^sup>* ?b later" for later r'
  proof -
    have "orphaned inst r later" using that orphan by (induction rule: rtranclp_induct) (blast intro: orphan_stays)+
    then show ?thesis by (auto simp: orphaned_def register_request_def split: option.split)
  qed
  ultimately show ?thesis by blast
qed


end
