(* ===== verification/FileOperations.thy ===== *)
theory FileOperations
  imports FileTypes "HOL-Library.Sublist"
begin

text \<open>
  The file manager's operations in the agent (\<open>instanceEnd/src/file_manager.rs\<close>) as the agent of a Unix system
  runs them.  The file system is that of the operating system: a map from paths to nodes with the documented
  effect of each call, any of which may fail for reasons of its own; what a path with symbolic links leads
  to is an argument (\<open>os_resolve\<close>).  Texts of paths are split into their components the way
  \<open>std::path::Path\<close> does.
\<close>

subsection \<open>Paths\<close>

type_synonym fpath = "string list"

fun split_slash :: "string \<Rightarrow> string \<Rightarrow> string list" where
  "split_slash acc [] = [rev acc]"
| "split_slash acc (c # cs) = (if c = CHR ''/'' then rev acc # split_slash [] cs else split_slash (c # acc) cs)"

text \<open>\<open>Path::components\<close> after the root: empty parts and \<open>.\<close> parts are skipped, \<open>..\<close> is a component.\<close>

definition path_components :: "string \<Rightarrow> fpath" where
  "path_components s = filter (\<lambda>part. part \<noteq> [] \<and> part \<noteq> ''.'') (split_slash [] s)"

definition invalid_path :: "string \<Rightarrow> file_failure" where
  "invalid_path msg = (InvalidPath, msg)"

definition nul :: char where "nul = char_of (0 :: nat)"

definition absolute_path :: "string \<Rightarrow> file_failure + fpath" where
  "absolute_path s =
     (if s = [] \<or> nul \<in> set s then Inl (invalid_path ''the path is empty or contains a null character'')
      else if hd s \<noteq> CHR ''/'' then Inl (invalid_path ''the path is not absolute'')
      else if ''..'' \<in> set (path_components s) then Inl (invalid_path ''the path contains parent components'')
      else Inr (path_components s))"

definition validate_name :: "string \<Rightarrow> file_failure + unit" where
  "validate_name s =
     (if s = [] \<or> s = ''.'' \<or> s = ''..'' \<or> nul \<in> set s \<or> CHR ''/'' \<in> set s \<or> CHR 92 \<in> set s
      then Inl (invalid_path ''the name is empty or contains a separator'') else Inr ())"

subsection \<open>The file system\<close>

datatype node = FileNode bytes | DirNode | LinkNode fpath | OtherNode

datatype io_kind = NotFoundKind | PermissionDeniedKind | AlreadyExistsKind | DirectoryNotEmptyKind | NotADirectoryKind
  | IsADirectoryKind | InvalidInputKind | UnsupportedKind | CrossesDevicesKind | OtherError

definition io_failure :: "io_kind \<Rightarrow> string \<Rightarrow> file_failure" where
  "io_failure k msg = (case k of
       NotFoundKind \<Rightarrow> (NotFound, msg)
     | PermissionDeniedKind \<Rightarrow> (PermissionDenied, msg)
     | AlreadyExistsKind \<Rightarrow> (AlreadyExists, msg)
     | DirectoryNotEmptyKind \<Rightarrow> (AlreadyExists, msg)
     | NotADirectoryKind \<Rightarrow> (NotDirectory, msg)
     | IsADirectoryKind \<Rightarrow> (IsDirectory, msg)
     | InvalidInputKind \<Rightarrow> (InvalidPath, msg)
     | UnsupportedKind \<Rightarrow> (Unsupported, msg)
     | _ \<Rightarrow> (Io, msg))"

definition rename_failure :: "io_kind \<Rightarrow> file_failure" where
  "rename_failure k = (if k = CrossesDevicesKind then (Unsupported, ''moving between devices is not supported'')
     else io_failure k ''move or rename failed'')"

text \<open>\<open>os_faults\<close> are the failures of the next calls, \<open>None\<close> for a call that nothing outside disturbs.\<close>

type_synonym files = "(fpath \<times> node) list"

record os =
  os_files :: files
  os_faults :: "io_kind option list"
  os_resolve :: "fpath \<Rightarrow> fpath option"     \<comment> \<open>\<open>canonicalize\<close>\<close>

abbreviation node_at :: "os \<Rightarrow> fpath \<Rightarrow> node option" where
  "node_at s \<equiv> map_of (os_files s)"

definition next_fault :: "os \<Rightarrow> io_kind option \<times> os" where
  "next_fault s = (case os_faults s of [] \<Rightarrow> (None, s) | f # fs \<Rightarrow> (f, s\<lparr>os_faults := fs\<rparr>))"

definition has_entries :: "fpath \<Rightarrow> files \<Rightarrow> bool" where
  "has_entries p fs \<longleftrightarrow> list_ex (\<lambda>(q, _). strict_prefix p q) fs"

text \<open>Everything at or below \<open>source\<close> is now at or below \<open>dest\<close>, whose own node is gone.\<close>

definition move_tree :: "fpath \<Rightarrow> fpath \<Rightarrow> files \<Rightarrow> files" where
  "move_tree source dest fs = map (\<lambda>(q, n). (if prefix source q then dest @ drop (length source) q else q, n))
     (filter (\<lambda>(q, _). q \<noteq> dest) fs)"

definition remove_tree :: "fpath \<Rightarrow> files \<Rightarrow> files" where
  "remove_tree p fs = filter (\<lambda>(q, _). \<not> prefix p q) fs"

text \<open>What \<open>rename(2)\<close> refuses by itself.\<close>

definition rename_check :: "fpath \<Rightarrow> fpath \<Rightarrow> files \<Rightarrow> io_kind option" where
  "rename_check source dest fs = (case map_of fs source of
       None \<Rightarrow> Some NotFoundKind
     | Some node \<Rightarrow>
         if node = DirNode \<and> strict_prefix source dest then Some InvalidInputKind
         else case map_of fs dest of
             None \<Rightarrow> None
           | Some DirNode \<Rightarrow> if node \<noteq> DirNode then Some IsADirectoryKind
               else if has_entries dest fs then Some DirectoryNotEmptyKind else None
           | Some _ \<Rightarrow> if node = DirNode then Some NotADirectoryKind else None)"

definition os_rename :: "fpath \<Rightarrow> fpath \<Rightarrow> os \<Rightarrow> (io_kind + unit) \<times> os" where
  "os_rename source dest s = (case next_fault s of
       (Some k, s) \<Rightarrow> (Inl k, s)
     | (None, s) \<Rightarrow> (case rename_check source dest (os_files s) of
           Some k \<Rightarrow> (Inl k, s)
         | None \<Rightarrow> (Inr (), if source = dest then s else s\<lparr>os_files := move_tree source dest (os_files s)\<rparr>)))"

text \<open>\<open>renameat2\<close> with \<open>RENAME_NOREPLACE\<close>.\<close>

definition rename_without_replacement :: "fpath \<Rightarrow> fpath \<Rightarrow> os \<Rightarrow> (io_kind + unit) \<times> os" where
  "rename_without_replacement source dest s =
     (if node_at s dest \<noteq> None
      then (Inl (case fst (next_fault s) of Some k \<Rightarrow> k | None \<Rightarrow> AlreadyExistsKind), snd (next_fault s))
      else os_rename source dest s)"

definition remove_file :: "fpath \<Rightarrow> os \<Rightarrow> (io_kind + unit) \<times> os" where
  "remove_file p s = (case next_fault s of
       (Some k, s) \<Rightarrow> (Inl k, s)
     | (None, s) \<Rightarrow> (case node_at s p of
           None \<Rightarrow> (Inl NotFoundKind, s)
         | Some DirNode \<Rightarrow> (Inl IsADirectoryKind, s)
         | Some _ \<Rightarrow> (Inr (), s\<lparr>os_files := remove_tree p (os_files s)\<rparr>)))"

definition symlink_metadata :: "fpath \<Rightarrow> os \<Rightarrow> io_kind + node" where
  "symlink_metadata p s = (case node_at s p of None \<Rightarrow> Inl NotFoundKind | Some node \<Rightarrow> Inr node)"

text \<open>\<open>metadata\<close> follows symbolic links.\<close>

definition metadata :: "fpath \<Rightarrow> os \<Rightarrow> io_kind + node" where
  "metadata p s = (case os_resolve s p of None \<Rightarrow> Inl NotFoundKind | Some q \<Rightarrow> symlink_metadata q s)"

definition require_directory :: "string \<Rightarrow> os \<Rightarrow> file_failure + fpath" where
  "require_directory s os = try_bind (absolute_path s) (\<lambda>p. case metadata p os of
       Inl k \<Rightarrow> Inl (io_failure k ''reading the directory failed'')
     | Inr node \<Rightarrow> if node = DirNode then Inr p else Inl (NotDirectory, ''the target is no directory''))"

definition is_link :: "node option \<Rightarrow> bool" where
  "is_link n \<longleftrightarrow> (case n of Some (LinkNode _) \<Rightarrow> True | _ \<Rightarrow> False)"

definition is_root_path :: "fpath \<Rightarrow> os \<Rightarrow> bool" where
  "is_root_path p os \<longleftrightarrow> p = [] \<or> (\<not> is_link (node_at os p) \<and> os_resolve os p = Some [])"

subsection \<open>Putting a file in place\<close>

text \<open>
  The end of \<open>move_path\<close> and of \<open>commit_upload\<close>: what is there is kept under a new name until the rename
  has succeeded, and put back when it has not.
\<close>

definition replace_with_backup :: "(io_kind \<Rightarrow> file_failure) \<Rightarrow> fpath \<Rightarrow> fpath \<Rightarrow> fpath option \<Rightarrow> bool \<Rightarrow> os
    \<Rightarrow> (file_failure + unit) \<times> os" where
  "replace_with_backup failure source dest backup overwrite os =
     (let (prepared, os) = (case backup of None \<Rightarrow> (Inr (), os) | Some b \<Rightarrow> os_rename dest b os)
      in case prepared of
           Inl k \<Rightarrow> (Inl (io_failure k ''preparing to overwrite the target failed''), os)
         | Inr _ \<Rightarrow>
             (let (renamed, os) = (if overwrite then os_rename source dest os else rename_without_replacement source dest os)
              in case renamed of
                   Inl k \<Rightarrow> (Inl (failure k), (case backup of None \<Rightarrow> os | Some b \<Rightarrow> snd (os_rename b dest os)))
                 | Inr _ \<Rightarrow> (Inr (), (case backup of None \<Rightarrow> os | Some b \<Rightarrow> snd (remove_file b os)))))"

text \<open>\<open>move_path\<close>; \<open>fresh\<close> is the new UUID in the name of the backup.\<close>

definition backup_name :: "string \<Rightarrow> string" where
  "backup_name fresh = ''.om-replace-'' @ fresh @ ''.bak''"

definition move_path :: "string \<Rightarrow> string \<Rightarrow> string \<Rightarrow> bool \<Rightarrow> string \<Rightarrow> os \<Rightarrow> (file_failure + fpath) \<times> os" where
  "move_path source_text parent_text name overwrite fresh os = (case absolute_path source_text of Inl e \<Rightarrow> (Inl e, os) | Inr source \<Rightarrow>
     if is_root_path source os then (Inl (invalid_path ''the root cannot be moved''), os)
     else case symlink_metadata source os of Inl k \<Rightarrow> (Inl (io_failure k ''reading the source failed''), os) | Inr node \<Rightarrow>
     case require_directory parent_text os of Inl e \<Rightarrow> (Inl e, os) | Inr parent \<Rightarrow>
     case validate_name name of Inl e \<Rightarrow> (Inl e, os) | Inr _ \<Rightarrow>
     let dest = parent @ [name]
     in if source = dest then (Inr dest, os)
     else case (if node = DirNode
         then (case os_resolve os source of None \<Rightarrow> Some (io_failure NotFoundKind ''reading the source failed'')
           | Some canonical_source \<Rightarrow> (case os_resolve os parent of None \<Rightarrow> Some (io_failure NotFoundKind ''reading the target failed'')
             | Some canonical_parent \<Rightarrow> if prefix canonical_source canonical_parent
                 then Some (invalid_path ''a directory cannot be moved into itself'') else None))
         else None) of
       Some e \<Rightarrow> (Inl e, os)
     | None \<Rightarrow>
         (case node_at os dest of
            None \<Rightarrow> (case replace_with_backup rename_failure source dest None overwrite os of (r, os) \<Rightarrow> (map_sum id (\<lambda>_. dest) r, os))
          | Some there \<Rightarrow>
              if \<not> overwrite then (Inl (AlreadyExists, ''the target exists''), os)
              else if node = DirNode \<or> there = DirNode then (Inl (AlreadyExists, ''a directory cannot replace or be replaced''), os)
              else (case replace_with_backup rename_failure source dest (Some (parent @ [backup_name fresh])) overwrite os of
                  (r, os) \<Rightarrow> (map_sum id (\<lambda>_. dest) r, os))))"

definition commit_upload :: "fpath \<Rightarrow> fpath \<Rightarrow> bool \<Rightarrow> string \<Rightarrow> os \<Rightarrow> (file_failure + unit) \<times> os" where
  "commit_upload temporary target overwrite fresh os = (case node_at os target of
       None \<Rightarrow> replace_with_backup rename_failure temporary target None overwrite os
     | Some node \<Rightarrow>
         if node = DirNode then (Inl (IsDirectory, ''the target is a directory''), os)
         else if \<not> overwrite then (Inl (AlreadyExists, ''the target exists''), os)
         else replace_with_backup rename_failure temporary target (Some (butlast target @ [backup_name fresh])) overwrite os)"

definition create_directory :: "string \<Rightarrow> string \<Rightarrow> os \<Rightarrow> (file_failure + fpath) \<times> os" where
  "create_directory parent_text name os = (case require_directory parent_text os of Inl e \<Rightarrow> (Inl e, os) | Inr parent \<Rightarrow>
     case validate_name name of Inl e \<Rightarrow> (Inl e, os) | Inr _ \<Rightarrow>
     (case next_fault os of
        (Some k, os) \<Rightarrow> (Inl (io_failure k ''creating the directory failed''), os)
      | (None, os) \<Rightarrow> if node_at os (parent @ [name]) \<noteq> None
          then (Inl (io_failure AlreadyExistsKind ''creating the directory failed''), os)
          else (Inr (parent @ [name]), os\<lparr>os_files := (parent @ [name], DirNode) # os_files os\<rparr>)))"

definition delete_path :: "string \<Rightarrow> bool \<Rightarrow> os \<Rightarrow> (file_failure + unit) \<times> os" where
  "delete_path text recursive os = (case absolute_path text of Inl e \<Rightarrow> (Inl e, os) | Inr p \<Rightarrow>
     if is_root_path p os then (Inl (invalid_path ''the root cannot be deleted''), os)
     else case symlink_metadata p os of Inl k \<Rightarrow> (Inl (io_failure k ''reading the target failed''), os) | Inr node \<Rightarrow>
     if node = DirNode
     then (case next_fault os of
         (Some k, os) \<Rightarrow> (Inl (io_failure k ''deleting the directory failed''), os)
       | (None, os) \<Rightarrow> if \<not> recursive \<and> has_entries p (os_files os)
           then (Inl (io_failure DirectoryNotEmptyKind ''deleting the directory failed''), os)
           else (Inr (), os\<lparr>os_files := remove_tree p (os_files os)\<rparr>))
     else (case remove_file p os of (r, os) \<Rightarrow> (map_sum (\<lambda>k. io_failure k ''deleting the file failed'') id r, os)))"


subsection \<open>Lookups\<close>

lemma map_of_remove_tree [simp]: "map_of (remove_tree p fs) q = (if prefix p q then None else map_of fs q)"
  by (induction fs) (auto simp: remove_tree_def)

text \<open>Moving a file or a tree to a place outside it that holds no tree.\<close>

definition movable :: "fpath \<Rightarrow> fpath \<Rightarrow> files \<Rightarrow> bool" where
  "movable source dest fs \<longleftrightarrow> \<not> prefix source dest \<and> \<not> prefix dest source \<and> \<not> has_entries dest fs"

lemma map_of_move_tree:
  assumes "\<not> prefix source dest" "\<not> prefix dest source" "\<not> has_entries dest fs"
  shows "map_of (move_tree source dest fs) q = (if prefix dest q then map_of fs (source @ drop (length dest) q)
    else if prefix source q then None else map_of fs q)"
  using assms(3)
proof (induction fs)
  case Nil then show ?case by (simp add: move_tree_def)
next
  case (Cons e fs)
  obtain k n where e: "e = (k, n)" by fastforce
  have IH: "map_of (move_tree source dest fs) q = (if prefix dest q then map_of fs (source @ drop (length dest) q)
      else if prefix source q then None else map_of fs q)"
    using Cons by (simp add: has_entries_def)
  have below: "\<not> strict_prefix dest k" using Cons.prems by (simp add: has_entries_def e)
  consider (at) "k = dest" | (moved) r where "k = source @ r" | (other) "k \<noteq> dest" "\<not> prefix source k" by (auto simp: prefix_def)
  then show ?case
  proof cases
    case at
    then have "move_tree source dest (e # fs) = move_tree source dest fs" by (simp add: move_tree_def e)
    moreover have "source @ r \<noteq> dest" for r using assms(1) by (auto simp: prefix_def)
    ultimately show ?thesis using IH at e by auto
  next
    case moved
    then have "move_tree source dest (e # fs) = (dest @ r, n) # move_tree source dest fs"
      using assms(1) by (auto simp: move_tree_def e)
    then show ?thesis using IH moved e by (auto simp: prefix_def)
  next
    case other
    then have "move_tree source dest (e # fs) = (k, n) # move_tree source dest fs" by (simp add: move_tree_def e)
    moreover have "\<not> prefix dest k" using other(1) below by (simp add: strict_prefix_def)
    ultimately show ?thesis using IH other e by (auto simp: prefix_def)
  qed
qed

lemma next_fault_files [simp]: "os_files (snd (next_fault s)) = os_files s" "os_resolve (snd (next_fault s)) = os_resolve s"
  by (simp_all add: next_fault_def split: list.split)

text \<open>A rename does all or nothing.\<close>

lemma os_rename_result:
  "os_rename source dest s = (r, s') \<Longrightarrow> os_files s' = (case r of Inl _ \<Rightarrow> os_files s
     | Inr _ \<Rightarrow> if source = dest then os_files s else move_tree source dest (os_files s))"
  using next_fault_files [of s] by (auto simp: os_rename_def split: prod.splits option.splits if_splits simp del: next_fault_files)

lemma os_rename_ok:
  "os_rename source dest s = (Inr (), s') \<Longrightarrow> rename_check source dest (os_files s) = None"
  using next_fault_files [of s] by (auto simp: os_rename_def split: prod.splits option.splits if_splits simp del: next_fault_files)

lemma rename_without_replacement_result:
  "rename_without_replacement source dest s = (r, s') \<Longrightarrow> os_files s' = (case r of Inl _ \<Rightarrow> os_files s
     | Inr _ \<Rightarrow> if source = dest then os_files s else move_tree source dest (os_files s))"
  by (auto simp: rename_without_replacement_def split: if_splits dest: os_rename_result)

lemma remove_file_result:
  "remove_file p s = (r, s') \<Longrightarrow> os_files s' = (case r of Inl _ \<Rightarrow> os_files s | Inr _ \<Rightarrow> remove_tree p (os_files s))"
  using next_fault_files [of s] by (auto simp: remove_file_def split: prod.splits option.splits node.splits simp del: next_fault_files)


subsection \<open>Overwriting loses nothing\<close>

text \<open>Every node lies in directories.\<close>

definition well_formed :: "files \<Rightarrow> bool" where
  "well_formed fs \<longleftrightarrow> (\<forall>p q. map_of fs q \<noteq> None \<and> strict_prefix p q \<and> p \<noteq> [] \<longrightarrow> map_of fs p = Some DirNode)"

definition faults_left :: "os \<Rightarrow> nat" where
  "faults_left s = length (filter (\<lambda>f. f \<noteq> None) (os_faults s))"

lemma well_formedD:
  "well_formed fs \<Longrightarrow> map_of fs q = Some n \<Longrightarrow> strict_prefix p q \<Longrightarrow> p \<noteq> [] \<Longrightarrow> map_of fs p = Some DirNode"
  by (simp add: well_formed_def) blast

definition leaf :: "(fpath \<rightharpoonup> node) \<Rightarrow> fpath \<Rightarrow> bool" where
  "leaf m p \<longleftrightarrow> (\<forall>q. strict_prefix p q \<longrightarrow> m q = None)"

lemma has_entries_iff: "has_entries p fs \<longleftrightarrow> \<not> leaf (map_of fs) p"
  unfolding has_entries_def leaf_def list_ex_iff by (force simp: map_of_eq_None_iff)

lemma well_formed_leaf: "well_formed fs \<Longrightarrow> map_of fs p \<noteq> Some DirNode \<Longrightarrow> p \<noteq> [] \<Longrightarrow> leaf (map_of fs) p"
  unfolding leaf_def well_formed_def by blast

text \<open>A rename that has no reason of its own to fail.\<close>

lemma os_rename_faults:
  assumes "os_rename source dest s = (r, s')" "rename_check source dest (os_files s) = None"
  shows "case r of Inl _ \<Rightarrow> faults_left s = Suc (faults_left s') | Inr _ \<Rightarrow> faults_left s' = faults_left s"
  using assms by (cases "os_faults s") (auto simp: os_rename_def next_fault_def faults_left_def split: option.splits if_splits)

lemma move_file_lookup:
  assumes "map_of fs a = Some n" "leaf (map_of fs) a" "leaf (map_of fs) b" "\<not> prefix a b" "\<not> prefix b a"
  shows "map_of (move_tree a b fs) = (map_of fs)(b \<mapsto> n, a := None)"
proof
  fix q
  have "\<not> has_entries b fs" using assms(3) by (simp add: has_entries_iff)
  note look = map_of_move_tree [OF assms(4,5) this, of q]
  have none: "r \<noteq> [] \<Longrightarrow> map_of fs (a @ r) = None" "r \<noteq> [] \<Longrightarrow> map_of fs (b @ r) = None" for r
    using assms(2,3) by (auto simp: leaf_def strict_prefix_def)
  consider (b) r where "q = b @ r" | (a) r where "q = a @ r" | (other) "\<not> prefix b q" "\<not> prefix a q" by (auto simp: prefix_def)
  then show "map_of (move_tree a b fs) q = ((map_of fs)(b \<mapsto> n, a := None)) q"
  proof cases
    case b
    have "q \<noteq> a" using b assms(5) by auto
    then show ?thesis using look b assms(1) none by (cases "r = []") auto
  next
    case a
    then have "\<not> prefix b q" using assms(4,5) prefix_same_cases [of a q b] by auto
    moreover from this have "q \<noteq> b" by auto
    ultimately show ?thesis using look a none by (cases "r = []") auto
  next
    case other
    then show ?thesis using look by auto
  qed
qed

lemma renamed_lookup:
  assumes "os_rename a b s = (Inr (), s')" "node_at s a = Some n" "leaf (node_at s) a" "leaf (node_at s) b" "\<not> prefix a b" "\<not> prefix b a"
  shows "node_at s' = (node_at s)(b \<mapsto> n, a := None)"
  using os_rename_result [OF assms(1)] move_file_lookup [OF assms(2-6)] assms(5) by auto

text \<open>
  The places \<open>a\<close>, \<open>b\<close> and \<open>c\<close> are apart and hold no directory, and \<open>c\<close> is free: what \<open>replace_with_backup\<close> leaves.
\<close>

definition apart :: "fpath \<Rightarrow> fpath \<Rightarrow> bool" where
  "apart p q \<longleftrightarrow> \<not> prefix p q \<and> \<not> prefix q p"

lemma apart_neq: "apart p q \<Longrightarrow> p \<noteq> q"
  by (auto simp: apart_def)

lemma leaf_upd: "leaf m p \<Longrightarrow> apart p q \<Longrightarrow> leaf (m(q := x)) p"
  by (auto simp: leaf_def apart_def strict_prefix_def)

lemma leaf_self [simp]: "leaf (m(p := x)) p \<longleftrightarrow> leaf m p"
  by (auto simp: leaf_def)

lemma replace_with_backup_keeps:
  assumes run: "replace_with_backup failure a b (Some c) True s = (r, s')"
    and at: "node_at s a = Some m" "m \<noteq> DirNode" "node_at s b = Some n" "n \<noteq> DirNode" "node_at s c = None"
    and leafs: "leaf (node_at s) a" "leaf (node_at s) b" "leaf (node_at s) c"
    and apart: "apart a b" "apart a c" "apart b c"
  shows "case r of
       Inl _ \<Rightarrow> node_at s' = node_at s \<or> node_at s' = (node_at s)(b := None, c \<mapsto> n) \<and> 2 \<le> faults_left s
     | Inr _ \<Rightarrow> node_at s' = (node_at s)(a := None, b \<mapsto> m) \<or> node_at s' = (node_at s)(a := None, b \<mapsto> m, c \<mapsto> n)"
proof -
  have apart': "apart b a" "apart c a" "apart c b" using apart by (simp_all add: apart_def)
  note ne = apart [THEN apart_neq]
  obtain r1 s1 where 1: "os_rename b c s = (r1, s1)" by fastforce
  have chk1: "rename_check b c (os_files s) = None" using at by (simp add: rename_check_def split: node.split)
  show ?thesis
  proof (cases r1)
    case (Inl k)
    then have "r = Inl (io_failure k ''preparing to overwrite the target failed'') \<and> s' = s1" using run 1 by (simp add: replace_with_backup_def)
    then show ?thesis using os_rename_result [OF 1] Inl by simp
  next
    case (Inr u)
    then have ok1: "os_rename b c s = (Inr (), s1)" using 1 by simp
    have fs1: "node_at s1 = (node_at s)(c \<mapsto> n, b := None)"
      by (rule renamed_lookup [OF ok1 at(3) leafs(2,3)]) (use apart in \<open>simp_all add: apart_def\<close>)
    have f1: "faults_left s1 = faults_left s" using os_rename_faults [OF 1 chk1] Inr by simp
    have leafs1: "leaf (node_at s1) a" "leaf (node_at s1) b" "leaf (node_at s1) c"
      unfolding fs1 using leafs apart apart' by (metis leaf_upd leaf_self)+
    obtain r2 s2 where 2: "os_rename a b s1 = (r2, s2)" by fastforce
    have chk2: "rename_check a b (os_files s1) = None" using at ne by (simp add: rename_check_def fs1)
    show ?thesis
    proof (cases r2)
      case (Inl k)
      then have res: "r = Inl (failure k)" "s' = snd (os_rename c b s2)" using run 1 2 \<open>r1 = Inr u\<close>
        by (simp_all add: replace_with_backup_def)
      have f2: "faults_left s1 = Suc (faults_left s2)" using os_rename_faults [OF 2 chk2] Inl by simp
      have fs2: "os_files s2 = os_files s1" using os_rename_result [OF 2] Inl by simp
      obtain r3 s3 where 3: "os_rename c b s2 = (r3, s3)" by fastforce
      have chk3: "rename_check c b (os_files s2) = None" using at ne by (simp add: rename_check_def fs2 fs1 split: node.split)
      show ?thesis
      proof (cases r3)
        case (Inl k')
        have "faults_left s2 = Suc (faults_left s3)" using os_rename_faults [OF 3 chk3] Inl by simp
        then have "2 \<le> faults_left s" using f1 f2 by simp
        moreover have "node_at s3 = (node_at s)(b := None, c \<mapsto> n)"
          using os_rename_result [OF 3] Inl fs2 fs1 ne by (simp add: fun_upd_twist)
        ultimately show ?thesis using res 3 by simp
      next
        case (Inr u')
        have "node_at s3 = (node_at s2)(b \<mapsto> n, c := None)"
          using renamed_lookup [of c b s2 s3 n] 3 Inr leafs1 apart ne fs1 fs2 by (simp add: apart_def)
        then have "node_at s3 = node_at s" using fs1 fs2 at(3,5) ne by (auto simp: fun_eq_iff)
        then show ?thesis using res 3 by simp
      qed
    next
      case (Inr u')
      have fs2: "node_at s2 = (node_at s1)(b \<mapsto> m, a := None)"
        using renamed_lookup [of a b s1 s2 m] 2 Inr leafs1 apart ne fs1 at(1) by (simp add: apart_def)
      obtain r3 s3 where 3: "remove_file c s2 = (r3, s3)" by fastforce
      have res: "r = Inr ()" "s' = s3" using run 1 2 3 \<open>r1 = Inr u\<close> Inr by (simp_all add: replace_with_backup_def)
      have whole: "node_at s2 = (node_at s)(a := None, b \<mapsto> m, c \<mapsto> n)" using fs2 fs1 ne by (auto simp: fun_eq_iff)
      show ?thesis
      proof (cases r3)
        case (Inl k)
        then show ?thesis using remove_file_result [OF 3] whole res by simp
      next
        case (Inr u'')
        have "map_of (remove_tree c (os_files s2)) q = ((node_at s)(a := None, b \<mapsto> m)) q" for q
          using leafs(3) at(5) apart whole by (auto simp: leaf_def strict_prefix_def apart_def)
        then show ?thesis using remove_file_result [OF 3] Inr res by (auto simp: fun_eq_iff)
      qed
    qed
  qed
qed


text \<open>The three places of a replacement in a directory.\<close>

lemma places_apart:
  assumes wf: "well_formed (os_files s)" and "node_at s a = Some m" "m \<noteq> DirNode" "a \<noteq> []" "a \<noteq> parent @ [x]"
    "node_at s (parent @ [x]) = Some n" "n \<noteq> DirNode" "node_at s (parent @ [y]) = None"
  shows "apart a (parent @ [x])" "apart a (parent @ [y])" "apart (parent @ [x]) (parent @ [y])"
proof -
  have up: "\<not> strict_prefix a q" if "node_at s q = Some k" for q k
    using well_formedD [OF wf that, of a] assms(2-4) by auto
  show "apart a (parent @ [x])"
  proof -
    have "\<not> strict_prefix (parent @ [x]) a" using well_formedD [OF wf assms(2), of "parent @ [x]"] assms(6,7) by auto
    then show ?thesis using up [OF assms(6)] assms(5) by (auto simp: apart_def strict_prefix_def)
  qed
  show "apart a (parent @ [y])"
  proof -
    have "\<not> prefix (parent @ [y]) a"
    proof
      assume "prefix (parent @ [y]) a"
      then have "parent @ [y] = a \<or> strict_prefix (parent @ [y]) a" by (auto simp: strict_prefix_def)
      then show False using well_formedD [OF wf assms(2), of "parent @ [y]"] assms(2,8) by auto
    qed
    moreover have "\<not> prefix a (parent @ [y])"
    proof
      assume "prefix a (parent @ [y])"
      then have "prefix a parent" using assms(2,8) by (auto simp: prefix_snoc)
      then have "strict_prefix a (parent @ [x])" by (auto simp: strict_prefix_def prefix_def)
      then show False using up [OF assms(6)] by blast
    qed
    ultimately show ?thesis by (simp add: apart_def)
  qed
  have "x \<noteq> y" using assms(6,8) by auto
  then show "apart (parent @ [x]) (parent @ [y])" by (simp add: apart_def)
qed

text \<open>
  C39: Overwriting a file loses neither file, whatever calls of the file system fail.  When the file manager
  moves a file over another one, or commits an upload over it, and reports an error, the source is where it was and the
  old target is where it was or, when two calls have failed, under the name of the backup; when it
  reports success, the source is at the target.  No other path is touched.
\<close>

theorem overwriting_loses_nothing:
  assumes "well_formed (os_files s)" "absolute_path source_text = Inr a" "absolute_path parent_text = Inr parent"
    and "node_at s a = Some m" "m \<noteq> DirNode" "a \<noteq> []" "a \<noteq> parent @ [name]"
    and "node_at s (parent @ [name]) = Some n" "n \<noteq> DirNode" "node_at s (parent @ [backup_name fresh]) = None"
    and "move_path source_text parent_text name True fresh s = (map_sum id (\<lambda>_. parent @ [name]) r, s')
      \<or> commit_upload a (parent @ [name]) True fresh s = (r, s')"
  shows "(case r of
       Inl _ \<Rightarrow> node_at s' = node_at s
         \<or> node_at s' = (node_at s)(parent @ [name] := None, parent @ [backup_name fresh] \<mapsto> n) \<and> 2 \<le> faults_left s
     | Inr _ \<Rightarrow> node_at s' = (node_at s)(a := None, parent @ [name] \<mapsto> m)
         \<or> node_at s' = (node_at s)(a := None, parent @ [name] \<mapsto> m, parent @ [backup_name fresh] \<mapsto> n))"
proof -
  let ?b = "parent @ [name]" and ?c = "parent @ [backup_name fresh]"
  note places = places_apart [OF assms(1,4,5,6,7,8,9,10)]
  have leafs: "leaf (node_at s) a" "leaf (node_at s) ?b" "leaf (node_at s) ?c"
    using assms by (auto intro!: well_formed_leaf)
  have keeps: ?thesis if "replace_with_backup rename_failure a ?b (Some ?c) True s = (r, s')"
    using replace_with_backup_keeps [OF that assms(4,5,8,9,10) leafs places] .
  have same: ?thesis if "isl r" "s' = s" using that by (cases r) auto
  from assms(11) show ?thesis
  proof
    assume "commit_upload a ?b True fresh s = (r, s')"
    then show ?thesis using keeps assms(8,9) by (simp add: commit_upload_def)
  next
    assume mv: "move_path source_text parent_text name True fresh s = (map_sum id (\<lambda>_. ?b) r, s')"
    have "(isl r \<and> s' = s) \<or> replace_with_backup rename_failure a ?b (Some ?c) True s = (r, s')"
    proof (cases "is_root_path a s \<or> isl (require_directory parent_text s) \<or> isl (validate_name name)")
      case True
      then show ?thesis using mv assms(2-9)
        by (cases r) (auto simp: move_path_def symlink_metadata_def split: if_splits sum.splits)
    next
      case False
      then obtain p where "require_directory parent_text s = Inr p" by (cases "require_directory parent_text s") auto
      moreover from this have "p = parent" using assms(3)
        by (auto simp: require_directory_def try_bind_Inr_iff split: sum.splits if_splits)
      moreover have "validate_name name = Inr ()" using False by (cases "validate_name name") auto
      moreover obtain r0 s0 where rep: "replace_with_backup rename_failure a ?b (Some ?c) True s = (r0, s0)" by fastforce
      ultimately have "map_sum id (\<lambda>_. ?b) r = map_sum id (\<lambda>_. ?b) r0" "s' = s0" using mv False assms(2-9)
        by (auto simp: move_path_def symlink_metadata_def Let_def)
      moreover from this(1) have "r = r0" by (cases r; cases r0) simp_all
      ultimately show ?thesis using rep by simp
    qed
    then show ?thesis using same keeps by blast
  qed
qed


text \<open>A file system with two files, in which the second rename of the move fails.\<close>

definition demo_os :: os where
  "demo_os = \<lparr>os_files = [([''d''], DirNode), ([''d'', ''a''], FileNode [1]), ([''d'', ''b''], FileNode [2])],
     os_faults = [None, Some OtherError], os_resolve = Some\<rparr>"

lemma demo_os_well_formed: "well_formed (os_files demo_os)"
  by (auto simp: well_formed_def demo_os_def strict_prefix_def prefix_Cons split: if_splits)

lemma demo_move_fails: "fst (move_path ''/d/./a'' ''/d'' ''b'' True ''u'' demo_os) = Inl (Io, ''move or rename failed'')"
  by code_simp

theorem overwriting_loses_nothing_witness:
  "\<exists>s'. move_path ''/d/./a'' ''/d'' ''b'' True ''u'' demo_os = (Inl (Io, ''move or rename failed''), s')
    \<and> node_at s' = node_at demo_os"
proof -
  obtain s' where m: "move_path ''/d/./a'' ''/d'' ''b'' True ''u'' demo_os = (Inl (Io, ''move or rename failed''), s')"
    using demo_move_fails by (cases "move_path ''/d/./a'' ''/d'' ''b'' True ''u'' demo_os") auto
  have src: "absolute_path ''/d/./a'' = Inr [''d'', ''a'']" by code_simp
  have par: "absolute_path ''/d'' = Inr [''d'']" by code_simp
  have nodes: "node_at demo_os [''d'', ''a''] = Some (FileNode [1])" "node_at demo_os ([''d''] @ [''b'']) = Some (FileNode [2])"
      "node_at demo_os ([''d''] @ [backup_name ''u'']) = None" by (simp_all add: demo_os_def backup_name_def)
  have "node_at s' = node_at demo_os \<or> 2 \<le> faults_left demo_os"
    using overwriting_loses_nothing [OF demo_os_well_formed src par nodes(1) _ _ _ nodes(2) _ nodes(3),
        of "Inl (Io, ''move or rename failed'')" s'] m by auto
  moreover have "faults_left demo_os = 1" by (simp add: faults_left_def demo_os_def)
  ultimately show ?thesis using m by auto
qed

subsection \<open>A cancelled commit\<close>

text \<open>
  \<open>commit_upload\<close> waits for each of its renames, and the task may be aborted there (\<open>FileManager::cancel\<close>): the state
  after the first one, when the temporary file has been removed by \<open>UploadCleanup\<close>.
\<close>

definition abort_commit :: "fpath \<Rightarrow> fpath \<Rightarrow> string \<Rightarrow> os \<Rightarrow> os" where
  "abort_commit temporary target fresh s =
     snd (remove_file temporary (snd (os_rename target (butlast target @ [backup_name fresh]) s)))"

lemma cancelled_commit_loses_the_target:
  assumes "well_formed (os_files s)" "node_at s a = Some m" "m \<noteq> DirNode" "a \<noteq> []" "a \<noteq> parent @ [name]"
    and "node_at s (parent @ [name]) = Some n" "n \<noteq> DirNode" "node_at s (parent @ [backup_name fresh]) = None" "os_faults s = []"
  shows "node_at (abort_commit a (parent @ [name]) fresh s) (parent @ [name]) = None
    \<and> node_at (abort_commit a (parent @ [name]) fresh s) a = None
    \<and> node_at (abort_commit a (parent @ [name]) fresh s) (parent @ [backup_name fresh]) = Some n"
proof -
  let ?b = "parent @ [name]" and ?c = "parent @ [backup_name fresh]"
  note places = places_apart [OF assms(1-8)]
  have leafs: "leaf (node_at s) ?b" "leaf (node_at s) ?c" using assms by (auto intro!: well_formed_leaf)
  obtain r1 s1 where 1: "os_rename ?b ?c s = (r1, s1)" by fastforce
  have chk: "rename_check ?b ?c (os_files s) = None" using assms(6-8) by (simp add: rename_check_def split: node.split)
  then have ok: "os_rename ?b ?c s = (Inr (), s1)" and rest: "os_faults s1 = []"
    using 1 assms(9) by (auto simp: os_rename_def next_fault_def split: if_splits)
  have fs1: "node_at s1 = (node_at s)(?c \<mapsto> n, ?b := None)"
    by (rule renamed_lookup [OF ok assms(6) leafs]) (use places in \<open>simp_all add: apart_def\<close>)
  then have "node_at s1 a = Some m" using assms(2) places [THEN apart_neq] by simp
  then have "os_files (snd (remove_file a s1)) = remove_tree a (os_files s1)"
    using rest assms(3) by (cases m) (simp_all add: remove_file_def next_fault_def)
  then show ?thesis using fs1 1 places by (simp add: abort_commit_def apart_def)
qed

end
