(* ===== verification/FileListing.thy ===== *)
theory FileListing
  imports FileOperations "HOL-Library.Multiset"
begin

text \<open>
  \<open>list_directory\<close> of the agent (\<open>instanceEnd/src/file_manager.rs\<close>): the entries of a directory, sorted, a
  page at a time.  What \<open>read_dir\<close> yields and what \<open>symlink_metadata\<close> tells of each entry are arguments, as is
  the lower-case conversion of Unicode.
\<close>

definition max_directory_entries :: nat where "max_directory_entries = 10000"

definition entry_sort_rank :: "file_entry_kind \<Rightarrow> nat" where
  "entry_sort_rank k = (case k of DirectoryKind \<Rightarrow> 0 | SymlinkKind \<Rightarrow> 1 | FileKind \<Rightarrow> 2 | OtherKind \<Rightarrow> 3)"

text \<open>The order of \<open>str\<close>: by bytes.\<close>

fun string_cmp :: "string \<Rightarrow> string \<Rightarrow> int" where
  "string_cmp [] [] = 0"
| "string_cmp [] (y # ys) = -1"
| "string_cmp (x # xs) [] = 1"
| "string_cmp (x # xs) (y # ys) = (if (of_char x :: nat) < of_char y then -1 else if (of_char y :: nat) < of_char x then 1 else string_cmp xs ys)"

definition nat_cmp :: "nat \<Rightarrow> nat \<Rightarrow> int" where
  "nat_cmp a b = (if a < b then -1 else if b < a then 1 else 0)"

text \<open>\<open>Ordering::then_with\<close>.\<close>

definition then_with :: "int \<Rightarrow> int \<Rightarrow> int" where
  "then_with a b = (if a = 0 then b else a)"

definition entry_cmp :: "(string \<Rightarrow> string) \<Rightarrow> file_entry \<Rightarrow> file_entry \<Rightarrow> int" where
  "entry_cmp lower l r = then_with (nat_cmp (entry_sort_rank (fe_kind l)) (entry_sort_rank (fe_kind r)))
     (then_with (string_cmp (lower (fe_name l)) (lower (fe_name r))) (string_cmp (fe_name l) (fe_name r)))"

text \<open>\<open>sort_by\<close>, a stable sort.\<close>

fun insert_by :: "('a \<Rightarrow> 'a \<Rightarrow> int) \<Rightarrow> 'a \<Rightarrow> 'a list \<Rightarrow> 'a list" where
  "insert_by cmp x [] = [x]"
| "insert_by cmp x (y # ys) = (if cmp x y \<le> 0 then x # y # ys else y # insert_by cmp x ys)"

definition sort_by :: "('a \<Rightarrow> 'a \<Rightarrow> int) \<Rightarrow> 'a list \<Rightarrow> 'a list" where
  "sort_by cmp xs = foldr (insert_by cmp) xs []"

text \<open>
  The loop over the directory: an item that cannot be read, the one after the limit, or one without metadata ends it.
\<close>

fun read_entries :: "nat \<Rightarrow> nat \<Rightarrow> (io_kind + (file_failure + file_entry)) list \<Rightarrow> file_failure + file_entry list" where
  "read_entries max_entries n [] = Inr []"
| "read_entries max_entries n (e # es) = (case e of
       Inl k \<Rightarrow> Inl (io_failure k ''reading the directory entry failed'')
     | Inr entry \<Rightarrow> if n \<ge> max_entries then Inl (TooLarge, ''too many entries'')
         else try_bind entry (\<lambda>entry. try_bind (read_entries max_entries (n + 1) es) (\<lambda>rest. Inr (entry # rest))))"

definition page_of :: "(string \<Rightarrow> string) \<Rightarrow> string \<Rightarrow> string option \<Rightarrow> file_entry list \<Rightarrow> nat \<Rightarrow> nat \<Rightarrow> file_listing" where
  "page_of lower path parent entries offset limit =
     (let entries = sort_by (entry_cmp lower) entries; total = length entries; offset = min offset total;
          limit = max 1 (min limit 500); end_at = min (offset + limit) total
      in \<lparr>fl_path = path, fl_parent = parent, fl_entries = take (end_at - offset) (drop offset entries),
          fl_offset = offset, fl_limit = limit, fl_total = total\<rparr>)"

definition parent_text :: "fpath \<Rightarrow> os \<Rightarrow> string option" where
  "parent_text p os = (if is_root_path p os then None
     else Some (CHR ''/'' # concat (map (\<lambda>(i, part). if i = 0 then part else CHR ''/'' # part) (enumerate 0 (butlast p)))))"

definition list_directory :: "(string \<Rightarrow> string) \<Rightarrow> (fpath \<Rightarrow> io_kind + (io_kind + (file_failure + file_entry)) list) \<Rightarrow> string \<Rightarrow> nat \<Rightarrow> nat \<Rightarrow> os
    \<Rightarrow> file_failure + file_listing" where
  "list_directory lower read_dir path offset limit os = try_bind (require_directory path os) (\<lambda>p.
     case read_dir p of Inl k \<Rightarrow> Inl (io_failure k ''reading the directory failed'')
     | Inr es \<Rightarrow> try_bind (read_entries max_directory_entries 0 es) (\<lambda>entries.
         Inr (page_of lower path (parent_text p os) entries offset limit)))"

subsection \<open>Sorting\<close>

lemma mset_insert_by [simp]: "mset (insert_by cmp x ys) = add_mset x (mset ys)"
  by (induction ys) auto

lemma mset_sort_by [simp]: "mset (sort_by cmp xs) = mset xs"
  by (induction xs) (simp_all add: sort_by_def)

lemma length_sort_by [simp]: "length (sort_by cmp xs) = length xs"
  using mset_sort_by [of cmp xs] by (metis size_mset)

definition total_cmp :: "('a \<Rightarrow> 'a \<Rightarrow> int) \<Rightarrow> bool" where
  "total_cmp cmp \<longleftrightarrow> (\<forall>x y. cmp x y \<le> 0 \<or> cmp y x \<le> 0) \<and> (\<forall>x y z. cmp x y \<le> 0 \<longrightarrow> cmp y z \<le> 0 \<longrightarrow> cmp x z \<le> 0)"

lemma sorted_insert_by:
  assumes "total_cmp cmp" "sorted_wrt (\<lambda>a b. cmp a b \<le> 0) ys"
  shows "sorted_wrt (\<lambda>a b. cmp a b \<le> 0) (insert_by cmp x ys)"
  using assms(2)
proof (induction ys)
  case (Cons y ys)
  have elems: "set (insert_by cmp x ys) = insert x (set ys)" using mset_insert_by [of cmp x ys] by (metis set_mset_add_mset_insert set_mset_mset)
  have "cmp x y \<le> 0 \<or> cmp y x \<le> 0" "\<And>z. cmp x y \<le> 0 \<Longrightarrow> cmp y z \<le> 0 \<Longrightarrow> cmp x z \<le> 0"
    using assms(1) by (auto simp: total_cmp_def)
  then show ?case using Cons elems by auto
qed simp

lemma sorted_sort_by: "total_cmp cmp \<Longrightarrow> sorted_wrt (\<lambda>a b. cmp a b \<le> 0) (sort_by cmp xs)"
proof (induction xs)
  case (Cons x xs)
  then show ?case using sorted_insert_by [of cmp "sort_by cmp xs" x] by (simp add: sort_by_def)
qed (simp add: sort_by_def)

lemma string_cmp_cases: "string_cmp x y \<in> {-1, 0, 1}" "string_cmp y x = - string_cmp x y"
  by (induction x y rule: string_cmp.induct) auto

lemma string_cmp_trans:
  "string_cmp x y \<le> 0 \<Longrightarrow> string_cmp y z \<le> 0 \<Longrightarrow>
    string_cmp x z \<le> 0 \<and> (string_cmp x z = 0 \<longleftrightarrow> string_cmp x y = 0 \<and> string_cmp y z = 0)"
proof (induction x arbitrary: y z)
  case Nil
  then show ?case by (cases y; cases z) simp_all
next
  case (Cons a x)
  obtain b y' where y: "y = b # y'" using Cons.prems(1) by (cases y) simp_all
  obtain c z' where z: "z = c # z'" using Cons.prems(2) y by (cases z) simp_all
  define i j k :: nat where "i = of_char a" and "j = of_char b" and "k = of_char c"
  have le: "i \<le> j" "j \<le> k" using Cons.prems y z by (auto simp: i_def j_def k_def split: if_splits)
  show ?case
  proof (cases "i = j \<and> j = k")
    case True
    then show ?thesis using Cons.IH [of y' z'] Cons.prems unfolding y z by (simp add: i_def j_def k_def)
  next
    case False
    then have "i < k" "i < j \<or> j < k" using le by auto
    then show ?thesis unfolding y z string_cmp.simps i_def [symmetric] j_def [symmetric] k_def [symmetric] by simp
  qed
qed

definition chained :: "int \<Rightarrow> int \<Rightarrow> int \<Rightarrow> bool" where
  "chained a b c \<longleftrightarrow> (a \<le> 0 \<and> b \<le> 0 \<longrightarrow> c \<le> 0 \<and> (c = 0 \<longleftrightarrow> a = 0 \<and> b = 0))"

lemma chained_then_with: "chained a b c \<Longrightarrow> chained a' b' c' \<Longrightarrow> chained (then_with a a') (then_with b b') (then_with c c')"
  unfolding chained_def then_with_def by (cases "a = 0"; cases "b = 0") auto

lemma chained_nat: "chained (nat_cmp a b) (nat_cmp b c) (nat_cmp a c)"
  by (auto simp: chained_def nat_cmp_def)

lemma chained_string: "chained (string_cmp a b) (string_cmp b c) (string_cmp a c)"
  using string_cmp_trans by (auto simp: chained_def)

lemma entry_cmp_total: "total_cmp (entry_cmp lower)"
proof -
  have "entry_cmp lower y x = - entry_cmp lower x y" for x y
    using string_cmp_cases(2) [of "lower (fe_name x)" "lower (fe_name y)"] string_cmp_cases(2) [of "fe_name x" "fe_name y"]
    by (auto simp: entry_cmp_def then_with_def nat_cmp_def)
  then have "entry_cmp lower x y \<le> 0 \<or> entry_cmp lower y x \<le> 0" for x y by (metis le_cases neg_le_0_iff_le)
  moreover have "chained (entry_cmp lower x y) (entry_cmp lower y z) (entry_cmp lower x z)" for x y z
    unfolding entry_cmp_def by (intro chained_then_with chained_nat chained_string)
  ultimately show ?thesis unfolding total_cmp_def chained_def by blast
qed

subsection \<open>Paging\<close>

definition page_entries :: "(string \<Rightarrow> string) \<Rightarrow> file_entry list \<Rightarrow> nat \<Rightarrow> nat \<Rightarrow> file_entry list" where
  "page_entries lower entries limit k = fl_entries (page_of lower [] None entries (k * limit) limit)"

lemma page_entries_slice:
  assumes "1 \<le> limit" "limit \<le> 500"
  shows "page_entries lower entries limit k = take limit (drop (k * limit) (sort_by (entry_cmp lower) entries))"
  using assms by (auto simp: page_entries_def page_of_def Let_def min_def)

lemma pages_prefix:
  assumes "1 \<le> limit" "limit \<le> 500"
  shows "concat (map (page_entries lower entries limit) [0 ..< n]) = take (n * limit) (sort_by (entry_cmp lower) entries)"
proof (induction n)
  case (Suc n)
  then show ?case using page_entries_slice [OF assms] by (simp add: take_add add.commute [of limit])
qed simp

text \<open>
  C40: The pages of a directory are its entries, each once, in order.  The entries of the first n pages, for any
  limit that the server passes on, are the first entries of one sorted arrangement of what \<open>read_dir\<close> found; with
  enough pages that is all of them; and directories come before links, links before files.
\<close>

theorem directory_pages_are_complete:
  assumes "1 \<le> limit" "limit \<le> 500"
  shows "concat (map (\<lambda>k. fl_entries (page_of lower path parent entries (k * limit) limit)) [0 ..< n])
      = take (n * limit) (sort_by (entry_cmp lower) entries)
    \<and> mset (sort_by (entry_cmp lower) entries) = mset entries
    \<and> sorted_wrt (\<lambda>a b. entry_sort_rank (fe_kind a) \<le> entry_sort_rank (fe_kind b)) (sort_by (entry_cmp lower) entries)"
proof (intro conjI)
  have "fl_entries (page_of lower path parent entries (k * limit) limit) = page_entries lower entries limit k" for k
    by (simp add: page_entries_def page_of_def Let_def)
  then show "concat (map (\<lambda>k. fl_entries (page_of lower path parent entries (k * limit) limit)) [0 ..< n])
      = take (n * limit) (sort_by (entry_cmp lower) entries)"
    using pages_prefix [OF assms, of lower entries n] by simp
  show "sorted_wrt (\<lambda>a b. entry_sort_rank (fe_kind a) \<le> entry_sort_rank (fe_kind b)) (sort_by (entry_cmp lower) entries)"
    by (rule sorted_wrt_mono_rel [OF _ sorted_sort_by [OF entry_cmp_total]])
      (auto simp: entry_cmp_def then_with_def nat_cmp_def split: if_splits)
qed simp

definition demo_entry :: "string \<Rightarrow> file_entry_kind \<Rightarrow> file_entry" where
  "demo_entry name kind = \<lparr>fe_name = name, fe_path = ''/'' @ name, fe_kind = kind, fe_size_bytes = 0, fe_modified_at = None,
     fe_readonly = False\<rparr>"

theorem directory_pages_are_complete_witness:
  "concat (map (\<lambda>k. fl_entries (page_of id ''/'' None
      [demo_entry ''b'' FileKind, demo_entry ''a'' FileKind, demo_entry ''c'' DirectoryKind] (k * 2) 2)) [0 ..< 2])
    = [demo_entry ''c'' DirectoryKind, demo_entry ''a'' FileKind, demo_entry ''b'' FileKind]"
proof -
  let ?es = "[demo_entry ''b'' FileKind, demo_entry ''a'' FileKind, demo_entry ''c'' DirectoryKind]"
  have "sort_by (entry_cmp id) ?es = [demo_entry ''c'' DirectoryKind, demo_entry ''a'' FileKind, demo_entry ''b'' FileKind]"
    by (simp add: sort_by_def entry_cmp_def then_with_def nat_cmp_def entry_sort_rank_def demo_entry_def)
  then show ?thesis using directory_pages_are_complete [of 2 id "''/''" None ?es 2] by simp
qed

end
