(* ===== verification/Spec2Isabelle.thy ===== *)
theory Spec2Isabelle
  imports Activity RequestSecurity AdminSafety AlertQueue UpdateProperties AgentReports CommandProperties UploadProperties FileDownload FileRequests FileListing
begin

text \<open>
  \<^bold>\<open>Operation monitoring: a verification development\<close>

  The program is a server (\<open>backend/\<close>, Rust) that watches and administers a fleet of nodes, the agent
  that runs on each node (\<open>instanceEnd/\<close>, Rust), and a browser front-end (\<open>front-end/\<close>, Vue).  Agents
  register over HTTP and keep one WebSocket open, over which they send metrics and status reports and
  receive commands, terminals, file requests and update offers.  Administrators sign in with
  one-time codes.  The server evaluates alert rules on what the agents report, queues notifications
  and rolls agent releases out to the fleet.

  \<^bold>\<open>Theories and the code they model\<close>

  \<^item> \<open>Prelude\<close>: byte strings as the code handles them (ASCII classes, \<open>trim\<close>, \<open>split\<close>, decimal
    printing), hash maps as association lists, \<open>backend/src/error.rs\<close>, fallible functions
    (\<open>'a result\<close>) and handlers (state passing with a result), and the interfaces
    \<open>invariant_machine\<close> (a step function that keeps an invariant) and \<open>ranked_transitions\<close>.
  \<^item> \<open>Tables\<close>: an SQL table as a list of rows, with update, delete, transactions and \<open>max\<close> by key.
  \<^item> \<open>Totp\<close>, \<open>AuthState\<close>, \<open>AdminAuth\<close>, \<open>AdminAccounts\<close>: one-time codes, cookies, sessions, guards,
    login, step-up, bootstrap, enrolment and user management (\<open>auth.rs\<close>, \<open>admin_auth.rs\<close>, \<open>state.rs\<close>).
    \<open>AdminSafety\<close> proves what they guarantee along every run of requests.
  \<^item> \<open>AuthAttempts\<close>: the failure limiter of \<open>admin_auth.rs\<close>.  \<open>RequestSecurity\<close>: scheme, origin and
    client address behind proxies (\<open>request_security.rs\<close>).
  \<^item> \<open>Float64\<close>: the finite binary64 operations that alert thresholds use.
  \<^item> \<open>AlertState\<close>, \<open>AlertEvaluation\<close>, \<open>AlertRules\<close>, \<open>AlertDelivery\<close>: the tables of \<open>alerts.rs\<close>, the
    evaluation of observations, rules and maintenance windows, and the delivery queue.
    \<open>AlertSafety\<close> has the invariants of every operation; \<open>AlertMonitor\<close> the abstract monitor of one
    rule on one node and the refinement; \<open>AlertProperties\<close>, \<open>AlertNotify\<close>, \<open>AlertQueue\<close> the results.
  \<^item> \<open>UpdateSignature\<close>: the signed texts of update offers, on the server (\<open>update_signature.rs\<close>) and in
    the agent (\<open>instanceEnd/src/update.rs\<close>).  \<open>OfferSigning\<close>: what an agent that accepts knows.
  \<^item> \<open>UpdateState\<close>, \<open>UpdateAttempts\<close>, \<open>UpdateOffers\<close>, \<open>UpdateRollout\<close>, \<open>UpdateMachine\<close>: releases,
    artifacts, rollouts and update attempts (\<open>updates.rs\<close>, with the fleet's part of \<open>handlers/mod.rs\<close> and
    \<open>ws.rs\<close>).  \<open>UpdateSafety\<close> and \<open>UpdateSteps\<close> show that every handler keeps the invariants;
    \<open>UpdateProperties\<close> has the results.
  \<^item> \<open>Activity\<close>: the agent's drain tracker (\<open>instanceEnd/src/activity.rs\<close>) with its interleavings.

  \<^bold>\<open>How state and effects are modelled\<close>

  A table of the database is a list of rows in insertion order, and each SQL statement is written out on
  it, with the unique indexes it meets and the foreign keys it follows.  A handler maps the state to a
  result and the state; an error inside a transaction restores the state of its beginning, one outside
  keeps what was written.  A handler runs without interleaving with others; concurrency is the order of
  handlers in a run, except for \<open>Activity\<close> (every atomic step of every task) and the delivery
  queue (a delivery is claimed, started and finished in separate steps, between which other workers
  and time may act).  Clocks, fresh identifiers, random bytes, hashes, HMAC, AES, Ed25519, Base64, SemVer,
  address parsing and the outcome of a network call are parameters.  Error messages are short texts in
  place of the code's Chinese ones; statuses and codes are the code's.

  Integers that the code keeps in \<open>i64\<close> or \<open>usize\<close> are unbounded here, except where the code relies on
  the width: saturating subtraction of times is \<open>sat_sub\<close>, the TOTP arithmetic uses words.

  \<^bold>\<open>What the lemmas show\<close>

  For each stateful component: an invariant, preserved by every operation, and an interpretation of
  \<open>invariant_machine\<close> on the component's step function, so that it holds along every run.  On top of
  these: who can sign in and stays locked out, codes that work once, alerts that refine an abstract
  monitor, deliveries that are exclusive, ordered and bounded, one active attempt for each node, one
  controlled rollout, exclusions that last, offers that fit and are authentic.

  \<^bold>\<open>Not modelled\<close>

  Streaming of files and packages, HTTP and SMTP senders, SQL read models (lists and detail pages), the
  relays of terminals, remote desktops, files and Docker (\<open>ws.rs\<close>, \<open>remote_desktop.rs\<close>, \<open>files.rs\<close>,
  \<open>docker.rs\<close>), the agent's own installer, update executor, metrics and capture code, audit logging
  beyond the fact that a row is written, and the front-end.  Lost database connections are not
  modelled: a statement either runs or the model has no such step.
\<close>

end
